(* ===== verification/Js_Strings.thy ===== *)
theory Js_Strings
  imports Main "HOL-Library.Sublist"
begin

text \<open>
  JavaScript strings and the string functions of the standard library that the
  program uses.

  A JavaScript string is a sequence of UTF-16 code units, and \<open>length\<close>, indexing
  and \<open>slice\<close> count code units. A string is therefore a list of code units, each a
  natural number (below \<open>2 ^ 16\<close> for a string that a program can build; no
  function here depends on that bound unless its lemma says so).
  \<open>js ''abc''\<close> is the string of an ASCII literal.

  \<^item> \<open>trim\<close> strips the white space and line terminators of the ECMAScript standard.
  \<^item> \<open>to_lower\<close> maps ASCII and Latin-1 letters, and the two characters outside
    Latin-1 whose lower case contains an ASCII letter (U+0130 and U+212A). Other
    characters are left alone: the program compares lower-cased text with ASCII text
    only, and the lower case of those characters has no ASCII part.
\<close>

section \<open>Strings as lists of code units\<close>

type_synonym jsstr = "nat list"

named_theorems str_eval \<open>definitions to unfold when a string function is evaluated\<close>

definition js :: "string \<Rightarrow> jsstr" where
  [str_eval]: "js s = map of_char s"

definition starts_with :: "jsstr \<Rightarrow> jsstr \<Rightarrow> bool" where
  [str_eval]: "starts_with s p \<longleftrightarrow> take (length p) s = p"

definition ends_with :: "jsstr \<Rightarrow> jsstr \<Rightarrow> bool" where
  [str_eval]: "ends_with s p \<longleftrightarrow> length p \<le> length s \<and> drop (length s - length p) s = p"

fun str_includes :: "jsstr \<Rightarrow> jsstr \<Rightarrow> bool" where
  "str_includes [] p = (p = [])"
| "str_includes (c # s) p = (starts_with (c # s) p \<or> str_includes s p)"

fun index_of :: "jsstr \<Rightarrow> jsstr \<Rightarrow> nat option" where
  "index_of [] p = (if p = [] then Some 0 else None)"
| "index_of (c # s) p =
     (if starts_with (c # s) p then Some 0 else map_option Suc (index_of s p))"

text \<open>\<open>s.lastIndexOf(c)\<close> for a single code unit.\<close>

fun last_index_of :: "jsstr \<Rightarrow> nat \<Rightarrow> nat option" where
  "last_index_of [] c = None"
| "last_index_of (d # s) c =
     (case last_index_of s c of
        Some i \<Rightarrow> Some (Suc i)
      | None \<Rightarrow> if d = c then Some 0 else None)"

text \<open>\<open>s.slice(0, -n)\<close>.\<close>

definition drop_last :: "nat \<Rightarrow> jsstr \<Rightarrow> jsstr" where
  [str_eval]: "drop_last n s = take (length s - n) s"

text \<open>\<open>s.split(c)\<close> for a single code unit; \<open>''''.split(c)\<close> is the list of one empty string.\<close>

fun split_on :: "nat \<Rightarrow> jsstr \<Rightarrow> jsstr list" where
  "split_on c [] = [[]]"
| "split_on c (d # s) =
     (if d = c then [] # split_on c s
      else (case split_on c s of [] \<Rightarrow> [[d]] | w # ws \<Rightarrow> (d # w) # ws))"

fun join_with :: "jsstr \<Rightarrow> jsstr list \<Rightarrow> jsstr" where
  "join_with sep [] = []"
| "join_with sep [w] = w"
| "join_with sep (w # ws) = w @ sep @ join_with sep ws"

definition js_space :: "nat \<Rightarrow> bool" where
  [str_eval]: "js_space c \<longleftrightarrow>
     9 \<le> c \<and> c \<le> 13 \<or> c = 32 \<or> c = 160 \<or> c = 5760 \<or> 8192 \<le> c \<and> c \<le> 8202 \<or>
     c = 8232 \<or> c = 8233 \<or> c = 8239 \<or> c = 8287 \<or> c = 12288 \<or> c = 65279"

definition trim_start :: "jsstr \<Rightarrow> jsstr" where
  [str_eval]: "trim_start s = dropWhile js_space s"

definition trim :: "jsstr \<Rightarrow> jsstr" where
  [str_eval]: "trim s = rev (trim_start (rev (trim_start s)))"

definition lower_unit :: "nat \<Rightarrow> jsstr" where
  [str_eval]: "lower_unit c =
     (if 65 \<le> c \<and> c \<le> 90 then [c + 32]
      else if 192 \<le> c \<and> c \<le> 222 \<and> c \<noteq> 215 then [c + 32]
      else if c = 304 then [105, 775]
      else if c = 8490 then [107]
      else [c])"

definition to_lower :: "jsstr \<Rightarrow> jsstr" where
  [str_eval]: "to_lower s = concat (map lower_unit s)"

text \<open>\<open>toUpperCase\<close> on ASCII letters; the program compares its result with ASCII text that
  no other character maps onto.\<close>

definition upper_unit :: "nat \<Rightarrow> nat" where
  [str_eval]: "upper_unit c = (if 97 \<le> c \<and> c \<le> 122 then c - 32 else c)"

definition to_upper :: "jsstr \<Rightarrow> jsstr" where
  [str_eval]: "to_upper s = map upper_unit s"

text \<open>\<open>String(n)\<close> for a natural number, and \<open>padStart\<close>.\<close>

fun dec :: "nat \<Rightarrow> jsstr" where
  "dec n = (if n < 10 then [48 + n] else dec (n div 10) @ [48 + n mod 10])"

declare dec.simps [simp del]

definition pad_start :: "nat \<Rightarrow> nat \<Rightarrow> jsstr \<Rightarrow> jsstr" where
  [str_eval]: "pad_start n c s = replicate (n - length s) c @ s"

definition is_digit :: "nat \<Rightarrow> bool" where
  [str_eval]: "is_digit c \<longleftrightarrow> 48 \<le> c \<and> c \<le> 57"

definition is_lower :: "nat \<Rightarrow> bool" where
  [str_eval]: "is_lower c \<longleftrightarrow> 97 \<le> c \<and> c \<le> 122"

definition is_upper :: "nat \<Rightarrow> bool" where
  [str_eval]: "is_upper c \<longleftrightarrow> 65 \<le> c \<and> c \<le> 90"

definition lower_alnum :: "nat \<Rightarrow> bool" where
  [str_eval]: "lower_alnum c \<longleftrightarrow> is_lower c \<or> is_digit c"

definition is_hex_digit :: "nat \<Rightarrow> bool" where
  [str_eval]: "is_hex_digit c \<longleftrightarrow> is_digit c \<or> 65 \<le> c \<and> c \<le> 70 \<or> 97 \<le> c \<and> c \<le> 102"

section \<open>Facts about the string functions\<close>

lemma js_Nil [simp]: "js [] = []"
  by (simp add: js_def)

lemma js_append: "js (s @ t) = js s @ js t"
  by (simp add: js_def)

lemma js_eq_Nil_iff [simp]: "js s = [] \<longleftrightarrow> s = []"
  by (simp add: js_def)

lemma js_inject [simp]: "js s = js t \<longleftrightarrow> s = t"
proof -
  have "inj (of_char :: char \<Rightarrow> nat)"
    by (rule inj_of_char)
  then show ?thesis
    by (simp add: js_def)
qed

lemma length_js [simp]: "length (js s) = length s"
  by (simp add: js_def)

lemma starts_with_iff: "starts_with s p \<longleftrightarrow> (\<exists>t. s = p @ t)"
  by (metis append_eq_conv_conj append_take_drop_id starts_with_def)

lemma starts_with_append [simp]: "starts_with (p @ s) p"
  by (simp add: starts_with_def)

lemma starts_with_single [simp]: "starts_with s [c] \<longleftrightarrow> s \<noteq> [] \<and> hd s = c"
  by (cases s) (simp_all add: starts_with_def)

lemma starts_with_Nil [simp]: "starts_with s []"
  by (simp add: starts_with_def)

lemma ends_with_iff: "ends_with s p \<longleftrightarrow> (\<exists>t. s = t @ p)"
  by (auto simp: ends_with_def) (metis append_take_drop_id)

lemma ends_with_append [simp]: "ends_with (s @ p) p"
  by (auto simp: ends_with_iff)

lemma drop_last_append [simp]: "drop_last (length p) (s @ p) = s"
  by (simp add: drop_last_def)

lemma drop_last_of_suffix:
  assumes "ends_with s p"
  shows "drop_last (length p) s @ p = s"
  using assms by (auto simp: ends_with_iff)

lemma includes_single [simp]: "str_includes s [c] \<longleftrightarrow> c \<in> set s"
  by (induction s) auto

lemma last_index_of_None_iff: "last_index_of s c = None \<longleftrightarrow> c \<notin> set s"
  by (induction s) (auto split: option.splits)

lemma last_index_of_append:
  assumes "c \<notin> set t"
  shows "last_index_of (s @ c # t) c = Some (length s)"
proof (induction s)
  case Nil
  from assms have "last_index_of t c = None"
    by (simp add: last_index_of_None_iff)
  then show ?case by simp
qed simp

lemma last_index_of_Some:
  "last_index_of s c = Some i \<Longrightarrow> i < length s \<and> s = take i s @ c # drop (Suc i) s"
  by (induction s arbitrary: i) (auto split: option.splits if_splits)

lemma split_on_not_Nil [simp]: "split_on c s \<noteq> []"
  by (induction s) (auto split: list.splits)

lemma join_with_Cons:
  "ws \<noteq> [] \<Longrightarrow> join_with sep (w # ws) = w @ sep @ join_with sep ws"
  by (cases ws) simp_all

lemma join_split: "join_with [c] (split_on c s) = s"
proof (induction s)
  case (Cons d s)
  obtain w ws where ws: "split_on c s = w # ws"
    using split_on_not_Nil [of c s] by (cases "split_on c s") auto
  show ?case
  proof (cases "d = c")
    case True
    then show ?thesis using Cons by (simp add: join_with_Cons)
  next
    case False
    have "join_with [c] ((d # w) # ws) = d # join_with [c] (w # ws)"
      by (cases ws) simp_all
    then show ?thesis using Cons False ws by simp
  qed
qed simp

lemma split_on_free: "c \<notin> set s \<Longrightarrow> split_on c s = [s]"
  by (induction s) auto

lemma split_on_append:
  assumes "c \<notin> set w"
  shows "split_on c (w @ c # s) = w # split_on c s"
  using assms by (induction w) auto

lemma split_join:
  assumes "ws \<noteq> []" and "\<forall>w \<in> set ws. c \<notin> set w"
  shows "split_on c (join_with [c] ws) = ws"
  using assms
proof (induction ws)
  case (Cons w ws)
  then show ?case
    by (cases "ws = []") (simp_all add: split_on_append join_with_Cons split_on_free)
qed simp

lemma split_on_parts: "w \<in> set (split_on c s) \<Longrightarrow> c \<notin> set w"
proof (induction s arbitrary: w)
  case (Cons d s)
  then show ?case
    by (cases "split_on c s") (auto split: if_splits)
qed simp

text \<open>A string that starts and ends with a character other than white space is its own trim.\<close>

lemma trim_id:
  assumes "s \<noteq> [] \<Longrightarrow> \<not> js_space (hd s) \<and> \<not> js_space (last s)"
  shows "trim s = s"
proof (cases s rule: rev_cases)
  case Nil
  then show ?thesis by (simp add: trim_def trim_start_def)
next
  case (snoc t c)
  obtain d u where s: "s = d # u"
    using snoc by (metis append_is_Nil_conv list.exhaust not_Cons_self2)
  have "trim_start s = s"
    using assms s by (simp add: trim_start_def)
  moreover have "trim_start (rev s) = rev s"
    using assms snoc by (simp add: trim_start_def)
  ultimately show ?thesis
    by (simp add: trim_def)
qed

lemma trim_no_space: "\<forall>c \<in> set s. \<not> js_space c \<Longrightarrow> trim s = s"
  by (rule trim_id) simp

lemma set_trim_start: "set (trim_start s) \<subseteq> set s"
  by (auto simp: trim_start_def dest: set_dropWhileD)

lemma set_trim: "set (trim s) \<subseteq> set s"
  unfolding trim_def using set_trim_start [of s] set_trim_start [of "rev (trim_start s)"]
  by auto

lemma lower_unit_id: "lower_unit c = [c] \<longleftrightarrow>
    \<not> (65 \<le> c \<and> c \<le> 90 \<or> 192 \<le> c \<and> c \<le> 222 \<and> c \<noteq> 215 \<or> c = 304 \<or> c = 8490)"
  by (auto simp: lower_unit_def)

lemma to_lower_id:
  assumes "\<forall>c \<in> set s. c < 65 \<or> 90 < c \<and> c < 128"
  shows "to_lower s = s"
  using assms
proof (induction s)
  case (Cons c s)
  then have "lower_unit c = [c]"
    by (auto simp: lower_unit_def)
  with Cons show ?case
    by (simp add: to_lower_def)
qed (simp add: to_lower_def)

lemma to_lower_Cons: "to_lower (c # s) = lower_unit c @ to_lower s"
  by (simp add: to_lower_def)

lemma to_lower_append: "to_lower (s @ t) = to_lower s @ to_lower t"
  by (simp add: to_lower_def)

lemma to_lower_Nil [simp]: "to_lower [] = []"
  by (simp add: to_lower_def)

lemma lower_unit_idem: "to_lower (lower_unit c) = lower_unit c"
  by (auto simp: to_lower_def lower_unit_def)

lemma to_lower_idem: "to_lower (to_lower s) = to_lower s"
  by (induction s) (simp_all add: to_lower_Cons to_lower_append lower_unit_idem)

lemma dec_not_Nil [simp]: "dec n \<noteq> []"
  by (subst dec.simps) simp

lemma dec_digits: "\<forall>c \<in> set (dec n). is_digit c"
proof (induction n rule: dec.induct)
  case (1 n)
  show ?case
  proof (cases "n < 10")
    case True
    then show ?thesis by (subst dec.simps) (simp add: is_digit_def)
  next
    case False
    with 1 show ?thesis
      by (subst dec.simps) (auto simp: is_digit_def less_Suc_eq_le [symmetric])
  qed
qed

lemma set_dec: "c \<in> set (dec n) \<Longrightarrow> 48 \<le> c \<and> c \<le> 57"
  using dec_digits by (auto simp: is_digit_def)

text \<open>Reading the digits back gives the number, so \<open>dec\<close> is injective.\<close>

definition undec :: "jsstr \<Rightarrow> nat" where
  "undec s = foldl (\<lambda>n c. 10 * n + (c - 48)) 0 s"

lemma undec_append_single: "undec (s @ [c]) = 10 * undec s + (c - 48)"
  by (simp add: undec_def)

lemma undec_dec [simp]: "undec (dec n) = n"
proof (induction n rule: dec.induct)
  case (1 n)
  show ?case
  proof (cases "n < 10")
    case True
    then show ?thesis by (subst dec.simps) (simp add: undec_def)
  next
    case False
    with 1 show ?thesis
      by (subst dec.simps) (simp add: undec_append_single)
  qed
qed

lemma dec_inject [simp]: "dec m = dec n \<longleftrightarrow> m = n"
  by (metis undec_dec)

lemma length_dec_le: "n < 10 ^ k \<Longrightarrow> 0 < k \<Longrightarrow> length (dec n) \<le> k"
proof (induction n arbitrary: k rule: dec.induct)
  case (1 n)
  show ?case
  proof (cases "n < 10")
    case True
    with 1 show ?thesis by (subst dec.simps) simp
  next
    case False
    obtain j where k: "k = Suc j" and "0 < j"
      using 1 False by (cases k; cases "k - 1") auto
    with 1 False have "length (dec (n div 10)) \<le> j" by simp
    with False k show ?thesis by (subst dec.simps) simp
  qed
qed

lemma length_pad_start [simp]: "length (pad_start n c s) = max n (length s)"
  by (simp add: pad_start_def)

lemma undec_replicate_0: "undec (replicate k 48 @ s) = undec s"
  by (induction k) (simp_all add: undec_def)

lemma undec_pad_start [simp]: "undec (pad_start n 48 s) = undec s"
  by (simp add: pad_start_def undec_replicate_0)

lemma pad_dec_inject [simp]: "pad_start k 48 (dec m) = pad_start k 48 (dec n) \<longleftrightarrow> m = n"
  by (metis undec_dec undec_pad_start)

lemma set_pad_start: "set (pad_start n c s) \<subseteq> insert c (set s)"
  by (auto simp: pad_start_def)

end
