(* ===== verification/Js_Regex.thy ===== *)
theory Js_Regex
  imports Js_Strings
begin

text \<open>
  The anchored regular expressions of the program. A pattern \<open>/^r$/\<close> without flags
  matches a string when \<open>r\<close> matches all of it, code unit by code unit; \<open>matches\<close>
  decides that by derivatives. The lemmas give the language of each operator and the
  closed forms of the shapes the program uses, so proofs never unfold a derivative.
\<close>

section \<open>Patterns and matching\<close>

datatype regex =
    Void
  | Eps
  | Cls "nat \<Rightarrow> bool"
  | Cat regex regex
  | Alt regex regex
  | Star regex

fun nullable :: "regex \<Rightarrow> bool" where
  "nullable Void = False"
| "nullable Eps = True"
| "nullable (Cls p) = False"
| "nullable (Cat r q) = (nullable r \<and> nullable q)"
| "nullable (Alt r q) = (nullable r \<or> nullable q)"
| "nullable (Star r) = True"

fun deriv :: "nat \<Rightarrow> regex \<Rightarrow> regex" where
  "deriv c Void = Void"
| "deriv c Eps = Void"
| "deriv c (Cls p) = (if p c then Eps else Void)"
| "deriv c (Cat r q) =
     (if nullable r then Alt (Cat (deriv c r) q) (deriv c q) else Cat (deriv c r) q)"
| "deriv c (Alt r q) = Alt (deriv c r) (deriv c q)"
| "deriv c (Star r) = Cat (deriv c r) (Star r)"

fun matches :: "regex \<Rightarrow> jsstr \<Rightarrow> bool" where
  "matches r [] = nullable r"
| "matches r (c # s) = matches (deriv c r) s"

text \<open>\<open>r?\<close>, \<open>r+\<close>, \<open>r{n}\<close> and \<open>r{0,n}\<close>; a literal character.\<close>

definition Opt :: "regex \<Rightarrow> regex" where
  "Opt r = Alt Eps r"

definition Plus :: "regex \<Rightarrow> regex" where
  "Plus r = Cat r (Star r)"

fun Times :: "nat \<Rightarrow> regex \<Rightarrow> regex" where
  "Times 0 r = Eps"
| "Times (Suc n) r = Cat r (Times n r)"

fun UpTo :: "nat \<Rightarrow> regex \<Rightarrow> regex" where
  "UpTo 0 r = Eps"
| "UpTo (Suc n) r = Opt (Cat r (UpTo n r))"

definition Lit :: "jsstr \<Rightarrow> regex" where
  "Lit s = foldr (\<lambda>c. Cat (Cls (\<lambda>d. d = c))) s Eps"

section \<open>The language of each operator\<close>

lemma matches_Void [simp]: "matches Void s = False"
  by (induction s) simp_all

lemma matches_Eps [simp]: "matches Eps s \<longleftrightarrow> s = []"
  by (cases s) simp_all

lemma matches_Cls [simp]: "matches (Cls p) s \<longleftrightarrow> (\<exists>c. s = [c] \<and> p c)"
  by (cases s) auto

lemma matches_Alt [simp]: "matches (Alt r q) s \<longleftrightarrow> matches r s \<or> matches q s"
  by (induction s arbitrary: r q) simp_all

lemma ex_append_Cons:
  "(\<exists>u v. c # s = u @ v \<and> P u v) \<longleftrightarrow> P [] (c # s) \<or> (\<exists>u v. s = u @ v \<and> P (c # u) v)"
proof
  assume "\<exists>u v. c # s = u @ v \<and> P u v"
  then obtain u v where uv: "c # s = u @ v" "P u v" by blast
  then show "P [] (c # s) \<or> (\<exists>u v. s = u @ v \<and> P (c # u) v)"
    by (cases u) auto
next
  assume "P [] (c # s) \<or> (\<exists>u v. s = u @ v \<and> P (c # u) v)"
  then show "\<exists>u v. c # s = u @ v \<and> P u v"
    by (metis append_Cons append_Nil)
qed

lemma matches_Cat: "matches (Cat r q) s \<longleftrightarrow> (\<exists>u v. s = u @ v \<and> matches r u \<and> matches q v)"
  by (induction s arbitrary: r) (auto simp: ex_append_Cons)

lemma matches_Star_Cls: "matches (Star (Cls p)) s \<longleftrightarrow> (\<forall>c \<in> set s. p c)"
  by (induction s) (auto simp: matches_Cat)

text \<open>From here on the language lemmas replace the derivatives.\<close>

declare matches.simps [simp del]

lemma matches_Cat_Cls:
  "matches (Cat (Cls p) q) s \<longleftrightarrow> s \<noteq> [] \<and> p (hd s) \<and> matches q (tl s)"
  by (cases s) (auto simp: matches_Cat ex_append_Cons)

lemma matches_Opt [simp]: "matches (Opt r) s \<longleftrightarrow> s = [] \<or> matches r s"
  by (simp add: Opt_def)

lemma matches_Plus_Cls: "matches (Plus (Cls p)) s \<longleftrightarrow> s \<noteq> [] \<and> (\<forall>c \<in> set s. p c)"
  by (cases s) (auto simp: Plus_def matches_Cat_Cls matches_Star_Cls)

lemma matches_Times_Cls:
  "matches (Times n (Cls p)) s \<longleftrightarrow> length s = n \<and> (\<forall>c \<in> set s. p c)"
proof (induction n arbitrary: s)
  case (Suc n)
  then show ?case by (cases s) (auto simp: matches_Cat_Cls)
qed auto

lemma matches_UpTo_Cls:
  "matches (UpTo n (Cls p)) s \<longleftrightarrow> length s \<le> n \<and> (\<forall>c \<in> set s. p c)"
proof (induction n arbitrary: s)
  case (Suc n)
  then show ?case by (cases s) (auto simp: matches_Cat_Cls)
qed auto

lemma matches_Cat_Lit:
  "matches (Cat (Lit p) q) s \<longleftrightarrow> (\<exists>t. s = p @ t \<and> matches q t)"
proof (induction p arbitrary: s)
  case Nil
  then show ?case by (simp add: Lit_def matches_Cat)
next
  case (Cons c p)
  have "matches (Cat (Lit (c # p)) q) s \<longleftrightarrow>
      (\<exists>t. s = c # t \<and> matches (Cat (Lit p) q) t)"
    by (cases s) (auto simp: Lit_def matches_Cat matches_Cat_Cls ex_append_Cons)
  with Cons show ?case by auto
qed

lemma matches_Lit [simp]: "matches (Lit p) s \<longleftrightarrow> s = p"
proof (induction p arbitrary: s)
  case (Cons c p)
  then show ?case
    by (cases s) (auto simp: Lit_def matches_Cat_Cls)
qed (simp add: Lit_def)

lemma matches_Cat_mid_last:
  "matches (Cat r (Cls p)) s \<longleftrightarrow> s \<noteq> [] \<and> matches r (butlast s) \<and> p (last s)"
  by (auto simp: matches_Cat) (metis append_butlast_last_id)

text \<open>
  The shape of DNS labels and slugs: an end character, then optionally up to \<open>n\<close>
  inner characters and another end character.
\<close>

lemma matches_label:
  "matches (Cat (Cls e) (Opt (Cat (Star (Cls m)) (Cls e)))) s \<longleftrightarrow>
     s \<noteq> [] \<and> e (hd s) \<and> e (last s) \<and> (\<forall>c \<in> set (butlast (tl s)). m c)"
  by (cases s)
     (auto simp: matches_Cat_Cls matches_Cat_mid_last matches_Star_Cls)

lemma matches_bounded_label:
  "matches (Cat (Cls e) (Opt (Cat (UpTo n (Cls m)) (Cls e)))) s \<longleftrightarrow>
     s \<noteq> [] \<and> length s \<le> n + 2 \<and> e (hd s) \<and> e (last s) \<and> (\<forall>c \<in> set (butlast (tl s)). m c)"
  by (cases s)
     (auto simp: matches_Cat_Cls matches_Cat_mid_last matches_UpTo_Cls)

lemma label_all:
  assumes "s \<noteq> []" and "e (hd s)" and "e (last s)" and "\<forall>c \<in> set (butlast (tl s)). m c"
    and "\<And>c. e c \<Longrightarrow> m c"
  shows "\<forall>c \<in> set s. m c"
proof (cases s)
  case (Cons d t)
  show ?thesis
  proof (cases t rule: rev_cases)
    case (snoc u f)
    then show ?thesis using Cons assms by auto
  qed (use Cons assms in auto)
qed (use assms in simp)

end
