(* ===== verification/Contracts_Links.thy ===== *)
theory Contracts_Links
  imports Js_Regex
begin

text \<open>
  The name rules of \<open>packages/contracts\<close>: reserved handles and paths
  (\<open>src/reserved.ts\<close>), slugs and destinations (\<open>src/links.ts\<close>), bio handles (\<open>src/bio.ts\<close>).

  A zod schema over a string is modelled by whether it accepts the string, or by the
  parsed value when parsing may change it. \<open>z.url\<close> belongs to zod: it is the
  parameter \<open>z_url\<close>, which maps a text to the scheme and the output text of an
  accepted URL, and to \<open>None\<close> for any other text. What \<open>links.ts\<close> adds to it, the
  scheme pattern and the length bound, is modelled.
\<close>

section \<open>Reserved handles and paths\<close>

definition RESERVED_HANDLES :: "jsstr list" where
  "RESERVED_HANDLES =
     [js ''app'', js ''api'', js ''www'', js ''admin'', js ''static'', js ''assets'',
      js ''cdn'', js ''mail'', js ''blog'', js ''docs'', js ''status'']"

definition RESERVED_PATHS :: "jsstr list" where
  "RESERVED_PATHS = [js ''/'', js ''/favicon.ico'', js ''/robots.txt'']"

definition RESERVED_PATH_PREFIXES :: "jsstr list" where
  "RESERVED_PATH_PREFIXES = [js ''/.well-known/'']"

definition normalize_handle :: "jsstr \<Rightarrow> jsstr" where
  "normalize_handle h = to_lower (trim h)"

definition normalize_reserved_path :: "jsstr \<Rightarrow> jsstr" where
  "normalize_reserved_path p =
     (let trimmed = to_lower (trim p)
      in if length trimmed = 0 then js ''/''
         else if 1 < length trimmed \<and> ends_with trimmed (js ''/'') then drop_last 1 trimmed
         else trimmed)"

text \<open>A \<open>Set\<close> built from the defaults, then the non-empty normalised overrides in order.\<close>

fun merge_overrides :: "jsstr list \<Rightarrow> jsstr list \<Rightarrow> jsstr list" where
  "merge_overrides merged [] = merged"
| "merge_overrides merged (override # overrides) =
     (let normalized = normalize_handle override
      in merge_overrides
           (if 0 < length normalized \<and> normalized \<notin> set merged
            then merged @ [normalized] else merged)
           overrides)"

definition resolve_reserved_handles :: "jsstr list \<Rightarrow> jsstr list" where
  "resolve_reserved_handles overrides = merge_overrides RESERVED_HANDLES overrides"

definition is_reserved_handle :: "jsstr \<Rightarrow> jsstr list \<Rightarrow> bool" where
  "is_reserved_handle handle reserved =
     (let normalized = normalize_handle handle
      in if length normalized = 0 then False else normalized \<in> set reserved)"

definition is_reserved_path :: "jsstr \<Rightarrow> bool" where
  "is_reserved_path path =
     (let normalized = normalize_reserved_path path
      in normalized \<in> set RESERVED_PATHS \<or>
         (\<exists>prefix \<in> set RESERVED_PATH_PREFIXES.
            let base = (if ends_with prefix (js ''/'') then drop_last 1 prefix else prefix)
            in normalized = base \<or> starts_with normalized prefix))"

section \<open>Slugs and destinations\<close>

definition slug_end :: "nat \<Rightarrow> bool" where
  "slug_end c = lower_alnum c"

definition slug_inner :: "nat \<Rightarrow> bool" where
  "slug_inner c \<longleftrightarrow> lower_alnum c \<or> c = 45"

definition SLUG_PATTERN :: regex where
  "SLUG_PATTERN = Cat (Cls slug_end) (Opt (Cat (UpTo 62 (Cls slug_inner)) (Cls slug_end)))"

definition SLUG_MAX_LENGTH :: nat where
  "SLUG_MAX_LENGTH = 64"

definition is_valid_slug :: "jsstr \<Rightarrow> bool" where
  "is_valid_slug slug =
     (if length slug < 1 \<or> SLUG_MAX_LENGTH < length slug then False
      else if \<not> matches SLUG_PATTERN slug then False
      else js ''/'' @ slug \<notin> set RESERVED_PATHS)"

definition z_slug :: "jsstr \<Rightarrow> bool" where
  "z_slug slug \<longleftrightarrow>
     1 \<le> length slug \<and> length slug \<le> 64 \<and> matches SLUG_PATTERN slug \<and>
     js ''/'' @ slug \<notin> set RESERVED_PATHS"

definition DESTINATION_PROTOCOL_PATTERN :: regex where
  "DESTINATION_PROTOCOL_PATTERN = Cat (Lit (js ''http'')) (Opt (Lit (js ''s'')))"

definition DESTINATION_MAX_LENGTH :: nat where
  "DESTINATION_MAX_LENGTH = 2048"

definition z_destination :: "(jsstr \<Rightarrow> (jsstr \<times> jsstr) option) \<Rightarrow> jsstr \<Rightarrow> jsstr option" where
  "z_destination z_url s =
     (case z_url s of
        None \<Rightarrow> None
      | Some (scheme, value) \<Rightarrow>
          if matches DESTINATION_PROTOCOL_PATTERN scheme \<and> length value \<le> DESTINATION_MAX_LENGTH
          then Some value else None)"

section \<open>Bio handles\<close>

definition HANDLE_CHARSET_PATTERN :: regex where
  "HANDLE_CHARSET_PATTERN = Cat (Cls slug_end) (Opt (Cat (Star (Cls slug_inner)) (Cls slug_end)))"

definition z_handle :: "jsstr \<Rightarrow> bool" where
  "z_handle handle \<longleftrightarrow>
     3 \<le> length handle \<and> length handle \<le> 30 \<and> matches HANDLE_CHARSET_PATTERN handle \<and>
     handle \<notin> set RESERVED_HANDLES"

text \<open>\<open>[0-9A-HJKMNP-TV-Z]\<close>: Crockford's base 32, without I, L, O and U.\<close>

definition crockford :: "nat \<Rightarrow> bool" where
  "crockford c \<longleftrightarrow>
     is_digit c \<or> 65 \<le> c \<and> c \<le> 72 \<or> c = 74 \<or> c = 75 \<or> c = 77 \<or> c = 78 \<or>
     80 \<le> c \<and> c \<le> 84 \<or> 86 \<le> c \<and> c \<le> 90"

definition ULID_SHAPE_PATTERN :: regex where
  "ULID_SHAPE_PATTERN = Times 26 (Cls crockford)"

section \<open>Facts\<close>

lemma slug_end_inner: "slug_end c \<Longrightarrow> slug_inner c"
  by (simp add: slug_end_def slug_inner_def)

lemma slug_pattern_iff:
  "matches SLUG_PATTERN s \<longleftrightarrow>
     s \<noteq> [] \<and> length s \<le> 64 \<and> slug_end (hd s) \<and> slug_end (last s) \<and>
     (\<forall>c \<in> set (butlast (tl s)). slug_inner c)"
  by (simp add: SLUG_PATTERN_def matches_bounded_label)

lemma slug_pattern_chars:
  assumes "matches SLUG_PATTERN s"
  shows "\<forall>c \<in> set s. slug_inner c"
  using assms by (intro label_all [of s slug_end slug_inner]) (auto simp: slug_pattern_iff slug_end_inner)

lemma slug_inner_bounds: "slug_inner c \<Longrightarrow> c = 45 \<or> 48 \<le> c \<and> c \<le> 57 \<or> 97 \<le> c \<and> c \<le> 122"
  by (auto simp: slug_inner_def lower_alnum_def is_digit_def is_lower_def)

lemma slug_inner_not_space: "slug_inner c \<Longrightarrow> \<not> js_space c"
  by (drule slug_inner_bounds) (auto simp: js_space_def)

lemma slug_inner_lower: "slug_inner c \<Longrightarrow> c < 65 \<or> 90 < c \<and> c < 128"
  by (drule slug_inner_bounds) auto

lemma not_slug_inner [simp]: "\<not> slug_inner 46" "\<not> slug_inner 47" "\<not> slug_inner 58" "\<not> slug_inner 37"
  by (auto dest: slug_inner_bounds)

lemma slug_text_normal:
  assumes "\<forall>c \<in> set s. slug_inner c"
  shows "trim s = s" and "to_lower s = s"
proof -
  show "trim s = s"
    using assms by (intro trim_no_space) (auto simp: slug_inner_not_space)
  show "to_lower s = s"
    using assms slug_inner_lower by (intro to_lower_id) blast
qed

lemma reserved_paths_eval:
  "set RESERVED_PATHS = {js ''/'', js ''/favicon.ico'', js ''/robots.txt''}"
  by (auto simp: RESERVED_PATHS_def)

lemma slug_pattern_not_reserved:
  assumes "matches SLUG_PATTERN s"
  shows "js ''/'' @ s \<notin> set RESERVED_PATHS"
proof
  assume "js ''/'' @ s \<in> set RESERVED_PATHS"
  then have "s = [] \<or> s = js ''favicon.ico'' \<or> s = js ''robots.txt''"
    by (auto simp: reserved_paths_eval js_def)
  then have "s = [] \<or> 46 \<in> set s"
    by (auto simp: js_def)
  with slug_pattern_chars [OF assms] assms show False
    by (metis not_slug_inner(1) slug_pattern_iff)
qed

text \<open>The predicate of the hot path and the schema of the write path accept the same slugs.\<close>

lemma is_valid_slug_pattern: "is_valid_slug s \<longleftrightarrow> matches SLUG_PATTERN s"
  using slug_pattern_not_reserved [of s]
  by (auto simp: is_valid_slug_def SLUG_MAX_LENGTH_def slug_pattern_iff Suc_le_eq)

lemma z_slug_pattern: "z_slug s \<longleftrightarrow> matches SLUG_PATTERN s"
  using slug_pattern_not_reserved [of s]
  by (auto simp: z_slug_def slug_pattern_iff Suc_le_eq)

lemma valid_slug_chars: "is_valid_slug s \<Longrightarrow> c \<in> set s \<Longrightarrow> slug_inner c"
  using slug_pattern_chars by (auto simp: is_valid_slug_pattern)

lemma valid_slug_length: "is_valid_slug s \<Longrightarrow> 1 \<le> length s \<and> length s \<le> 64"
  by (auto simp: is_valid_slug_pattern slug_pattern_iff Suc_le_eq)

lemma destination_protocol_iff:
  "matches DESTINATION_PROTOCOL_PATTERN p \<longleftrightarrow> p = js ''http'' \<or> p = js ''https''"
proof -
  have "js ''https'' = js ''http'' @ js ''s''" by (simp add: js_def)
  then show ?thesis
    by (auto simp: DESTINATION_PROTOCOL_PATTERN_def matches_Cat_Lit)
qed

lemma z_destination_Some:
  "z_destination z_url s = Some d \<longleftrightarrow>
     (\<exists>scheme. z_url s = Some (scheme, d) \<and> (scheme = js ''http'' \<or> scheme = js ''https'') \<and>
        length d \<le> DESTINATION_MAX_LENGTH)"
  by (auto simp: z_destination_def destination_protocol_iff split: option.splits)

lemma merge_overrides_set:
  "set (merge_overrides merged overrides) =
     set merged \<union> (normalize_handle ` set overrides - {[]})"
  by (induction merged overrides rule: merge_overrides.induct) (auto simp: Let_def)

lemma merge_overrides_distinct:
  "distinct merged \<Longrightarrow> distinct (merge_overrides merged overrides)"
  by (induction merged overrides rule: merge_overrides.induct) (simp_all add: Let_def)

lemma reserved_handles_distinct: "distinct RESERVED_HANDLES"
  by (simp add: RESERVED_HANDLES_def)

section \<open>Properties\<close>

text \<open>
  the two slug validators, the hand-written \<open>isValidSlug\<close> of the redirect and the zod
  schema of the dashboard, accept the same strings: those of \<open>SLUG_PATTERN\<close>, which have
  1 to 64 characters, all lower-case letters, digits or inner hyphens.
\<close>

theorem slug_validators_agree:
  "is_valid_slug s = z_slug s \<and> is_valid_slug s = matches SLUG_PATTERN s"
  by (simp add: is_valid_slug_pattern z_slug_pattern)

end
