(* ===== verification/Contracts_Domain.thy ===== *)
theory Contracts_Domain
  imports Contracts_Links
begin

text \<open>
  Host construction and parsing, \<open>packages/contracts/src/domain.ts\<close>. \<open>makeUrlBuilders\<close>
  closes over values derived from its configuration; here they are computed from the
  configuration by the definitions that use them. A thrown \<open>Error\<close> is \<open>Inl\<close>.
\<close>

section \<open>Configuration and labels\<close>

datatype protocol = Http | Https

record domain_config =
  dc_domain :: jsstr
  dc_protocol :: protocol
  dc_app_subdomain :: jsstr
  dc_api_subdomain :: jsstr

datatype domain_error =
    Invalid_handle jsstr
  | Handle_collides_with_app_or_api jsstr
  | Empty_slug

definition HANDLE_PATTERN :: regex where
  "HANDLE_PATTERN = Cat (Cls slug_end) (Opt (Cat (Star (Cls slug_inner)) (Cls slug_end)))"

definition HANDLE_MAX_LENGTH :: nat where
  "HANDLE_MAX_LENGTH = 63"

definition normalize_label :: "jsstr \<Rightarrow> jsstr" where
  "normalize_label value = to_lower (trim value)"

definition normalize_path :: "jsstr \<Rightarrow> jsstr" where
  "normalize_path path =
     (if length path = 0 then []
      else if starts_with path (js ''/'') then path else js ''/'' @ path)"

definition DIGITS :: regex where
  "DIGITS = Plus (Cls is_digit)"

definition strip_port :: "jsstr \<Rightarrow> jsstr" where
  "strip_port host =
     (case last_index_of host 58 of
        None \<Rightarrow> host
      | Some i \<Rightarrow> if matches DIGITS (drop (Suc i) host) then take i host else host)"

section \<open>The URL builders\<close>

definition protocol_text :: "protocol \<Rightarrow> jsstr" where
  "protocol_text p = (case p of Http \<Rightarrow> js ''http'' | Https \<Rightarrow> js ''https'')"

definition domain_suffix :: "domain_config \<Rightarrow> jsstr" where
  "domain_suffix cfg = js ''.'' @ normalize_label (dc_domain cfg)"

definition is_reserved_subdomain :: "domain_config \<Rightarrow> jsstr \<Rightarrow> bool" where
  "is_reserved_subdomain cfg label \<longleftrightarrow>
     label = normalize_label (dc_app_subdomain cfg) \<or> label = normalize_label (dc_api_subdomain cfg)"

definition assert_claimable_handle :: "domain_config \<Rightarrow> jsstr \<Rightarrow> domain_error + jsstr" where
  "assert_claimable_handle cfg handle =
     (let normalized = normalize_label handle
      in if \<not> matches HANDLE_PATTERN normalized then Inl (Invalid_handle handle)
         else if is_reserved_subdomain cfg normalized
              then Inl (Handle_collides_with_app_or_api handle)
         else Inr normalized)"

definition host_for :: "domain_config \<Rightarrow> jsstr \<Rightarrow> jsstr" where
  "host_for cfg label = label @ js ''.'' @ normalize_label (dc_domain cfg)"

definition origin_for :: "domain_config \<Rightarrow> jsstr \<Rightarrow> jsstr" where
  "origin_for cfg hostname = protocol_text (dc_protocol cfg) @ js ''://'' @ hostname"

definition build_link_url :: "domain_config \<Rightarrow> jsstr \<Rightarrow> jsstr \<Rightarrow> domain_error + jsstr" where
  "build_link_url cfg handle slug =
     (case assert_claimable_handle cfg handle of
        Inl e \<Rightarrow> Inl e
      | Inr normalized \<Rightarrow>
          let normalized_slug = trim slug
          in if length normalized_slug = 0 then Inl Empty_slug
             else Inr (origin_for cfg (host_for cfg normalized) @ js ''/'' @ normalized_slug))"

definition build_bio_url :: "domain_config \<Rightarrow> jsstr \<Rightarrow> domain_error + jsstr" where
  "build_bio_url cfg handle =
     (case assert_claimable_handle cfg handle of
        Inl e \<Rightarrow> Inl e
      | Inr normalized \<Rightarrow> Inr (origin_for cfg (host_for cfg normalized) @ js ''/''))"

definition build_app_url :: "domain_config \<Rightarrow> jsstr \<Rightarrow> jsstr" where
  "build_app_url cfg path =
     origin_for cfg (host_for cfg (normalize_label (dc_app_subdomain cfg))) @ normalize_path path"

definition build_api_url :: "domain_config \<Rightarrow> jsstr \<Rightarrow> jsstr" where
  "build_api_url cfg path =
     origin_for cfg (host_for cfg (normalize_label (dc_api_subdomain cfg))) @ normalize_path path"

definition parse_handle_from_host :: "domain_config \<Rightarrow> jsstr \<Rightarrow> jsstr option" where
  "parse_handle_from_host cfg raw_host =
     (let domain = normalize_label (dc_domain cfg);
          without_port = strip_port (normalize_label raw_host);
          host = (if ends_with without_port (js ''.'') then drop_last 1 without_port
                  else without_port)
      in if length host = 0 then None
         else if host = domain then None
         else if \<not> ends_with host (domain_suffix cfg) then None
         else
           let label = drop_last (length (domain_suffix cfg)) host
           in if length label = 0 \<or> HANDLE_MAX_LENGTH < length label then None
              else if \<not> matches HANDLE_PATTERN label then None
              else if is_reserved_subdomain cfg label then None
              else Some label)"

section \<open>Facts\<close>

lemma handle_pattern_iff:
  "matches HANDLE_PATTERN s \<longleftrightarrow>
     s \<noteq> [] \<and> slug_end (hd s) \<and> slug_end (last s) \<and> (\<forall>c \<in> set (butlast (tl s)). slug_inner c)"
  by (simp add: HANDLE_PATTERN_def matches_label)

lemma handle_pattern_chars:
  assumes "matches HANDLE_PATTERN s"
  shows "\<forall>c \<in> set s. slug_inner c"
  using assms
  by (intro label_all [of s slug_end slug_inner]) (auto simp: handle_pattern_iff slug_end_inner)

lemma handle_normal: "matches HANDLE_PATTERN s \<Longrightarrow> normalize_label s = s"
  by (simp add: normalize_label_def slug_text_normal [OF handle_pattern_chars])

lemma lower_unit_not_space:
  assumes "\<not> js_space c"
  shows "lower_unit c \<noteq> [] \<and> \<not> js_space (hd (lower_unit c)) \<and> \<not> js_space (last (lower_unit c))"
proof -
  consider "lower_unit c = [c]" | "65 \<le> c" "c \<le> 90" | "192 \<le> c" "c \<le> 222" "c \<noteq> 215"
    | "c = 304" | "c = 8490"
    by (metis lower_unit_id)
  then show ?thesis
    using assms by cases (simp_all add: lower_unit_def js_space_def)
qed

text \<open>Text that starts and ends outside white space; the empty text counts.\<close>

definition trimmed :: "jsstr \<Rightarrow> bool" where
  "trimmed s \<longleftrightarrow> (s \<noteq> [] \<longrightarrow> \<not> js_space (hd s) \<and> \<not> js_space (last s))"

lemma trimmed_trim: "trimmed (trim s)"
proof -
  have start: "trim_start t \<noteq> [] \<Longrightarrow> \<not> js_space (hd (trim_start t))" for t
    using hd_dropWhile [of js_space t] by (simp add: trim_start_def)
  have hd_kept: "trim s \<noteq> [] \<Longrightarrow> hd (trim s) = hd (trim_start s)"
  proof -
    assume ne: "trim s \<noteq> []"
    obtain u where u: "trim_start s = trim s @ u"
      unfolding trim_def trim_start_def
      by (metis rev_append rev_rev_ident takeWhile_dropWhile_id)
    show "hd (trim s) = hd (trim_start s)"
      using ne by (subst u) simp
  qed
  show ?thesis
    unfolding trimmed_def
  proof (intro impI conjI)
    assume ne: "trim s \<noteq> []"
    then have "trim_start s \<noteq> []"
      by (metis rev.simps(1) dropWhile.simps(1) trim_def trim_start_def)
    then show "\<not> js_space (hd (trim s))"
      using start hd_kept [OF ne] by simp
    from ne have "trim_start (rev (trim_start s)) \<noteq> []"
      by (simp add: trim_def)
    then show "\<not> js_space (last (trim s))"
      using start [of "rev (trim_start s)"] by (simp add: trim_def last_rev)
  qed
qed

lemma trimmed_to_lower:
  assumes "trimmed s"
  shows "trimmed (to_lower s)"
proof (cases "s = []")
  case False
  then obtain c t where c: "s = c # t" by (cases s) auto
  obtain u d where d: "s = u @ [d]" using False by (cases s rule: rev_cases) auto
  have "hd s = c" and "last s = d"
    using c by simp (simp add: d)
  then have sp: "\<not> js_space c" "\<not> js_space d"
    using assms False by (auto simp: trimmed_def)
  have "hd (to_lower s) = hd (lower_unit c)"
    using lower_unit_not_space [OF sp(1)] by (simp add: c to_lower_Cons)
  moreover have "last (to_lower s) = last (lower_unit d)"
    using lower_unit_not_space [OF sp(2)] by (simp add: d to_lower_append to_lower_Cons)
  ultimately show ?thesis
    using lower_unit_not_space [OF sp(1)] lower_unit_not_space [OF sp(2)]
    by (simp add: trimmed_def)
qed (simp add: trimmed_def)

lemma trim_trimmed: "trimmed s \<Longrightarrow> trim s = s"
  by (rule trim_id) (simp add: trimmed_def)

lemma normalize_label_idem: "normalize_label (normalize_label s) = normalize_label s"
  using trimmed_to_lower [OF trimmed_trim, of s]
  by (simp add: normalize_label_def trim_trimmed to_lower_idem)

lemma trimmed_normalize: "trimmed (normalize_label s)"
  by (simp add: normalize_label_def trimmed_to_lower trimmed_trim)

lemma strip_port_free: "58 \<notin> set s \<Longrightarrow> strip_port s = s"
proof -
  assume "58 \<notin> set s"
  then have "last_index_of s 58 = None" by (simp add: last_index_of_None_iff)
  then show ?thesis by (simp add: strip_port_def)
qed

lemma strip_port_port:
  assumes "p \<noteq> []" and "\<forall>c \<in> set p. is_digit c"
  shows "strip_port (s @ 58 # p) = s"
proof -
  have "58 \<notin> set p" using assms by (auto simp: is_digit_def)
  then have "last_index_of (s @ 58 # p) 58 = Some (length s)"
    by (rule last_index_of_append)
  with assms show ?thesis
    by (simp add: strip_port_def DIGITS_def matches_Plus_Cls)
qed

text \<open>
  A host header of a deployment: a label, the domain, and an optional port. The domain
  has no port of its own and no trailing dot, as an environment value for a domain name.
\<close>

definition plain_domain :: "domain_config \<Rightarrow> bool" where
  "plain_domain cfg \<longleftrightarrow>
     (let d = normalize_label (dc_domain cfg) in d \<noteq> [] \<and> 58 \<notin> set d \<and> last d \<noteq> 46)"

fun port_suffix :: "jsstr option \<Rightarrow> jsstr" where
  "port_suffix None = []"
| "port_suffix (Some p) = 58 # p"

definition port_ok :: "jsstr option \<Rightarrow> bool" where
  "port_ok p = (case p of None \<Rightarrow> True | Some t \<Rightarrow> t \<noteq> [] \<and> (\<forall>c \<in> set t. is_digit c))"

definition handle_ok :: "domain_config \<Rightarrow> jsstr \<Rightarrow> bool" where
  "handle_ok cfg h \<longleftrightarrow>
     matches HANDLE_PATTERN h \<and> length h \<le> HANDLE_MAX_LENGTH \<and> \<not> is_reserved_subdomain cfg h"

lemma normalize_host:
  assumes "plain_domain cfg" and "matches HANDLE_PATTERN h" and "port_ok p"
  shows "normalize_label (host_for cfg h @ port_suffix p) = host_for cfg h @ port_suffix p"
proof -
  let ?d = "normalize_label (dc_domain cfg)"
  have h: "\<forall>c \<in> set h. slug_inner c" "h \<noteq> []"
    using handle_pattern_chars [OF assms(2)] assms(2) by (auto simp: handle_pattern_iff)
  have "\<not> js_space (hd h)"
    using h by (simp add: slug_inner_not_space)
  moreover have "\<not> js_space (last (host_for cfg h @ port_suffix p))"
  proof (cases p)
    case None
    then show ?thesis
      using trimmed_normalize [of "dc_domain cfg"] assms(1)
      by (simp add: host_for_def js_def trimmed_def plain_domain_def Let_def)
  next
    case (Some t)
    then have "is_digit (last t)" and "t \<noteq> []"
      using assms(3) by (auto simp: port_ok_def)
    then show ?thesis
      using Some by (auto simp: is_digit_def js_space_def)
  qed
  ultimately have "trim (host_for cfg h @ port_suffix p) = host_for cfg h @ port_suffix p"
    using h by (intro trim_id) (simp add: host_for_def)
  moreover have "to_lower ?d = ?d"
    by (simp add: normalize_label_def to_lower_idem)
  moreover have "to_lower (port_suffix p) = port_suffix p"
    using assms(3) by (cases p) (force intro!: to_lower_id simp: port_ok_def is_digit_def)+
  moreover have "to_lower (46 # u) = 46 # to_lower u" for u
    by (simp add: to_lower_Cons lower_unit_def)
  ultimately show ?thesis
    using slug_text_normal(2) [OF h(1)]
    by (simp add: normalize_label_def host_for_def to_lower_append js_def)
qed

lemma strip_host:
  assumes "plain_domain cfg" and "matches HANDLE_PATTERN h" and "port_ok p"
  shows "strip_port (host_for cfg h @ port_suffix p) = host_for cfg h"
proof (cases p)
  case None
  have "58 \<notin> set (host_for cfg h)"
    using handle_pattern_chars [OF assms(2)] assms(1)
    by (auto simp: host_for_def js_def plain_domain_def Let_def)
  then show ?thesis using None by (simp add: strip_port_free)
next
  case (Some t)
  then show ?thesis using assms(3) by (simp add: port_ok_def strip_port_port)
qed

text \<open>Parsing inverts building: the host of a claimable handle gives the handle back.\<close>

lemma parse_host_for:
  assumes "plain_domain cfg" and "handle_ok cfg h" and "port_ok p"
  shows "parse_handle_from_host cfg (host_for cfg h @ port_suffix p) = Some h"
proof -
  let ?d = "normalize_label (dc_domain cfg)"
  have pat: "matches HANDLE_PATTERN h" and ne: "h \<noteq> []"
    using assms(2) by (auto simp: handle_ok_def handle_pattern_iff)
  have host: "host_for cfg h = h @ domain_suffix cfg"
    by (simp add: host_for_def domain_suffix_def)
  have dot: "\<not> ends_with (host_for cfg h) (js ''.'')"
  proof
    assume "ends_with (host_for cfg h) (js ''.'')"
    then have "last (host_for cfg h) = 46"
      by (auto simp: ends_with_iff js_def)
    then show False
      using assms(1) by (simp add: host_for_def plain_domain_def Let_def)
  qed
  have "length (host_for cfg h) \<noteq> length ?d"
    using ne by (simp add: host_for_def)
  then have "host_for cfg h \<noteq> ?d" by metis
  moreover have "strip_port (normalize_label (host_for cfg h @ port_suffix p)) = host_for cfg h"
    using assms pat by (simp add: normalize_host strip_host)
  ultimately show ?thesis
    using assms(2) pat ne dot unfolding parse_handle_from_host_def Let_def
    by (simp add: host handle_ok_def)
qed

lemma parse_handle_sound:
  assumes "parse_handle_from_host cfg raw = Some h"
  shows "handle_ok cfg h" and "normalize_label h = h"
    and "\<exists>host. (host = strip_port (normalize_label raw) \<or>
             host @ js ''.'' = strip_port (normalize_label raw)) \<and> host = host_for cfg h"
proof -
  let ?w = "strip_port (normalize_label raw)"
  let ?host = "if ends_with ?w (js ''.'') then drop_last 1 ?w else ?w"
  let ?label = "drop_last (length (domain_suffix cfg)) ?host"
  from assms have facts: "ends_with ?host (domain_suffix cfg)" "h = ?label"
      "length h \<le> HANDLE_MAX_LENGTH" "matches HANDLE_PATTERN h" "\<not> is_reserved_subdomain cfg h"
    unfolding parse_handle_from_host_def Let_def by (auto split: if_splits)
  then show "handle_ok cfg h" and "normalize_label h = h"
    by (simp_all add: handle_ok_def handle_normal)
  have "?host = host_for cfg h"
    using drop_last_of_suffix [OF facts(1)] facts(2)
    by (simp add: host_for_def domain_suffix_def)
  moreover have "?host = ?w \<or> ?host @ js ''.'' = ?w"
    using drop_last_of_suffix [of ?w "js ''.''"] by auto
  ultimately show "\<exists>host. (host = ?w \<or> host @ js ''.'' = ?w) \<and> host = host_for cfg h"
    by blast
qed

lemma assert_claimable_Inr:
  "assert_claimable_handle cfg handle = Inr h \<longleftrightarrow>
     h = normalize_label handle \<and> matches HANDLE_PATTERN h \<and> \<not> is_reserved_subdomain cfg h"
  by (auto simp: assert_claimable_handle_def Let_def)

section \<open>Properties\<close>

text \<open>
  the host of a URL built for a claimable handle of at most 63 characters is parsed
  back to the handle, with or without a port.
\<close>

theorem built_host_parses_back:
  assumes "plain_domain cfg" and "assert_claimable_handle cfg handle = Inr h"
    and "length h \<le> HANDLE_MAX_LENGTH" and "port_ok p"
  shows "parse_handle_from_host cfg (host_for cfg h @ port_suffix p) = Some h"
  using assms by (intro parse_host_for) (auto simp: assert_claimable_Inr handle_ok_def)

definition example_config :: domain_config where
  "example_config =
     \<lparr> dc_domain = js ''Posta.example'', dc_protocol = Https, dc_app_subdomain = js ''app'',
       dc_api_subdomain = js ''api'' \<rparr>"

lemmas domain_eval =
  plain_domain_def assert_claimable_handle_def parse_handle_from_host_def strip_port_def DIGITS_def
  matches_Plus_Cls domain_suffix_def HANDLE_MAX_LENGTH_def handle_pattern_iff is_reserved_subdomain_def
  slug_end_def slug_inner_def example_config_def normalize_label_def port_ok_def str_eval

theorem built_host_parses_back_witness:
  "parse_handle_from_host example_config
     (host_for example_config (js ''ana'') @ port_suffix (Some (js ''3000''))) = Some (js ''ana'')"
proof (rule built_host_parses_back [where handle = "js '' Ana''"])
  show "plain_domain example_config" by (simp add: domain_eval)
  show "assert_claimable_handle example_config (js '' Ana'') = Inr (js ''ana'')" by (simp add: domain_eval)
  show "length (js ''ana'') \<le> HANDLE_MAX_LENGTH" by (simp add: domain_eval)
  show "port_ok (Some (js ''3000''))" by (simp add: domain_eval)
qed

text \<open>
  a handle that the host parser returns is in normal form, matches the handle pattern, has
  at most 63 characters and is not a reserved subdomain; the host is the handle followed
  by the configured domain.
\<close>

theorem parsed_handle_is_valid:
  assumes "parse_handle_from_host cfg raw = Some h"
  shows "matches HANDLE_PATTERN h \<and> length h \<le> HANDLE_MAX_LENGTH \<and>
    \<not> is_reserved_subdomain cfg h \<and> normalize_label h = h"
  using parse_handle_sound(1,2) [OF assms] by (simp add: handle_ok_def)

theorem parsed_handle_is_valid_witness:
  "matches HANDLE_PATTERN (js ''ana'') \<and> length (js ''ana'') \<le> HANDLE_MAX_LENGTH \<and>
   \<not> is_reserved_subdomain example_config (js ''ana'') \<and> normalize_label (js ''ana'') = js ''ana''"
proof (rule parsed_handle_is_valid [where raw = "js '' ANA.posta.example.:80''"])
  show "parse_handle_from_host example_config (js '' ANA.posta.example.:80'') = Some (js ''ana'')"
    by (simp add: domain_eval)
qed

end
