(* ===== verification/Js_Unicode.thy ===== *)
theory Js_Unicode
  imports Js_Strings
begin

text \<open>
  Code points, UTF-8 and the URI component functions of the standard library.
  \<open>chars\<close> is what \<open>for (const char of s)\<close> yields: a surrogate pair is one item of two
  code units, every other code unit (an unpaired surrogate included) is one item.
\<close>

section \<open>Code points of a UTF-16 string\<close>

definition is_high :: "nat \<Rightarrow> bool" where
  [str_eval]: "is_high c \<longleftrightarrow> 55296 \<le> c \<and> c \<le> 56319"

definition is_low :: "nat \<Rightarrow> bool" where
  [str_eval]: "is_low c \<longleftrightarrow> 56320 \<le> c \<and> c \<le> 57343"

definition is_surrogate :: "nat \<Rightarrow> bool" where
  [str_eval]: "is_surrogate c \<longleftrightarrow> is_high c \<or> is_low c"

fun chars :: "jsstr \<Rightarrow> jsstr list" where
  "chars [] = []"
| "chars [c] = [[c]]"
| "chars (c # d # s) =
     (if is_high c \<and> is_low d then [c, d] # chars s else [c] # chars (d # s))"

text \<open>\<open>char.codePointAt(0)\<close>; \<open>undefined\<close> on the empty string.\<close>

fun code_point :: "jsstr \<Rightarrow> nat option" where
  "code_point [] = None"
| "code_point [c] = Some c"
| "code_point (c # d # s) =
     Some (if is_high c \<and> is_low d then 65536 + (c - 55296) * 1024 + (d - 56320) else c)"

text \<open>The code units of a code point.\<close>

definition utf16 :: "nat \<Rightarrow> jsstr" where
  [str_eval]: "utf16 p =
     (if p < 65536 then [p]
      else [55296 + (p - 65536) div 1024, 56320 + (p - 65536) mod 1024])"

lemma concat_chars [simp]: "concat (chars s) = s"
  by (induction s rule: chars.induct) auto

lemma chars_not_Nil: "w \<in> set (chars s) \<Longrightarrow> w \<noteq> []"
  by (induction s rule: chars.induct) (auto split: if_splits)

lemma chars_length: "w \<in> set (chars s) \<Longrightarrow> length w \<le> 2"
  by (induction s rule: chars.induct) (auto split: if_splits)

lemma chars_cases:
  assumes "w \<in> set (chars s)"
  obtains c where "w = [c]" "c \<in> set s"
  | c d where "w = [c, d]" "is_high c" "is_low d" "c \<in> set s" "d \<in> set s"
  using assms
proof (induction s arbitrary: thesis rule: chars.induct)
  case (3 c d s)
  then show ?case by (auto split: if_splits)
qed auto

lemma chars_no_surrogate:
  assumes "\<forall>c \<in> set s. \<not> is_surrogate c"
  shows "chars s = map (\<lambda>c. [c]) s"
  using assms by (induction s rule: chars.induct) (auto simp: is_surrogate_def)

section \<open>UTF-8 and percent encoding\<close>

text \<open>The UTF-8 bytes of a code point; \<open>None\<close> for a surrogate.\<close>

definition utf8 :: "nat \<Rightarrow> nat list option" where
  [str_eval]: "utf8 p =
     (if is_surrogate p then None
      else if p < 128 then Some [p]
      else if p < 2048 then Some [192 + p div 64, 128 + p mod 64]
      else if p < 65536 then Some [224 + p div 4096, 128 + p div 64 mod 64, 128 + p mod 64]
      else Some [240 + p div 262144, 128 + p div 4096 mod 64, 128 + p div 64 mod 64,
                 128 + p mod 64])"

definition upper_hex :: "nat \<Rightarrow> nat" where
  [str_eval]: "upper_hex d = (if d < 10 then 48 + d else 55 + d)"

definition percent_byte :: "nat \<Rightarrow> jsstr" where
  [str_eval]: "percent_byte b = [37, upper_hex (b div 16), upper_hex (b mod 16)]"

text \<open>The characters \<open>encodeURIComponent\<close> leaves alone: letters, digits and \<open>-_.!~*'()\<close>.\<close>

definition uri_unreserved :: "nat \<Rightarrow> bool" where
  [str_eval]: "uri_unreserved c \<longleftrightarrow> is_upper c \<or> is_lower c \<or> is_digit c \<or>
     c = 45 \<or> c = 95 \<or> c = 46 \<or> c = 33 \<or> c = 126 \<or> c = 42 \<or> c = 39 \<or> c = 40 \<or> c = 41"

text \<open>\<open>encodeURIComponent\<close> of one code point; \<open>None\<close> is the \<open>URIError\<close> of an
  unpaired surrogate.\<close>

definition encode_uri_char :: "jsstr \<Rightarrow> jsstr option" where
  [str_eval]: "encode_uri_char w =
     (case code_point w of
        None \<Rightarrow> Some []
      | Some p \<Rightarrow>
          if uri_unreserved p then Some w
          else map_option (\<lambda>bs. concat (map percent_byte bs)) (utf8 p))"

text \<open>\<open>decodeURIComponent\<close>, as ECMAScript's \<open>Decode\<close> with an empty preserve set;
  \<open>None\<close> is the \<open>URIError\<close>.\<close>

definition hex_val :: "nat \<Rightarrow> nat option" where
  [str_eval]: "hex_val c =
     (if is_digit c then Some (c - 48)
      else if 65 \<le> c \<and> c \<le> 70 then Some (c - 55)
      else if 97 \<le> c \<and> c \<le> 102 then Some (c - 87)
      else None)"

fun percent_triple :: "jsstr \<Rightarrow> (nat \<times> jsstr) option" where
  "percent_triple (p # h # l # s) =
     (if p = 37 then
        (case (hex_val h, hex_val l) of
           (Some a, Some b) \<Rightarrow> Some (16 * a + b, s)
         | _ \<Rightarrow> None)
      else None)"
| "percent_triple s = None"

text \<open>\<open>n\<close> continuation bytes, folded into the code point read so far.\<close>

fun continuation :: "nat \<Rightarrow> nat \<Rightarrow> jsstr \<Rightarrow> (nat \<times> jsstr) option" where
  "continuation 0 p s = Some (p, s)"
| "continuation (Suc n) p s =
     (case percent_triple s of
        None \<Rightarrow> None
      | Some (b, s') \<Rightarrow>
          if 128 \<le> b \<and> b \<le> 191 then continuation n (64 * p + (b - 128)) s' else None)"

definition decode_escape :: "jsstr \<Rightarrow> (jsstr \<times> jsstr) option" where
  [str_eval]: "decode_escape s =
     (case percent_triple s of
        None \<Rightarrow> None
      | Some (b, s') \<Rightarrow>
          if b < 128 then Some ([b], s')
          else
            (let (n, p, least) =
               (if 192 \<le> b \<and> b \<le> 223 then (1, b - 192, 128)
                else if 224 \<le> b \<and> b \<le> 239 then (2, b - 224, 2048)
                else if 240 \<le> b \<and> b \<le> 247 then (3, b - 240, 65536)
                else (0, 0, 1))
             in case continuation n p s' of
                  None \<Rightarrow> None
                | Some (q, t) \<Rightarrow>
                    if least \<le> q \<and> q \<le> 1114111 \<and> \<not> is_surrogate q then Some (utf16 q, t)
                    else None))"

lemma percent_triple_shorter: "percent_triple s = Some (b, t) \<Longrightarrow> length t < length s"
  by (cases s rule: percent_triple.cases) (auto split: if_splits option.splits)

lemma continuation_shorter: "continuation n p s = Some (q, t) \<Longrightarrow> length t \<le> length s"
proof (induction n arbitrary: p s)
  case (Suc n)
  then obtain b s' where b: "percent_triple s = Some (b, s')" "continuation n (64 * p + (b - 128)) s' = Some (q, t)"
    by (auto split: option.splits if_splits)
  with Suc.IH [OF b(2)] percent_triple_shorter [OF b(1)] show ?case by simp
qed simp

lemma decode_escape_shorter: "decode_escape s = Some (w, t) \<Longrightarrow> length t < length s"
  unfolding decode_escape_def Let_def
  by (auto split: option.splits if_splits prod.splits
      dest!: percent_triple_shorter continuation_shorter)

function decode_uri_component :: "jsstr \<Rightarrow> jsstr option" where
  "decode_uri_component [] = Some []"
| "decode_uri_component (c # s) =
     (if c = 37 then
        (case decode_escape (c # s) of
           None \<Rightarrow> None
         | Some (w, t) \<Rightarrow> map_option ((@) w) (decode_uri_component t))
      else map_option ((#) c) (decode_uri_component s))"
  by pat_completeness auto
termination
  by (relation "measure length") (auto dest: decode_escape_shorter)

lemma decode_uri_plain: "37 \<notin> set s \<Longrightarrow> decode_uri_component s = Some s"
  by (induction s) auto

end
