(* ===== verification/Js_Runtime.thy ===== *)
theory Js_Runtime
  imports Js_Strings "HOL-Library.AList"
begin

text \<open>
  Values of the JavaScript runtime shared by the components: what \<open>throw\<close> can
  throw, numbers that may not be integers, the insertion-ordered \<open>Map\<close>, and the
  race of a promise against a timer. Also the bounded memo, the interface that two
  components implement with the same eviction rule.
\<close>

section \<open>Thrown values\<close>

text \<open>
  \<open>catch (error)\<close> receives any value. An \<open>Error\<close> object carries its class
  (\<open>constructor.name\<close>), its \<open>name\<close>, its \<open>message\<close>, an optional string \<open>code\<close>
  (an SQLSTATE for a pg error, an errno name for a socket error), an optional \<open>cause\<close>,
  and the two fields the AWS SDK adds: \<open>$retryable.throttling === true\<close> and a numeric
  \<open>$metadata.httpStatusCode\<close>. A \<open>cause\<close> chain can be cyclic at run time, so the type
  is a codatatype. Any other value is represented by its \<open>typeof\<close> and its \<open>String(_)\<close>.
\<close>

codatatype thrown =
    Err (err_class: jsstr) (err_name: jsstr) (err_message: jsstr) (err_code: "jsstr option")
        (err_cause: "thrown option") (err_throttling: bool) (err_status: "int option")
  | NonErr (thrown_typeof: jsstr) (thrown_text: jsstr)

text \<open>\<open>error instanceof Error ? error.message : String(error)\<close>, which most modules define.\<close>

definition error_message :: "thrown \<Rightarrow> jsstr" where
  "error_message e = (case e of Err _ _ m _ _ _ _ \<Rightarrow> m | NonErr _ t \<Rightarrow> t)"

text \<open>\<open>new Error(message)\<close>.\<close>

definition new_error :: "jsstr \<Rightarrow> thrown" where
  "new_error m = Err (js ''Error'') (js ''Error'') m None None False None"

text \<open>\<open>error instanceof Error ? error.constructor.name : typeof error\<close>.\<close>

definition error_type :: "thrown \<Rightarrow> jsstr" where
  "error_type e = (case e of Err c _ _ _ _ _ _ \<Rightarrow> c | NonErr t _ \<Rightarrow> t)"

lemma error_message_simps [simp]:
  "error_message (Err c n m k r t s) = m"
  "error_message (NonErr ty x) = x"
  by (simp_all add: error_message_def)

lemma error_type_simps [simp]:
  "error_type (Err c n m k r t s) = c"
  "error_type (NonErr ty x) = ty"
  by (simp_all add: error_type_def)

lemma is_Err_new_error [simp]: "is_Err (new_error m)"
  by (simp add: new_error_def)

lemma error_message_new_error [simp]: "error_message (new_error m) = m"
  by (simp add: new_error_def)

text \<open>What an awaited call returns: a rejection or a value.\<close>

type_synonym 'a outcome = "thrown + 'a"

section \<open>Numbers supplied by a caller\<close>

text \<open>
  A number option is an integer or a double that is not one (a fraction, NaN or an
  infinity), kept as its \<open>String(_)\<close>; \<open>Number.isInteger\<close> tells them apart.
\<close>

datatype js_num = Integral int | NonIntegral jsstr

definition positive_integer :: "js_num \<Rightarrow> bool" where
  "positive_integer x = (case x of Integral n \<Rightarrow> 0 < n | NonIntegral _ \<Rightarrow> False)"

definition non_negative_integer :: "js_num \<Rightarrow> bool" where
  "non_negative_integer x = (case x of Integral n \<Rightarrow> 0 \<le> n | NonIntegral _ \<Rightarrow> False)"

definition num_val :: "js_num \<Rightarrow> nat" where
  "num_val x = (case x of Integral n \<Rightarrow> nat n | NonIntegral _ \<Rightarrow> 0)"

section \<open>The insertion-ordered Map\<close>

text \<open>
  A \<open>Map\<close> is an association list in insertion order. \<open>set\<close> on an existing key keeps
  its place, on a new key appends, which is what \<open>AList.update\<close> does.
\<close>

type_synonym ('k, 'v) js_map = "('k \<times> 'v) list"

definition wf_map :: "('k, 'v) js_map \<Rightarrow> bool" where
  "wf_map m \<longleftrightarrow> distinct (map fst m)"

abbreviation map_get :: "('k, 'v) js_map \<Rightarrow> 'k \<Rightarrow> 'v option" where
  "map_get \<equiv> map_of"

definition map_has :: "('k, 'v) js_map \<Rightarrow> 'k \<Rightarrow> bool" where
  "map_has m k \<longleftrightarrow> k \<in> fst ` set m"

definition map_set :: "'k \<Rightarrow> 'v \<Rightarrow> ('k, 'v) js_map \<Rightarrow> ('k, 'v) js_map" where
  "map_set = AList.update"

definition map_delete :: "'k \<Rightarrow> ('k, 'v) js_map \<Rightarrow> ('k, 'v) js_map" where
  "map_delete = AList.delete"

text \<open>\<open>m.keys().next().value\<close>.\<close>

definition first_key :: "('k, 'v) js_map \<Rightarrow> 'k option" where
  "first_key m = (case m of [] \<Rightarrow> None | p # _ \<Rightarrow> Some (fst p))"

lemma map_get_set [simp]: "map_get (map_set k v m) k' = (if k' = k then Some v else map_get m k')"
  by (simp add: map_set_def update_conv')

lemma map_get_delete [simp]: "map_get (map_delete k m) k' = (if k' = k then None else map_get m k')"
  by (simp add: map_delete_def delete_conv')

lemma wf_map_Nil [simp]: "wf_map []"
  by (simp add: wf_map_def)

lemma wf_map_set [simp]: "wf_map m \<Longrightarrow> wf_map (map_set k v m)"
  by (simp add: wf_map_def map_set_def distinct_update)

lemma wf_map_delete [simp]: "wf_map m \<Longrightarrow> wf_map (map_delete k m)"
  by (simp add: wf_map_def map_delete_def distinct_delete)

lemma map_has_iff: "map_has m k \<longleftrightarrow> map_get m k \<noteq> None"
  by (simp add: map_has_def map_of_eq_None_iff)

lemma length_map_set: "length (map_set k v m) = (if map_has m k then length m else Suc (length m))"
  unfolding map_set_def map_has_def
  by (induction m) auto

lemma map_set_new: "\<not> map_has m k \<Longrightarrow> map_set k v m = m @ [(k, v)]"
  unfolding map_set_def map_has_def
  by (induction m) auto

lemma map_delete_hd: "wf_map ((k, v) # m) \<Longrightarrow> map_delete k ((k, v) # m) = m"
proof -
  assume "wf_map ((k, v) # m)"
  then have "k \<notin> fst ` set m" by (simp add: wf_map_def)
  then have "AList.delete k m = m" by (rule delete_id)
  then show ?thesis by (simp add: map_delete_def)
qed

section \<open>The bounded memo\<close>

text \<open>
  Two modules keep a process-local \<open>Map\<close> bounded by evicting the oldest key
  before an insertion that would exceed the bound. The contract: the new entry is
  found, no other entry changes its value (it may disappear), the size never
  exceeds the bound, and the entry of an already present key evicts nothing.
\<close>

locale bounded_memo =
  fixes remember :: "nat \<Rightarrow> 'k \<Rightarrow> 'v \<Rightarrow> ('k, 'v) js_map \<Rightarrow> ('k, 'v) js_map"
  assumes remember_wf: "wf_map m \<Longrightarrow> wf_map (remember n k v m)"
    and remember_get: "wf_map m \<Longrightarrow> map_get (remember n k v m) k = Some v"
    and remember_other:
      "wf_map m \<Longrightarrow> k' \<noteq> k \<Longrightarrow> map_get (remember n k v m) k' = Some w \<Longrightarrow> map_get m k' = Some w"
    and remember_bound: "wf_map m \<Longrightarrow> 0 < n \<Longrightarrow> length m \<le> n \<Longrightarrow> length (remember n k v m) \<le> n"
    and remember_present:
      "wf_map m \<Longrightarrow> map_has m k \<Longrightarrow> k' \<noteq> k \<Longrightarrow> map_get (remember n k v m) k' = map_get m k'"
begin

text \<open>A sequence of insertions into an empty memo.\<close>

fun remember_all :: "nat \<Rightarrow> ('k \<times> 'v) list \<Rightarrow> ('k, 'v) js_map \<Rightarrow> ('k, 'v) js_map" where
  "remember_all n [] m = m"
| "remember_all n ((k, v) # ps) m = remember_all n ps (remember n k v m)"

lemma remember_all_bounded:
  assumes "wf_map m" and "0 < n" and "length m \<le> n"
  shows "wf_map (remember_all n ps m) \<and> length (remember_all n ps m) \<le> n"
  using assms
  by (induction n ps m rule: remember_all.induct) (auto simp: remember_wf remember_bound)

text \<open>A predicate on entries that every insertion satisfies holds of every entry.\<close>

lemma remember_entries:
  assumes "wf_map m" and "P k v" and "\<And>k' w. map_get m k' = Some w \<Longrightarrow> P k' w"
  shows "map_get (remember n k v m) k' = Some w \<Longrightarrow> P k' w"
  using assms by (cases "k' = k") (auto simp: remember_get dest: remember_other)

end

section \<open>A promise raced against a timer\<close>

text \<open>
  \<open>Promise.race([operation, timeout])\<close> settles with whichever settles first. The
  order in which the event loop runs the two is an input: \<open>Settled r\<close> when the
  operation settled first, with its outcome, \<open>Timed_out\<close> when the timer fired first.
\<close>

datatype 'a raced = Settled "'a outcome" | Timed_out

end
