(* ===== verification/Js_Json.thy ===== *)
theory Js_Json
  imports Js_Regex Js_Unicode Js_Runtime
begin

text \<open>
  JSON values, \<open>JSON.stringify\<close> without an indent and \<open>JSON.parse\<close> without a reviver.

  A number that is an integer is \<open>JInt\<close>; any other number is kept as its literal text
  (\<open>JNum\<close>), because the program never computes with one. Rounding of integers above
  \<open>2 ^ 53\<close> is not modelled. An object is the list of its members in insertion order;
  \<open>JSON.parse\<close> lets the last duplicate win in the place of the first, as \<open>map_set\<close>
  does. The parser takes fuel; \<open>parse_fuel\<close> shows that twice the length of the text
  plus two is enough, so \<open>json_parse\<close> fails on syntax errors only.
\<close>

section \<open>Values and text\<close>

datatype json =
    JNull
  | JBool bool
  | JInt int
  | JNum jsstr
  | JStr jsstr
  | JArr "json list"
  | JObj "(jsstr \<times> json) list"

definition lower_hex :: "nat \<Rightarrow> nat" where
  "lower_hex d = (if d < 10 then 48 + d else 87 + d)"

definition hex4 :: "nat \<Rightarrow> jsstr" where
  "hex4 c = map lower_hex [c div 4096 mod 16, c div 256 mod 16, c div 16 mod 16, c mod 16]"

text \<open>One code point inside a quoted string; an unpaired surrogate is escaped.\<close>

definition quote_char :: "jsstr \<Rightarrow> jsstr" where
  "quote_char w =
     (case w of
        [c] \<Rightarrow>
          if c = 34 \<or> c = 92 then [92, c]
          else if c = 8 then [92, 98] else if c = 12 then [92, 102]
          else if c = 10 then [92, 110] else if c = 13 then [92, 114]
          else if c = 9 then [92, 116]
          else if c < 32 \<or> is_surrogate c then [92, 117] @ hex4 c
          else [c]
      | _ \<Rightarrow> w)"

definition quote :: "jsstr \<Rightarrow> jsstr" where
  "quote s = [34] @ concat (map quote_char (chars s)) @ [34]"

definition dec_signed :: "int \<Rightarrow> jsstr" where
  "dec_signed n = (if n < 0 then [45] else []) @ dec (nat \<bar>n\<bar>)"

fun stringify :: "json \<Rightarrow> jsstr" where
  "stringify JNull = js ''null''"
| "stringify (JBool b) = (if b then js ''true'' else js ''false'')"
| "stringify (JInt n) = dec_signed n"
| "stringify (JNum t) = t"
| "stringify (JStr s) = quote s"
| "stringify (JArr vs) = [91] @ join_with [44] (map stringify vs) @ [93]"
| "stringify (JObj ms) =
     [123] @ join_with [44] (map (\<lambda>(k, v). quote k @ [58] @ stringify v) ms) @ [125]"

section \<open>The parser\<close>

definition json_space :: "nat \<Rightarrow> bool" where
  "json_space c \<longleftrightarrow> c = 9 \<or> c = 10 \<or> c = 13 \<or> c = 32"

definition skip_ws :: "jsstr \<Rightarrow> jsstr" where
  "skip_ws s = dropWhile json_space s"

definition simple_escape :: "nat \<Rightarrow> nat option" where
  "simple_escape e =
     (if e = 34 \<or> e = 92 \<or> e = 47 then Some e
      else if e = 98 then Some 8 else if e = 102 then Some 12
      else if e = 110 then Some 10 else if e = 114 then Some 13
      else if e = 116 then Some 9 else None)"

definition hex4_val :: "nat \<Rightarrow> nat \<Rightarrow> nat \<Rightarrow> nat \<Rightarrow> nat option" where
  "hex4_val a b c d =
     (case (hex_val a, hex_val b, hex_val c, hex_val d) of
        (Some w, Some x, Some y, Some z) \<Rightarrow> Some (4096 * w + 256 * x + 16 * y + z)
      | _ \<Rightarrow> None)"

definition cons_fst :: "'a \<Rightarrow> ('a list \<times> 'b) option \<Rightarrow> ('a list \<times> 'b) option" where
  "cons_fst x = map_option (\<lambda>(xs, r). (x # xs, r))"

text \<open>The body of a string literal, after the opening quote; the rest follows the closing one.\<close>

fun parse_chars :: "jsstr \<Rightarrow> (jsstr \<times> jsstr) option" where
  "parse_chars [] = None"
| "parse_chars [c] = (if c = 34 then Some ([], []) else None)"
| "parse_chars (c # e # s) =
     (if c = 34 then Some ([], e # s)
      else if c < 32 then None
      else if c \<noteq> 92 then cons_fst c (parse_chars (e # s))
      else
        (case simple_escape e of
           Some x \<Rightarrow> cons_fst x (parse_chars s)
         | None \<Rightarrow>
             if e = 117 then
               (case s of
                  h1 # h2 # h3 # h4 # t \<Rightarrow>
                    (case hex4_val h1 h2 h3 h4 of
                       Some x \<Rightarrow> cons_fst x (parse_chars t)
                     | None \<Rightarrow> None)
                | _ \<Rightarrow> None)
             else None))"

definition number_char :: "nat \<Rightarrow> bool" where
  "number_char c \<longleftrightarrow> is_digit c \<or> c = 43 \<or> c = 45 \<or> c = 46 \<or> c = 69 \<or> c = 101"

definition NATURAL :: regex where
  "NATURAL = Alt (Lit [48]) (Cat (Cls (\<lambda>c. 49 \<le> c \<and> c \<le> 57)) (Star (Cls is_digit)))"

definition NUMBER :: regex where
  "NUMBER =
     Cat (Opt (Lit [45]))
       (Cat NATURAL
         (Cat (Opt (Cat (Lit [46]) (Plus (Cls is_digit))))
              (Opt (Cat (Cls (\<lambda>c. c = 69 \<or> c = 101))
                        (Cat (Opt (Cls (\<lambda>c. c = 43 \<or> c = 45))) (Plus (Cls is_digit)))))))"

text \<open>An integer literal other than \<open>-0\<close> is an integer; any other number keeps its text.\<close>

definition number_value :: "jsstr \<Rightarrow> json option" where
  "number_value t =
     (if matches NATURAL t then Some (JInt (int (undec t)))
      else if t \<noteq> [] \<and> hd t = 45 \<and> tl t \<noteq> [48] \<and> matches NATURAL (tl t)
           then Some (JInt (- int (undec (tl t))))
      else if matches NUMBER t then Some (JNum t)
      else None)"

definition literal :: "jsstr \<Rightarrow> json \<Rightarrow> jsstr \<Rightarrow> (json \<times> jsstr) option" where
  "literal word v s = (if starts_with s word then Some (v, drop (length word) s) else None)"

fun parse_value :: "nat \<Rightarrow> jsstr \<Rightarrow> (json \<times> jsstr) option"
  and parse_elements :: "nat \<Rightarrow> jsstr \<Rightarrow> (json list \<times> jsstr) option"
  and parse_members :: "nat \<Rightarrow> jsstr \<Rightarrow> (jsstr, json) js_map \<Rightarrow> ((jsstr \<times> json) list \<times> jsstr) option"
where
  "parse_value 0 s = None"
| "parse_value (Suc n) s =
     (case s of
        [] \<Rightarrow> None
      | c # t \<Rightarrow>
          if c = 123 then
            (case skip_ws t of
               [] \<Rightarrow> None
             | d # u \<Rightarrow>
                 if d = 125 then Some (JObj [], u)
                 else map_option (\<lambda>(ms, r). (JObj ms, r)) (parse_members n (d # u) []))
          else if c = 91 then
            (case skip_ws t of
               [] \<Rightarrow> None
             | d # u \<Rightarrow>
                 if d = 93 then Some (JArr [], u)
                 else map_option (\<lambda>(vs, r). (JArr vs, r)) (parse_elements n (d # u)))
          else if c = 34 then map_option (\<lambda>(x, r). (JStr x, r)) (parse_chars t)
          else if c = 110 then literal (js ''null'') JNull s
          else if c = 116 then literal (js ''true'') (JBool True) s
          else if c = 102 then literal (js ''false'') (JBool False) s
          else
            map_option (\<lambda>v. (v, dropWhile number_char s)) (number_value (takeWhile number_char s)))"
| "parse_elements 0 s = None"
| "parse_elements (Suc n) s =
     (case parse_value n s of
        None \<Rightarrow> None
      | Some (v, r) \<Rightarrow>
          (case skip_ws r of
             [] \<Rightarrow> None
           | c # t \<Rightarrow>
               if c = 93 then Some ([v], t)
               else if c = 44 then cons_fst v (parse_elements n (skip_ws t))
               else None))"
| "parse_members 0 s acc = None"
| "parse_members (Suc n) s acc =
     (case s of
        [] \<Rightarrow> None
      | q # s1 \<Rightarrow>
          if q \<noteq> 34 then None
          else
            (case parse_chars s1 of
               None \<Rightarrow> None
             | Some (k, s2) \<Rightarrow>
                 (case skip_ws s2 of
                    [] \<Rightarrow> None
                  | c # s3 \<Rightarrow>
                      if c \<noteq> 58 then None
                      else
                        (case parse_value n (skip_ws s3) of
                           None \<Rightarrow> None
                         | Some (v, r) \<Rightarrow>
                             (case skip_ws r of
                                [] \<Rightarrow> None
                              | d # t \<Rightarrow>
                                  if d = 125 then Some (map_set k v acc, t)
                                  else if d = 44 then
                                    parse_members n (skip_ws t) (map_set k v acc)
                                  else None)))))"

text \<open>\<open>JSON.parse\<close>; \<open>None\<close> is the \<open>SyntaxError\<close>.\<close>

definition json_parse :: "jsstr \<Rightarrow> json option" where
  "json_parse s =
     (case parse_value (2 * length s + 2) (skip_ws s) of
        Some (v, r) \<Rightarrow> if skip_ws r = [] then Some v else None
      | None \<Rightarrow> None)"

section \<open>Fuel\<close>

lemma length_skip_ws: "length (skip_ws s) \<le> length s"
  by (simp add: skip_ws_def length_dropWhile_le)

lemma skip_ws_Cons_length: "skip_ws s = c # t \<Longrightarrow> length t < length s"
  using length_skip_ws [of s] by simp

lemma parse_chars_shorter: "parse_chars s = Some (x, r) \<Longrightarrow> length r < length s"
proof (induction s arbitrary: x r rule: parse_chars.induct)
  case (3 c e s)
  then show ?case
    by (fastforce simp: cons_fst_def split: if_splits option.splits list.splits)
qed (auto split: if_splits)

lemma literal_shorter: "literal w v s = Some (x, r) \<Longrightarrow> w \<noteq> [] \<Longrightarrow> s \<noteq> [] \<Longrightarrow> length r < length s"
  by (auto simp: literal_def split: if_splits)

lemma number_value_Nil: "number_value [] = None"
  by (simp add: number_value_def NATURAL_def NUMBER_def matches_Cat)

lemma number_shorter:
  assumes "number_value (takeWhile number_char s) = Some v"
  shows "length (dropWhile number_char s) < length s"
proof -
  have "takeWhile number_char s \<noteq> []"
    using assms number_value_Nil by auto
  then have "0 < length (takeWhile number_char s)" by simp
  moreover have "length s = length (takeWhile number_char s) + length (dropWhile number_char s)"
    by (metis length_append takeWhile_dropWhile_id)
  ultimately show ?thesis by linarith
qed

text \<open>One step of each of the list parsers, read backwards from a success.\<close>

lemma parse_elements_step:
  assumes "parse_elements (Suc n) s = Some (vs, r)"
  obtains v r1 c t where "parse_value n s = Some (v, r1)" "skip_ws r1 = c # t"
    "c = 93 \<and> vs = [v] \<and> r = t \<or>
     c = 44 \<and> (\<exists>vs'. parse_elements n (skip_ws t) = Some (vs', r) \<and> vs = v # vs')"
  using assms by (auto simp: cons_fst_def split: option.splits list.splits if_splits)

lemma parse_members_step:
  assumes "parse_members (Suc n) s acc = Some (ms, r)"
  obtains s1 k s2 s3 v r1 d t where "s = 34 # s1" "parse_chars s1 = Some (k, s2)"
    "skip_ws s2 = 58 # s3" "parse_value n (skip_ws s3) = Some (v, r1)" "skip_ws r1 = d # t"
    "d = 125 \<and> ms = map_set k v acc \<and> r = t \<or>
     d = 44 \<and> parse_members n (skip_ws t) (map_set k v acc) = Some (ms, r)"
  using assms by (auto split: option.splits list.splits if_splits)

text \<open>How a value parser succeeds, by the first character.\<close>

lemma parse_value_step:
  assumes "parse_value (Suc n) s = Some (v, r)"
  obtains t u where "s = 123 # t" "skip_ws t = 125 # u" "v = JObj []" "r = u"
  | t d u ms where "s = 123 # t" "skip_ws t = d # u" "d \<noteq> 125"
      "parse_members n (d # u) [] = Some (ms, r)" "v = JObj ms"
  | t u where "s = 91 # t" "skip_ws t = 93 # u" "v = JArr []" "r = u"
  | t d u vs where "s = 91 # t" "skip_ws t = d # u" "d \<noteq> 93"
      "parse_elements n (d # u) = Some (vs, r)" "v = JArr vs"
  | "length r < length s"
proof -
  from assms obtain c t where s: "s = c # t" by (cases s) auto
  consider "c = 123" | "c = 91" | "c \<noteq> 123" "c \<noteq> 91" by blast
  then show thesis
  proof cases
    case 1
    with assms s that(1,2) show thesis by (auto split: list.splits if_splits)
  next
    case 2
    with assms s that(3,4) show thesis by (auto split: list.splits if_splits)
  next
    case 3
    with assms s have "length r < length s"
      by (auto simp: number_value_Nil length_dropWhile_le le_imp_less_Suc split: if_splits
          dest!: parse_chars_shorter dest: literal_shorter)
    then show thesis by (rule that(5))
  qed
qed

lemma parse_shorter_all:
  "(\<forall>s v r. parse_value n s = Some (v, r) \<longrightarrow> length r < length s) \<and>
   (\<forall>s vs r. parse_elements n s = Some (vs, r) \<longrightarrow> length r < length s) \<and>
   (\<forall>s acc ms r. parse_members n s acc = Some (ms, r) \<longrightarrow> length r < length s)"
proof (induction n)
  case (Suc n)
  then have V: "\<And>s v r. parse_value n s = Some (v, r) \<Longrightarrow> length r < length s"
    and E: "\<And>s vs r. parse_elements n s = Some (vs, r) \<Longrightarrow> length r < length s"
    and M: "\<And>s acc ms r. parse_members n s acc = Some (ms, r) \<Longrightarrow> length r < length s"
    by blast+
  have "length r < length s" if "parse_value (Suc n) s = Some (v, r)" for s v r
    using that
  proof (cases rule: parse_value_step)
    case (2 t d u ms)
    then show ?thesis using M skip_ws_Cons_length by fastforce
  next
    case (4 t d u vs)
    then show ?thesis using E skip_ws_Cons_length by fastforce
  qed (use skip_ws_Cons_length in fastforce)+
  moreover have "length r < length s" if "parse_elements (Suc n) s = Some (vs, r)" for s vs r
    using that
  proof (cases rule: parse_elements_step)
    case (1 v r1 c t)
    then show ?thesis
      using V [OF 1(1)] skip_ws_Cons_length [OF 1(2)] E [of "skip_ws t"] length_skip_ws [of t]
      by fastforce
  qed
  moreover have "length r < length s" if "parse_members (Suc n) s acc = Some (ms, r)" for s acc ms r
    using that
  proof (cases rule: parse_members_step)
    case (1 s1 k s2 s3 v r1 d t)
    have "length s3 < length s"
      using parse_chars_shorter [OF 1(2)] skip_ws_Cons_length [OF 1(3)] 1(1) by simp
    then have "length t < length s"
      using V [OF 1(4)] length_skip_ws [of s3] skip_ws_Cons_length [OF 1(5)] by simp
    then show ?thesis
      using 1(6) M [of "skip_ws t"] length_skip_ws [of t] by fastforce
  qed
  ultimately show ?case by blast
qed simp

lemmas parse_shorter =
  parse_shorter_all [THEN conjunct1, rule_format]
  parse_shorter_all [THEN conjunct2, THEN conjunct1, rule_format]
  parse_shorter_all [THEN conjunct2, THEN conjunct2, rule_format]

text \<open>Twice the length plus one (two for the list parsers) is enough fuel.\<close>

lemma parse_fuel_step:
  "(\<forall>s. 2 * length s + 1 \<le> n \<longrightarrow> parse_value n s = parse_value (Suc n) s) \<and>
   (\<forall>s. 2 * length s + 2 \<le> n \<longrightarrow> parse_elements n s = parse_elements (Suc n) s) \<and>
   (\<forall>s acc. 2 * length s + 2 \<le> n \<longrightarrow> parse_members n s acc = parse_members (Suc n) s acc)"
proof (induction n)
  case (Suc n)
  then have V: "\<And>s. 2 * length s + 1 \<le> n \<Longrightarrow> parse_value (Suc n) s = parse_value n s"
    and E: "\<And>s. 2 * length s + 2 \<le> n \<Longrightarrow> parse_elements (Suc n) s = parse_elements n s"
    and M: "\<And>s acc. 2 * length s + 2 \<le> n \<Longrightarrow> parse_members (Suc n) s acc = parse_members n s acc"
    by simp_all
  have "parse_value (Suc n) s = parse_value (Suc (Suc n)) s" if le: "2 * length s + 1 \<le> Suc n" for s
  proof -
    have "parse_elements (Suc n) (d # u) = parse_elements n (d # u)"
      and "parse_members (Suc n) (d # u) acc = parse_members n (d # u) acc"
      if "s = c # t" "skip_ws t = d # u" for c t d u acc
    proof -
      have "2 * length (d # u) + 2 \<le> n"
        using that le length_skip_ws [of t] by simp
      then show "parse_elements (Suc n) (d # u) = parse_elements n (d # u)"
        and "parse_members (Suc n) (d # u) acc = parse_members n (d # u) acc"
        by (rule E, rule M)
    qed
    then show ?thesis
      unfolding parse_value.simps(2) [of n] parse_value.simps(2) [of "Suc n"]
      by (auto split: list.split simp del: parse_elements.simps parse_members.simps)
  qed
  moreover have "parse_elements (Suc n) s = parse_elements (Suc (Suc n)) s"
    if le: "2 * length s + 2 \<le> Suc n" for s
  proof -
    have "parse_elements (Suc n) (skip_ws t) = parse_elements n (skip_ws t)"
      if "parse_value n s = Some (v, r)" "skip_ws r = c # t" for v r c t
      using le parse_shorter(1) [OF that(1)] skip_ws_Cons_length [OF that(2)] length_skip_ws [of t]
      by (intro E) linarith
    moreover have "parse_value (Suc n) s = parse_value n s"
      using le by (intro V) linarith
    ultimately show ?thesis
      unfolding parse_elements.simps(2) [of n] parse_elements.simps(2) [of "Suc n"]
      by (auto split: option.split list.split simp del: parse_elements.simps parse_value.simps)
  qed
  moreover have "parse_members (Suc n) s acc = parse_members (Suc (Suc n)) s acc"
    if le: "2 * length s + 2 \<le> Suc n" for s acc
  proof -
    have v: "parse_value (Suc n) (skip_ws s3) = parse_value n (skip_ws s3)"
      and m: "parse_value n (skip_ws s3) = Some (v, r) \<Longrightarrow> skip_ws r = d # t \<Longrightarrow>
        parse_members (Suc n) (skip_ws t) acc' = parse_members n (skip_ws t) acc'"
      if "s = q # s1" "parse_chars s1 = Some (k, s2)" "skip_ws s2 = c # s3" for q s1 k s2 c s3 v r d t acc'
    proof -
      have s3: "length s3 + 1 < length s"
        using that(1) parse_chars_shorter [OF that(2)] skip_ws_Cons_length [OF that(3)] by simp
      then show "parse_value (Suc n) (skip_ws s3) = parse_value n (skip_ws s3)"
        using le length_skip_ws [of s3] by (intro V) linarith
      assume r: "parse_value n (skip_ws s3) = Some (v, r)" and t: "skip_ws r = d # t"
      show "parse_members (Suc n) (skip_ws t) acc' = parse_members n (skip_ws t) acc'"
        using le s3 length_skip_ws [of s3] parse_shorter(1) [OF r] skip_ws_Cons_length [OF t]
          length_skip_ws [of t]
        by (intro M) linarith
    qed
    show ?thesis
    proof (cases "\<exists>q s1 k s2 c s3. s = q # s1 \<and> parse_chars s1 = Some (k, s2) \<and> skip_ws s2 = c # s3")
      case True
      then obtain q s1 k s2 c s3
        where h: "s = q # s1" "parse_chars s1 = Some (k, s2)" "skip_ws s2 = c # s3" by blast
      show ?thesis
      proof (cases "\<exists>v r d t. parse_value n (skip_ws s3) = Some (v, r) \<and> skip_ws r = d # t")
        case True
        then obtain v r d t
          where g: "parse_value n (skip_ws s3) = Some (v, r)" "skip_ws r = d # t" by blast
        show ?thesis
          unfolding parse_members.simps(2) [of "Suc n" s acc] parse_members.simps(2) [of n s acc]
          by (simp only: h list.case option.case prod.case v [OF h] g m [OF h g])
      next
        case False
        then have "parse_value n (skip_ws s3) = None \<or>
            (\<exists>v r. parse_value n (skip_ws s3) = Some (v, r) \<and> skip_ws r = [])"
          by (metis list.exhaust not_Some_eq old.prod.exhaust)
        then show ?thesis
          unfolding parse_members.simps(2) [of "Suc n" s acc] parse_members.simps(2) [of n s acc]
          by (elim disjE exE conjE) (simp_all only: h list.case option.case prod.case v [OF h])
      qed
    next
      case False
      then have "s = [] \<or> (\<exists>q s1. s = q # s1 \<and> (parse_chars s1 = None \<or>
          (\<exists>k s2. parse_chars s1 = Some (k, s2) \<and> skip_ws s2 = [])))"
        by (metis list.exhaust not_Some_eq old.prod.exhaust)
      then show ?thesis
        unfolding parse_members.simps(2) [of "Suc n" s acc] parse_members.simps(2) [of n s acc]
        by (elim disjE exE conjE) (simp_all only: list.case option.case prod.case if_cancel)
    qed
  qed
  ultimately show ?case by blast
qed simp

lemma parse_fuel:
  assumes "2 * length s + 1 \<le> n"
  shows "parse_value n s = parse_value (2 * length s + 1) s"
  using assms
proof (induction n rule: dec_induct)
  case (step n)
  then show ?case using parse_fuel_step [of n] by simp
qed simp

section \<open>Parsing what was printed\<close>

text \<open>
  A printable value: member names distinct in every object, and no number kept as text.
\<close>

fun wf_json :: "json \<Rightarrow> bool" where
  "wf_json (JNum t) = False"
| "wf_json (JArr vs) = (\<forall>v \<in> set vs. wf_json v)"
| "wf_json (JObj ms) = (distinct (map fst ms) \<and> (\<forall>p \<in> set ms. wf_json (snd p)))"
| "wf_json v = True"

lemma hex_val_lower_hex: "d < 16 \<Longrightarrow> hex_val (lower_hex d) = Some d"
  by (auto simp: hex_val_def lower_hex_def is_digit_def)

lemma hex4_val_hex4:
  assumes "c < 65536"
  shows "hex4_val (lower_hex (c div 4096 mod 16)) (lower_hex (c div 256 mod 16))
           (lower_hex (c div 16 mod 16)) (lower_hex (c mod 16)) = Some c"
proof -
  have "4096 * (c div 4096 mod 16) + 256 * (c div 256 mod 16) + 16 * (c div 16 mod 16) + c mod 16 = c"
  proof -
    have "c div 256 = c div 16 div 16" and "c div 4096 = c div 256 div 16"
      by (simp_all add: div_mult2_eq [symmetric])
    moreover have "c div 4096 mod 16 = c div 4096" using assms by simp
    ultimately show ?thesis
      using mult_div_mod_eq [of 16 c] mult_div_mod_eq [of 16 "c div 16"]
        mult_div_mod_eq [of 16 "c div 256"]
      by linarith
  qed
  then show ?thesis
    by (simp only: hex4_val_def hex_val_lower_hex mod_less_divisor zero_less_numeral
        prod.case option.case)
qed

lemma parse_chars_plain:
  "c \<noteq> 34 \<Longrightarrow> c \<noteq> 92 \<Longrightarrow> \<not> c < 32 \<Longrightarrow> r \<noteq> [] \<Longrightarrow> parse_chars (c # r) = cons_fst c (parse_chars r)"
  by (cases r) simp_all

lemma quote_char_single:
  obtains "c < 32 \<or> is_surrogate c" "quote_char [c] = [92, 117] @ hex4 c"
  | e where "simple_escape e = Some c" "quote_char [c] = [92, e]"
  | "c \<noteq> 34" "c \<noteq> 92" "\<not> c < 32" "quote_char [c] = [c]"
proof -
  consider "c = 34" | "c = 92" | "c = 8" | "c = 12" | "c = 10" | "c = 13" | "c = 9"
    | "c \<notin> {34, 92, 8, 12, 10, 13, 9}" by auto
  then show thesis
  proof cases
    case 8
    then show thesis
      using that(1,3) by (cases "c < 32 \<or> is_surrogate c") (simp_all add: quote_char_def)
  qed (use that(2) in \<open>simp_all add: simple_escape_def quote_char_def\<close>)
qed

lemma parse_quote_char:
  assumes "w \<in> set (chars s)" and "r \<noteq> []"
  shows "parse_chars (quote_char w @ r) = map_option (\<lambda>(x, u). (w @ x, u)) (parse_chars r)"
  using assms(1)
proof (cases rule: chars_cases)
  case (1 c)
  have goal: "map_option (\<lambda>(x, u). (w @ x, u)) (parse_chars r) = cons_fst c (parse_chars r)"
    using 1 by (simp add: cons_fst_def)
  show ?thesis
    unfolding goal
  proof (cases c rule: quote_char_single)
    case A: 1
    then have "c < 65536" by (auto simp: is_surrogate_def is_high_def is_low_def)
    have "parse_chars (92 # 117 # h1 # h2 # h3 # h4 # r) = cons_fst c (parse_chars r)"
      if "hex4_val h1 h2 h3 h4 = Some c" for h1 h2 h3 h4
      using that by (simp add: simple_escape_def)
    from this [OF hex4_val_hex4 [OF \<open>c < 65536\<close>]]
    show "parse_chars (quote_char w @ r) = cons_fst c (parse_chars r)"
      using 1 A(2) unfolding hex4_def by (simp only: list.map append.simps)
  next
    case (2 e)
    then show "parse_chars (quote_char w @ r) = cons_fst c (parse_chars r)"
      using 1 by simp
  next
    case 3
    then show "parse_chars (quote_char w @ r) = cons_fst c (parse_chars r)"
      using 1 assms(2) by (simp add: parse_chars_plain)
  qed
next
  case (2 c d)
  then have "\<not> c < 32" "c \<noteq> 34" "c \<noteq> 92" "\<not> d < 32" "d \<noteq> 34" "d \<noteq> 92"
    by (auto simp: is_high_def is_low_def)
  then show ?thesis
    using 2 assms(2)
    by (simp add: quote_char_def parse_chars_plain cons_fst_def option.map_comp comp_def case_prod_unfold)
qed

lemma parse_quote:
  "parse_chars (concat (map quote_char (chars s)) @ 34 # r) = Some (s, r)"
proof -
  have "parse_chars (concat (map quote_char ws) @ 34 # r) = Some (concat ws, r)"
    if "set ws \<subseteq> set (chars s)" for ws
    using that
  proof (induction ws)
    case Nil
    show ?case by (cases r) simp_all
  next
    case (Cons w ws)
    then show ?case
      using parse_quote_char [of w s "concat (map quote_char ws) @ 34 # r"] by simp
  qed
  then show ?thesis by fastforce
qed

text \<open>Numbers: the longest run of number characters is the printed integer.\<close>

lemma dec_natural: "matches NATURAL (dec n)"
proof (induction n rule: dec.induct)
  case (1 n)
  show ?case
  proof (cases "n < 10")
    case True
    then show ?thesis
      by (subst dec.simps) (auto simp: NATURAL_def matches_Cat_Cls matches_Star_Cls)
  next
    case False
    then have "dec (n div 10) \<noteq> [48]"
      using dec_inject [of "n div 10" 0] by (subst (asm) dec.simps [of 0]) auto
    moreover have "matches NATURAL (dec (n div 10))" using 1 False by blast
    ultimately have "matches (Cat (Cls (\<lambda>c. 49 \<le> c \<and> c \<le> 57)) (Star (Cls is_digit))) (dec (n div 10))"
      by (simp add: NATURAL_def)
    moreover have "is_digit (48 + n mod 10)"
      by (simp add: is_digit_def less_Suc_eq_le [symmetric])
    moreover have "dec n = dec (n div 10) @ [48 + n mod 10]"
      using False by (subst dec.simps) simp
    ultimately show ?thesis
      by (auto simp: NATURAL_def matches_Cat_Cls matches_Star_Cls)
  qed
qed

lemma natural_not_minus: "\<not> matches NATURAL (45 # s)"
  by (simp add: NATURAL_def matches_Cat_Cls)

lemma number_value_dec_signed: "number_value (dec_signed n) = Some (JInt n)"
proof (cases "n < 0")
  case True
  then have "dec (nat (- n)) \<noteq> [48]"
    using dec_inject [of "nat (- n)" 0] by (subst (asm) dec.simps [of 0]) auto
  then show ?thesis
    using True by (simp add: number_value_def dec_signed_def natural_not_minus dec_natural)
qed (simp add: number_value_def dec_signed_def dec_natural)

definition value_end :: "jsstr \<Rightarrow> bool" where
  "value_end r \<longleftrightarrow> (case r of [] \<Rightarrow> True | c # _ \<Rightarrow> \<not> number_char c)"

lemma dec_signed_chars: "\<forall>c \<in> set (dec_signed n). number_char c"
  using dec_digits by (auto simp: dec_signed_def number_char_def)

lemma number_span:
  "value_end r \<Longrightarrow> takeWhile number_char (dec_signed n @ r) = dec_signed n"
  "value_end r \<Longrightarrow> dropWhile number_char (dec_signed n @ r) = r"
  using dec_signed_chars [of n]
  by (auto simp: value_end_def takeWhile_append dropWhile_append split: list.splits)

lemma hd_dec_signed: "\<exists>c t. dec_signed n = c # t \<and> (c = 45 \<or> is_digit c)"
proof -
  obtain c t where "dec (nat \<bar>n\<bar>) = c # t" by (cases "dec (nat \<bar>n\<bar>)") auto
  then show ?thesis using dec_digits [of "nat \<bar>n\<bar>"] by (auto simp: dec_signed_def)
qed

lemma stringify_head:
  assumes "wf_json v"
  shows "\<exists>c t. stringify v = c # t \<and> \<not> json_space c \<and> c \<noteq> 93 \<and> c \<noteq> 125"
  using assms hd_dec_signed
  by (cases v)
     (auto simp: js_def quote_def json_space_def is_digit_def, (fastforce)+)

lemma skip_ws_stringify [simp]: "wf_json v \<Longrightarrow> skip_ws (stringify v @ r) = stringify v @ r"
  using stringify_head [of v] by (auto simp: skip_ws_def)

lemma skip_ws_quote [simp]: "skip_ws (quote s @ r) = quote s @ r"
  by (simp add: quote_def skip_ws_def json_space_def)

text \<open>With enough fuel, a printed value is read back and the rest is left alone.\<close>

definition reads :: "json \<Rightarrow> bool" where
  "reads v \<longleftrightarrow> (\<exists>k. \<forall>n \<ge> k. \<forall>r. value_end r \<longrightarrow> parse_value n (stringify v @ r) = Some (v, r))"

lemma value_end_punct [simp]:
  "value_end (44 # r)" "value_end (93 # r)" "value_end (125 # r)" "value_end []"
  by (simp_all add: value_end_def number_char_def is_digit_def)

lemma skip_ws_punct [simp]:
  "skip_ws (44 # r) = 44 # r" "skip_ws (93 # r) = 93 # r" "skip_ws (125 # r) = 125 # r"
  "skip_ws (58 # r) = 58 # r" "skip_ws [] = []"
  by (simp_all add: skip_ws_def json_space_def)

lemma enough_Suc: "(\<And>n. k \<le> n \<Longrightarrow> P (Suc n)) \<Longrightarrow> \<exists>f. \<forall>n \<ge> f. P n"
proof (rule exI [of _ "Suc k"], intro allI impI)
  fix n assume "\<And>n. k \<le> n \<Longrightarrow> P (Suc n)" and "Suc k \<le> n"
  then show "P n" by (cases n) simp_all
qed

lemma reads_elements:
  assumes "vs \<noteq> []" and "\<forall>v \<in> set vs. wf_json v \<and> reads v"
  shows "\<exists>k. \<forall>n \<ge> k. \<forall>r.
    parse_elements n (join_with [44] (map stringify vs) @ 93 # r) = Some (vs, r)"
  using assms
proof (induction vs rule: list_nonempty_induct)
  case (single v)
  then obtain k where k: "\<forall>n \<ge> k. \<forall>r. value_end r \<longrightarrow> parse_value n (stringify v @ r) = Some (v, r)"
    by (auto simp: reads_def)
  have "parse_elements (Suc n) (stringify v @ 93 # r) = Some ([v], r)" if "k \<le> n" for n r
    using k that by simp
  then show ?case
    by (intro enough_Suc [of k] allI) simp
next
  case (cons v vs)
  then obtain k l
    where k: "\<forall>n \<ge> k. \<forall>r. value_end r \<longrightarrow> parse_value n (stringify v @ r) = Some (v, r)"
      and l: "\<forall>n \<ge> l. \<forall>r. parse_elements n (join_with [44] (map stringify vs) @ 93 # r) = Some (vs, r)"
    by (auto simp: reads_def)
  obtain w ws where vs: "vs = w # ws" using cons by (cases vs) auto
  have ws: "skip_ws (join_with [44] (map stringify vs) @ r) = join_with [44] (map stringify vs) @ r" for r
    using vs cons.prems by (cases ws) simp_all
  have "parse_elements (Suc n) (join_with [44] (map stringify (v # vs)) @ 93 # r) = Some (v # vs, r)"
    if "max k l \<le> n" for n r
  proof -
    have "join_with [44] (map stringify (v # vs)) @ 93 # r =
        stringify v @ 44 # join_with [44] (map stringify vs) @ 93 # r"
      using vs by simp
    then show ?thesis using k l that ws by (simp add: cons_fst_def)
  qed
  then show ?case
    by (intro enough_Suc [of "max k l"] allI)
qed

text \<open>Forward steps of the parsers.\<close>

lemma parse_array:
  "skip_ws t = d # u \<Longrightarrow> d \<noteq> 93 \<Longrightarrow> parse_elements n (d # u) = Some (vs, r) \<Longrightarrow>
   parse_value (Suc n) (91 # t) = Some (JArr vs, r)"
  by simp

lemma parse_object:
  "skip_ws t = d # u \<Longrightarrow> d \<noteq> 125 \<Longrightarrow> parse_members n (d # u) [] = Some (ms, r) \<Longrightarrow>
   parse_value (Suc n) (123 # t) = Some (JObj ms, r)"
  by simp

lemma parse_member_last:
  "parse_chars s1 = Some (k, s2) \<Longrightarrow> skip_ws s2 = 58 # s3 \<Longrightarrow>
   parse_value n (skip_ws s3) = Some (v, r) \<Longrightarrow> skip_ws r = 125 # t \<Longrightarrow>
   parse_members (Suc n) (34 # s1) acc = Some (map_set k v acc, t)"
  by simp

lemma parse_member_more:
  "parse_chars s1 = Some (k, s2) \<Longrightarrow> skip_ws s2 = 58 # s3 \<Longrightarrow>
   parse_value n (skip_ws s3) = Some (v, r) \<Longrightarrow> skip_ws r = 44 # t \<Longrightarrow>
   parse_members (Suc n) (34 # s1) acc = parse_members n (skip_ws t) (map_set k v acc)"
  by simp

declare parse_value.simps(2) [simp del] parse_elements.simps(2) [simp del] parse_members.simps(2) [simp del]

abbreviation print_member :: "jsstr \<times> json \<Rightarrow> jsstr" where
  "print_member \<equiv> \<lambda>(k, v). quote k @ [58] @ stringify v"

lemma reads_members:
  assumes "ms \<noteq> []" and "\<forall>p \<in> set ms. wf_json (snd p) \<and> reads (snd p)"
  shows "\<exists>f. \<forall>n \<ge> f. \<forall>r acc. distinct (map fst acc @ map fst ms) \<longrightarrow>
    parse_members n (join_with [44] (map print_member ms) @ 125 # r) acc = Some (acc @ ms, r)"
  using assms
proof (induction ms rule: list_nonempty_induct)
  case (single p)
  obtain k v where p: "p = (k, v)" by (cases p)
  with single obtain f
    where f: "\<forall>n \<ge> f. \<forall>r. value_end r \<longrightarrow> parse_value n (stringify v @ r) = Some (v, r)"
      and wf: "wf_json v"
    by (auto simp: reads_def)
  have "parse_members (Suc n) (quote k @ 58 # stringify v @ 125 # r) acc = Some (acc @ [(k, v)], r)"
    if "f \<le> n" and "distinct (map fst acc @ [k])" for n r acc
  proof -
    have eq: "quote k @ 58 # stringify v @ 125 # r =
        34 # concat (map quote_char (chars k)) @ 34 # 58 # stringify v @ 125 # r"
      by (simp add: quote_def)
    have "map_set k v acc = acc @ [(k, v)]"
      using that(2) by (auto simp: map_set_new map_has_def)
    moreover have "parse_value n (skip_ws (stringify v @ 125 # r)) = Some (v, 125 # r)"
      using f that(1) skip_ws_stringify [OF wf] by (metis value_end_punct(3))
    ultimately show ?thesis
      unfolding eq
      by (subst parse_member_last [OF parse_quote, of _ _ _ v "125 # r" r]) simp_all
  qed
  then have "parse_members (Suc n) (join_with [44] (map print_member [p]) @ 125 # r) acc = Some (acc @ [p], r)"
    if "f \<le> n" and "distinct (map fst acc @ map fst [p])" for n r acc
    using that p by simp
  then show ?case
    by (intro enough_Suc [of f] allI impI)
next
  case (cons p ms)
  obtain k v where p: "p = (k, v)" by (cases p)
  from cons p obtain f g
    where f: "\<forall>n \<ge> f. \<forall>r. value_end r \<longrightarrow> parse_value n (stringify v @ r) = Some (v, r)"
      and wf: "wf_json v"
      and g: "\<forall>n \<ge> g. \<forall>r acc. distinct (map fst acc @ map fst ms) \<longrightarrow>
        parse_members n (join_with [44] (map print_member ms) @ 125 # r) acc = Some (acc @ ms, r)"
    by (auto simp: reads_def)
  obtain q ws where ms: "ms = q # ws" using cons by (cases ms) auto
  have ws: "skip_ws (join_with [44] (map print_member ms) @ r) = join_with [44] (map print_member ms) @ r" for r
    using ms by (cases ws) (auto simp: case_prod_unfold)
  have "parse_members (Suc n) (join_with [44] (map print_member (p # ms)) @ 125 # r) acc =
      Some (acc @ p # ms, r)"
    if "max f g \<le> n" and "distinct (map fst acc @ map fst (p # ms))" for n r acc
  proof -
    have eq: "join_with [44] (map print_member (p # ms)) @ 125 # r =
        34 # concat (map quote_char (chars k)) @ 34 # 58 # stringify v @ 44 #
        join_with [44] (map print_member ms) @ 125 # r"
      using ms p by (simp add: quote_def)
    have "map_set k v acc = acc @ [(k, v)]"
      using that(2) p by (auto simp: map_set_new map_has_def)
    moreover have "parse_value n (skip_ws (stringify v @ 44 # join_with [44] (map print_member ms) @ 125 # r)) =
        Some (v, 44 # join_with [44] (map print_member ms) @ 125 # r)"
      using f that(1) skip_ws_stringify [OF wf] by (metis value_end_punct(1) max.bounded_iff)
    moreover have "distinct (map fst (acc @ [(k, v)]) @ map fst ms)"
      using that(2) p by auto
    then have rest: "parse_members n (join_with [44] (map print_member ms) @ 125 # r) (acc @ [(k, v)]) =
        Some ((acc @ [(k, v)]) @ ms, r)"
      using g that(1) by auto
    ultimately have "parse_members (Suc n) (34 # concat (map quote_char (chars k)) @ 34 # 58 #
        stringify v @ 44 # join_with [44] (map print_member ms) @ 125 # r) acc =
        parse_members n (skip_ws (join_with [44] (map print_member ms) @ 125 # r)) (acc @ [(k, v)])"
      by (metis parse_member_more parse_quote skip_ws_punct(1,4))
    also have "\<dots> = Some (acc @ p # ms, r)"
      using rest p unfolding ws by simp
    finally show ?thesis unfolding eq .
  qed
  then show ?case
    by (intro enough_Suc [of "max f g"] allI impI)
qed

lemma reads_Suc:
  assumes "\<And>n r. k \<le> n \<Longrightarrow> value_end r \<Longrightarrow> parse_value (Suc n) (stringify v @ r) = Some (v, r)"
  shows "reads v"
  unfolding reads_def
  by (intro enough_Suc [of k] allI impI) (rule assms)

lemma reads_JNull: "reads JNull"
  by (rule reads_Suc [of 0]) (simp add: parse_value.simps(2) js_def literal_def starts_with_def)

lemma reads_JBool: "reads (JBool b)"
  by (cases b; rule reads_Suc [of 0]; simp add: parse_value.simps(2) js_def literal_def starts_with_def)

lemma reads_JStr: "reads (JStr s)"
  by (rule reads_Suc [of 0]) (simp add: parse_value.simps(2) quote_def parse_quote)

lemma reads_JInt: "reads (JInt i)"
proof (rule reads_Suc [of 0])
  fix n r
  assume r: "value_end r"
  obtain c t where c: "dec_signed i = c # t" "c = 45 \<or> is_digit c"
    using hd_dec_signed by blast
  then have "c \<noteq> 123" "c \<noteq> 91" "c \<noteq> 34" "c \<noteq> 110" "c \<noteq> 116" "c \<noteq> 102"
    by (auto simp: is_digit_def)
  then have "parse_value (Suc n) (c # t @ r) =
      map_option (\<lambda>v. (v, dropWhile number_char (dec_signed i @ r)))
        (number_value (takeWhile number_char (dec_signed i @ r)))"
    unfolding c(1) by (simp add: parse_value.simps(2))
  then show "parse_value (Suc n) (stringify (JInt i) @ r) = Some (JInt i, r)"
    using c(1) number_span [OF r, of i] number_value_dec_signed [of i] by simp
qed

lemma wf_json_reads: "wf_json v \<Longrightarrow> reads v"
proof (induction v)
  case (JArr vs)
  show ?case
  proof (cases vs)
    case Nil
    then show ?thesis by (intro reads_Suc [of 0]) (simp add: parse_value.simps(2) skip_ws_def json_space_def)
  next
    case (Cons w ws)
    have all: "\<forall>v \<in> set vs. wf_json v \<and> reads v" using JArr by auto
    then obtain k where k: "\<forall>n \<ge> k. \<forall>r.
        parse_elements n (join_with [44] (map stringify vs) @ 93 # r) = Some (vs, r)"
      using reads_elements [of vs] Cons by auto
    obtain c t where h: "join_with [44] (map stringify vs) = c # t" "\<not> json_space c" "c \<noteq> 93"
      using stringify_head [of w] all Cons by (cases ws) auto
    have "parse_value (Suc n) (91 # c # t @ 93 # r) = Some (JArr vs, r)" if "k \<le> n" for n r
    proof -
      have "parse_elements n (c # t @ 93 # r) = Some (vs, r)" using k that h(1) by auto
      then show ?thesis
        using h(2,3) by (intro parse_array [of _ c "t @ 93 # r"]) (simp_all add: skip_ws_def)
    qed
    then show ?thesis
      using h(1) by (intro reads_Suc [of k]) simp
  qed
next
  case (JObj ms)
  show ?case
  proof (cases ms)
    case Nil
    then show ?thesis by (intro reads_Suc [of 0]) (simp add: parse_value.simps(2) skip_ws_def json_space_def)
  next
    case (Cons w ws)
    have "\<forall>p \<in> set ms. wf_json (snd p) \<and> reads (snd p)"
      using JObj by (fastforce simp: snds.simps)
    then obtain k where k: "\<forall>n \<ge> k. \<forall>r acc. distinct (map fst acc @ map fst ms) \<longrightarrow>
        parse_members n (join_with [44] (map print_member ms) @ 125 # r) acc = Some (acc @ ms, r)"
      using reads_members [of ms] Cons by auto
    obtain t where h: "join_with [44] (map print_member ms) = 34 # t"
      using Cons by (cases ws) (auto simp: quote_def case_prod_unfold)
    have "parse_value (Suc n) (123 # 34 # t @ 125 # r) = Some (JObj ms, r)" if "k \<le> n" for n r
    proof -
      have "distinct (map fst [] @ map fst ms)" using JObj by simp
      then have "parse_members n (34 # t @ 125 # r) [] = Some (ms, r)"
        using k that h by (metis append_Cons append_Nil)
      then show ?thesis
        by (intro parse_object [of _ 34 "t @ 125 # r"]) (simp_all add: skip_ws_def json_space_def)
    qed
    then show ?thesis
      using h by (intro reads_Suc [of k]) simp
  qed
qed (simp_all add: reads_JNull reads_JBool reads_JInt reads_JStr)

text \<open>\<open>JSON.parse(JSON.stringify(v))\<close> is \<open>v\<close>.\<close>

lemma json_parse_stringify:
  assumes "wf_json v"
  shows "json_parse (stringify v) = Some v"
proof -
  obtain k where k: "\<forall>n \<ge> k. parse_value n (stringify v) = Some (v, [])"
    using wf_json_reads [OF assms] unfolding reads_def by (metis append_Nil2 value_end_punct(4))
  have "parse_value (2 * length (stringify v) + 2) (stringify v) =
      parse_value (max k (2 * length (stringify v) + 2)) (stringify v)"
    by (rule trans [OF parse_fuel parse_fuel [symmetric]]) simp_all
  then show ?thesis
    using k skip_ws_stringify [OF assms, of "[]"] by (simp add: json_parse_def)
qed

text \<open>Printed text has no control character, so none of it looks like a line break.\<close>

lemma quote_char_printable:
  assumes "w \<in> set (chars s)"
  shows "\<forall>c \<in> set (quote_char w). 32 \<le> c"
  using assms
proof (cases rule: chars_cases)
  case (1 c)
  then show ?thesis
    by (cases c rule: quote_char_single)
       (auto simp: hex4_def lower_hex_def simple_escape_def split: if_splits)
next
  case (2 c d)
  then show ?thesis by (auto simp: quote_char_def is_high_def is_low_def)
qed

lemma quote_printable: "\<forall>c \<in> set (quote s). 32 \<le> c"
  using quote_char_printable [of _ s] by (auto simp: quote_def)

lemma set_join_with: "set (join_with sep ws) \<subseteq> set sep \<union> (\<Union>w \<in> set ws. set w)"
  by (induction sep ws rule: join_with.induct) auto

lemma stringify_printable: "wf_json v \<Longrightarrow> \<forall>c \<in> set (stringify v). 32 \<le> c"
proof (induction v)
  case (JInt n)
  then show ?case by (auto simp: dec_signed_def dest: set_dec)
next
  case (JStr s)
  then show ?case using quote_printable by simp
next
  case (JArr vs)
  then show ?case using set_join_with [of "[44]" "map stringify vs"] by fastforce
next
  case (JObj ms)
  have "32 \<le> c" if "c \<in> set (print_member p)" "p \<in> set ms" for c p
  proof (cases p)
    case (Pair k v)
    then show ?thesis
      using that JObj.IH [of p v] JObj.prems quote_printable [of k] by auto
  qed
  then show ?case using set_join_with [of "[44]" "map print_member ms"] by fastforce
qed (auto simp: js_def)

end
