(* ===== verification/Contracts_Forms.thy ===== *)
theory Contracts_Forms
  imports Contracts_Links Js_Json
begin

text \<open>
  The schemas of the forms that create and update links, bio pages and bio links (\<open>packages/contracts/src/links.ts\<close>,
  \<open>bio.ts\<close>). A schema is a function from a JSON value to the value it returns, which \<open>z.object\<close> builds from those of
  the members in their order; members it does not name are left out, and a refused value is \<open>None\<close>.
\<close>

section \<open>Objects of zod\<close>

text \<open>
  The schema of a member gets the member or its absence and returns a refusal, an absent member or a value.
\<close>

type_synonym value_schema = "json \<Rightarrow> json option"
type_synonym member_schema = "json option \<Rightarrow> json option option"
type_synonym object_shape = "(jsstr \<times> member_schema) list"

definition z_required :: "value_schema \<Rightarrow> member_schema" where
  "z_required schema v = (case v of None \<Rightarrow> None | Some j \<Rightarrow> map_option Some (schema j))"

definition z_optional :: "member_schema \<Rightarrow> member_schema" where
  "z_optional schema v = (case v of None \<Rightarrow> Some None | Some j \<Rightarrow> schema (Some j))"

fun z_members :: "object_shape \<Rightarrow> (jsstr \<rightharpoonup> json) \<Rightarrow> (jsstr \<times> json) list option" where
  "z_members [] m = Some []"
| "z_members ((key, schema) # shape) m =
     (case schema (m key) of
        None \<Rightarrow> None
      | Some v \<Rightarrow> map_option (\<lambda>rest. (case v of None \<Rightarrow> rest | Some j \<Rightarrow> (key, j) # rest)) (z_members shape m))"

definition z_object :: "object_shape \<Rightarrow> json \<Rightarrow> (jsstr \<times> json) list option" where
  "z_object shape v = (case v of JObj ms \<Rightarrow> z_members shape (map_of ms) | _ \<Rightarrow> None)"

definition z_partial :: "object_shape \<Rightarrow> object_shape" where
  "z_partial shape = map (\<lambda>(key, schema). (key, z_optional schema)) shape"

definition z_text :: "(jsstr \<Rightarrow> bool) \<Rightarrow> value_schema" where
  "z_text ok v = (case v of JStr s \<Rightarrow> if ok s then Some (JStr s) else None | _ \<Rightarrow> None)"

text \<open>\<open>z.int()\<close> takes the integers that a double holds exactly.\<close>

definition z_nonnegative_int :: value_schema where
  "z_nonnegative_int v =
     (case v of JInt n \<Rightarrow> if 0 \<le> n \<and> n \<le> 9007199254740991 then Some (JInt n) else None | _ \<Rightarrow> None)"

section \<open>Links\<close>

definition TITLE_MAX_LENGTH :: nat where
  "TITLE_MAX_LENGTH = 200"

definition z_destination_value :: "(jsstr \<Rightarrow> (jsstr \<times> jsstr) option) \<Rightarrow> value_schema" where
  "z_destination_value z_url v = (case v of JStr s \<Rightarrow> map_option JStr (z_destination z_url s) | _ \<Rightarrow> None)"

definition create_link_shape :: "(jsstr \<Rightarrow> (jsstr \<times> jsstr) option) \<Rightarrow> object_shape" where
  "create_link_shape z_url =
     [(js ''slug'', z_required (z_text z_slug)),
      (js ''destination'', z_required (z_destination_value z_url)),
      (js ''title'', z_optional (z_required (z_text (\<lambda>s. length s \<le> TITLE_MAX_LENGTH))))]"

definition create_link_schema :: "(jsstr \<Rightarrow> (jsstr \<times> jsstr) option) \<Rightarrow> json \<Rightarrow> (jsstr \<times> json) list option" where
  "create_link_schema z_url = z_object (create_link_shape z_url)"

definition update_link_schema :: "(jsstr \<Rightarrow> (jsstr \<times> jsstr) option) \<Rightarrow> json \<Rightarrow> (jsstr \<times> json) list option" where
  "update_link_schema z_url = z_object (z_partial (create_link_shape z_url))"

section \<open>Bio pages and bio links\<close>

definition DISPLAY_NAME_MAX_LENGTH :: nat where "DISPLAY_NAME_MAX_LENGTH = 100"
definition BIO_MAX_LENGTH :: nat where "BIO_MAX_LENGTH = 500"
definition AVATAR_URL_MAX_LENGTH :: nat where "AVATAR_URL_MAX_LENGTH = 2048"
definition THEME_ID_MAX_LENGTH :: nat where "THEME_ID_MAX_LENGTH = 50"

definition AVATAR_URL_PROTOCOL_PATTERN :: regex where
  "AVATAR_URL_PROTOCOL_PATTERN = Cat (Lit (js ''http'')) (Opt (Lit (js ''s'')))"

definition z_avatar_url :: "(jsstr \<Rightarrow> (jsstr \<times> jsstr) option) \<Rightarrow> value_schema" where
  "z_avatar_url z_url v =
     (case v of
        JStr s \<Rightarrow>
          (case z_url s of
             None \<Rightarrow> None
           | Some (scheme, value) \<Rightarrow>
               if matches AVATAR_URL_PROTOCOL_PATTERN scheme \<and> length value \<le> AVATAR_URL_MAX_LENGTH
               then Some (JStr value) else None)
      | _ \<Rightarrow> None)"

definition z_short_text :: "nat \<Rightarrow> member_schema" where
  "z_short_text n = z_optional (z_required (z_text (\<lambda>s. length s \<le> n)))"

definition create_bio_page_shape :: "(jsstr \<Rightarrow> (jsstr \<times> jsstr) option) \<Rightarrow> object_shape" where
  "create_bio_page_shape z_url =
     [(js ''handle'', z_required (z_text z_handle)),
      (js ''displayName'', z_short_text DISPLAY_NAME_MAX_LENGTH),
      (js ''bio'', z_short_text BIO_MAX_LENGTH),
      (js ''avatarUrl'', z_optional (z_required (z_avatar_url z_url))),
      (js ''themeId'', z_short_text THEME_ID_MAX_LENGTH)]"

definition create_bio_page_schema :: "(jsstr \<Rightarrow> (jsstr \<times> jsstr) option) \<Rightarrow> json \<Rightarrow> (jsstr \<times> json) list option" where
  "create_bio_page_schema z_url = z_object (create_bio_page_shape z_url)"

definition update_bio_page_schema :: "(jsstr \<Rightarrow> (jsstr \<times> jsstr) option) \<Rightarrow> json \<Rightarrow> (jsstr \<times> json) list option" where
  "update_bio_page_schema z_url = z_object (z_partial (create_bio_page_shape z_url))"

definition create_bio_link_shape :: object_shape where
  "create_bio_link_shape =
     [(js ''linkId'', z_required (z_text (matches ULID_SHAPE_PATTERN))),
      (js ''position'', z_required z_nonnegative_int)]"

definition create_bio_link_schema :: "json \<Rightarrow> (jsstr \<times> json) list option" where
  "create_bio_link_schema = z_object create_bio_link_shape"

definition update_bio_link_schema :: "json \<Rightarrow> (jsstr \<times> json) list option" where
  "update_bio_link_schema = z_object (z_partial create_bio_link_shape)"

section \<open>What an object schema gives\<close>

text \<open>A value schema that accepts what it returns.\<close>

definition stable :: "member_schema \<Rightarrow> bool" where
  "stable schema \<longleftrightarrow> (\<forall>v out. schema v = Some out \<longrightarrow> schema out = Some out)"

lemma z_members_keys: "z_members shape m = Some out \<Longrightarrow> fst ` set out \<subseteq> fst ` set shape"
proof (induction shape arbitrary: out)
  case (Cons entry shape)
  obtain k sch where e: "entry = (k, sch)" by fastforce
  with Cons.prems obtain v rest where v: "sch (m k) = Some v" "z_members shape m = Some rest" "out = (case v of None \<Rightarrow> rest | Some j \<Rightarrow> (k, j) # rest)"
    by (auto split: option.splits)
  from Cons.IH [OF v(2)] show ?case using v(3) e by (cases v) auto
qed simp

lemma z_members_get:
  assumes "z_members shape m = Some out" and "distinct (map fst shape)" and "(key, schema) \<in> set shape"
  shows "schema (m key) = Some (map_of out key)"
  using assms
proof (induction shape arbitrary: out)
  case (Cons entry shape)
  obtain k sch where e: "entry = (k, sch)" by fastforce
  with Cons.prems(1) obtain v rest where v: "sch (m k) = Some v" "z_members shape m = Some rest"
      "out = (case v of None \<Rightarrow> rest | Some j \<Rightarrow> (k, j) # rest)"
    by (auto split: option.splits)
  have fresh: "map_of rest k = None"
    using z_members_keys [OF v(2)] Cons.prems(2) e by (auto simp: map_of_eq_None_iff)
  show ?case
  proof (cases "key = k")
    case True
    then have "schema = sch" using Cons.prems(2,3) e by (auto simp: image_iff)
    then show ?thesis using v True fresh by (auto split: option.splits)
  next
    case False
    then have "(key, schema) \<in> set shape" using Cons.prems(3) e by auto
    then have "schema (m key) = Some (map_of rest key)" using Cons.IH [OF v(2)] Cons.prems(2) by simp
    then show ?thesis using v(3) False by (auto split: option.splits)
  qed
qed simp

lemma z_members_cong:
  assumes "\<And>key schema. (key, schema) \<in> set shape \<Longrightarrow> schema (m' key) = schema (m key)"
  shows "z_members shape m' = z_members shape m"
  using assms
proof (induction shape)
  case (Cons entry shape)
  obtain k sch where e: "entry = (k, sch)" by fastforce
  then have "sch (m' k) = sch (m k)" using Cons.prems by simp
  moreover have "z_members shape m' = z_members shape m" using Cons by simp
  ultimately show ?case using e by (simp split: option.split)
qed simp

lemma z_members_again:
  assumes "z_members shape m = Some out" and "distinct (map fst shape)" and "list_all (stable \<circ> snd) shape"
  shows "z_members shape (map_of out) = Some out"
proof -
  have "schema (map_of out key) = schema (m key)" if "(key, schema) \<in> set shape" for key schema
  proof -
    have "schema (m key) = Some (map_of out key)" by (rule z_members_get [OF assms(1,2) that])
    moreover have "stable schema" using assms(3) that by (auto simp: list_all_iff)
    ultimately show ?thesis by (auto simp: stable_def)
  qed
  then show ?thesis using z_members_cong assms(1) by metis
qed

text \<open>An absent member is refused or stays absent.\<close>

definition no_default :: "member_schema \<Rightarrow> bool" where
  "no_default schema \<longleftrightarrow> schema None = None \<or> schema None = Some None"

lemma z_partial_of_whole:
  assumes "z_members shape m = Some out" and "list_all (no_default \<circ> snd) shape"
  shows "z_members (z_partial shape) m = Some out"
  using assms
proof (induction shape arbitrary: out)
  case (Cons entry shape)
  obtain k sch where e: "entry = (k, sch)" by fastforce
  with Cons.prems obtain v rest where v: "sch (m k) = Some v" "z_members shape m = Some rest"
      "out = (case v of None \<Rightarrow> rest | Some j \<Rightarrow> (k, j) # rest)"
    by (auto split: option.splits)
  then have "z_members (z_partial shape) m = Some rest" using Cons by simp
  moreover have "z_optional sch (m k) = Some v"
    using v(1) Cons.prems(2) e by (cases "m k") (auto simp: z_optional_def no_default_def)
  ultimately show ?case using v(3) e by (simp add: z_partial_def)
qed (simp add: z_partial_def)

lemma z_partial_accepts:
  "(\<exists>out. z_members (z_partial shape) m = Some out) \<longleftrightarrow>
   list_all (\<lambda>(key, schema). m key = None \<or> schema (m key) \<noteq> None) shape"
proof (induction shape)
  case (Cons entry shape)
  then show ?case by (cases entry; cases "m (fst entry)") (auto simp: z_partial_def z_optional_def split: option.splits)
qed (simp add: z_partial_def)

lemma z_required_None [simp]: "z_required schema None = None"
  by (simp add: z_required_def)

lemma z_optional_None [simp]: "z_optional schema None = Some None"
  by (simp add: z_optional_def)

lemma stable_required: "(\<And>v out. schema v = Some out \<Longrightarrow> schema out = Some out) \<Longrightarrow> stable (z_required schema)"
  by (auto simp: stable_def z_required_def split: option.splits)

lemma stable_optional: "stable schema \<Longrightarrow> stable (z_optional schema)"
  unfolding stable_def z_optional_def by (metis (mono_tags, lifting) option.case_eq_if option.collapse option.distinct(1) option.inject)

lemma z_text_stable: "z_text ok v = Some out \<Longrightarrow> z_text ok out = Some out"
  by (auto simp: z_text_def split: json.splits if_splits)

lemma z_required_text: "z_required (z_text ok) v = Some w \<Longrightarrow> \<exists>s. w = Some (JStr s) \<and> ok s"
  by (auto simp: z_required_def z_text_def split: option.splits json.splits if_splits)

lemma z_required_destination:
  "z_required (z_destination_value z_url) v = Some w \<Longrightarrow> \<exists>s d. w = Some (JStr d) \<and> z_destination z_url s = Some d"
  by (auto simp: z_required_def z_destination_value_def split: option.splits json.splits)

section \<open>The schemas of links\<close>

lemma create_link_keys: "distinct (map fst (create_link_shape z_url))"
  by (simp add: create_link_shape_def)

lemma create_link_no_default: "list_all (no_default \<circ> snd) (create_link_shape z_url)"
  by (simp add: create_link_shape_def no_default_def)

lemma create_link_stable:
  assumes "\<And>s scheme u. z_url s = Some (scheme, u) \<Longrightarrow> z_url u = Some (scheme, u)"
  shows "list_all (stable \<circ> snd) (create_link_shape z_url)"
proof -
  have "z_destination_value z_url v = Some out \<Longrightarrow> z_destination_value z_url out = Some out" for v out
    using assms by (fastforce simp: z_destination_value_def z_destination_Some split: json.splits)
  then show ?thesis
    by (simp add: create_link_shape_def stable_required stable_optional z_text_stable)
qed

text \<open>C0: A link that the create form accepts can be served: its slug is one of the hot path, its destination passes the check at the time of the redirect; the form accepts its own result, and the update form gives the same for it.\<close>

theorem created_link_can_be_served:
  assumes "create_link_schema z_url v = Some out"
    and "\<And>s scheme u. z_url s = Some (scheme, u) \<Longrightarrow> z_url u = Some (scheme, u)"
  shows "\<exists>slug destination. map_of out (js ''slug'') = Some (JStr slug) \<and> is_valid_slug slug \<and>
     map_of out (js ''destination'') = Some (JStr destination) \<and> z_destination z_url destination = Some destination \<and>
     create_link_schema z_url (JObj out) = Some out \<and> update_link_schema z_url v = Some out"
proof -
  obtain ms where ms: "v = JObj ms" "z_members (create_link_shape z_url) (map_of ms) = Some out"
    using assms(1) by (auto simp: create_link_schema_def z_object_def split: json.splits)
  note get = z_members_get [OF ms(2) create_link_keys]
  have "z_required (z_text z_slug) (map_of ms (js ''slug'')) = Some (map_of out (js ''slug''))"
    by (rule get) (simp add: create_link_shape_def)
  then obtain slug where slug: "map_of out (js ''slug'') = Some (JStr slug)" "z_slug slug"
    by (auto dest: z_required_text)
  have "z_required (z_destination_value z_url) (map_of ms (js ''destination'')) = Some (map_of out (js ''destination''))"
    by (rule get) (simp add: create_link_shape_def)
  then obtain s d where d: "map_of out (js ''destination'') = Some (JStr d)" "z_destination z_url s = Some d"
    by (auto dest: z_required_destination)
  have "z_destination z_url d = Some d" using d(2) assms(2) by (auto simp: z_destination_Some)
  moreover have "is_valid_slug slug" using slug(2) by (simp add: is_valid_slug_pattern z_slug_pattern)
  moreover have "create_link_schema z_url (JObj out) = Some out"
    using z_members_again [OF ms(2) create_link_keys create_link_stable [of z_url]] assms(2)
    by (simp add: create_link_schema_def z_object_def)
  moreover have "update_link_schema z_url v = Some out"
    using z_partial_of_whole [OF ms(2) create_link_no_default] ms(1) by (simp add: update_link_schema_def z_object_def)
  ultimately show ?thesis using slug(1) d(1) by blast
qed

definition example_z_url :: "jsstr \<Rightarrow> (jsstr \<times> jsstr) option" where
  "example_z_url s = (if starts_with s (js ''https://'') then Some (js ''https'', s) else None)"

definition example_link_form :: json where
  "example_link_form = JObj [(js ''slug'', JStr (js ''promo'')), (js ''destination'', JStr (js ''https://x.test/'')), (js ''x'', JNull)]"

theorem created_link_can_be_served_witness:
  "\<exists>slug destination. map_of [(js ''slug'', JStr (js ''promo'')), (js ''destination'', JStr (js ''https://x.test/''))] (js ''slug'') =
       Some (JStr slug) \<and> is_valid_slug slug \<and> destination = js ''https://x.test/'' \<and>
     z_destination example_z_url destination = Some destination"
proof -
  let ?out = "[(js ''slug'', JStr (js ''promo'')), (js ''destination'', JStr (js ''https://x.test/''))]"
  have "z_slug (js ''promo'')" by (simp add: z_slug_pattern slug_pattern_iff slug_end_def slug_inner_def str_eval)
  moreover have "z_destination example_z_url (js ''https://x.test/'') = Some (js ''https://x.test/'')"
    by (simp add: z_destination_Some example_z_url_def DESTINATION_MAX_LENGTH_def starts_with_def js_def)
  ultimately have form: "create_link_schema example_z_url example_link_form = Some ?out"
    by (simp add: create_link_schema_def z_object_def create_link_shape_def example_link_form_def z_required_def z_optional_def
        z_text_def z_destination_value_def)
  have "\<exists>slug destination. map_of ?out (js ''slug'') = Some (JStr slug) \<and> is_valid_slug slug \<and>
     map_of ?out (js ''destination'') = Some (JStr destination) \<and> z_destination example_z_url destination = Some destination \<and>
     create_link_schema example_z_url (JObj ?out) = Some ?out \<and> update_link_schema example_z_url example_link_form = Some ?out"
    by (rule created_link_can_be_served [OF form]) (auto simp: example_z_url_def split: if_splits)
  then show ?thesis by simp
qed

text \<open>C0: An update form accepts an object exactly when every member it names and finds is acceptable to the create form; so an empty patch is accepted, and a title cannot be cleared: \<open>null\<close> is refused.\<close>

theorem update_accepts_patches:
  "((\<exists>out. update_link_schema z_url (JObj ms) = Some out) \<longleftrightarrow>
      list_all (\<lambda>(key, schema). map_of ms key = None \<or> schema (map_of ms key) \<noteq> None) (create_link_shape z_url)) \<and>
   update_link_schema z_url (JObj []) = Some [] \<and> update_link_schema z_url (JObj [(js ''title'', JNull)]) = None"
proof -
  have "update_link_schema z_url (JObj []) = Some []" "update_link_schema z_url (JObj [(js ''title'', JNull)]) = None"
    by (simp_all add: update_link_schema_def z_object_def z_partial_def create_link_shape_def z_optional_def z_required_def z_text_def)
  then show ?thesis using z_partial_accepts [of "create_link_shape z_url" "map_of ms"]
    by (simp add: update_link_schema_def z_object_def)
qed

end
