(* ===== verification/Js_Date.thy ===== *)
theory Js_Date
  imports Js_Strings
begin

text \<open>
  The UTC part of \<open>Date\<close>. A time value is an integer number of milliseconds since
  1970-01-01T00:00:00Z. Years, months and days are those of ECMAScript: \<open>DayFromYear\<close>
  is its definition, \<open>year_from_day\<close> computes the largest year that starts on or
  before a day, which is the definition of \<open>YearFromTime\<close>. \<open>date_utc\<close> is \<open>Date.UTC\<close>
  with whole arguments and keeps its rule that a year from 0 to 99 means 1900 more.
\<close>

section \<open>Days and years\<close>

definition ms_per_day :: int where
  "ms_per_day = 86400000"

definition day_of :: "int \<Rightarrow> int" where
  "day_of t = t div ms_per_day"

definition day_from_year :: "int \<Rightarrow> int" where
  "day_from_year y =
     365 * (y - 1970) + (y - 1969) div 4 - (y - 1901) div 100 + (y - 1601) div 400"

definition leap_year :: "int \<Rightarrow> bool" where
  "leap_year y \<longleftrightarrow> y mod 4 = 0 \<and> (y mod 100 \<noteq> 0 \<or> y mod 400 = 0)"

definition year_from_day :: "int \<Rightarrow> int" where
  "year_from_day d =
     (let y = 1970 + (400 * d) div 146097
      in if d < day_from_year y then y - 1
         else if day_from_year (y + 1) \<le> d then y + 1
         else y)"

lemma div_step:
  fixes x n :: int
  assumes "0 < n"
  shows "(x + 1) div n = x div n + of_bool ((x + 1) mod n = 0)"
proof -
  define q r where "q = x div n" and "r = x mod n"
  have x: "x = n * q + r" and r: "0 \<le> r" "r < n"
    using assms by (simp_all add: q_def r_def)
  show ?thesis
  proof (cases "r + 1 = n")
    case True
    then have "x + 1 = n * (q + 1)"
      using x by (simp add: algebra_simps)
    then have "(x + 1) div n = q + 1" and "(x + 1) mod n = 0"
      using assms by simp_all
    then show ?thesis by (simp add: q_def)
  next
    case False
    have eq: "x + 1 = n * q + (r + 1)" and less: "0 \<le> r + 1" "r + 1 < n"
      using x r False by simp_all
    have "(x + 1) div n = q" and "(x + 1) mod n = r + 1"
      using int_div_pos_eq [OF eq less] int_mod_pos_eq [OF eq less] by simp_all
    then show ?thesis using r by (simp add: q_def)
  qed
qed

lemma mod_shift:
  fixes y :: int
  shows "(y - 1968) mod 4 = y mod 4"
    and "(y - 1900) mod 100 = y mod 100"
    and "(y - 1600) mod 400 = y mod 400"
  using mod_mult_self2 [of y 4 "- 492"] mod_mult_self2 [of y 100 "- 19"]
    mod_mult_self2 [of y 400 "- 4"] by simp_all

lemma mod_chain:
  fixes y :: int
  shows "y mod 400 = 0 \<Longrightarrow> y mod 100 = 0" and "y mod 100 = 0 \<Longrightarrow> y mod 4 = 0"
  using dvd_trans [of "100 :: int" 400 y] dvd_trans [of "4 :: int" 100 y]
  by (simp_all add: dvd_eq_mod_eq_0)

lemma leap_count:
  fixes y a b c :: int
  assumes "r \<Longrightarrow> q" and "q \<Longrightarrow> p"
  shows "365 * (y + 1 - 1970) + (a + of_bool p) - (b + of_bool q) + (c + of_bool r) =
    365 * (y - 1970) + a - b + c + (if p \<and> (\<not> q \<or> r) then 366 else 365)"
  using assms by (cases p; cases q; cases r; simp)

lemma day_from_year_Suc:
  "day_from_year (y + 1) = day_from_year y + (if leap_year y then 366 else 365)"
proof -
  have four: "(y + 1 - 1969) div 4 = (y - 1969) div 4 + of_bool (y mod 4 = 0)"
    using div_step [of 4 "y - 1969"] mod_shift(1) [of y] by simp
  have hundred: "(y + 1 - 1901) div 100 = (y - 1901) div 100 + of_bool (y mod 100 = 0)"
    using div_step [of 100 "y - 1901"] mod_shift(2) [of y] by simp
  have four_hundred: "(y + 1 - 1601) div 400 = (y - 1601) div 400 + of_bool (y mod 400 = 0)"
    using div_step [of 400 "y - 1601"] mod_shift(3) [of y] by simp
  show ?thesis
    unfolding day_from_year_def leap_year_def four hundred four_hundred
    by (rule leap_count [OF mod_chain])
qed

lemma year_from_day_bounds:
  "day_from_year (year_from_day d) \<le> d \<and> d < day_from_year (year_from_day d + 1)"
proof -
  define k where "k = (400 * d) div 146097"
  have k: "146097 * k \<le> 400 * d" "400 * d < 146097 * k + 146097"
    unfolding k_def by linarith+
  have f4: "4 * (x div 4) \<le> x \<and> x < 4 * (x div 4) + 4" for x :: int
    by linarith
  have f100: "100 * (x div 100) \<le> x \<and> x < 100 * (x div 100) + 100" for x :: int
    by linarith
  have f400: "400 * (x div 400) \<le> x \<and> x < 400 * (x div 400) + 400" for x :: int
    by linarith
  have "day_from_year (1970 + k - 1) =
      365 * k - 365 + k div 4 - (k + 68) div 100 + (k + 368) div 400"
    by (simp add: day_from_year_def add.commute)
  moreover have "365 * k - 365 + a - b + c \<le> d"
    if "4 * a \<le> k" "k + 68 < 100 * b + 100" "400 * c \<le> k + 368" for a b c :: int
    using that k by linarith
  ultimately have lower: "day_from_year (1970 + k - 1) \<le> d"
    using f4 [of k] f100 [of "k + 68"] f400 [of "k + 368"] by metis
  have "day_from_year (1970 + k + 2) =
      365 * k + 730 + (k + 3) div 4 - (k + 71) div 100 + (k + 371) div 400"
    by (simp add: day_from_year_def add.commute)
  moreover have "d < 365 * k + 730 + a - b + c"
    if "k + 3 < 4 * a + 4" "100 * b \<le> k + 71" "k + 371 < 400 * c + 400" for a b c :: int
    using that k by linarith
  ultimately have upper: "d < day_from_year (1970 + k + 2)"
    using f4 [of "k + 3"] f100 [of "k + 71"] f400 [of "k + 371"] by metis
  have "1970 + k + 2 = 1970 + k + 1 + 1" and "1970 + k - 1 + 1 = 1970 + k" by simp_all
  then show ?thesis
    using lower upper unfolding year_from_day_def Let_def k_def [symmetric] by auto
qed

section \<open>Months and dates\<close>

text \<open>\<open>month_start leap m\<close>: the days before month \<open>m\<close> (0 is January) in the year.\<close>

fun month_length :: "bool \<Rightarrow> nat \<Rightarrow> int" where
  "month_length leap m =
     (if m = 1 then (if leap then 29 else 28)
      else if m = 3 \<or> m = 5 \<or> m = 8 \<or> m = 10 then 30 else 31)"

fun month_start :: "bool \<Rightarrow> nat \<Rightarrow> int" where
  "month_start leap 0 = 0"
| "month_start leap (Suc m) = month_start leap m + month_length leap m"

text \<open>The month of a day of the year, looked up from month \<open>m\<close> on with \<open>n\<close> months left.\<close>

fun month_search :: "bool \<Rightarrow> nat \<Rightarrow> nat \<Rightarrow> int \<Rightarrow> nat" where
  "month_search leap m 0 doy = m"
| "month_search leap m (Suc n) doy =
     (if doy < month_start leap (Suc m) then m else month_search leap (Suc m) n doy)"

definition utc_full_year :: "int \<Rightarrow> int" where
  "utc_full_year t = year_from_day (day_of t)"

definition day_in_year :: "int \<Rightarrow> int" where
  "day_in_year t = day_of t - day_from_year (utc_full_year t)"

definition utc_month :: "int \<Rightarrow> nat" where
  "utc_month t = month_search (leap_year (utc_full_year t)) 0 11 (day_in_year t)"

definition utc_date :: "int \<Rightarrow> int" where
  "utc_date t = day_in_year t - month_start (leap_year (utc_full_year t)) (utc_month t) + 1"

definition utc_hours :: "int \<Rightarrow> int" where
  "utc_hours t = t div 3600000 mod 24"

text \<open>\<open>Date.UTC(year, month, date)\<close> for a month from 0 to 11.\<close>

definition date_utc :: "int \<Rightarrow> nat \<Rightarrow> int \<Rightarrow> int" where
  "date_utc y m d =
     (let yr = (if 0 \<le> y \<and> y \<le> 99 then 1900 + y else y)
      in (day_from_year yr + month_start (leap_year yr) m + d - 1) * ms_per_day)"

lemma date_utc_of_parts:
  assumes "\<not> (0 \<le> utc_full_year t \<and> utc_full_year t \<le> 99)"
  shows "date_utc (utc_full_year t) (utc_month t) (utc_date t) = day_of t * ms_per_day"
  using assms by (auto simp: date_utc_def Let_def utc_date_def day_in_year_def)

lemma month_search_bounds:
  assumes "month_start leap m \<le> doy" and "doy < month_start leap (m + n + 1)"
  shows "m \<le> month_search leap m n doy \<and> month_search leap m n doy \<le> m + n \<and>
    month_start leap (month_search leap m n doy) \<le> doy \<and>
    doy < month_start leap (Suc (month_search leap m n doy))"
  using assms
proof (induction n arbitrary: m)
  case (Suc n)
  show ?case
  proof (cases "doy < month_start leap (Suc m)")
    case False
    then have "month_start leap (Suc m) \<le> doy" by simp
    with Suc.IH [of "Suc m"] Suc.prems False show ?thesis by simp
  qed (use Suc.prems in simp)
qed simp

lemma day_in_year_bounds:
  "0 \<le> day_in_year t \<and> day_in_year t < (if leap_year (utc_full_year t) then 366 else 365)"
  using year_from_day_bounds [of "day_of t"] day_from_year_Suc [of "utc_full_year t"]
  by (simp add: day_in_year_def utc_full_year_def)

lemma month_start_12: "month_start leap 12 = (if leap then 366 else 365)"
  by (simp add: numeral_eq_Suc)

lemma utc_month_le: "utc_month t \<le> 11"
  and utc_date_range: "1 \<le> utc_date t \<and> utc_date t \<le> 31"
proof -
  let ?l = "leap_year (utc_full_year t)"
  have "day_in_year t < month_start ?l (0 + 11 + 1)"
    using day_in_year_bounds [of t] month_start_12 [of ?l] by (simp add: numeral_eq_Suc)
  then have b: "utc_month t \<le> 11 \<and> month_start ?l (utc_month t) \<le> day_in_year t \<and>
      day_in_year t < month_start ?l (Suc (utc_month t))"
    using month_search_bounds [of ?l 0 "day_in_year t" 11] day_in_year_bounds [of t]
    by (simp add: utc_month_def)
  then show "utc_month t \<le> 11" by simp
  have "month_length ?l (utc_month t) \<le> 31" by simp
  with b show "1 \<le> utc_date t \<and> utc_date t \<le> 31"
    by (simp add: utc_date_def del: month_length.simps)
qed

lemma utc_hours_range: "0 \<le> utc_hours t \<and> utc_hours t < 24"
  by (simp add: utc_hours_def)

section \<open>Text of a date\<close>

text \<open>\<open>String(n)\<close> of an integer.\<close>

definition dec_int :: "int \<Rightarrow> jsstr" where
  "dec_int n = (if n < 0 then [45] else []) @ dec (nat \<bar>n\<bar>)"

definition pad2 :: "int \<Rightarrow> jsstr" where
  "pad2 n = pad_start 2 48 (dec_int n)"

lemma dec_int_inject [simp]: "dec_int m = dec_int n \<longleftrightarrow> m = n"
proof -
  have "hd (dec k) \<noteq> 45" for k
    using hd_in_set [OF dec_not_Nil] set_dec [of "hd (dec k)" k] by auto
  then have "dec i \<noteq> 45 # dec j" for i j
    by (metis list.sel(1))
  then show ?thesis
    by (auto simp: dec_int_def eq_commute [of "45 # _"])
qed

lemma pad2_inject: "0 \<le> m \<Longrightarrow> 0 \<le> n \<Longrightarrow> pad2 m = pad2 n \<longleftrightarrow> m = n"
  by (auto simp: pad2_def dec_int_def)

lemma length_pad2: "0 \<le> n \<Longrightarrow> n < 100 \<Longrightarrow> length (pad2 n) = 2"
  using length_dec_le [of "nat n" 2] by (auto simp: pad2_def dec_int_def)

lemma set_pad2: "0 \<le> n \<Longrightarrow> c \<in> set (pad2 n) \<Longrightarrow> 48 \<le> c \<and> c \<le> 57"
  using set_pad_start [of 2 48 "dec (nat n)"] set_dec [of c "nat n"]
  by (auto simp: pad2_def dec_int_def)

lemma set_dec_int: "c \<in> set (dec_int n) \<Longrightarrow> c = 45 \<or> 48 \<le> c \<and> c \<le> 57"
  using set_dec by (auto simp: dec_int_def split: if_splits)

text \<open>\<open>toISOString()\<close> of a date that is not invalid.\<close>

definition iso_year :: "int \<Rightarrow> jsstr" where
  "iso_year y =
     (if 0 \<le> y \<and> y \<le> 9999 then pad_start 4 48 (dec_int y)
      else (if y < 0 then [45] else [43]) @ pad_start 6 48 (dec_int \<bar>y\<bar>))"

definition iso_string :: "int \<Rightarrow> jsstr" where
  "iso_string t =
     iso_year (utc_full_year t) @ js ''-'' @ pad2 (int (utc_month t) + 1) @ js ''-'' @ pad2 (utc_date t) @
     js ''T'' @ pad2 (utc_hours t) @ js '':'' @ pad2 (t div 60000 mod 60) @ js '':'' @
     pad2 (t div 1000 mod 60) @ js ''.'' @ pad_start 3 48 (dec_int (t mod 1000)) @ js ''Z''"

end
