(* ===== verification/Js_Async.thy ===== *)
theory Js_Async
  imports Js_Date Js_Runtime
begin

text \<open>
  Asynchronous operations. An awaited call is a function from the state of the world to
  its outcome (a rejection or a value) and the new state. \<open>io_bind\<close> is sequencing with
  \<open>await\<close>, \<open>io_catch\<close> is \<open>try/catch\<close>; \<open>io_settle\<close> hands the outcome to a handler, for code
  that treats both. The services behind the calls are parameters of the definitions.
\<close>

type_synonym ('s, 'a) io = "'s \<Rightarrow> 'a outcome \<times> 's"

definition io_return :: "'a \<Rightarrow> ('s, 'a) io" where
  "io_return a s = (Inr a, s)"

definition io_throw :: "thrown \<Rightarrow> ('s, 'a) io" where
  "io_throw e s = (Inl e, s)"

definition io_settle :: "('s, 'a) io \<Rightarrow> ('a outcome \<Rightarrow> ('s, 'b) io) \<Rightarrow> ('s, 'b) io" where
  "io_settle m k s = (let (r, s') = m s in k r s')"

definition io_bind :: "('s, 'a) io \<Rightarrow> ('a \<Rightarrow> ('s, 'b) io) \<Rightarrow> ('s, 'b) io" where
  "io_bind m k = io_settle m (case_sum io_throw k)"

definition io_catch :: "('s, 'a) io \<Rightarrow> (thrown \<Rightarrow> ('s, 'a) io) \<Rightarrow> ('s, 'a) io" where
  "io_catch m h = io_settle m (case_sum h io_return)"

definition io_then :: "('s, 'a) io \<Rightarrow> ('s, 'b) io \<Rightarrow> ('s, 'b) io" where
  "io_then m k = io_bind m (\<lambda>_. k)"

text \<open>A call that cannot fail and returns nothing, such as \<open>console.error\<close>.\<close>

definition io_do :: "('s \<Rightarrow> 's) \<Rightarrow> ('s, unit) io" where
  "io_do f s = (Inr (), f s)"

definition io_of :: "'a outcome \<Rightarrow> ('s, 'a) io" where
  "io_of r s = (r, s)"

lemma io_simps [simp]:
  "io_return a s = (Inr a, s)"
  "io_throw e s = (Inl e, s)"
  "io_do f s = (Inr (), f s)"
  "io_of r s = (r, s)"
  by (simp_all add: io_return_def io_throw_def io_do_def io_of_def)

lemma io_settle_app: "io_settle m k s = k (fst (m s)) (snd (m s))"
  by (simp add: io_settle_def case_prod_unfold Let_def)

lemma io_bind_app:
  "io_bind m k s = (case fst (m s) of Inl e \<Rightarrow> (Inl e, snd (m s)) | Inr a \<Rightarrow> k a (snd (m s)))"
  by (simp add: io_bind_def io_settle_app split: sum.split)

lemma io_catch_app:
  "io_catch m h s = (case fst (m s) of Inl e \<Rightarrow> h e (snd (m s)) | Inr a \<Rightarrow> (Inr a, snd (m s)))"
  by (simp add: io_catch_def io_settle_app split: sum.split)

lemma io_then_app:
  "io_then m k s = (case fst (m s) of Inl e \<Rightarrow> (Inl e, snd (m s)) | Inr _ \<Rightarrow> k (snd (m s)))"
  by (simp add: io_then_def io_bind_app)

lemma io_bind_simps [simp]:
  "m s = (Inl e, s') \<Longrightarrow> io_bind m k s = (Inl e, s')"
  "m s = (Inr a, s') \<Longrightarrow> io_bind m k s = k a s'"
  "m s = (Inl e, s') \<Longrightarrow> io_then m n s = (Inl e, s')"
  "m s = (Inr a, s') \<Longrightarrow> io_then m n s = n s'"
  "m s = (Inl e, s') \<Longrightarrow> io_catch m h s = h e s'"
  "m s = (Inr a, s') \<Longrightarrow> io_catch m h s = (Inr a, s')"
  by (simp_all add: io_bind_app io_then_app io_catch_app)

lemmas io_apps = io_settle_app io_bind_app io_catch_app io_then_app

text \<open>\<open>value instanceof Error ? value : new Error(errorMessage(value))\<close>.\<close>

definition to_error :: "thrown \<Rightarrow> thrown" where
  "to_error e = (if is_Err e then e else new_error (error_message e))"

lemma is_Err_to_error [simp]: "is_Err (to_error e)"
  by (simp add: to_error_def)

lemma to_error_id [simp]: "is_Err e \<Longrightarrow> to_error e = e"
  by (simp add: to_error_def)

lemma error_message_to_error [simp]: "error_message (to_error e) = error_message e"
  by (simp add: to_error_def)

definition js_num_text :: "js_num \<Rightarrow> jsstr" where
  "js_num_text x = (case x of Integral n \<Rightarrow> dec_int n | NonIntegral t \<Rightarrow> t)"

end
