(* ===== verification/Contracts_Capture.thy ===== *)
theory Contracts_Capture
  imports Js_Json "HOL-Library.Monad_Syntax"
begin

text \<open>
  The capture event, the payload that the redirect puts on the queue and the worker
  takes off it (\<open>packages/contracts/src/capture.ts\<close>), with its strict schema over a JSON value.

  \<open>z.iso.datetime()\<close> is zod's own regular expression and stays a parameter
  (\<open>z_datetime\<close>). A parse failure is \<open>None\<close>: its issues are never inspected.
\<close>

section \<open>The event\<close>

text \<open>A number read from JSON: an integer, or the text of a number that is not one.\<close>

datatype js_number = Whole int | Fractional jsstr

record capture_event =
  ev_event_id :: jsstr
  ev_occurred_at :: jsstr
  ev_tenant_id :: jsstr
  ev_link_id :: jsstr
  ev_slug :: jsstr
  ev_http_method :: "jsstr option"
  ev_user_agent :: "jsstr option"
  ev_referer :: "jsstr option"
  ev_accept :: "jsstr option"
  ev_accept_language :: "jsstr option"
  ev_sec_fetch_site :: "jsstr option"
  ev_sec_fetch_mode :: "jsstr option"
  ev_sec_fetch_dest :: "jsstr option"
  ev_sec_fetch_user :: "jsstr option"
  ev_sec_purpose :: "jsstr option"
  ev_sec_ch_ua :: "jsstr option"
  ev_sec_ch_ua_mobile :: "jsstr option"
  ev_sec_ch_ua_platform :: "jsstr option"
  ev_purpose :: "jsstr option"
  ev_x_purpose :: "jsstr option"
  ev_x_moz :: "jsstr option"
  ev_country :: "jsstr option"
  ev_asn :: "js_number option"
  ev_visitor_hash :: "jsstr option"

definition json_nullable :: "jsstr option \<Rightarrow> json" where
  "json_nullable v = (case v of None \<Rightarrow> JNull | Some s \<Rightarrow> JStr s)"

definition json_number :: "js_number option \<Rightarrow> json" where
  "json_number v =
     (case v of None \<Rightarrow> JNull | Some (Whole n) \<Rightarrow> JInt n | Some (Fractional t) \<Rightarrow> JNum t)"

text \<open>The event as the object that is put on the queue.\<close>

definition capture_members :: "'a capture_event_scheme \<Rightarrow> (jsstr \<times> json) list" where
  "capture_members e =
     [(js ''event_id'', JStr (ev_event_id e)), (js ''occurred_at'', JStr (ev_occurred_at e)),
      (js ''tenant_id'', JStr (ev_tenant_id e)), (js ''link_id'', JStr (ev_link_id e)),
      (js ''slug'', JStr (ev_slug e)),
      (js ''http_method'', json_nullable (ev_http_method e)),
      (js ''user_agent'', json_nullable (ev_user_agent e)),
      (js ''referer'', json_nullable (ev_referer e)),
      (js ''accept'', json_nullable (ev_accept e)),
      (js ''accept_language'', json_nullable (ev_accept_language e)),
      (js ''sec_fetch_site'', json_nullable (ev_sec_fetch_site e)),
      (js ''sec_fetch_mode'', json_nullable (ev_sec_fetch_mode e)),
      (js ''sec_fetch_dest'', json_nullable (ev_sec_fetch_dest e)),
      (js ''sec_fetch_user'', json_nullable (ev_sec_fetch_user e)),
      (js ''sec_purpose'', json_nullable (ev_sec_purpose e)),
      (js ''sec_ch_ua'', json_nullable (ev_sec_ch_ua e)),
      (js ''sec_ch_ua_mobile'', json_nullable (ev_sec_ch_ua_mobile e)),
      (js ''sec_ch_ua_platform'', json_nullable (ev_sec_ch_ua_platform e)),
      (js ''purpose'', json_nullable (ev_purpose e)),
      (js ''x_purpose'', json_nullable (ev_x_purpose e)),
      (js ''x_moz'', json_nullable (ev_x_moz e)),
      (js ''country'', json_nullable (ev_country e)),
      (js ''asn'', json_number (ev_asn e)),
      (js ''visitor_hash'', json_nullable (ev_visitor_hash e))]"

section \<open>The schema\<close>

definition ULID_PATTERN :: regex where
  "ULID_PATTERN = Times 26 (Cls (\<lambda>c. is_digit c \<or> 65 \<le> c \<and> c \<le> 72 \<or> c = 74 \<or> c = 75 \<or> c = 77 \<or>
     c = 78 \<or> 80 \<le> c \<and> c \<le> 84 \<or> 86 \<le> c \<and> c \<le> 90))"

definition CAPTURE_KEYS :: "jsstr list" where
  "CAPTURE_KEYS = map js
     [''event_id'', ''occurred_at'', ''tenant_id'', ''link_id'', ''slug'', ''http_method'',
      ''user_agent'', ''referer'', ''accept'', ''accept_language'', ''sec_fetch_site'',
      ''sec_fetch_mode'', ''sec_fetch_dest'', ''sec_fetch_user'', ''sec_purpose'', ''sec_ch_ua'',
      ''sec_ch_ua_mobile'', ''sec_ch_ua_platform'', ''purpose'', ''x_purpose'', ''x_moz'',
      ''country'', ''asn'', ''visitor_hash'']"

definition z_string :: "(jsstr \<Rightarrow> bool) \<Rightarrow> json option \<Rightarrow> jsstr option" where
  "z_string ok v = (case v of Some (JStr s) \<Rightarrow> if ok s then Some s else None | _ \<Rightarrow> None)"

definition z_nullable_signal :: "json option \<Rightarrow> jsstr option option" where
  "z_nullable_signal v =
     (case v of Some JNull \<Rightarrow> Some None | Some (JStr s) \<Rightarrow> Some (Some s) | _ \<Rightarrow> None)"

definition z_nullable_number :: "json option \<Rightarrow> js_number option option" where
  "z_nullable_number v =
     (case v of
        Some JNull \<Rightarrow> Some None
      | Some (JInt n) \<Rightarrow> Some (Some (Whole n))
      | Some (JNum t) \<Rightarrow> Some (Some (Fractional t))
      | _ \<Rightarrow> None)"

text \<open>The members in the schema's order; the three arguments are the string checks.\<close>

definition capture_fields ::
    "(jsstr \<Rightarrow> bool) \<Rightarrow> (jsstr \<Rightarrow> bool) \<Rightarrow> (jsstr \<Rightarrow> bool) \<Rightarrow> (jsstr \<Rightarrow> json option) \<Rightarrow>
     capture_event option" where
  "capture_fields id_ok datetime_ok text_ok f = do {
     event_id \<leftarrow> z_string id_ok (f (js ''event_id''));
     occurred_at \<leftarrow> z_string datetime_ok (f (js ''occurred_at''));
     tenant_id \<leftarrow> z_string text_ok (f (js ''tenant_id''));
     link_id \<leftarrow> z_string text_ok (f (js ''link_id''));
     slug \<leftarrow> z_string text_ok (f (js ''slug''));
     http_method \<leftarrow> z_nullable_signal (f (js ''http_method''));
     user_agent \<leftarrow> z_nullable_signal (f (js ''user_agent''));
     referer \<leftarrow> z_nullable_signal (f (js ''referer''));
     accept \<leftarrow> z_nullable_signal (f (js ''accept''));
     accept_language \<leftarrow> z_nullable_signal (f (js ''accept_language''));
     sec_fetch_site \<leftarrow> z_nullable_signal (f (js ''sec_fetch_site''));
     sec_fetch_mode \<leftarrow> z_nullable_signal (f (js ''sec_fetch_mode''));
     sec_fetch_dest \<leftarrow> z_nullable_signal (f (js ''sec_fetch_dest''));
     sec_fetch_user \<leftarrow> z_nullable_signal (f (js ''sec_fetch_user''));
     sec_purpose \<leftarrow> z_nullable_signal (f (js ''sec_purpose''));
     sec_ch_ua \<leftarrow> z_nullable_signal (f (js ''sec_ch_ua''));
     sec_ch_ua_mobile \<leftarrow> z_nullable_signal (f (js ''sec_ch_ua_mobile''));
     sec_ch_ua_platform \<leftarrow> z_nullable_signal (f (js ''sec_ch_ua_platform''));
     purpose \<leftarrow> z_nullable_signal (f (js ''purpose''));
     x_purpose \<leftarrow> z_nullable_signal (f (js ''x_purpose''));
     x_moz \<leftarrow> z_nullable_signal (f (js ''x_moz''));
     country \<leftarrow> z_nullable_signal (f (js ''country''));
     asn \<leftarrow> z_nullable_number (f (js ''asn''));
     visitor_hash \<leftarrow> z_nullable_signal (f (js ''visitor_hash''));
     Some \<lparr> ev_event_id = event_id, ev_occurred_at = occurred_at, ev_tenant_id = tenant_id,
       ev_link_id = link_id, ev_slug = slug, ev_http_method = http_method,
       ev_user_agent = user_agent, ev_referer = referer, ev_accept = accept,
       ev_accept_language = accept_language, ev_sec_fetch_site = sec_fetch_site,
       ev_sec_fetch_mode = sec_fetch_mode, ev_sec_fetch_dest = sec_fetch_dest,
       ev_sec_fetch_user = sec_fetch_user, ev_sec_purpose = sec_purpose,
       ev_sec_ch_ua = sec_ch_ua, ev_sec_ch_ua_mobile = sec_ch_ua_mobile,
       ev_sec_ch_ua_platform = sec_ch_ua_platform, ev_purpose = purpose,
       ev_x_purpose = x_purpose, ev_x_moz = x_moz, ev_country = country, ev_asn = asn,
       ev_visitor_hash = visitor_hash \<rparr> }"

definition capture_event_schema :: "(jsstr \<Rightarrow> bool) \<Rightarrow> json \<Rightarrow> capture_event option" where
  "capture_event_schema z_datetime v =
     (case v of
        JObj ms \<Rightarrow>
          if set (map fst ms) \<subseteq> set CAPTURE_KEYS then
            capture_fields (matches ULID_PATTERN) z_datetime (\<lambda>s. s \<noteq> []) (map_of ms)
          else None
      | _ \<Rightarrow> None)"

section \<open>Facts\<close>

definition valid_capture :: "(jsstr \<Rightarrow> bool) \<Rightarrow> 'a capture_event_scheme \<Rightarrow> bool" where
  "valid_capture z_datetime e \<longleftrightarrow>
     matches ULID_PATTERN (ev_event_id e) \<and> z_datetime (ev_occurred_at e) \<and>
     ev_tenant_id e \<noteq> [] \<and> ev_link_id e \<noteq> [] \<and> ev_slug e \<noteq> []"

lemma z_simps [simp]:
  "z_string ok (Some (JStr s)) = (if ok s then Some s else None)"
  "z_nullable_signal (Some (json_nullable v)) = Some v"
  "z_nullable_number (Some (json_number n)) = Some n"
  by (simp_all add: z_string_def z_nullable_signal_def json_nullable_def z_nullable_number_def
      json_number_def split: option.split js_number.split)

lemma z_string_Some: "z_string ok v = Some s \<longleftrightarrow> v = Some (JStr s) \<and> ok s"
  by (auto simp: z_string_def split: option.splits json.splits)

lemma fst_capture_members: "map fst (capture_members e) = CAPTURE_KEYS"
  by (simp add: capture_members_def CAPTURE_KEYS_def)

lemma distinct_capture_keys: "distinct CAPTURE_KEYS"
  by code_simp

lemma capture_fields_members:
  assumes "id_ok (ev_event_id e)" and "datetime_ok (ev_occurred_at e)"
    and "text_ok (ev_tenant_id e)" and "text_ok (ev_link_id e)" and "text_ok (ev_slug e)"
  shows "capture_fields id_ok datetime_ok text_ok (map_of (capture_members e)) =
    Some (capture_event.truncate e)"
  using assms
  by (simp add: capture_fields_def capture_members_def capture_event.truncate_def)

lemma capture_fields_valid:
  "capture_fields (matches ULID_PATTERN) z_datetime (\<lambda>s. s \<noteq> []) f = Some e \<Longrightarrow>
   valid_capture z_datetime e"
  by (auto simp: capture_fields_def valid_capture_def z_string_Some bind_eq_Some_conv)

lemma capture_schema_members:
  assumes "valid_capture z_datetime (e :: capture_event)"
  shows "capture_event_schema z_datetime (JObj (capture_members e)) = Some e"
proof -
  have "capture_event.truncate e = e" by (simp add: capture_event.truncate_def)
  then show ?thesis
    using assms fst_capture_members [of e]
    by (simp add: capture_event_schema_def capture_fields_members valid_capture_def flip: list.set_map)
qed

end
