(* ===== verification/Worker_R2Retry.thy ===== *)
theory Worker_R2Retry
  imports Js_Async Contracts_Capture
begin

text \<open>
  Retrying the PUT of a batch to R2 (\<open>apps/worker/src/batch/r2-retry.ts\<close>): which errors
  are retried, the attempts with exponential delays, and the hand-over of the batch to
  the dead-letter queue when the PUT has failed for good.

  The environment of the module is its \<open>sleep\<close> and its logger, which are effects that do
  not fail. The PUT and the dead-letter sink are calls that may be rejected.
\<close>

section \<open>Environment\<close>

type_synonym log_meta = "(jsstr \<times> json) list"

record 's retry_env =
  re_sleep :: "nat \<Rightarrow> 's \<Rightarrow> 's"
  re_log :: "jsstr \<Rightarrow> log_meta \<Rightarrow> 's \<Rightarrow> 's"

definition json_nat :: "nat \<Rightarrow> json" where
  "json_nat n = JInt (int n)"

section \<open>Which errors are retried\<close>

datatype r2_error_classification = Retryable | Non_retryable

definition RETRYABLE_TRANSPORT_ERROR_NAMES :: "jsstr list" where
  "RETRYABLE_TRANSPORT_ERROR_NAMES = [js ''TimeoutError'']"

definition RETRYABLE_TRANSPORT_ERROR_CODES :: "jsstr list" where
  "RETRYABLE_TRANSPORT_ERROR_CODES = map js [''ECONNRESET'', ''EPIPE'', ''ETIMEDOUT'', ''ECONNREFUSED'']"

definition classify_r2_error :: "thrown \<Rightarrow> r2_error_classification" where
  "classify_r2_error error =
     (case error of
        NonErr _ _ \<Rightarrow> Non_retryable
      | Err _ name _ code _ throttling status \<Rightarrow>
          if name \<in> set RETRYABLE_TRANSPORT_ERROR_NAMES then Retryable
          else if (case code of Some c \<Rightarrow> c \<in> set RETRYABLE_TRANSPORT_ERROR_CODES | None \<Rightarrow> False)
            then Retryable
          else if throttling then Retryable
          else
            (case status of
               Some c \<Rightarrow> if c = 429 \<or> 500 \<le> c \<and> c \<le> 599 then Retryable else Non_retryable
             | None \<Rightarrow> Non_retryable))"

section \<open>The attempts\<close>

datatype r2_put_outcome = Put_succeeded nat | Put_failed thrown nat

record r2_retry_options =
  ro_max_attempts :: js_num
  ro_initial_delay_ms :: js_num

definition validate_r2_options :: "r2_retry_options \<Rightarrow> unit outcome" where
  "validate_r2_options options =
     (if \<not> positive_integer (ro_max_attempts options) then
        Inl (new_error (js ''retryR2Put maxAttempts must be a positive integer; received '' @
          js_num_text (ro_max_attempts options)))
      else if \<not> non_negative_integer (ro_initial_delay_ms options) then
        Inl (new_error (js ''retryR2Put initialDelayMs must be a non-negative integer; received '' @
          js_num_text (ro_initial_delay_ms options)))
      else Inr ())"

definition log_non_retryable :: "'s retry_env \<Rightarrow> nat \<Rightarrow> thrown \<Rightarrow> 's \<Rightarrow> 's" where
  "log_non_retryable env attempt error =
     re_log env (js ''retryR2Put: non-retryable error on attempt '' @ dec attempt @
         js '', giving up without retrying: '' @ error_message error)
       [(js ''attempt'', json_nat attempt), (js ''retryDecision'', JStr (js ''non-retryable''))]"

definition log_exhausted :: "'s retry_env \<Rightarrow> nat \<Rightarrow> thrown \<Rightarrow> 's \<Rightarrow> 's" where
  "log_exhausted env attempts error =
     re_log env (js ''retryR2Put: exhausted '' @ dec attempts @ js '' attempt(s), all retryable: '' @
         error_message error)
       [(js ''attempts'', json_nat attempts)]"

text \<open>
  The loop: \<open>n\<close> attempts are left, \<open>attempt\<close> is the number of the next one.
\<close>

fun retry_put_loop ::
    "'s retry_env \<Rightarrow> ('s, unit) io \<Rightarrow> nat \<Rightarrow> nat \<Rightarrow> nat \<Rightarrow> nat \<Rightarrow> thrown \<Rightarrow> 's \<Rightarrow> r2_put_outcome \<times> 's" where
  "retry_put_loop env put limit delay 0 attempt last_error s =
     (Put_failed (to_error last_error) limit, log_exhausted env limit last_error s)"
| "retry_put_loop env put limit delay (Suc n) attempt last_error s =
     (case put s of
        (Inr _, s') \<Rightarrow> (Put_succeeded attempt, s')
      | (Inl error, s') \<Rightarrow>
          if classify_r2_error error = Non_retryable then
            (Put_failed (to_error error) attempt, log_non_retryable env attempt error s')
          else
            retry_put_loop env put limit delay n (Suc attempt) error
              (if attempt < limit then re_sleep env (delay * 2 ^ (attempt - 1)) s' else s'))"

definition retry_r2_put ::
    "'s retry_env \<Rightarrow> ('s, unit) io \<Rightarrow> r2_retry_options \<Rightarrow> ('s, r2_put_outcome) io" where
  "retry_r2_put env put options s =
     (case validate_r2_options options of
        Inl e \<Rightarrow> (Inl e, s)
      | Inr _ \<Rightarrow>
          (let limit = num_val (ro_max_attempts options);
               (outcome, s') = retry_put_loop env put limit (num_val (ro_initial_delay_ms options)) limit 1
                 (NonErr (js ''undefined'') (js ''undefined'')) s
           in (Inr outcome, s')))"

section \<open>The dead-letter hand-over\<close>

datatype dlq_reason = Schema_validation_failed | Attempts_exhausted | Flush_poison | R2_put_failed

record dlq_issue =
  di_path :: jsstr
  di_message :: jsstr
  di_code :: jsstr

record dlq_send_meta =
  dm_original_job_id :: jsstr
  dm_attempts_made :: nat
  dm_issues :: "dlq_issue list option"

type_synonym 's dlq_sink = "dlq_reason \<Rightarrow> json \<Rightarrow> thrown \<Rightarrow> dlq_send_meta \<Rightarrow> ('s, unit) io"

definition events_json :: "capture_event list \<Rightarrow> json" where
  "events_json es = JArr (map (\<lambda>e. JObj (capture_members e)) es)"

definition send_r2_put_failure_to_dlq ::
    "capture_event list \<Rightarrow> thrown \<Rightarrow> 's dlq_sink \<Rightarrow> jsstr \<Rightarrow> nat \<Rightarrow> ('s, unit) io" where
  "send_r2_put_failure_to_dlq es error dlq batch_id attempts =
     dlq R2_put_failed (events_json es) error
       \<lparr> dm_original_job_id = batch_id, dm_attempts_made = attempts, dm_issues = None \<rparr>"

definition put_r2_batch_with_retry ::
    "'s retry_env \<Rightarrow> ('s, unit) io \<Rightarrow> capture_event list \<Rightarrow> jsstr \<Rightarrow> 's dlq_sink \<Rightarrow> r2_retry_options \<Rightarrow>
     ('s, r2_put_outcome) io" where
  "put_r2_batch_with_retry env put es batch_id dlq options =
     io_bind (retry_r2_put env put options)
       (\<lambda>outcome.
          case outcome of
            Put_succeeded _ \<Rightarrow> io_return outcome
          | Put_failed error attempts \<Rightarrow>
              io_then (send_r2_put_failure_to_dlq es error dlq batch_id attempts) (io_return outcome))"

section \<open>Facts\<close>

text \<open>The state before attempt \<open>i + 1\<close>, when every earlier attempt has failed.\<close>

fun before_attempt :: "'s retry_env \<Rightarrow> ('s, unit) io \<Rightarrow> nat \<Rightarrow> 's \<Rightarrow> nat \<Rightarrow> 's" where
  "before_attempt env put delay s 0 = s"
| "before_attempt env put delay s (Suc i) =
     re_sleep env (delay * 2 ^ i) (snd (put (before_attempt env put delay s i)))"

definition fails_retryably :: "('s, unit) io \<Rightarrow> 's \<Rightarrow> bool" where
  "fails_retryably put s = (case fst (put s) of Inl e \<Rightarrow> classify_r2_error e = Retryable | Inr _ \<Rightarrow> False)"

text \<open>What the loop returns, read off the attempts in order.\<close>

fun put_result :: "('s, unit) io \<Rightarrow> (nat \<Rightarrow> 's) \<Rightarrow> nat \<Rightarrow> nat \<Rightarrow> r2_put_outcome" where
  "put_result put st 0 i = Put_failed (new_error []) i"
| "put_result put st (Suc n) i =
     (case fst (put (st i)) of
        Inr _ \<Rightarrow> Put_succeeded (Suc i)
      | Inl e \<Rightarrow>
          if classify_r2_error e = Non_retryable \<or> n = 0 then Put_failed (to_error e) (Suc i)
          else put_result put st n (Suc i))"

lemma classify_cases: "classify_r2_error e = Retryable \<longleftrightarrow> classify_r2_error e \<noteq> Non_retryable"
  by (cases "classify_r2_error e") simp_all

lemma loop_result:
  assumes "0 < n" and "i + n = limit"
  shows "fst (retry_put_loop env put limit delay n (Suc i) e0 (before_attempt env put delay s i)) =
    put_result put (before_attempt env put delay s) n i"
  using assms
proof (induction n arbitrary: i e0)
  case (Suc n)
  let ?s = "before_attempt env put delay s i"
  obtain r s' where put: "put ?s = (r, s')" by fastforce
  show ?case
  proof (cases r)
    case (Inl e)
    consider "classify_r2_error e = Non_retryable" | "classify_r2_error e \<noteq> Non_retryable" "n = 0"
      | "classify_r2_error e \<noteq> Non_retryable" "0 < n" by blast
    then show ?thesis
    proof cases
      case 3
      have "before_attempt env put delay s (Suc i) = re_sleep env (delay * 2 ^ i) s'" by (simp add: put)
      then show ?thesis using Suc.IH [of "Suc i" e] Suc.prems 3 put Inl by simp
    qed (use put Inl Suc.prems in auto)
  qed (use put in simp)
qed simp

lemma put_result_succeeded:
  "put_result put st n i = Put_succeeded k \<longleftrightarrow>
   i < k \<and> k \<le> i + n \<and> fst (put (st (k - 1))) = Inr () \<and>
   (\<forall>j. i \<le> j \<longrightarrow> j < k - 1 \<longrightarrow> fails_retryably put (st j))"
proof (induction n arbitrary: i)
  case (Suc n)
  show ?case
  proof (cases "fst (put (st i))")
    case (Inr u)
    then have "\<not> fails_retryably put (st i)" by (simp add: fails_retryably_def)
    then have "k - 1 = i" if "i < k" "\<forall>j. i \<le> j \<longrightarrow> j < k - 1 \<longrightarrow> fails_retryably put (st j)"
      using that by (metis Suc_pred' le_refl less_SucE less_imp_Suc_add not_less_eq zero_less_Suc diff_Suc_1)
    then show ?thesis using Inr by auto
  next
    case (Inl e)
    then have i: "fails_retryably put (st i) \<longleftrightarrow> classify_r2_error e \<noteq> Non_retryable"
      by (simp add: fails_retryably_def classify_cases)
    show ?thesis
    proof (cases "classify_r2_error e = Non_retryable \<or> n = 0")
      case True
      then show ?thesis using Inl i by (cases "k = Suc i") auto
    next
      case False
      have "(\<forall>j. i \<le> j \<longrightarrow> j < k - 1 \<longrightarrow> fails_retryably put (st j)) \<longleftrightarrow>
          (\<forall>j. Suc i \<le> j \<longrightarrow> j < k - 1 \<longrightarrow> fails_retryably put (st j))"
      proof -
        have "Suc i \<le> j" if "i \<le> j" "j \<noteq> i" for j using that by simp
        then show ?thesis using False i by (metis Suc_leD)
      qed
      moreover have "fst (put (st (k - 1))) = Inr () \<Longrightarrow> k \<noteq> Suc i" using Inl by auto
      ultimately show ?thesis using False Inl Suc.IH [of "Suc i"] by auto
    qed
  qed
qed auto

lemma retry_valid:
  assumes "validate_r2_options options = Inr ()"
  shows "fst (retry_r2_put env put options s) =
      Inr (put_result put (before_attempt env put (num_val (ro_initial_delay_ms options)) s)
        (num_val (ro_max_attempts options)) 0)"
proof -
  have "0 < num_val (ro_max_attempts options)"
    using assms
    by (auto simp: validate_r2_options_def positive_integer_def num_val_def split: js_num.splits if_splits)
  from loop_result [OF this, of 0 "num_val (ro_max_attempts options)" env put
      "num_val (ro_initial_delay_ms options)" _ s]
  show ?thesis
    using assms by (simp add: retry_r2_put_def Let_def case_prod_unfold)
qed

lemma put_result_failed_bounds:
  "put_result put st n i = Put_failed e k \<Longrightarrow> 0 < n \<Longrightarrow> i < k \<and> k \<le> i + n \<and> is_Err e"
proof (induction n arbitrary: i)
  case (Suc n)
  then show ?case
    by (cases "n = 0") (fastforce split: sum.splits if_splits)+
qed simp

text \<open>A PUT outcome reaches the dead-letter sink exactly when it is a failure.\<close>

lemma put_with_retry_app:
  "put_r2_batch_with_retry env put es batch_id dlq options s =
     (case retry_r2_put env put options s of
        (Inl e, s') \<Rightarrow> (Inl e, s')
      | (Inr (Put_succeeded k), s') \<Rightarrow> (Inr (Put_succeeded k), s')
      | (Inr (Put_failed e k), s') \<Rightarrow>
          (case send_r2_put_failure_to_dlq es e dlq batch_id k s' of
             (Inl d, s'') \<Rightarrow> (Inl d, s'')
           | (Inr _, s'') \<Rightarrow> (Inr (Put_failed e k), s'')))"
  by (auto simp: put_r2_batch_with_retry_def io_apps case_prod_unfold split: sum.splits r2_put_outcome.splits)

section \<open>Properties\<close>

text \<open>
  with valid options the retry of a PUT always resolves. It reports success at attempt
  \<open>k\<close> exactly when that attempt succeeded and every earlier one failed with a retryable
  error, attempt \<open>i + 1\<close> running after a delay of \<open>initialDelayMs * 2 ^ (i - 1)\<close>; otherwise it
  reports a failure after at least one and at most \<open>maxAttempts\<close> attempts.
\<close>

theorem retry_outcome:
  assumes "0 < limit" and "0 \<le> delay"
  shows "\<exists>outcome s'. retry_r2_put env put
      \<lparr> ro_max_attempts = Integral (int limit), ro_initial_delay_ms = Integral delay \<rparr> s = (Inr outcome, s') \<and>
    (case outcome of
       Put_succeeded k \<Rightarrow> 1 \<le> k \<and> k \<le> limit \<and>
         fst (put (before_attempt env put (nat delay) s (k - 1))) = Inr () \<and>
         (\<forall>i < k - 1. fails_retryably put (before_attempt env put (nat delay) s i))
     | Put_failed e k \<Rightarrow> 1 \<le> k \<and> k \<le> limit \<and> is_Err e \<and>
         \<not> (\<exists>j \<le> limit. 1 \<le> j \<and> fst (put (before_attempt env put (nat delay) s (j - 1))) = Inr () \<and>
              (\<forall>i < j - 1. fails_retryably put (before_attempt env put (nat delay) s i))))"
proof -
  let ?o = "\<lparr> ro_max_attempts = Integral (int limit), ro_initial_delay_ms = Integral delay \<rparr>"
  let ?st = "before_attempt env put (nat delay) s"
  have valid: "validate_r2_options ?o = Inr ()"
    using assms by (simp add: validate_r2_options_def positive_integer_def non_negative_integer_def)
  obtain r s' where r: "retry_r2_put env put ?o s = (r, s')" by fastforce
  have out: "r = Inr (put_result put ?st limit 0)"
    using retry_valid [OF valid, of env put s] r by (simp add: num_val_def)
  show ?thesis
  proof (cases "put_result put ?st limit 0")
    case (Put_succeeded k)
    then show ?thesis using r out put_result_succeeded [of put ?st limit 0 k] by auto
  next
    case (Put_failed e k)
    then have no: "put_result put ?st limit 0 \<noteq> Put_succeeded j" for j by simp
    show ?thesis
      using r out Put_failed put_result_failed_bounds [OF Put_failed assms(1)]
        no [unfolded put_result_succeeded]
      by auto
  qed
qed

definition silent_env :: "'s retry_env" where
  "silent_env = \<lparr> re_sleep = \<lambda>_ s. s, re_log = \<lambda>_ _ s. s \<rparr>"

theorem retry_outcome_witness:
  "\<exists>outcome s'. retry_r2_put silent_env (\<lambda>n. (if n = 1 then Inr () else Inl (new_error []), n + 1))
      \<lparr> ro_max_attempts = Integral (int 3), ro_initial_delay_ms = Integral 200 \<rparr> (0 :: nat) = (Inr outcome, s')"
  using retry_outcome [of 3 200 silent_env "\<lambda>n. (if n = 1 then Inr () else Inl (new_error []), n + 1)" "0 :: nat"]
  by auto

text \<open>
  the batch is handed to the dead-letter sink exactly when its PUT has failed, once,
  with all its events and the number of attempts; when the sink refuses, the whole
  operation is rejected and not reported as done.
\<close>

theorem failed_put_reaches_dlq:
  assumes "retry_r2_put env put options s = (Inr outcome, s1)"
  shows "put_r2_batch_with_retry env put es batch_id dlq options s =
    (case outcome of
       Put_succeeded _ \<Rightarrow> (Inr outcome, s1)
     | Put_failed e k \<Rightarrow>
         (let (r, s2) = dlq R2_put_failed (events_json es) e
                \<lparr> dm_original_job_id = batch_id, dm_attempts_made = k, dm_issues = None \<rparr> s1
          in (case r of Inl d \<Rightarrow> (Inl d, s2) | Inr _ \<Rightarrow> (Inr outcome, s2))))"
  unfolding put_with_retry_app assms
  by (auto simp: send_r2_put_failure_to_dlq_def case_prod_unfold Let_def
      split: r2_put_outcome.split sum.split)

theorem failed_put_reaches_dlq_witness:
  "put_r2_batch_with_retry silent_env (\<lambda>s. (Inl (new_error []), s)) [] [98]
     (\<lambda>reason payload error meta s. (Inr (), s @ [(reason, payload, dm_attempts_made meta)]))
     \<lparr> ro_max_attempts = Integral 3, ro_initial_delay_ms = Integral 0 \<rparr> [] =
   (Inr (Put_failed (new_error []) 1), [(R2_put_failed, JArr [], 1)])"
proof -
  have "retry_r2_put silent_env (\<lambda>s. (Inl (new_error []), s))
      \<lparr> ro_max_attempts = Integral 3, ro_initial_delay_ms = Integral 0 \<rparr> [] =
    (Inr (Put_failed (new_error []) 1), [] :: (dlq_reason \<times> json \<times> nat) list)"
    by (simp add: retry_r2_put_def validate_r2_options_def positive_integer_def non_negative_integer_def
        num_val_def numeral_eq_Suc classify_r2_error_def new_error_def RETRYABLE_TRANSPORT_ERROR_NAMES_def
        log_non_retryable_def silent_env_def to_error_def js_def)
  from failed_put_reaches_dlq [OF this] show ?thesis by (simp add: events_json_def)
qed

end
