(* ===== verification/Worker_SplitRetry.thy ===== *)
theory Worker_SplitRetry
  imports Worker_R2Retry
begin

text \<open>
  Classifying a flush failure (\<open>apps/worker/src/batch/classify-flush-error.ts\<close>) and
  bisecting a batch to isolate the rows that Postgres refuses
  (\<open>apps/worker/src/batch/split-retry.ts\<close>).

  The recursion of \<open>attemptBatch\<close> halves a batch that failed, so it would not end on an
  empty batch whose flush fails; the definition is a \<open>partial_function\<close> whose value is
  \<open>None\<close> when the code does not return. \<open>attempt_batch_returns\<close> shows that every
  non-empty batch returns, and \<open>retryWithSplit\<close> never starts it on an empty one.
\<close>

section \<open>Which failures are the fault of a row\<close>

datatype flush_error_classification = Row_fault | Infrastructure

definition ROW_FAULT_SQLSTATE_CLASSES :: "jsstr list" where
  "ROW_FAULT_SQLSTATE_CLASSES = [js ''22'', js ''23'']"

definition MAX_CAUSE_DEPTH :: nat where "MAX_CAUSE_DEPTH = 5"

fun sql_state_within :: "nat \<Rightarrow> thrown option \<Rightarrow> jsstr option" where
  "sql_state_within 0 current = None"
| "sql_state_within (Suc depth) current =
     (case current of
        Some (Err _ _ _ code cause _ _) \<Rightarrow>
          (case code of Some c \<Rightarrow> Some c | None \<Rightarrow> sql_state_within depth cause)
      | _ \<Rightarrow> None)"

definition extract_sql_state :: "thrown \<Rightarrow> jsstr option" where
  "extract_sql_state error = sql_state_within MAX_CAUSE_DEPTH (Some error)"

definition classify_flush_error :: "thrown \<Rightarrow> flush_error_classification" where
  "classify_flush_error error =
     (if \<not> is_Err error then Infrastructure
      else
        (case extract_sql_state error of
           None \<Rightarrow> Infrastructure
         | Some sqlstate \<Rightarrow>
             if take 2 sqlstate \<in> set ROW_FAULT_SQLSTATE_CLASSES then Row_fault else Infrastructure))"

section \<open>Attempting and splitting\<close>

type_synonym 's flush_call = "capture_event list \<Rightarrow> jsstr \<Rightarrow> ('s, unit) io"

record split_retry_options =
  so_max_attempts_per_batch :: js_num
  so_initial_delay_ms :: js_num

type_synonym split_retry_result = "capture_event list \<times> (capture_event \<times> thrown) list"

abbreviation committed_events :: "split_retry_result \<Rightarrow> capture_event list" where
  "committed_events \<equiv> fst"

abbreviation poison_events :: "split_retry_result \<Rightarrow> (capture_event \<times> thrown) list" where
  "poison_events \<equiv> snd"

definition validate_split_options :: "split_retry_options \<Rightarrow> unit outcome" where
  "validate_split_options options =
     (if \<not> positive_integer (so_max_attempts_per_batch options) then
        Inl (new_error (js ''retryWithSplit maxAttemptsPerBatch must be a positive integer; received '' @
          js_num_text (so_max_attempts_per_batch options)))
      else if \<not> non_negative_integer (so_initial_delay_ms options) then
        Inl (new_error (js ''retryWithSplit initialDelayMs must be a non-negative integer; received '' @
          js_num_text (so_initial_delay_ms options)))
      else Inr ())"

text \<open>The attempts on one batch: \<open>n\<close> are left; the last error is returned when all failed.\<close>

fun flush_attempts ::
    "'s retry_env \<Rightarrow> ('s, unit) io \<Rightarrow> nat \<Rightarrow> nat \<Rightarrow> nat \<Rightarrow> nat \<Rightarrow> thrown \<Rightarrow> 's \<Rightarrow> thrown option \<times> 's" where
  "flush_attempts env flush limit delay 0 attempt last_error s = (Some last_error, s)"
| "flush_attempts env flush limit delay (Suc n) attempt last_error s =
     (case flush s of
        (Inr _, s') \<Rightarrow> (None, s')
      | (Inl error, s') \<Rightarrow>
          flush_attempts env flush limit delay n (Suc attempt) error
            (if attempt < limit then re_sleep env (delay * 2 ^ (attempt - 1)) s' else s'))"

definition try_flush :: "'s retry_env \<Rightarrow> ('s, unit) io \<Rightarrow> nat \<Rightarrow> nat \<Rightarrow> 's \<Rightarrow> thrown option \<times> 's" where
  "try_flush env flush limit delay s =
     flush_attempts env flush limit delay limit 1 (NonErr (js ''undefined'') (js ''undefined'')) s"

definition log_infrastructure :: "'s retry_env \<Rightarrow> nat \<Rightarrow> nat \<Rightarrow> thrown \<Rightarrow> 's \<Rightarrow> 's" where
  "log_infrastructure env count limit error =
     re_log env (js ''retryWithSplit: sub-batch of '' @ dec count @ js '' event(s) failed '' @ dec limit @
         js '' attempt(s) with an infrastructure error, rejecting rather than splitting: '' @
         error_message error)
       [(js ''batchSize'', json_nat count), (js ''attempts'', json_nat limit)]"

definition log_poison :: "'s retry_env \<Rightarrow> capture_event \<Rightarrow> nat \<Rightarrow> thrown \<Rightarrow> 's \<Rightarrow> 's" where
  "log_poison env event limit error =
     re_log env (js ''retryWithSplit: isolated poison event '' @ ev_event_id event @ js '' after '' @
         dec limit @ js '' failed attempt(s): '' @ error_message error)
       [(js ''eventId'', JStr (ev_event_id event)), (js ''attempts'', json_nat limit)]"

definition log_split :: "'s retry_env \<Rightarrow> nat \<Rightarrow> nat \<Rightarrow> thrown \<Rightarrow> 's \<Rightarrow> 's" where
  "log_split env count limit error =
     re_log env (js ''retryWithSplit: batch of '' @ dec count @ js '' event(s) failed '' @ dec limit @
         js '' attempt(s), splitting to isolate the failure: '' @ error_message error)
       [(js ''batchSize'', json_nat count), (js ''attempts'', json_nat limit)]"

definition left_half :: "'a list \<Rightarrow> 'a list" where
  "left_half es = take ((length es + 1) div 2) es"

definition right_half :: "'a list \<Rightarrow> 'a list" where
  "right_half es = drop ((length es + 1) div 2) es"

definition join_results :: "split_retry_result \<Rightarrow> split_retry_result \<Rightarrow> split_retry_result" where
  "join_results l r = (committed_events l @ committed_events r, poison_events l @ poison_events r)"

partial_function (option) attempt_batch ::
    "'s retry_env \<Rightarrow> 's flush_call \<Rightarrow> (thrown \<Rightarrow> flush_error_classification) \<Rightarrow> nat \<Rightarrow> nat \<Rightarrow>
     capture_event list \<Rightarrow> jsstr \<Rightarrow> 's \<Rightarrow> (split_retry_result outcome \<times> 's) option" where
  "attempt_batch env flush classify limit delay es batch_id s =
     (case try_flush env (flush es batch_id) limit delay s of
        (None, s') \<Rightarrow> Some (Inr (es, []), s')
      | (Some error, s') \<Rightarrow>
          if classify error = Infrastructure then
            Some (Inl (to_error error), log_infrastructure env (length es) limit error s')
          else if length es = 1 then
            Some (Inr ([], [(hd es, to_error error)]), log_poison env (hd es) limit error s')
          else
            Option.bind
              (attempt_batch env flush classify limit delay (left_half es) (batch_id @ js ''.0'')
                 (log_split env (length es) limit error s'))
              (\<lambda>l. case fst l of
                 Inl e \<Rightarrow> Some (Inl e, snd l)
               | Inr left_result \<Rightarrow>
                   Option.bind
                     (attempt_batch env flush classify limit delay (right_half es)
                        (batch_id @ js ''.1'') (snd l))
                     (\<lambda>r. Some (map_sum id (join_results left_result) (fst r), snd r))))"

definition retry_with_split ::
    "'s retry_env \<Rightarrow> (thrown \<Rightarrow> flush_error_classification) \<Rightarrow> capture_event list \<Rightarrow> 's flush_call \<Rightarrow>
     split_retry_options \<Rightarrow> jsstr \<Rightarrow> 's \<Rightarrow> (split_retry_result outcome \<times> 's) option" where
  "retry_with_split env classify es flush options batch_id s =
     (case validate_split_options options of
        Inl e \<Rightarrow> Some (Inl e, s)
      | Inr _ \<Rightarrow>
          if es = [] then Some (Inr ([], []), s)
          else
            attempt_batch env flush classify (num_val (so_max_attempts_per_batch options))
              (num_val (so_initial_delay_ms options)) es batch_id s)"

section \<open>Poison events\<close>

fun send_poison_events_to_dlq ::
    "(capture_event \<times> thrown) list \<Rightarrow> 's dlq_sink \<Rightarrow> jsstr \<Rightarrow> nat \<Rightarrow> ('s, unit) io" where
  "send_poison_events_to_dlq [] dlq batch_id attempts = io_return ()"
| "send_poison_events_to_dlq ((event, error) # ps) dlq batch_id attempts =
     io_then
       (dlq Flush_poison (JObj (capture_members event)) error
          \<lparr> dm_original_job_id = batch_id, dm_attempts_made = attempts, dm_issues = None \<rparr>)
       (send_poison_events_to_dlq ps dlq batch_id attempts)"

section \<open>Termination\<close>

lemma halves: "left_half es @ right_half es = es"
  by (simp add: left_half_def right_half_def)

lemma halves_shorter:
  assumes "2 \<le> length es"
  shows "0 < length (left_half es)" "length (left_half es) < length es"
    and "0 < length (right_half es)" "length (right_half es) < length es"
proof -
  from assms show "0 < length (left_half es)" by (cases es) (simp_all add: left_half_def)
  from assms show "length (left_half es) < length es" unfolding left_half_def length_take by linarith
  from assms show "0 < length (right_half es)" unfolding right_half_def length_drop by linarith
  from assms show "length (right_half es) < length es" unfolding right_half_def length_drop by linarith
qed

lemma attempt_batch_returns:
  "es \<noteq> [] \<Longrightarrow> \<exists>r s'. attempt_batch env flush classify limit delay es batch_id s = Some (r, s')"
proof (induction es arbitrary: batch_id s rule: length_induct)
  case (1 es)
  show ?case
  proof (cases "2 \<le> length es")
    case True
    have ne: "left_half es \<noteq> []" "right_half es \<noteq> []" using halves_shorter [OF True] by auto
    have L: "\<exists>r s'. attempt_batch env flush classify limit delay (left_half es) i s = Some (r, s')" for i s
      using 1(1) halves_shorter(2) [OF True] ne(1) by blast
    have R: "\<exists>r s'. attempt_batch env flush classify limit delay (right_half es) i s = Some (r, s')" for i s
      using 1(1) halves_shorter(4) [OF True] ne(2) by blast
    obtain e s1 where f: "try_flush env (flush es batch_id) limit delay s = (e, s1)" by fastforce
    show ?thesis
    proof (cases e)
      case None
      then show ?thesis by (subst attempt_batch.simps) (simp add: f)
    next
      case (Some error)
      obtain l s2 where l: "attempt_batch env flush classify limit delay (left_half es) (batch_id @ js ''.0'')
          (log_split env (length es) limit error s1) = Some (l, s2)" using L by blast
      obtain r s3 where r: "attempt_batch env flush classify limit delay (right_half es) (batch_id @ js ''.1'') s2
          = Some (r, s3)" using R by blast
      show ?thesis
        using True Some by (subst attempt_batch.simps) (auto simp: f l r split: sum.split)
    qed
  next
    case False
    have "0 < length es" using 1(2) by simp
    with False have "length es = 1" by linarith
    then show ?thesis
      by (subst attempt_batch.simps) (simp split: prod.split option.split)
  qed
qed

text \<open>How a returning attempt came about.\<close>

lemma attempt_batch_cases:
  assumes "attempt_batch env flush classify limit delay es batch_id s = Some (r, s')" and "es \<noteq> []"
    and "try_flush env (flush es batch_id) limit delay s = (err, s1)"
  obtains (ok) "err = None" "r = Inr (es, [])" "s' = s1"
  | (infra) error where "err = Some error" "classify error = Infrastructure" "r = Inl (to_error error)"
      "s' = log_infrastructure env (length es) limit error s1"
  | (poison) error e where "err = Some error" "classify error \<noteq> Infrastructure" "es = [e]"
      "r = Inr ([], [(e, to_error error)])" "s' = log_poison env e limit error s1"
  | (left_error) error e where "err = Some error" "classify error \<noteq> Infrastructure" "2 \<le> length es" "r = Inl e"
      "attempt_batch env flush classify limit delay (left_half es) (batch_id @ js ''.0'')
        (log_split env (length es) limit error s1) = Some (Inl e, s')"
  | (split) error lr s2 rr where "err = Some error" "classify error \<noteq> Infrastructure" "2 \<le> length es"
      "attempt_batch env flush classify limit delay (left_half es) (batch_id @ js ''.0'')
        (log_split env (length es) limit error s1) = Some (Inr lr, s2)"
      "attempt_batch env flush classify limit delay (right_half es) (batch_id @ js ''.1'') s2 = Some (rr, s')"
      "r = map_sum id (join_results lr) rr"
proof (cases err)
  case None
  then show ?thesis using assms(1) ok by (subst (asm) attempt_batch.simps) (simp add: assms(3))
next
  case (Some error)
  consider "classify error = Infrastructure" | "classify error \<noteq> Infrastructure" "length es = 1"
    | "classify error \<noteq> Infrastructure" "2 \<le> length es"
    using assms(2) by (cases es) (auto simp: Suc_le_eq)
  then show ?thesis
  proof cases
    case 1
    then show ?thesis
      using assms(1) Some infra by (subst (asm) attempt_batch.simps) (simp add: assms(3))
  next
    case 2
    then obtain e where e: "es = [e]" by (cases es) auto
    then have "r = Inr ([], [(e, to_error error)])" "s' = log_poison env e limit error s1"
      using assms(1) Some 2
      unfolding attempt_batch.simps [of env flush classify limit delay es batch_id s] assms(3)
      by (auto simp: e)
    then show ?thesis using poison Some 2 e by blast
  next
    case 3
    obtain l s2
      where l: "attempt_batch env flush classify limit delay (left_half es) (batch_id @ js ''.0'')
        (log_split env (length es) limit error s1) = Some (l, s2)"
        and rest: "(case l of Inl e \<Rightarrow> Some (Inl e, s2)
          | Inr lr \<Rightarrow> Option.bind
              (attempt_batch env flush classify limit delay (right_half es) (batch_id @ js ''.1'') s2)
              (\<lambda>r. Some (map_sum id (join_results lr) (fst r), snd r)))
          = Some (r, s')"
      using assms(1) Some 3
      unfolding attempt_batch.simps [of env flush classify limit delay es batch_id s] assms(3)
      by (auto simp: bind_eq_Some_conv cong: sum.case_cong)
    show ?thesis
    proof (cases l)
      case (Inl e)
      then show ?thesis using left_error [OF Some 3] l rest by simp
    next
      case (Inr lr)
      with rest obtain rr
        where "attempt_batch env flush classify limit delay (right_half es) (batch_id @ js ''.1'') s2 = Some (rr, s')"
          "r = map_sum id (join_results lr) rr"
        by (auto simp: bind_eq_Some_conv)
      then show ?thesis using split [OF Some 3] l Inr by blast
    qed
  qed
qed

lemma attempt_batch_induct [consumes 2, case_names ok poison split]:
  assumes "attempt_batch env flush classify limit delay es batch_id s = Some (Inr r, s')" and "es \<noteq> []"
    and ok: "\<And>es batch_id s s1. es \<noteq> [] \<Longrightarrow> try_flush env (flush es batch_id) limit delay s = (None, s1) \<Longrightarrow> P es s (es, []) s1"
    and poison: "\<And>e batch_id s s1 error. try_flush env (flush [e] batch_id) limit delay s = (Some error, s1) \<Longrightarrow>
        classify error \<noteq> Infrastructure \<Longrightarrow>
        P [e] s ([], [(e, to_error error)]) (log_poison env e limit error s1)"
    and split: "\<And>es batch_id s s1 error lr s2 rr s3. try_flush env (flush es batch_id) limit delay s = (Some error, s1) \<Longrightarrow>
        classify error \<noteq> Infrastructure \<Longrightarrow> 2 \<le> length es \<Longrightarrow>
        P (left_half es) (log_split env (length es) limit error s1) lr s2 \<Longrightarrow>
        P (right_half es) s2 rr s3 \<Longrightarrow> P es s (join_results lr rr) s3"
  shows "P es s r s'"
  using assms(1,2)
proof (induction es arbitrary: batch_id s r s' rule: length_induct)
  case (1 es)
  obtain err s1 where f: "try_flush env (flush es batch_id) limit delay s = (err, s1)" by fastforce
  from 1(2,3) f show ?case
  proof (cases rule: attempt_batch_cases)
    case ok
    then show ?thesis using assms(3) [of es batch_id s s1] f 1(3) by simp
  next
    case (poison error e)
    then show ?thesis using assms(4) [of e batch_id s error s1] f by simp
  next
    case (split error lr s2 rr)
    then obtain r2 where r2: "rr = Inr r2" "r = join_results lr r2" by (cases rr) auto
    note h = halves_shorter [OF split(3)]
    have "P (left_half es) (log_split env (length es) limit error s1) lr s2"
      using 1(1) h(1,2) split(4) by blast
    moreover have "P (right_half es) s2 r2 s'"
      using 1(1) h(3,4) split(5) r2(1) by blast
    ultimately show ?thesis
      using assms(5) [of es batch_id s error s1 lr s2 r2 s'] f split(1-3) r2(2) by simp
  qed auto
qed

section \<open>What a batch is split into\<close>

lemma shuffles_append:
  "as \<in> shuffles xs ys \<Longrightarrow> bs \<in> shuffles us vs \<Longrightarrow> as @ bs \<in> shuffles (xs @ us) (ys @ vs)"
proof (induction as arbitrary: xs ys)
  case Nil
  then show ?case by (cases xs; cases ys) auto
next
  case (Cons a as)
  then show ?case by (auto simp: Cons_in_shuffles_iff)
qed

text \<open>Every event is committed or poison, once each, and both keep their order.\<close>

lemma attempt_batch_shuffle:
  assumes "attempt_batch env flush classify limit delay es batch_id s = Some (Inr r, s')" and "es \<noteq> []"
  shows "es \<in> shuffles (committed_events r) (map fst (poison_events r))"
  using assms
proof (induction rule: attempt_batch_induct)
  case (split es batch_id s s1 error lr s2 rr s3)
  then show ?case
    using shuffles_append [OF split(4,5)] halves [of es] by (simp add: join_results_def)
qed simp_all

lemma flush_attempts_fail:
  assumes "\<And>s. \<exists>e s'. flush s = (Inl e, s') \<and> Q e" and "0 < n"
  shows "\<exists>e s'. flush_attempts env flush limit delay n attempt e0 s = (Some e, s') \<and> Q e"
  using assms(2)
proof (induction n arbitrary: attempt e0 s)
  case (Suc n)
  obtain e s' where e: "flush s = (Inl e, s')" "Q e" using assms(1) by blast
  then show ?case using Suc.IH by (cases n) auto
qed simp

lemma flush_attempts_ok:
  assumes "\<And>s. \<exists>s'. flush s = (Inr (), s')" and "0 < n"
  shows "\<exists>s'. flush_attempts env flush limit delay n attempt e0 s = (None, s')"
  using assms(2) assms(1) [of s] by (cases n) auto

text \<open>
  A flush that fails, with a row fault, exactly for the batches that hold a bad event: the
  poison events are exactly the bad ones.
\<close>

definition fails_on_bad :: "(capture_event \<Rightarrow> bool) \<Rightarrow> (thrown \<Rightarrow> flush_error_classification) \<Rightarrow>
    's flush_call \<Rightarrow> bool" where
  "fails_on_bad bad classify flush \<longleftrightarrow>
     (\<forall>es batch_id s. es \<noteq> [] \<longrightarrow>
        (if \<exists>e \<in> set es. bad e
         then \<exists>err s'. flush es batch_id s = (Inl err, s') \<and> classify err = Row_fault
         else \<exists>s'. flush es batch_id s = (Inr (), s')))"

lemma attempt_batch_isolates:
  assumes "fails_on_bad bad classify flush" and "0 < limit" and "es \<noteq> []"
  shows "\<exists>r s'. attempt_batch env flush classify limit delay es batch_id s = Some (Inr r, s') \<and>
    committed_events r = filter (\<lambda>e. \<not> bad e) es \<and> map fst (poison_events r) = filter bad es"
  using assms(3)
proof (induction es arbitrary: batch_id s rule: length_induct)
  case (1 es)
  note flush = assms(1) [unfolded fails_on_bad_def, rule_format, OF 1(2)]
  show ?case
  proof (cases "\<exists>e \<in> set es. bad e")
    case False
    then have "\<exists>s'. try_flush env (flush es batch_id) limit delay s = (None, s')"
      unfolding try_flush_def using flush by (intro flush_attempts_ok assms(2)) auto
    then obtain s' where "try_flush env (flush es batch_id) limit delay s = (None, s')" ..
    then show ?thesis
      using False by (subst attempt_batch.simps) (auto simp: filter_empty_conv filter_id_conv)
  next
    case True
    then have "\<exists>e s'. try_flush env (flush es batch_id) limit delay s = (Some e, s') \<and> classify e = Row_fault"
      unfolding try_flush_def using flush by (intro flush_attempts_fail assms(2)) auto
    then obtain e s1 where f: "try_flush env (flush es batch_id) limit delay s = (Some e, s1)" "classify e = Row_fault" by blast
    show ?thesis
    proof (cases "length es = 1")
      case len: True
      then obtain x where "es = [x]" by (cases es) auto
      then show ?thesis using f True by (subst attempt_batch.simps) auto
    next
      case False
      then have "2 \<le> length es" using 1(2) by (cases es) (auto simp: Suc_le_eq)
      note h = halves_shorter [OF this]
      have hb: "left_half es \<noteq> []" "right_half es \<noteq> []" using h by auto
      obtain l s2 where l: "attempt_batch env flush classify limit delay (left_half es) (batch_id @ js ''.0'')
          (log_split env (length es) limit e s1) = Some (Inr l, s2)"
        "committed_events l = filter (\<lambda>e. \<not> bad e) (left_half es)"
        "map fst (poison_events l) = filter bad (left_half es)"
        using 1(1) h(2) hb(1) by blast
      obtain r s3 where r: "attempt_batch env flush classify limit delay (right_half es) (batch_id @ js ''.1'') s2 =
          Some (Inr r, s3)"
        "committed_events r = filter (\<lambda>e. \<not> bad e) (right_half es)"
        "map fst (poison_events r) = filter bad (right_half es)"
        using 1(1) h(4) hb(2) by blast
      have "attempt_batch env flush classify limit delay es batch_id s = Some (Inr (join_results l r), s3)"
        using f False by (subst attempt_batch.simps) (simp add: l(1) r(1))
      moreover have "committed_events (join_results l r) = filter (\<lambda>e. \<not> bad e) es"
        and "map fst (poison_events (join_results l r)) = filter bad es"
        using l r halves [of es] by (simp_all add: join_results_def flip: filter_append)
      ultimately show ?thesis by blast
    qed
  qed
qed

section \<open>The contract of a flush\<close>

text \<open>
  Two contracts of the flush that the bisection drives. The first: an invariant of the
  state that a flush, a sleep and a log line keep is kept by the whole bisection.
\<close>

locale flush_invariant =
  fixes flush :: "'s flush_call" and env :: "'s retry_env" and inv :: "'s \<Rightarrow> bool"
  assumes flush_inv: "inv s \<Longrightarrow> inv (snd (flush es batch_id s))"
    and sleep_inv: "inv s \<Longrightarrow> inv (re_sleep env ms s)"
    and log_inv: "inv s \<Longrightarrow> inv (re_log env message meta s)"
begin

lemma attempts_inv:
  "inv s \<Longrightarrow> inv (snd (flush_attempts env (flush es batch_id) limit delay n attempt e0 s))"
proof (induction n arbitrary: attempt e0 s)
  case (Suc n)
  obtain r s' where f: "flush es batch_id s = (r, s')" by fastforce
  then have "inv s'" using flush_inv [OF Suc.prems, of es batch_id] by simp
  then show ?case using Suc.IH f sleep_inv by (cases r) auto
qed simp

lemma try_inv: "try_flush env (flush es batch_id) limit delay s = (r, s') \<Longrightarrow> inv s \<Longrightarrow> inv s'"
  unfolding try_flush_def by (metis attempts_inv snd_conv)

lemma attempt_batch_inv:
  "attempt_batch env flush classify limit delay es batch_id s = Some (r, s') \<Longrightarrow> es \<noteq> [] \<Longrightarrow> inv s \<Longrightarrow> inv s'"
proof (induction es arbitrary: batch_id s r s' rule: length_induct)
  case (1 es)
  obtain err s1 where f: "try_flush env (flush es batch_id) limit delay s = (err, s1)" by fastforce
  have s1: "inv s1" using try_inv [OF f 1(4)] .
  have left: "inv s2" if "2 \<le> length es" "attempt_batch env flush classify limit delay (left_half es)
      (batch_id @ js ''.0'') (log_split env (length es) limit error s1) = Some (l, s2)" for error l s2
    using 1(1) halves_shorter [OF that(1)] that(2) log_inv [OF s1] unfolding log_split_def by blast
  from 1(2,3) f show ?case
  proof (cases rule: attempt_batch_cases)
    case (infra error)
    then show ?thesis using log_inv [OF s1] by (simp add: log_infrastructure_def)
  next
    case (poison error e)
    then show ?thesis using log_inv [OF s1] by (simp add: log_poison_def)
  next
    case (left_error error e)
    then show ?thesis using left by blast
  next
    case (split error lr s2 rr)
    then show ?thesis using 1(1) halves_shorter [OF split(3)] left [OF split(3,4)] by blast
  qed (simp add: s1)
qed

lemma retry_with_split_inv:
  "retry_with_split env classify es flush options batch_id s = Some (r, s') \<Longrightarrow> inv s \<Longrightarrow> inv s'"
  using attempt_batch_inv by (auto simp: retry_with_split_def split: sum.splits if_splits)

end

text \<open>
  The second: a flush that resolves has stored every event of its batch, and nothing that
  is stored is lost later, an instance of the first.
\<close>

locale durable_flush =
  fixes flush :: "'s flush_call" and env :: "'s retry_env" and stored :: "'s \<Rightarrow> capture_event \<Rightarrow> bool"
  assumes flush_stores: "flush es batch_id s = (Inr (), s') \<Longrightarrow> e \<in> set es \<Longrightarrow> stored s' e"
    and flush_keeps: "stored s e \<Longrightarrow> stored (snd (flush es batch_id s)) e"
    and sleep_keeps: "stored s e \<Longrightarrow> stored (re_sleep env ms s) e"
    and log_keeps: "stored s e \<Longrightarrow> stored (re_log env message meta s) e"

sublocale durable_flush \<subseteq> keeps: flush_invariant flush env "\<lambda>s. stored s e" for e
  by unfold_locales (auto intro: flush_keeps sleep_keeps log_keeps)

context durable_flush
begin

lemma attempts_store:
  "flush_attempts env (flush es batch_id) limit delay n attempt e0 s = (None, s') \<Longrightarrow> e \<in> set es \<Longrightarrow> stored s' e"
proof (induction n arbitrary: attempt e0 s)
  case (Suc n)
  obtain r s1 where "flush es batch_id s = (r, s1)" by fastforce
  then show ?case using Suc flush_stores by (cases r) auto
qed simp

lemma try_stores:
  "try_flush env (flush es batch_id) limit delay s = (None, s') \<Longrightarrow> e \<in> set es \<Longrightarrow> stored s' e"
  unfolding try_flush_def by (rule attempts_store)

lemma committed_stored:
  assumes "attempt_batch env flush classify limit delay es batch_id s = Some (Inr r, s')" and "es \<noteq> []"
  shows "(\<forall>e \<in> set (committed_events r). stored s' e) \<and> (\<forall>e. stored s e \<longrightarrow> stored s' e)"
  using assms
proof (induction rule: attempt_batch_induct)
  case (ok es batch_id s s1)
  then show ?case using try_stores keeps.try_inv by fastforce
next
  case (poison e batch_id s s1 error)
  then show ?case using keeps.try_inv log_keeps by (auto simp: log_poison_def)
next
  case (split es batch_id s s1 error lr s2 rr s3)
  have "stored (log_split env (length es) limit error s1) e" if "stored s e" for e
    using keeps.try_inv [OF split(1) that] log_keeps by (simp add: log_split_def)
  then show ?case using split by (auto simp: join_results_def)
qed

end

section \<open>Properties\<close>

text \<open>
  C9: bisecting a batch always returns, also when flushes keep failing; on success every
  event of the batch is either committed or poison, once each, and both lists keep the
  order of the batch. An empty batch needs no flush, and wrong options are refused.
\<close>

theorem split_retry_partitions:
  "\<exists>r s'. retry_with_split env classify es flush options batch_id s = Some (r, s') \<and>
     (case r of
        Inr result \<Rightarrow> es \<in> shuffles (committed_events result) (map fst (poison_events result))
      | Inl e \<Rightarrow> True)"
proof (cases "validate_split_options options")
  case (Inr u)
  show ?thesis
  proof (cases "es = []")
    case False
    obtain r s' where "attempt_batch env flush classify (num_val (so_max_attempts_per_batch options))
        (num_val (so_initial_delay_ms options)) es batch_id s = Some (r, s')"
      using attempt_batch_returns [OF False, of env flush classify "num_val (so_max_attempts_per_batch options)"
          "num_val (so_initial_delay_ms options)" batch_id s]
      by (elim exE) (rule that)
    then show ?thesis
      using False Inr attempt_batch_shuffle [OF _ False] by (auto simp: retry_with_split_def split: sum.split)
  qed (use Inr in \<open>simp add: retry_with_split_def\<close>)
qed (simp add: retry_with_split_def)

text \<open>
  C10: when a flush fails exactly for the batches that hold a bad event, with an error that is
  the fault of a row, the bisection isolates exactly the bad events: the others are all
  committed, in order, and the poison events are the bad ones, in order.
\<close>

theorem split_retry_isolates_bad_events:
  assumes "fails_on_bad bad classify flush" and "validate_split_options options = Inr ()"
  shows "\<exists>result s'. retry_with_split env classify es flush options batch_id s = Some (Inr result, s') \<and>
    committed_events result = filter (\<lambda>e. \<not> bad e) es \<and> map fst (poison_events result) = filter bad es"
proof (cases "es = []")
  case False
  have "0 < num_val (so_max_attempts_per_batch options)"
    using assms(2)
    by (auto simp: validate_split_options_def positive_integer_def num_val_def split: js_num.splits if_splits)
  from attempt_batch_isolates [OF assms(1) this False] show ?thesis
    using False assms(2) by (simp add: retry_with_split_def)
qed (simp add: assms(2) retry_with_split_def)

definition row_fault_error :: thrown where
  "row_fault_error = Err (js ''DatabaseError'') (js ''error'') [] (Some (js ''22021'')) None False None"

definition example_event :: "jsstr \<Rightarrow> jsstr \<Rightarrow> capture_event" where
  "example_event i s =
     \<lparr> ev_event_id = i, ev_occurred_at = js ''T'', ev_tenant_id = js ''t'', ev_link_id = js ''l'',
       ev_slug = s, ev_http_method = None, ev_user_agent = None, ev_referer = None, ev_accept = None,
       ev_accept_language = None, ev_sec_fetch_site = None, ev_sec_fetch_mode = None,
       ev_sec_fetch_dest = None, ev_sec_fetch_user = None, ev_sec_purpose = None, ev_sec_ch_ua = None,
       ev_sec_ch_ua_mobile = None, ev_sec_ch_ua_platform = None, ev_purpose = None, ev_x_purpose = None,
       ev_x_moz = None, ev_country = None, ev_asn = None, ev_visitor_hash = None \<rparr>"

definition example_events :: "capture_event list" where
  "example_events = [example_event [1] [97], example_event [2] [], example_event [3] [98]]"

theorem split_retry_isolates_bad_events_witness:
  "\<exists>result s'. retry_with_split silent_env classify_flush_error example_events
      (\<lambda>es batch_id s. (if \<exists>e \<in> set es. ev_slug e = [] then Inl row_fault_error else Inr (), s))
      \<lparr> so_max_attempts_per_batch = Integral 3, so_initial_delay_ms = Integral 150 \<rparr> [] () = Some (Inr result, s') \<and>
    committed_events result = filter (\<lambda>e. ev_slug e \<noteq> []) example_events \<and>
    map fst (poison_events result) = filter (\<lambda>e. ev_slug e = []) example_events"
proof (rule split_retry_isolates_bad_events)
  have "classify_flush_error row_fault_error = Row_fault"
    by (simp add: classify_flush_error_def row_fault_error_def extract_sql_state_def MAX_CAUSE_DEPTH_def
        numeral_eq_Suc ROW_FAULT_SQLSTATE_CLASSES_def js_def)
  then show "fails_on_bad (\<lambda>e. ev_slug e = []) classify_flush_error
      (\<lambda>es batch_id s. (if \<exists>e \<in> set es. ev_slug e = [] then Inl row_fault_error else Inr (), s))"
    by (simp add: fails_on_bad_def)
  show "validate_split_options \<lparr> so_max_attempts_per_batch = Integral 3, so_initial_delay_ms = Integral 150 \<rparr> = Inr ()"
    by (simp add: validate_split_options_def positive_integer_def non_negative_integer_def)
qed

text \<open>
  an infrastructure failure is never bisected: after the attempts on the whole batch the
  operation is rejected with that error and no event is declared poison.
\<close>

theorem infrastructure_error_rejects:
  assumes "\<And>s. flush es batch_id s = (Inl err, s)" and "classify err = Infrastructure" and "es \<noteq> []"
    and "validate_split_options options = Inr ()"
  shows "\<exists>s'. retry_with_split env classify es flush options batch_id s = Some (Inl (to_error err), s')"
proof -
  have limit: "0 < num_val (so_max_attempts_per_batch options)"
    using assms(4)
    by (auto simp: validate_split_options_def positive_integer_def num_val_def split: js_num.splits if_splits)
  have "\<exists>e s'. try_flush env (flush es batch_id) (num_val (so_max_attempts_per_batch options))
      (num_val (so_initial_delay_ms options)) s = (Some e, s') \<and> e = err"
    unfolding try_flush_def by (rule flush_attempts_fail [OF _ limit]) (simp add: assms(1))
  then obtain s' where "try_flush env (flush es batch_id) (num_val (so_max_attempts_per_batch options))
      (num_val (so_initial_delay_ms options)) s = (Some err, s')" by blast
  then show ?thesis
    using assms(2-4) by (simp add: retry_with_split_def attempt_batch.simps)
qed

theorem infrastructure_error_rejects_witness:
  "\<exists>s'. retry_with_split silent_env classify_flush_error example_events (\<lambda>es batch_id s. (Inl (new_error []), s))
      \<lparr> so_max_attempts_per_batch = Integral 3, so_initial_delay_ms = Integral 150 \<rparr> [] () =
    Some (Inl (to_error (new_error [])), s')"
  by (rule infrastructure_error_rejects)
     (simp_all add: classify_flush_error_def extract_sql_state_def MAX_CAUSE_DEPTH_def numeral_eq_Suc
        new_error_def validate_split_options_def positive_integer_def non_negative_integer_def
        example_events_def)

end
