(* ===== verification/Core_Enrichment.thy ===== *)
theory Core_Enrichment
  imports Js_Strings
begin

text \<open>
  The enrichment step of the worker (\<open>packages/core/src/enrichment\<close>): destination host,
  source platform, in-app marker, browser and device facts. It never gives a verdict on
  the visitor.

  Parameters: \<open>url_hostname s\<close> is \<open>new URL(s).hostname\<close>, \<open>None\<close> when the constructor
  throws; \<open>ua_result ua\<close> is what \<open>new UAParser(ua).getResult()\<close> holds, \<open>None\<close> when it
  throws.
\<close>

section \<open>Destination host\<close>

definition dest_host :: "(jsstr \<Rightarrow> jsstr option) \<Rightarrow> jsstr \<Rightarrow> jsstr option" where
  "dest_host url_hostname destination =
     (if destination = [] then None
      else
        (case url_hostname destination of
           None \<Rightarrow> None
         | Some h \<Rightarrow> (let hostname = to_lower h in if hostname = [] then None else Some hostname)))"

section \<open>Source platform\<close>

datatype source_platform = Instagram | WhatsApp | TikTok | Facebook | X | Directo

text \<open>
  The table is a plain object, so a lookup also finds what it inherits from
  \<open>Object.prototype\<close>: a function for a method name, an object for \<open>__proto__\<close>.
\<close>

datatype source_value = Platform source_platform | Inherited_method jsstr | Inherited_prototype

definition REFERER_HOST_PLATFORMS :: "(jsstr \<times> source_platform) list" where
  "REFERER_HOST_PLATFORMS =
     [(js ''instagram.com'', Instagram), (js ''www.instagram.com'', Instagram),
      (js ''l.instagram.com'', Instagram),
      (js ''facebook.com'', Facebook), (js ''www.facebook.com'', Facebook),
      (js ''m.facebook.com'', Facebook), (js ''l.facebook.com'', Facebook),
      (js ''lm.facebook.com'', Facebook),
      (js ''twitter.com'', X), (js ''www.twitter.com'', X), (js ''x.com'', X),
      (js ''www.x.com'', X), (js ''t.co'', X),
      (js ''tiktok.com'', TikTok), (js ''www.tiktok.com'', TikTok), (js ''vm.tiktok.com'', TikTok),
      (js ''wa.me'', WhatsApp), (js ''web.whatsapp.com'', WhatsApp), (js ''com.whatsapp'', WhatsApp)]"

definition OBJECT_PROTOTYPE_METHODS :: "jsstr list" where
  "OBJECT_PROTOTYPE_METHODS = map js
     [''constructor'', ''hasOwnProperty'', ''isPrototypeOf'', ''propertyIsEnumerable'',
      ''toLocaleString'', ''toString'', ''valueOf'', ''__defineGetter__'', ''__defineSetter__'',
      ''__lookupGetter__'', ''__lookupSetter__'']"

definition object_get :: "(jsstr \<times> source_platform) list \<Rightarrow> jsstr \<Rightarrow> source_value option" where
  "object_get table k =
     (case map_of table k of
        Some p \<Rightarrow> Some (Platform p)
      | None \<Rightarrow>
          if k \<in> set OBJECT_PROTOTYPE_METHODS then Some (Inherited_method k)
          else if k = js ''__proto__'' then Some Inherited_prototype
          else None)"

definition UA_MARKER_PLATFORMS :: "(jsstr \<times> source_platform) list" where
  "UA_MARKER_PLATFORMS =
     [(js ''Instagram'', Instagram), (js ''FBAN'', Facebook), (js ''FBAV'', Facebook),
      (js ''TikTok'', TikTok)]"

definition platform_of_ua :: "jsstr option \<Rightarrow> source_value" where
  "platform_of_ua ua =
     (case ua of
        None \<Rightarrow> Platform Directo
      | Some u \<Rightarrow>
          (case find (\<lambda>(marker, _). str_includes u marker) UA_MARKER_PLATFORMS of
             Some (_, p) \<Rightarrow> Platform p
           | None \<Rightarrow> Platform Directo))"

definition resolve_source_platform ::
    "(jsstr \<Rightarrow> jsstr option) \<Rightarrow> jsstr option \<Rightarrow> jsstr option \<Rightarrow> source_value" where
  "resolve_source_platform url_hostname referer ua =
     (case Option.bind referer (dest_host url_hostname) of
        None \<Rightarrow> platform_of_ua ua
      | Some host \<Rightarrow>
          (case object_get REFERER_HOST_PLATFORMS host of
             Some v \<Rightarrow> v
           | None \<Rightarrow> platform_of_ua ua))"

definition IN_APP_MARKERS :: "jsstr list" where
  "IN_APP_MARKERS =
     map js [''Instagram'', ''FBAN'', ''FBAV'', ''TikTok'', ''BytedanceWebview'', ''Line'']"

definition is_in_app :: "jsstr option \<Rightarrow> bool" where
  "is_in_app ua =
     (case ua of None \<Rightarrow> False | Some u \<Rightarrow> list_ex (\<lambda>marker. str_includes u marker) IN_APP_MARKERS)"

section \<open>User agent\<close>

datatype device_type = Mobile | Tablet | Desktop

record ua_result =
  ua_browser_name :: "jsstr option"
  ua_browser_version :: "jsstr option"
  ua_os_name :: "jsstr option"
  ua_device_type :: "jsstr option"

record parsed_user_agent =
  pua_browser :: "jsstr option"
  pua_browser_version :: "jsstr option"
  pua_os :: "jsstr option"
  pua_device_type :: "device_type option"

definition all_null_result :: parsed_user_agent where
  "all_null_result =
     \<lparr> pua_browser = None, pua_browser_version = None, pua_os = None, pua_device_type = None \<rparr>"

definition normalise_device_type :: "jsstr option \<Rightarrow> jsstr option \<Rightarrow> device_type option" where
  "normalise_device_type device browser_name =
     (if device = Some (js ''mobile'') then Some Mobile
      else if device = Some (js ''tablet'') then Some Tablet
      else if device = None \<and> browser_name \<noteq> None then Some Desktop
      else None)"

definition parse_user_agent :: "(jsstr \<Rightarrow> ua_result option) \<Rightarrow> jsstr option \<Rightarrow> parsed_user_agent" where
  "parse_user_agent ua_parser ua =
     (case ua of
        None \<Rightarrow> all_null_result
      | Some u \<Rightarrow>
          if u = [] then all_null_result
          else
            (case ua_parser u of
               None \<Rightarrow> all_null_result
             | Some r \<Rightarrow>
                 \<lparr> pua_browser = ua_browser_name r, pua_browser_version = ua_browser_version r,
                   pua_os = ua_os_name r,
                   pua_device_type = normalise_device_type (ua_device_type r) (ua_browser_name r) \<rparr>))"

section \<open>The seven columns\<close>

record enrichment_result =
  er_browser :: "jsstr option"
  er_browser_version :: "jsstr option"
  er_os :: "jsstr option"
  er_device_type :: "device_type option"
  er_source_platform :: source_value
  er_is_in_app :: bool
  er_dest_host :: "jsstr option"

record enrichment_input =
  ei_user_agent :: "jsstr option"
  ei_referer :: "jsstr option"
  ei_destination :: "jsstr option"

record enrichment_deps =
  url_hostname :: "jsstr \<Rightarrow> jsstr option"
  ua_parser :: "jsstr \<Rightarrow> ua_result option"

definition enrich :: "enrichment_deps \<Rightarrow> enrichment_input \<Rightarrow> enrichment_result" where
  "enrich deps input =
     (let u = parse_user_agent (ua_parser deps) (ei_user_agent input) in
      \<lparr> er_browser = pua_browser u, er_browser_version = pua_browser_version u, er_os = pua_os u,
        er_device_type = pua_device_type u,
        er_source_platform =
          resolve_source_platform (url_hostname deps) (ei_referer input) (ei_user_agent input),
        er_is_in_app = is_in_app (ei_user_agent input),
        er_dest_host =
          (case ei_destination input of
             None \<Rightarrow> None
           | Some d \<Rightarrow> if d = [] then None else dest_host (url_hostname deps) d) \<rparr>)"

section \<open>Facts\<close>

lemma dest_host_lower: "dest_host u d = Some h \<Longrightarrow> to_lower h = h \<and> h \<noteq> []"
  by (auto simp: dest_host_def Let_def to_lower_idem split: if_splits option.splits)

lemma platform_of_ua_range: "\<exists>p. platform_of_ua ua = Platform p"
  by (auto simp: platform_of_ua_def split: option.split)

lemma object_get_own:
  "k \<notin> set OBJECT_PROTOTYPE_METHODS \<Longrightarrow> k \<noteq> js ''__proto__'' \<Longrightarrow>
   object_get table k = map_option Platform (map_of table k)"
  by (auto simp: object_get_def split: option.split)

text \<open>Every in-app Instagram, Facebook or TikTok browser has a platform other than \<open>directo\<close>.\<close>

lemma platform_marker_in_app:
  "platform_of_ua ua \<noteq> Platform Directo \<Longrightarrow> is_in_app ua"
  by (cases ua)
     (auto simp: platform_of_ua_def is_in_app_def UA_MARKER_PLATFORMS_def IN_APP_MARKERS_def
       split: if_splits)

end
