(* ===== verification/Core_Db.thy ===== *)
theory Core_Db
  imports Js_Async Core_Enrichment Contracts_Capture
begin

text \<open>
  The Postgres side of \<open>packages/core/src/db\<close>: the tables (\<open>schema\<close>), the tenant-scoped
  queries (\<open>tenant.ts\<close>), the event inserts (\<open>events.ts\<close>) and the partitions (\<open>partitions.ts\<close>).

  A table is the list of its rows. A query reads or rewrites it as its \<open>WHERE\<close>,
  \<open>SET\<close> and \<open>VALUES\<close> say; a predicate is three-valued (\<open>None\<close> is SQL's unknown) and a row
  is kept when it is true. Constraints, which make a statement fail as a whole, belong to
  Postgres and are not modelled here; a statement that runs is a parameter where the
  caller reacts to its failure. Row order is the order of the list.
\<close>

section \<open>Tables\<close>

record link_row =
  lk_id :: jsstr
  lk_tenant_id :: jsstr
  lk_slug :: jsstr
  lk_destination :: jsstr
  lk_title :: "jsstr option"
  lk_created_at :: int
  lk_updated_at :: int
  lk_archived_at :: "int option"

record bio_page_row =
  bp_id :: jsstr
  bp_tenant_id :: jsstr
  bp_handle :: jsstr
  bp_display_name :: "jsstr option"
  bp_bio :: "jsstr option"
  bp_avatar_url :: "jsstr option"
  bp_theme_id :: jsstr
  bp_created_at :: int
  bp_updated_at :: int

record bio_link_row =
  bl_id :: jsstr
  bl_tenant_id :: jsstr
  bl_bio_page_id :: jsstr
  bl_link_id :: jsstr
  bl_position :: int
  bl_created_at :: int

record domain_row =
  dm_id :: jsstr
  dm_tenant_id :: jsstr
  dm_host :: jsstr
  dm_type :: jsstr
  dm_verified_at :: "int option"
  dm_created_at :: int

record new_event =
  ne_event_id :: jsstr
  ne_occurred_at :: "int option"
  ne_tenant_id :: jsstr
  ne_link_id :: jsstr
  ne_slug :: jsstr
  ne_visitor_hash :: "jsstr option"
  ne_http_method :: "jsstr option"
  ne_user_agent :: "jsstr option"
  ne_referer :: "jsstr option"
  ne_accept :: "jsstr option"
  ne_accept_language :: "jsstr option"
  ne_sec_fetch_site :: "jsstr option"
  ne_sec_fetch_mode :: "jsstr option"
  ne_sec_fetch_dest :: "jsstr option"
  ne_sec_fetch_user :: "jsstr option"
  ne_sec_purpose :: "jsstr option"
  ne_sec_ch_ua :: "jsstr option"
  ne_sec_ch_ua_mobile :: "jsstr option"
  ne_sec_ch_ua_platform :: "jsstr option"
  ne_purpose :: "jsstr option"
  ne_x_purpose :: "jsstr option"
  ne_x_moz :: "jsstr option"
  ne_country :: "jsstr option"
  ne_asn :: "js_number option"
  ne_browser :: "jsstr option"
  ne_browser_version :: "jsstr option"
  ne_os :: "jsstr option"
  ne_device_type :: "device_type option"
  ne_source_platform :: source_value
  ne_is_in_app :: bool
  ne_dest_host :: "jsstr option"

section \<open>Tenant-scoped queries\<close>

type_synonym 'r predicate = "'r \<Rightarrow> bool option"

definition sql_and :: "bool option \<Rightarrow> bool option \<Rightarrow> bool option" where
  "sql_and p q =
     (if p = Some False \<or> q = Some False then Some False
      else if p = Some True \<and> q = Some True then Some True
      else None)"

text \<open>\<open>tenant_id = $1\<close>, with the extra predicate in its own parentheses.\<close>

definition tenant_scope :: "('r \<Rightarrow> jsstr) \<Rightarrow> jsstr \<Rightarrow> 'r predicate option \<Rightarrow> 'r predicate" where
  "tenant_scope column tenant_id extra r =
     (case extra of
        None \<Rightarrow> Some (column r = tenant_id)
      | Some p \<Rightarrow> sql_and (Some (column r = tenant_id)) (p r))"

record 'r scoped_table =
  sc_select :: "'r predicate option \<Rightarrow> 'r list \<Rightarrow> 'r list"
  sc_update :: "('r \<Rightarrow> 'r) \<Rightarrow> 'r predicate option \<Rightarrow> 'r list \<Rightarrow> 'r list"
  sc_delete :: "'r predicate option \<Rightarrow> 'r list \<Rightarrow> 'r list"
  sc_insert :: "'r \<Rightarrow> 'r list \<Rightarrow> 'r list"

definition scoped_table ::
    "('r \<Rightarrow> jsstr) \<Rightarrow> (jsstr \<Rightarrow> 'r \<Rightarrow> 'r) \<Rightarrow> jsstr \<Rightarrow> 'r scoped_table" where
  "scoped_table column stamp tenant_id =
     \<lparr> sc_select = (\<lambda>extra rows. filter (\<lambda>r. tenant_scope column tenant_id extra r = Some True) rows),
       sc_update = (\<lambda>values extra rows.
         map (\<lambda>r. if tenant_scope column tenant_id extra r = Some True then values r else r) rows),
       sc_delete = (\<lambda>extra rows. filter (\<lambda>r. tenant_scope column tenant_id extra r \<noteq> Some True) rows),
       sc_insert = (\<lambda>values rows. rows @ [stamp tenant_id values]) \<rparr>"

definition scoped_links :: "jsstr \<Rightarrow> link_row scoped_table" where
  "scoped_links = scoped_table lk_tenant_id (\<lambda>t r. r \<lparr> lk_tenant_id := t \<rparr>)"

definition scoped_bio_pages :: "jsstr \<Rightarrow> bio_page_row scoped_table" where
  "scoped_bio_pages = scoped_table bp_tenant_id (\<lambda>t r. r \<lparr> bp_tenant_id := t \<rparr>)"

definition scoped_bio_links :: "jsstr \<Rightarrow> bio_link_row scoped_table" where
  "scoped_bio_links = scoped_table bl_tenant_id (\<lambda>t r. r \<lparr> bl_tenant_id := t \<rparr>)"

definition scoped_domains :: "jsstr \<Rightarrow> domain_row scoped_table" where
  "scoped_domains = scoped_table dm_tenant_id (\<lambda>t r. r \<lparr> dm_tenant_id := t \<rparr>)"

record tenant_tables =
  tt_links :: "link_row scoped_table"
  tt_bio_pages :: "bio_page_row scoped_table"
  tt_bio_links :: "bio_link_row scoped_table"
  tt_domains :: "domain_row scoped_table"

definition for_tenant :: "jsstr \<Rightarrow> tenant_tables" where
  "for_tenant tenant_id =
     \<lparr> tt_links = scoped_links tenant_id, tt_bio_pages = scoped_bio_pages tenant_id,
       tt_bio_links = scoped_bio_links tenant_id, tt_domains = scoped_domains tenant_id \<rparr>"

definition resolve_tenant_by_handle :: "bio_page_row list \<Rightarrow> jsstr \<Rightarrow> jsstr option" where
  "resolve_tenant_by_handle bio_pages handle =
     (case filter (\<lambda>r. bp_handle r = handle) bio_pages of
        [] \<Rightarrow> None
      | row # _ \<Rightarrow> Some (bp_tenant_id row))"

record cached_link =
  cl_link_id :: jsstr
  cl_tenant_id :: jsstr
  cl_destination :: jsstr

definition resolve_link_by_slug :: "link_row list \<Rightarrow> jsstr \<Rightarrow> jsstr \<Rightarrow> cached_link option" where
  "resolve_link_by_slug links tenant_id slug =
     (case sc_select (tt_links (for_tenant tenant_id))
         (Some (\<lambda>r. sql_and (Some (lk_slug r = slug)) (Some (lk_archived_at r = None)))) links of
        [] \<Rightarrow> None
      | row # _ \<Rightarrow>
          Some \<lparr> cl_link_id = lk_id row, cl_tenant_id = lk_tenant_id row,
                 cl_destination = lk_destination row \<rparr>)"

record link_destination_lookup =
  ld_tenant_id :: jsstr
  ld_destination :: jsstr

definition resolve_destinations_by_link_ids ::
    "link_row list \<Rightarrow> jsstr list \<Rightarrow> (jsstr, link_destination_lookup) js_map" where
  "resolve_destinations_by_link_ids links link_ids =
     (if link_ids = [] then []
      else
        fold (\<lambda>row. map_set (lk_id row)
            \<lparr> ld_tenant_id = lk_tenant_id row, ld_destination = lk_destination row \<rparr>)
          (filter (\<lambda>row. lk_id row \<in> set link_ids) links) [])"

section \<open>Event inserts\<close>

text \<open>
  \<open>INSERT ... ON CONFLICT (event_id, occurred_at) DO NOTHING\<close>: a row whose key is already
  present, also from earlier in the same statement, is skipped. The result is the new
  table and the identifiers of the rows that were inserted.
\<close>

definition event_key :: "new_event \<Rightarrow> jsstr \<times> int option" where
  "event_key r = (ne_event_id r, ne_occurred_at r)"

fun on_conflict_do_nothing :: "new_event list \<Rightarrow> new_event list \<Rightarrow> new_event list \<times> jsstr list" where
  "on_conflict_do_nothing [] table = (table, [])"
| "on_conflict_do_nothing (r # rs) table =
     (if event_key r \<in> event_key ` set table then on_conflict_do_nothing rs table
      else (let (t, ids) = on_conflict_do_nothing rs (table @ [r]) in (t, ne_event_id r # ids)))"

type_synonym 's insert_statement = "new_event list \<Rightarrow> ('s, jsstr list) io"

definition insert_events_batch :: "'s insert_statement \<Rightarrow> new_event list \<Rightarrow> ('s, unit) io" where
  "insert_events_batch run rows =
     (if rows = [] then io_return () else io_bind (run rows) (\<lambda>_. io_return ()))"

definition insert_events_batch_with_counts ::
    "'s insert_statement \<Rightarrow> new_event list \<Rightarrow> ('s, jsstr list) io" where
  "insert_events_batch_with_counts run rows = (if rows = [] then io_return [] else run rows)"

section \<open>Partitions\<close>

text \<open>\<open>Date.UTC(year, month, 1)\<close> with a month index that may exceed 11.\<close>

definition first_of_month :: "int \<Rightarrow> nat \<Rightarrow> int" where
  "first_of_month year month_index =
     (let yr = (if 0 \<le> year \<and> year \<le> 99 then 1900 + year else year);
          ym = yr + int (month_index div 12)
      in (day_from_year ym + month_start (leap_year ym) (month_index mod 12)) * ms_per_day)"

definition month_start_date_string :: "int \<Rightarrow> nat \<Rightarrow> jsstr" where
  "month_start_date_string year month_index =
     (let t = first_of_month year month_index
      in dec_int (utc_full_year t) @ js ''-'' @ pad2 (int (utc_month t) + 1) @ js ''-01'')"

definition DEFAULT_MONTHS_AHEAD :: nat where "DEFAULT_MONTHS_AHEAD = 3"

definition partition_error :: "jsstr \<Rightarrow> nat \<Rightarrow> nat \<Rightarrow> thrown \<Rightarrow> thrown" where
  "partition_error month_date offset months error =
     new_error (js ''ensurePartitionsAhead: failed to create the partition for '' @ month_date @
       js '' (offset '' @ dec offset @ js '' of 0-'' @ dec months @ js ''): '' @ error_message error)"

text \<open>One step per offset; \<open>create\<close> runs \<open>SELECT create_events_partition($1::date)\<close>.\<close>

fun create_partitions ::
    "(jsstr \<Rightarrow> ('s, unit) io) \<Rightarrow> int \<Rightarrow> nat \<Rightarrow> nat \<Rightarrow> nat list \<Rightarrow> ('s, unit) io" where
  "create_partitions create year month months [] = io_return ()"
| "create_partitions create year month months (offset # rest) =
     (let month_date = month_start_date_string year (month + offset) in
      io_then
        (io_catch (create month_date) (\<lambda>error. io_throw (partition_error month_date offset months error)))
        (create_partitions create year month months rest))"

definition ensure_partitions_ahead ::
    "(jsstr \<Rightarrow> ('s, unit) io) \<Rightarrow> int \<Rightarrow> nat \<Rightarrow> ('s, unit) io" where
  "ensure_partitions_ahead create now months =
     create_partitions create (utc_full_year now) (utc_month now) months [0 ..< Suc months]"

section \<open>Facts on tenant scoping\<close>

lemma tenant_scope_True:
  "tenant_scope column tenant_id extra r = Some True \<Longrightarrow> column r = tenant_id"
  by (auto simp: tenant_scope_def sql_and_def split: option.splits if_splits)

lemma scoped_select_own: "r \<in> set (sc_select (scoped_table column stamp t) extra rows) \<Longrightarrow>
   r \<in> set rows \<and> column r = t"
  by (auto simp: scoped_table_def dest: tenant_scope_True)

lemma scoped_delete_others:
  "filter (\<lambda>r. column r \<noteq> t) (sc_delete (scoped_table column stamp t) extra rows) =
   filter (\<lambda>r. column r \<noteq> t) rows"
  by (auto simp: scoped_table_def intro!: filter_cong dest: tenant_scope_True)

lemma scoped_update_nth:
  assumes "i < length rows" and "column (rows ! i) \<noteq> t"
  shows "sc_update (scoped_table column stamp t) values extra rows ! i = rows ! i"
  using assms by (auto simp: scoped_table_def dest: tenant_scope_True)

lemma resolve_link_by_slug_Some:
  assumes "resolve_link_by_slug links tenant_id slug = Some l"
  shows "cl_tenant_id l = tenant_id \<and>
    (\<exists>row \<in> set links. lk_id row = cl_link_id l \<and> lk_tenant_id row = tenant_id \<and> lk_slug row = slug \<and>
       lk_archived_at row = None \<and> lk_destination row = cl_destination l)"
proof -
  let ?rows = "sc_select (tt_links (for_tenant tenant_id))
         (Some (\<lambda>r. sql_and (Some (lk_slug r = slug)) (Some (lk_archived_at r = None)))) links"
  from assms obtain row rest where rows: "?rows = row # rest"
    and l: "l = \<lparr> cl_link_id = lk_id row, cl_tenant_id = lk_tenant_id row,
       cl_destination = lk_destination row \<rparr>"
    by (auto simp: resolve_link_by_slug_def split: list.splits)
  have "row \<in> set ?rows" using rows by simp
  then have "row \<in> set links" "lk_tenant_id row = tenant_id" "lk_slug row = slug" "lk_archived_at row = None"
    by (auto simp: for_tenant_def scoped_links_def scoped_table_def tenant_scope_def sql_and_def
        split: if_splits)
  then show ?thesis using l by auto
qed

lemma resolve_link_by_slug_None:
  "resolve_link_by_slug links tenant_id slug = None \<longleftrightarrow>
   (\<forall>row \<in> set links. lk_tenant_id row = tenant_id \<longrightarrow> lk_slug row = slug \<longrightarrow> lk_archived_at row \<noteq> None)"
proof -
  let ?rows = "sc_select (tt_links (for_tenant tenant_id))
         (Some (\<lambda>r. sql_and (Some (lk_slug r = slug)) (Some (lk_archived_at r = None)))) links"
  have "resolve_link_by_slug links tenant_id slug = None \<longleftrightarrow> ?rows = []"
    by (simp add: resolve_link_by_slug_def split: list.split)
  also have "\<dots> \<longleftrightarrow> (\<forall>row \<in> set links. lk_tenant_id row = tenant_id \<longrightarrow> lk_slug row = slug \<longrightarrow>
      lk_archived_at row \<noteq> None)"
    by (auto simp: for_tenant_def scoped_links_def scoped_table_def tenant_scope_def sql_and_def
        filter_empty_conv)
  finally show ?thesis .
qed

lemma find_append_single:
  "find P (xs @ [x]) = (case find P xs of Some y \<Rightarrow> Some y | None \<Rightarrow> if P x then Some x else None)"
  by (induction xs) simp_all

lemma map_get_fold_set:
  "map_get (fold (\<lambda>row. map_set (key row) (val row)) rows m) k =
   (case find (\<lambda>row. key row = k) (rev rows) of Some row \<Rightarrow> Some (val row) | None \<Rightarrow> map_get m k)"
proof (induction rows arbitrary: m)
  case (Cons r rows)
  then show ?case by (simp add: find_append_single split: option.split)
qed simp

lemma resolve_destinations_get:
  assumes "distinct (map lk_id links)"
  shows "map_get (resolve_destinations_by_link_ids links ids) k =
    (case find (\<lambda>row. lk_id row = k) links of
       Some row \<Rightarrow> if k \<in> set ids
         then Some \<lparr> ld_tenant_id = lk_tenant_id row, ld_destination = lk_destination row \<rparr> else None
     | None \<Rightarrow> None)"
proof (cases "ids = []")
  case False
  let ?P = "\<lambda>row. lk_id row = k"
  let ?rows = "filter (\<lambda>row. lk_id row \<in> set ids) links"
  have "find ?P (rev ?rows) = (if k \<in> set ids then find ?P links else None)"
  proof (cases "k \<in> set ids \<and> (\<exists>row \<in> set links. lk_id row = k)")
    case True
    then obtain row where row: "row \<in> set links" "lk_id row = k" by blast
    have one: "r = row" if "r \<in> set links" "lk_id r = k" for r
    proof -
      have "inj_on lk_id (set links)" using assms by (simp add: distinct_map)
      then show ?thesis using inj_onD row that by metis
    qed
    have found: "find ?P xs = Some row" if "set xs \<subseteq> set links" "row \<in> set xs" for xs
      using that
    proof (induction xs)
      case (Cons x xs)
      show ?case
      proof (cases "lk_id x = k")
        case True
        then show ?thesis using one [of x] Cons.prems by simp
      next
        case False
        then have "row \<in> set xs" using Cons.prems row by auto
        then show ?thesis using Cons False by simp
      qed
    qed simp
    have "find ?P (rev ?rows) = Some row" using True row by (intro found) auto
    moreover have "find ?P links = Some row" using row by (intro found) auto
    ultimately show ?thesis using True by simp
  next
    case False
    then consider "k \<notin> set ids" | "\<not> (\<exists>row \<in> set links. lk_id row = k)" by blast
    then show ?thesis
    proof cases
      case 1
      then have "find ?P (rev ?rows) = None" by (auto simp: find_None_iff)
      then show ?thesis using 1 by simp
    next
      case 2
      then have "find ?P (rev ?rows) = None" "find ?P links = None" by (auto simp: find_None_iff)
      then show ?thesis by simp
    qed
  qed
  moreover have "map_get (resolve_destinations_by_link_ids links ids) k =
      (case find ?P (rev ?rows) of
         Some row \<Rightarrow> Some \<lparr> ld_tenant_id = lk_tenant_id row, ld_destination = lk_destination row \<rparr>
       | None \<Rightarrow> None)"
    using False by (simp only: resolve_destinations_by_link_ids_def if_False map_get_fold_set map_of.simps)
  ultimately show ?thesis by (simp split: option.split)
qed (simp add: resolve_destinations_by_link_ids_def split: option.split)

section \<open>Facts on event inserts\<close>

lemma on_conflict_spec:
  assumes "on_conflict_do_nothing rs table = (t, ids)"
  shows "\<exists>new. t = table @ new \<and> ids = map ne_event_id new \<and> set new \<subseteq> set rs \<and>
    event_key ` set t = event_key ` set table \<union> event_key ` set rs \<and>
    (distinct (map event_key table) \<longrightarrow> distinct (map event_key t))"
  using assms
proof (induction rs table arbitrary: t ids rule: on_conflict_do_nothing.induct)
  case (2 r rs table)
  show ?case
  proof (cases "event_key r \<in> event_key ` set table")
    case True
    with 2 show ?thesis by fastforce
  next
    case False
    obtain t' ids' where rec: "on_conflict_do_nothing rs (table @ [r]) = (t', ids')" by fastforce
    with 2(3) False have "t = t'" "ids = ne_event_id r # ids'" by auto
    obtain new where new: "t' = (table @ [r]) @ new" "ids' = map ne_event_id new" "set new \<subseteq> set rs"
      "event_key ` set t' = event_key ` set (table @ [r]) \<union> event_key ` set rs"
      "distinct (map event_key (table @ [r])) \<longrightarrow> distinct (map event_key t')"
      using 2(2) [OF False rec] by blast
    show ?thesis
      using new False \<open>t = t'\<close> \<open>ids = _\<close> by (intro exI [of _ "r # new"]) auto
  qed
qed simp

lemma on_conflict_new:
  "distinct (map event_key rs) \<Longrightarrow> event_key ` set rs \<inter> event_key ` set table = {} \<Longrightarrow>
   on_conflict_do_nothing rs table = (table @ rs, map ne_event_id rs)"
  by (induction rs table rule: on_conflict_do_nothing.induct) auto

lemma on_conflict_old:
  "event_key ` set rs \<subseteq> event_key ` set table \<Longrightarrow> on_conflict_do_nothing rs table = (table, [])"
  by (induction rs table rule: on_conflict_do_nothing.induct) auto

lemma on_conflict_idem:
  assumes "on_conflict_do_nothing rs table = (t, ids)"
  shows "on_conflict_do_nothing rs t = (t, [])"
  using on_conflict_spec [OF assms] by (intro on_conflict_old) auto

lemma on_conflict_append:
  "on_conflict_do_nothing (rs @ qs) table =
   (let (t, ids) = on_conflict_do_nothing rs table; (u, jds) = on_conflict_do_nothing qs t in (u, ids @ jds))"
  by (induction rs table rule: on_conflict_do_nothing.induct) (auto simp: case_prod_unfold Let_def)

section \<open>Facts on partitions\<close>

lemma day_from_year_mono: "x \<le> y \<Longrightarrow> day_from_year x \<le> day_from_year y"
proof (induction y rule: int_ge_induct)
  case (step y)
  then show ?case by (simp add: day_from_year_Suc)
qed simp

lemma year_from_day_unique:
  assumes "day_from_year y \<le> d" and "d < day_from_year (y + 1)"
  shows "year_from_day d = y"
proof -
  let ?z = "year_from_day d"
  note b = year_from_day_bounds [of d]
  have "\<not> ?z < y" using day_from_year_mono [of "?z + 1" y] assms b by auto
  moreover have "\<not> y < ?z" using day_from_year_mono [of "y + 1" ?z] assms b by auto
  ultimately show ?thesis by simp
qed

lemma month_start_less:
  assumes "m < 12"
  shows "0 \<le> month_start leap m \<and> month_start leap m < (if leap then 366 else 365)"
proof -
  have "m = 0 \<or> m = 1 \<or> m = 2 \<or> m = 3 \<or> m = 4 \<or> m = 5 \<or> m = 6 \<or> m = 7 \<or> m = 8 \<or> m = 9 \<or> m = 10 \<or> m = 11"
    using assms by presburger
  then show ?thesis by (elim disjE) (simp_all add: numeral_eq_Suc)
qed

lemma month_search_start:
  assumes "m < 12"
  shows "month_search leap 0 11 (month_start leap m) = m"
proof -
  have "m = 0 \<or> m = 1 \<or> m = 2 \<or> m = 3 \<or> m = 4 \<or> m = 5 \<or> m = 6 \<or> m = 7 \<or> m = 8 \<or> m = 9 \<or> m = 10 \<or> m = 11"
    using assms by presburger
  then show ?thesis by (elim disjE) (simp_all add: numeral_eq_Suc)
qed

lemma first_of_month_parts:
  assumes "\<not> (0 \<le> year \<and> year \<le> 99)"
  shows "utc_full_year (first_of_month year m) = year + int (m div 12)"
    and "utc_month (first_of_month year m) = m mod 12"
    and "utc_date (first_of_month year m) = 1"
proof -
  let ?y = "year + int (m div 12)" and ?m = "m mod 12"
  have day: "day_of (first_of_month year m) = day_from_year ?y + month_start (leap_year ?y) ?m"
    using assms by (auto simp: first_of_month_def day_of_def Let_def ms_per_day_def)
  have "?m < 12" by simp
  note ms = month_start_less [OF this, of "leap_year ?y"]
  show y: "utc_full_year (first_of_month year m) = ?y"
    unfolding utc_full_year_def day
    using ms by (intro year_from_day_unique) (auto simp: day_from_year_Suc)
  show m: "utc_month (first_of_month year m) = ?m"
    using month_search_start [of ?m "leap_year ?y"]
    by (simp add: utc_month_def y day_in_year_def day)
  show "utc_date (first_of_month year m) = 1"
    by (simp add: utc_date_def y m day_in_year_def day)
qed

lemma month_string:
  "\<not> (0 \<le> year \<and> year \<le> 99) \<Longrightarrow>
   month_start_date_string year m =
     dec_int (year + int (m div 12)) @ js ''-'' @ pad2 (int (m mod 12) + 1) @ js ''-01''"
  by (simp add: month_start_date_string_def first_of_month_parts)

section \<open>Properties\<close>


definition example_link :: "jsstr \<Rightarrow> jsstr \<Rightarrow> link_row" where
  "example_link i t =
     \<lparr> lk_id = i, lk_tenant_id = t, lk_slug = js ''promo'', lk_destination = js ''https://x.test'',
       lk_title = None, lk_created_at = 0, lk_updated_at = 0, lk_archived_at = None \<rparr>"


text \<open>
  the values of a scoped update are not restricted to the tenant, so an update through the
  object of one tenant can move a row to another tenant.
\<close>

theorem scoped_update_can_change_tenant:
  "t \<noteq> u \<Longrightarrow>
   \<exists>rows values. (\<forall>r \<in> set rows. lk_tenant_id r = t) \<and>
     (\<exists>r \<in> set (sc_update (tt_links (for_tenant t)) values None rows). lk_tenant_id r = u)"
  by (rule exI [of _ "[example_link [] t]"], rule exI [of _ "\<lambda>r. r \<lparr> lk_tenant_id := u \<rparr>"])
     (simp add: example_link_def for_tenant_def scoped_links_def scoped_table_def tenant_scope_def)

theorem scoped_update_can_change_tenant_witness:
  "\<exists>rows values. (\<forall>r \<in> set rows. lk_tenant_id r = js ''a'') \<and>
     (\<exists>r \<in> set (sc_update (tt_links (for_tenant (js ''a''))) values None rows). lk_tenant_id r = js ''b'')"
  by (rule scoped_update_can_change_tenant) simp

text \<open>
  inserting a batch of rows keeps the key of an event unique, loses no row that was
  there, adds each new key once, reports exactly the rows it added, and inserting the same
  batch again changes nothing: a replay is idempotent.
\<close>

theorem insert_is_idempotent:
  assumes "on_conflict_do_nothing rows table = (t, ids)" and "distinct (map event_key table)"
  shows "on_conflict_do_nothing rows t = (t, []) \<and> distinct (map event_key t) \<and>
    (\<exists>new. t = table @ new \<and> ids = map ne_event_id new \<and> set new \<subseteq> set rows) \<and>
    event_key ` set t = event_key ` set table \<union> event_key ` set rows"
  using on_conflict_spec [OF assms(1)] on_conflict_idem [OF assms(1)] assms(2) by auto

definition example_row :: "jsstr \<Rightarrow> new_event" where
  "example_row i =
     \<lparr> ne_event_id = i, ne_occurred_at = Some 0, ne_tenant_id = js ''t'', ne_link_id = js ''l'',
       ne_slug = js ''s'', ne_visitor_hash = None, ne_http_method = None, ne_user_agent = None,
       ne_referer = None, ne_accept = None, ne_accept_language = None, ne_sec_fetch_site = None,
       ne_sec_fetch_mode = None, ne_sec_fetch_dest = None, ne_sec_fetch_user = None,
       ne_sec_purpose = None, ne_sec_ch_ua = None, ne_sec_ch_ua_mobile = None,
       ne_sec_ch_ua_platform = None, ne_purpose = None, ne_x_purpose = None, ne_x_moz = None,
       ne_country = None, ne_asn = None, ne_browser = None, ne_browser_version = None, ne_os = None,
       ne_device_type = None, ne_source_platform = Platform Directo, ne_is_in_app = False,
       ne_dest_host = None \<rparr>"

theorem insert_is_idempotent_witness:
  "on_conflict_do_nothing [example_row [1], example_row [2], example_row [2]]
     [example_row [1], example_row [2]] = ([example_row [1], example_row [2]], [])"
  using insert_is_idempotent [of "[example_row [1], example_row [2], example_row [2]]" "[example_row [1]]"
      "[example_row [1], example_row [2]]" "[[2]]"]
  by (simp add: example_row_def event_key_def)

text \<open>
  when every statement succeeds, the partitions asked for are those of the current month
  and of the \<open>months\<close> months after it, each once, in calendar order across the year end.
\<close>

theorem partitions_cover_months_ahead:
  assumes "\<And>d s. create d s = (Inr (), s @ [d])" and "\<not> (0 \<le> utc_full_year now \<and> utc_full_year now \<le> 99)"
  shows "ensure_partitions_ahead create now months [] =
    (Inr (), map (\<lambda>k. dec_int (utc_full_year now + int ((utc_month now + k) div 12)) @ js ''-'' @
       pad2 (int ((utc_month now + k) mod 12) + 1) @ js ''-01'') [0 ..< Suc months])"
proof -
  have "create_partitions create year month months ks s =
      (Inr (), s @ map (\<lambda>k. month_start_date_string year (month + k)) ks)" for year month ks s
    by (induction ks arbitrary: s) (simp_all add: Let_def io_then_app io_catch_app assms(1))
  then show ?thesis
    using assms(2) by (simp add: ensure_partitions_ahead_def month_string del: upt_Suc)
qed

theorem partitions_cover_months_ahead_witness:
  "ensure_partitions_ahead (\<lambda>d s. (Inr (), s @ [d])) 1750000000000 2 [] =
    (Inr (), map (\<lambda>k. dec_int (utc_full_year 1750000000000 + int ((utc_month 1750000000000 + k) div 12)) @ js ''-'' @
       pad2 (int ((utc_month 1750000000000 + k) mod 12) + 1) @ js ''-01'') [0 ..< Suc 2])"
  by (rule partitions_cover_months_ahead)
     (simp_all add: utc_full_year_def day_of_def ms_per_day_def year_from_day_def day_from_year_def)

end
