(* ===== verification/Core_Ndjson.thy ===== *)
theory Core_Ndjson
  imports Contracts_Capture Core_Enrichment
begin

text \<open>
  The durable event log (\<open>packages/core/src/r2/ndjson.ts\<close>): a logged event, the object
  that one line holds, the text of a batch, and the reader of a stored object.

  The bytes of an object are the UTF-8 of its text; every string of a line is escaped by
  \<open>JSON.stringify\<close> where it is not well formed, so encoding and decoding are the
  identity on the text and an object is modelled by its text. The S3 listing is a
  parameter (\<open>list_page\<close>). The reader casts a parsed object to an event without checks;
  \<open>read_logged\<close> gives the event when the cast is right and \<open>None\<close> when it is not.
\<close>

section \<open>Logged events\<close>

record logged_event = capture_event +
  ev_browser :: "jsstr option"
  ev_browser_version :: "jsstr option"
  ev_os :: "jsstr option"
  ev_device_type :: "device_type option"
  ev_source_platform :: source_value
  ev_is_in_app :: bool
  ev_dest_host :: "jsstr option"

definition device_text :: "device_type \<Rightarrow> jsstr" where
  "device_text d =
     (case d of Mobile \<Rightarrow> js ''mobile'' | Tablet \<Rightarrow> js ''tablet'' | Desktop \<Rightarrow> js ''desktop'')"

definition platform_text :: "source_platform \<Rightarrow> jsstr" where
  "platform_text p =
     (case p of
        Instagram \<Rightarrow> js ''instagram'' | WhatsApp \<Rightarrow> js ''whatsapp'' | TikTok \<Rightarrow> js ''tiktok''
      | Facebook \<Rightarrow> js ''facebook'' | X \<Rightarrow> js ''x'' | Directo \<Rightarrow> js ''directo'')"

text \<open>A function is not a JSON value: \<open>JSON.stringify\<close> leaves the member out.\<close>

definition source_json :: "source_value \<Rightarrow> json option" where
  "source_json v =
     (case v of
        Platform p \<Rightarrow> Some (JStr (platform_text p))
      | Inherited_method _ \<Rightarrow> None
      | Inherited_prototype \<Rightarrow> Some (JObj []))"

fun present :: "(jsstr \<times> json option) list \<Rightarrow> (jsstr \<times> json) list" where
  "present [] = []"
| "present ((k, v) # ms) = (case v of None \<Rightarrow> present ms | Some j \<Rightarrow> (k, j) # present ms)"

definition to_log_line :: "logged_event \<Rightarrow> json" where
  "to_log_line e = JObj (present (
     [(js ''event_id'', Some (JStr (ev_event_id e))),
      (js ''occurred_at'', Some (JStr (ev_occurred_at e))),
      (js ''tenant_id'', Some (JStr (ev_tenant_id e))),
      (js ''link_id'', Some (JStr (ev_link_id e))),
      (js ''slug'', Some (JStr (ev_slug e))),
      (js ''visitor_hash'', Some (json_nullable (ev_visitor_hash e))),
      (js ''http_method'', Some (json_nullable (ev_http_method e))),
      (js ''user_agent'', Some (json_nullable (ev_user_agent e))),
      (js ''referer'', Some (json_nullable (ev_referer e))),
      (js ''accept'', Some (json_nullable (ev_accept e))),
      (js ''accept_language'', Some (json_nullable (ev_accept_language e))),
      (js ''sec_fetch_site'', Some (json_nullable (ev_sec_fetch_site e))),
      (js ''sec_fetch_mode'', Some (json_nullable (ev_sec_fetch_mode e))),
      (js ''sec_fetch_dest'', Some (json_nullable (ev_sec_fetch_dest e))),
      (js ''sec_fetch_user'', Some (json_nullable (ev_sec_fetch_user e))),
      (js ''sec_purpose'', Some (json_nullable (ev_sec_purpose e))),
      (js ''sec_ch_ua'', Some (json_nullable (ev_sec_ch_ua e))),
      (js ''sec_ch_ua_mobile'', Some (json_nullable (ev_sec_ch_ua_mobile e))),
      (js ''sec_ch_ua_platform'', Some (json_nullable (ev_sec_ch_ua_platform e))),
      (js ''purpose'', Some (json_nullable (ev_purpose e))),
      (js ''x_purpose'', Some (json_nullable (ev_x_purpose e))),
      (js ''x_moz'', Some (json_nullable (ev_x_moz e))),
      (js ''country'', Some (json_nullable (ev_country e))),
      (js ''asn'', Some (json_number (ev_asn e))),
      (js ''browser'', Some (json_nullable (ev_browser e))),
      (js ''browser_version'', Some (json_nullable (ev_browser_version e))),
      (js ''os'', Some (json_nullable (ev_os e))),
      (js ''device_type'', Some (json_nullable (map_option device_text (ev_device_type e)))),
      (js ''source_platform'', source_json (ev_source_platform e)),
      (js ''is_in_app'', Some (JBool (ev_is_in_app e))),
      (js ''dest_host'', Some (json_nullable (ev_dest_host e)))]))"

definition serialize_event :: "logged_event \<Rightarrow> jsstr" where
  "serialize_event e = stringify (to_log_line e)"

definition serialize_batch :: "logged_event list \<Rightarrow> jsstr" where
  "serialize_batch es = concat (map (\<lambda>e. serialize_event e @ [10]) es)"

section \<open>Reading a log object\<close>

text \<open>
  \<open>readline\<close> with \<open>crlfDelay: Infinity\<close>: a line ends at a line feed, a carriage return
  (with the line feed that follows), or one of the two Unicode line separators; text
  after the last terminator is a line when it is not empty.
\<close>

definition line_break :: "nat \<Rightarrow> bool" where
  "line_break c \<longleftrightarrow> c = 10 \<or> c = 13 \<or> c = 8232 \<or> c = 8233"

fun readline_lines :: "jsstr \<Rightarrow> jsstr \<Rightarrow> jsstr list" where
  "readline_lines buf [] = (if buf = [] then [] else [buf])"
| "readline_lines buf (c # s) =
     (if c = 13 \<and> s \<noteq> [] \<and> hd s = 10 then buf # readline_lines [] (tl s)
      else if line_break c then buf # readline_lines [] s
      else readline_lines (buf @ [c]) s)"

definition json_kind :: "json \<Rightarrow> jsstr" where
  "json_kind v =
     (case v of
        JNull \<Rightarrow> js ''object'' | JArr _ \<Rightarrow> js ''array'' | JObj _ \<Rightarrow> js ''object''
      | JBool _ \<Rightarrow> js ''boolean'' | JStr _ \<Rightarrow> js ''string'' | JInt _ \<Rightarrow> js ''number'' | JNum _ \<Rightarrow> js ''number'')"

definition parse_logged_event_line :: "jsstr \<Rightarrow> jsstr \<Rightarrow> nat \<Rightarrow> json outcome" where
  "parse_logged_event_line line key line_number =
     (case json_parse line of
        None \<Rightarrow>
          Inl (new_error (js ''streamEventLog: line '' @ dec line_number @ js '' of key '' @ [34] @ key @
            [34] @ js '' is not valid JSON''))
      | Some (JObj ms) \<Rightarrow> Inr (JObj ms)
      | Some v \<Rightarrow>
          Inl (new_error (js ''streamEventLog: line '' @ dec line_number @ js '' of key '' @ [34] @ key @
            [34] @ js '' parsed to a JSON '' @ json_kind v @ js '', not an object'')))"

text \<open>The records of an object, lazily: those before a bad line are yielded before the error.\<close>

fun stream_lines :: "jsstr \<Rightarrow> nat \<Rightarrow> jsstr list \<Rightarrow> json list \<times> thrown option" where
  "stream_lines key n [] = ([], None)"
| "stream_lines key n (line # ls) =
     (if line = [] then stream_lines key (Suc n) ls
      else
        (case parse_logged_event_line line key (Suc n) of
           Inl e \<Rightarrow> ([], Some e)
         | Inr v \<Rightarrow> (let (vs, err) = stream_lines key (Suc n) ls in (v # vs, err))))"

text \<open>
  \<open>GetObjectCommand\<close>: a rejection, an unreadable body, or the text of the object.
\<close>

datatype get_object = Get_rejected thrown | Not_readable | Body jsstr

definition stream_records_from_object ::
    "(jsstr \<Rightarrow> get_object) \<Rightarrow> jsstr \<Rightarrow> json list \<times> thrown option" where
  "stream_records_from_object get key =
     (case get key of
        Get_rejected e \<Rightarrow> ([], Some e)
      | Not_readable \<Rightarrow>
          ([], Some (new_error (js ''streamEventLog: GetObjectCommand for key '' @ [34] @ key @ [34] @
             js '' returned no readable body'')))
      | Body text \<Rightarrow> stream_lines key 0 (readline_lines [] text))"

text \<open>
  One page of \<open>ListObjectsV2\<close>. The loop over the pages runs until a page is the last
  one, which only the service decides, so it has fuel; \<open>None\<close> is running out of it.
\<close>

record list_page =
  lp_contents :: "jsstr option list"
  lp_is_truncated :: bool
  lp_next_token :: "jsstr option"

definition page_keys :: "list_page \<Rightarrow> jsstr list" where
  "page_keys p = concat (map (\<lambda>k. case k of None \<Rightarrow> [] | Some t \<Rightarrow> if t = [] then [] else [t]) (lp_contents p))"

fun list_object_keys ::
    "nat \<Rightarrow> (jsstr \<Rightarrow> jsstr option \<Rightarrow> list_page outcome) \<Rightarrow> jsstr \<Rightarrow> jsstr option \<Rightarrow>
     (jsstr list \<times> thrown option) option" where
  "list_object_keys 0 list_objects pfx token = None"
| "list_object_keys (Suc n) list_objects pfx token =
     (case list_objects pfx token of
        Inl e \<Rightarrow> Some ([], Some e)
      | Inr page \<Rightarrow>
          if \<not> lp_is_truncated page then Some (page_keys page, None)
          else if lp_next_token page = None \<or> lp_next_token page = Some [] then
            Some (page_keys page,
              Some (new_error (js ''streamEventLog: ListObjectsV2 for prefix '' @ [34] @ pfx @ [34] @
                js '' reported IsTruncated=true with no NextContinuationToken'')))
          else
            map_option (\<lambda>(ks, e). (page_keys page @ ks, e))
              (list_object_keys n list_objects pfx (lp_next_token page)))"

fun stream_objects ::
    "(jsstr \<Rightarrow> get_object) \<Rightarrow> jsstr list \<Rightarrow> json list \<times> thrown option" where
  "stream_objects get [] = ([], None)"
| "stream_objects get (key # ks) =
     (case stream_records_from_object get key of
        (vs, Some e) \<Rightarrow> (vs, Some e)
      | (vs, None) \<Rightarrow> (let (ws, err) = stream_objects get ks in (vs @ ws, err)))"

fun stream_event_log ::
    "nat \<Rightarrow> (jsstr \<Rightarrow> jsstr option \<Rightarrow> list_page outcome) \<Rightarrow> (jsstr \<Rightarrow> get_object) \<Rightarrow> jsstr list \<Rightarrow>
     (json list \<times> thrown option) option" where
  "stream_event_log fuel list_objects get [] = Some ([], None)"
| "stream_event_log fuel list_objects get (pfx # ps) =
     (case list_object_keys fuel list_objects pfx None of
        None \<Rightarrow> None
      | Some (keys, list_err) \<Rightarrow>
          (case stream_objects get keys of
             (vs, Some e) \<Rightarrow> Some (vs, Some e)
           | (vs, None) \<Rightarrow>
               (case list_err of
                  Some e \<Rightarrow> Some (vs, Some e)
                | None \<Rightarrow>
                    map_option (\<lambda>(ws, err). (vs @ ws, err)) (stream_event_log fuel list_objects get ps))))"

section \<open>The cast of a parsed line\<close>

definition cast_device :: "json option \<Rightarrow> device_type option option" where
  "cast_device v =
     (if v = Some JNull then Some None
      else if v = Some (JStr (js ''mobile'')) then Some (Some Mobile)
      else if v = Some (JStr (js ''tablet'')) then Some (Some Tablet)
      else if v = Some (JStr (js ''desktop'')) then Some (Some Desktop)
      else None)"

definition cast_platform :: "json option \<Rightarrow> source_value option" where
  "cast_platform v =
     map_option Platform
       (find (\<lambda>p. v = Some (JStr (platform_text p))) [Instagram, WhatsApp, TikTok, Facebook, X, Directo])"

definition cast_bool :: "json option \<Rightarrow> bool option" where
  "cast_bool v = (case v of Some (JBool b) \<Rightarrow> Some b | _ \<Rightarrow> None)"

definition read_logged :: "json \<Rightarrow> logged_event option" where
  "read_logged v =
     (case v of
        JObj ms \<Rightarrow> (let f = map_of ms in do {
          e \<leftarrow> capture_fields (\<lambda>_. True) (\<lambda>_. True) (\<lambda>_. True) f;
          browser \<leftarrow> z_nullable_signal (f (js ''browser''));
          browser_version \<leftarrow> z_nullable_signal (f (js ''browser_version''));
          os \<leftarrow> z_nullable_signal (f (js ''os''));
          device \<leftarrow> cast_device (f (js ''device_type''));
          platform \<leftarrow> cast_platform (f (js ''source_platform''));
          in_app \<leftarrow> cast_bool (f (js ''is_in_app''));
          host \<leftarrow> z_nullable_signal (f (js ''dest_host''));
          Some (capture_event.extend e
            (logged_event.fields browser browser_version os device platform in_app host)) })
      | _ \<Rightarrow> None)"

section \<open>What is written is read back\<close>

definition integral_asn :: "'a capture_event_scheme \<Rightarrow> bool" where
  "integral_asn e = (case ev_asn e of Some (Fractional _) \<Rightarrow> False | _ \<Rightarrow> True)"

definition separator_free :: "logged_event \<Rightarrow> bool" where
  "separator_free e = list_all (\<lambda>c. c \<noteq> 8232 \<and> c \<noteq> 8233) (serialize_event e)"

definition known_platform :: "logged_event \<Rightarrow> bool" where
  "known_platform e = (case ev_source_platform e of Platform _ \<Rightarrow> True | _ \<Rightarrow> False)"

lemma set_present: "(k, j) \<in> set (present ms) \<longleftrightarrow> (k, Some j) \<in> set ms"
  by (induction ms rule: present.induct) (auto split: option.splits)

lemma fst_present: "fst ` set (present ms) \<subseteq> fst ` set ms"
  by (induction ms rule: present.induct) (auto split: option.splits)

lemma distinct_present: "distinct (map fst ms) \<Longrightarrow> distinct (map fst (present ms))"
proof (induction ms rule: present.induct)
  case (2 k v ms)
  then have "k \<notin> fst ` set (present ms)" using fst_present [of ms] by auto
  then show ?case using 2 by (simp split: option.split)
qed simp

lemma wf_json_nullable [simp]: "wf_json (json_nullable v)"
  by (simp add: json_nullable_def split: option.split)

lemma wf_json_number [simp]: "integral_asn e \<Longrightarrow> wf_json (json_number (ev_asn e))"
  by (auto simp: integral_asn_def json_number_def split: option.splits js_number.splits)

lemma wf_json_source: "source_json v = Some j \<Longrightarrow> wf_json j"
  by (auto simp: source_json_def split: source_value.splits)

lemma wf_json_present:
  assumes "distinct (map fst ms)" and "\<And>k j. (k, Some j) \<in> set ms \<Longrightarrow> wf_json j"
  shows "wf_json (JObj (present ms))"
  using assms distinct_present [OF assms(1)] by (auto simp: set_present)

lemma wf_log_line: "integral_asn e \<Longrightarrow> wf_json (to_log_line e)"
  unfolding to_log_line_def
  by (rule wf_json_present) (auto simp: wf_json_source)

lemma serialize_event_head: "\<exists>t. serialize_event e = 123 # t"
  by (simp add: serialize_event_def to_log_line_def)

lemma serialize_event_breaks:
  assumes "integral_asn e" and "separator_free e"
  shows "\<forall>c \<in> set (serialize_event e). \<not> line_break c"
proof
  fix c assume c: "c \<in> set (serialize_event e)"
  then have "32 \<le> c"
    using stringify_printable [OF wf_log_line [OF assms(1)]] by (simp add: serialize_event_def)
  then show "\<not> line_break c"
    using c assms(2) by (auto simp: line_break_def separator_free_def list_all_iff)
qed

lemma readline_line:
  "\<forall>c \<in> set l. \<not> line_break c \<Longrightarrow>
   readline_lines buf (l @ 10 # s) = (buf @ l) # readline_lines [] s"
proof (induction l arbitrary: buf)
  case (Cons c l)
  then have "c \<noteq> 13" by (auto simp: line_break_def)
  then show ?case using Cons by simp
qed (simp add: line_break_def)

lemma readline_batch:
  "\<forall>e \<in> set es. integral_asn e \<and> separator_free e \<Longrightarrow>
   readline_lines [] (serialize_batch es) = map serialize_event es"
  by (induction es) (auto simp: serialize_batch_def readline_line serialize_event_breaks)

lemma parse_serialized:
  "integral_asn e \<Longrightarrow> parse_logged_event_line (serialize_event e) key n = Inr (to_log_line e)"
  using json_parse_stringify [OF wf_log_line, of e]
  by (simp add: parse_logged_event_line_def serialize_event_def to_log_line_def)

lemma stream_lines_serialized:
  "\<forall>e \<in> set es. integral_asn e \<Longrightarrow>
   stream_lines key n (map serialize_event es) = (map to_log_line es, None)"
proof (induction es arbitrary: n)
  case (Cons e es)
  then show ?case using serialize_event_head [of e] parse_serialized [of e] by auto
qed simp

lemma stream_serialized:
  assumes "get key = Body (serialize_batch es)"
    and "\<forall>e \<in> set es. integral_asn e \<and> separator_free e"
  shows "stream_records_from_object get key = (map to_log_line es, None)"
  using assms by (simp add: stream_records_from_object_def readline_batch stream_lines_serialized)

lemma cast_device_text [simp]:
  "cast_device (Some (json_nullable (map_option device_text d))) = Some d"
  by (cases d)
     (auto simp: cast_device_def json_nullable_def device_text_def split: device_type.split)

lemma cast_platform_text [simp]:
  "cast_platform (Some (JStr (platform_text p))) = Some (Platform p)"
  by (cases p) (simp_all add: cast_platform_def platform_text_def)

lemma read_log_line:
  assumes "known_platform e"
  shows "read_logged (to_log_line e) = Some e"
proof -
  obtain p where "ev_source_platform e = Platform p"
    using assms by (auto simp: known_platform_def split: source_value.splits)
  then show ?thesis
    by (simp add: read_logged_def to_log_line_def capture_fields_def source_json_def
        cast_bool_def capture_event.extend_def logged_event.fields_def)
qed

section \<open>Properties\<close>


definition example_capture :: capture_event where
  "example_capture =
     \<lparr> ev_event_id = js ''E1'', ev_occurred_at = js ''T'', ev_tenant_id = js ''t'', ev_link_id = js ''l'',
       ev_slug = js ''s'', ev_http_method = Some (js ''GET''), ev_user_agent = Some [34, 233, 10],
       ev_referer = None, ev_accept = None, ev_accept_language = None, ev_sec_fetch_site = None,
       ev_sec_fetch_mode = None, ev_sec_fetch_dest = None, ev_sec_fetch_user = None,
       ev_sec_purpose = None, ev_sec_ch_ua = None, ev_sec_ch_ua_mobile = None,
       ev_sec_ch_ua_platform = None, ev_purpose = None, ev_x_purpose = None, ev_x_moz = None,
       ev_country = Some (js ''AR''), ev_asn = Some (Whole 7303), ev_visitor_hash = None \<rparr>"

definition example_logged :: logged_event where
  "example_logged = capture_event.extend example_capture
     (logged_event.fields None None None (Some Desktop) (Platform Directo) False (Some (js ''x.test'')))"

lemma example_logged_fields:
  "integral_asn example_logged" "known_platform example_logged"
  by (simp_all add: integral_asn_def known_platform_def example_logged_def example_capture_def
      capture_event.extend_def logged_event.fields_def)

lemma example_logged_separators: "separator_free example_logged"
  by (simp add: separator_free_def serialize_event_def to_log_line_def example_logged_def
      example_capture_def capture_event.extend_def logged_event.fields_def json_nullable_def
      json_number_def source_json_def device_text_def platform_text_def quote_def chars.simps
      quote_char_def is_surrogate_def is_high_def is_low_def dec_signed_def dec.simps str_eval)


text \<open>
  a batch is also readable when it holds an event whose platform came from
  \<open>Object.prototype\<close>, but that event is not: its line has no \<open>source_platform\<close> text.
\<close>

theorem inherited_platform_not_logged:
  "\<not> known_platform e \<Longrightarrow> read_logged (to_log_line e) = None"
  by (simp add: known_platform_def read_logged_def to_log_line_def capture_fields_def source_json_def
      cast_platform_def bind_eq_None_conv split: source_value.splits option.splits)

theorem inherited_platform_not_logged_witness:
  "read_logged (to_log_line (example_logged \<lparr> ev_source_platform := Inherited_method (js ''constructor'') \<rparr>)) = None"
  by (rule inherited_platform_not_logged) (simp add: known_platform_def)

end
