(* ===== verification/Core_Keys.thy ===== *)
theory Core_Keys
  imports Js_Date Js_Runtime Js_Regex
begin

text \<open>
  The names of the log objects (\<open>packages/core/src/r2/keys.ts\<close>) and the endpoint of the
  R2 client (\<open>client.ts\<close>).

  Parsing a timestamp (\<open>new Date(text)\<close>) is a parameter: \<open>date_value s\<close> is the time value
  in milliseconds, \<open>None\<close> for an invalid date. The calendar is that of \<open>Js_Date\<close>.
\<close>

section \<open>Keys\<close>

definition zero_pad :: "int \<Rightarrow> nat \<Rightarrow> jsstr" where
  "zero_pad n len = pad_start len 48 (dec_int n)"

definition parse_instant ::
    "(jsstr \<Rightarrow> int option) \<Rightarrow> jsstr \<Rightarrow> jsstr \<Rightarrow> jsstr \<Rightarrow> int outcome" where
  "parse_instant date_value s fn_name param_name =
     (case date_value s of
        Some t \<Rightarrow> Inr t
      | None \<Rightarrow> Inl (new_error (fn_name @ js '': '' @ param_name @
          js '' is not a valid ISO-8601 timestamp: '' @ [34] @ s @ [34])))"

definition HOURS_PER_DAY :: nat where "HOURS_PER_DAY = 24"

definition MS_PER_DAY :: int where "MS_PER_DAY = int HOURS_PER_DAY * 60 * 60 * 1000"

definition MAX_RANGE_DAYS :: int where "MAX_RANGE_DAYS = 3660"

definition date_part :: "int \<Rightarrow> jsstr" where
  "date_part t =
     dec_int (utc_full_year t) @ js ''-'' @ zero_pad (int (utc_month t) + 1) 2 @ js ''-'' @
     zero_pad (utc_date t) 2"

definition hour_prefix :: "int \<Rightarrow> int \<Rightarrow> jsstr" where
  "hour_prefix t hour = js ''events/dt='' @ date_part t @ js ''/hour='' @ zero_pad hour 2 @ js ''/''"

definition event_batch_key :: "(jsstr \<Rightarrow> int option) \<Rightarrow> jsstr \<Rightarrow> jsstr \<Rightarrow> jsstr outcome" where
  "event_batch_key date_value batch_id occurred_at =
     (case parse_instant date_value occurred_at (js ''eventBatchKey'') (js ''occurredAt'') of
        Inl e \<Rightarrow> Inl e
      | Inr t \<Rightarrow> Inr (hour_prefix t (utc_hours t) @ batch_id @ js ''.ndjson''))"

definition utc_midnight :: "int \<Rightarrow> int" where
  "utc_midnight t = date_utc (utc_full_year t) (utc_month t) (utc_date t)"

text \<open>The loop over the days, one iteration per day from \<open>day\<close> to \<open>final\<close>.\<close>

function prefix_days :: "int \<Rightarrow> int \<Rightarrow> jsstr list" where
  "prefix_days day final =
     (if day > final then []
      else map (hour_prefix day) [0 .. int HOURS_PER_DAY - 1] @ prefix_days (day + MS_PER_DAY) final)"
  by pat_completeness auto
termination
  by (relation "measure (\<lambda>(day, final). nat (final - day + 1))") (auto simp: MS_PER_DAY_def HOURS_PER_DAY_def)

declare prefix_days.simps [simp del]

definition event_prefixes :: "(jsstr \<Rightarrow> int option) \<Rightarrow> jsstr \<Rightarrow> jsstr \<Rightarrow> jsstr list outcome" where
  "event_prefixes date_value from to =
     (case parse_instant date_value from (js ''eventPrefixes'') (js ''from'') of
        Inl e \<Rightarrow> Inl e
      | Inr f \<Rightarrow>
          (case parse_instant date_value to (js ''eventPrefixes'') (js ''to'') of
             Inl e \<Rightarrow> Inl e
           | Inr t \<Rightarrow>
               (let from_day = utc_midnight f; to_day = utc_midnight t;
                    range_days = (to_day - from_day) div MS_PER_DAY + 1 in
                if from_day > to_day then
                  Inl (new_error (js ''eventPrefixes: from ('' @ [34] @ from @ [34] @
                    js '') falls on a UTC calendar day after to ('' @ [34] @ to @ [34] @ js '')''))
                else if range_days > MAX_RANGE_DAYS then
                  Inl (new_error (js ''eventPrefixes: range from '' @ [34] @ from @ [34] @ js '' to '' @
                    [34] @ to @ [34] @ js '' spans '' @ dec_int range_days @
                    js '' UTC days, which exceeds the '' @ dec_int MAX_RANGE_DAYS @
                    js ''-day maximum (check for a typo in the year or century)''))
                else Inr (prefix_days from_day to_day))))"

section \<open>The endpoint\<close>

record r2_config =
  rc_endpoint :: jsstr
  rc_account_id :: "jsstr option"

definition R2_ACCOUNT_ID_FORMAT :: regex where
  "R2_ACCOUNT_ID_FORMAT = Times 32 (Cls (\<lambda>c. is_digit c \<or> 97 \<le> c \<and> c \<le> 102))"

definition BAD_ACCOUNT_ID :: jsstr where
  "BAD_ACCOUNT_ID =
     js ''createR2Client: R2_ACCOUNT_ID is not a valid Cloudflare account id (expected 32 lowercase hex characters) '' @
     [8212] @ js '' fix R2_ACCOUNT_ID, or set R2_ENDPOINT explicitly instead.''"

definition BOTH_EMPTY :: jsstr where
  "BOTH_EMPTY =
     js ''createR2Client: both R2_ENDPOINT and R2_ACCOUNT_ID are empty '' @ [8212] @
     js '' set one of them. R2_ENDPOINT for local dev (MinIO), or leave it empty and set R2_ACCOUNT_ID for production R2.''"

definition resolve_endpoint :: "r2_config \<Rightarrow> jsstr outcome" where
  "resolve_endpoint config =
     (if rc_endpoint config \<noteq> [] then Inr (rc_endpoint config)
      else
        (case rc_account_id config of
           Some acct \<Rightarrow>
             if acct = [] then
               Inl (new_error (BOTH_EMPTY))
             else if matches R2_ACCOUNT_ID_FORMAT acct then
               Inr (js ''https://'' @ acct @ js ''.r2.cloudflarestorage.com'')
             else Inl (new_error (BAD_ACCOUNT_ID))
         | None \<Rightarrow>
             Inl (new_error (BOTH_EMPTY))))"

section \<open>A key determines its day and hour\<close>

lemma append_Cons_split:
  "c \<notin> set a \<Longrightarrow> c \<notin> set b \<Longrightarrow> a @ c # r = b @ c # s \<longleftrightarrow> a = b \<and> r = s"
proof (induction a arbitrary: b)
  case Nil
  then show ?case by (cases b) auto
next
  case (Cons x a)
  then show ?case by (cases b) auto
qed

lemma zero_pad_2: "zero_pad n 2 = pad2 n"
  by (simp add: zero_pad_def pad2_def)

lemma date_part_no_slash: "47 \<notin> set (date_part t)"
  using set_pad2 [of "int (utc_month t) + 1" 47] set_pad2 [of "utc_date t" 47]
    set_dec_int [of 47 "utc_full_year t"] utc_date_range [of t]
  by (auto simp: date_part_def zero_pad_2 js_def)

lemma day_of_parts:
  "day_of t = day_from_year (utc_full_year t) + month_start (leap_year (utc_full_year t)) (utc_month t)
     + utc_date t - 1"
  by (simp add: utc_date_def day_in_year_def)

lemma date_part_inject:
  assumes "date_part s = date_part t"
  shows "day_of s = day_of t"
proof -
  have m: "length (pad2 (int (utc_month u) + 1)) = 2" for u
    using utc_month_le [of u] by (intro length_pad2) simp_all
  have d: "length (pad2 (utc_date u)) = 2" for u
    using utc_date_range [of u] by (intro length_pad2) simp_all
  have "utc_full_year s = utc_full_year t" "pad2 (int (utc_month s) + 1) = pad2 (int (utc_month t) + 1)"
    "pad2 (utc_date s) = pad2 (utc_date t)"
    using assms m [of s] m [of t] d [of s] d [of t]
    by (simp_all add: date_part_def zero_pad_2 js_def append_eq_append_conv)
  then have "utc_full_year s = utc_full_year t" "utc_month s = utc_month t" "utc_date s = utc_date t"
    using utc_date_range [of s] utc_date_range [of t] by (simp_all add: pad2_inject)
  then show ?thesis by (simp add: day_of_parts)
qed

lemma date_part_cong: "day_of s = day_of t \<Longrightarrow> date_part s = date_part t"
  by (simp add: date_part_def utc_full_year_def utc_month_def utc_date_def day_in_year_def)

lemma hour_prefix_append:
  "hour_prefix t h @ r = js ''events/dt='' @ date_part t @ 47 # js ''hour='' @ pad2 h @ 47 # r"
  by (simp add: hour_prefix_def zero_pad_2 js_def)

lemma hour_prefix_append_eq:
  assumes "0 \<le> h" "h < 24" "0 \<le> k" "k < 24"
  shows "hour_prefix t h @ r = hour_prefix s k @ u \<longleftrightarrow> day_of s = day_of t \<and> h = k \<and> r = u"
proof -
  have "hour_prefix t h @ r = hour_prefix s k @ u \<longleftrightarrow>
      date_part t = date_part s \<and> pad2 h @ 47 # r = pad2 k @ 47 # u"
    using append_Cons_split [OF date_part_no_slash date_part_no_slash, of t]
    by (simp add: hour_prefix_append)
  also have "pad2 h @ 47 # r = pad2 k @ 47 # u \<longleftrightarrow> pad2 h = pad2 k \<and> r = u"
    using assms by (simp add: length_pad2)
  also have "pad2 h = pad2 k \<longleftrightarrow> h = k" using assms by (simp add: pad2_inject)
  finally show ?thesis using date_part_inject date_part_cong by metis
qed

lemma hour_prefix_starts:
  assumes "0 \<le> h" "h < 24" "0 \<le> k" "k < 24"
  shows "starts_with (hour_prefix t h @ r) (hour_prefix s k) \<longleftrightarrow> day_of s = day_of t \<and> k = h"
  unfolding starts_with_iff hour_prefix_append_eq [OF assms] by auto

lemma hour_prefix_inject:
  assumes "0 \<le> h" "h < 24" "0 \<le> k" "k < 24"
  shows "hour_prefix t h = hour_prefix s k \<longleftrightarrow> day_of s = day_of t \<and> h = k"
  using hour_prefix_append_eq [OF assms, of t "[]" s "[]"] by simp

section \<open>The prefixes of a range of days\<close>

lemma day_of_add: "day_of (t + MS_PER_DAY * n) = day_of t + n"
  by (simp add: day_of_def ms_per_day_def MS_PER_DAY_def HOURS_PER_DAY_def)

lemma in_prefix_days:
  assumes "day mod MS_PER_DAY = 0" and "final mod MS_PER_DAY = 0"
  shows "p \<in> set (prefix_days day final) \<longleftrightarrow>
    (\<exists>t h. p = hour_prefix t h \<and> 0 \<le> h \<and> h < 24 \<and> day_of day \<le> day_of t \<and> day_of t \<le> day_of final)"
  using assms
proof (induction day final rule: prefix_days.induct)
  case (1 day final)
  have mono: "day_of day \<le> day_of final \<longleftrightarrow> day \<le> final"
    using 1(2,3) by (auto simp: day_of_def ms_per_day_def MS_PER_DAY_def HOURS_PER_DAY_def)
  show ?case
  proof (cases "day > final")
    case True
    then show ?thesis using mono by (subst prefix_days.simps) auto
  next
    case False
    have "(day + MS_PER_DAY) mod MS_PER_DAY = 0" using 1(2) by simp
    note IH = 1(1) [OF False this 1(3)]
    have next_day: "day_of (day + MS_PER_DAY) = day_of day + 1" using day_of_add [of day 1] by simp
    have here: "p \<in> set (map (hour_prefix day) [0 .. int HOURS_PER_DAY - 1]) \<longleftrightarrow>
        (\<exists>t h. p = hour_prefix t h \<and> 0 \<le> h \<and> h < 24 \<and> day_of t = day_of day)"
    proof
      assume "p \<in> set (map (hour_prefix day) [0 .. int HOURS_PER_DAY - 1])"
      then obtain h where "p = hour_prefix day h" "0 \<le> h" "h < 24" by (auto simp: HOURS_PER_DAY_def)
      then show "\<exists>t h. p = hour_prefix t h \<and> 0 \<le> h \<and> h < 24 \<and> day_of t = day_of day" by blast
    next
      assume "\<exists>t h. p = hour_prefix t h \<and> 0 \<le> h \<and> h < 24 \<and> day_of t = day_of day"
      then obtain t h where "p = hour_prefix t h" "0 \<le> h" "h < 24" "day_of t = day_of day" by blast
      then have "p = hour_prefix day h" by (simp add: hour_prefix_inject)
      with \<open>0 \<le> h\<close> \<open>h < 24\<close> show "p \<in> set (map (hour_prefix day) [0 .. int HOURS_PER_DAY - 1])"
        by (auto simp: HOURS_PER_DAY_def)
    qed
    have "p \<in> set (prefix_days day final) \<longleftrightarrow>
        p \<in> set (map (hour_prefix day) [0 .. int HOURS_PER_DAY - 1]) \<or>
        p \<in> set (prefix_days (day + MS_PER_DAY) final)"
      using False by (subst prefix_days.simps) simp
    moreover have "d = day_of day \<or> day_of day + 1 \<le> d \<and> d \<le> day_of final \<longleftrightarrow>
        day_of day \<le> d \<and> d \<le> day_of final" for d
      using False mono by auto
    ultimately show ?thesis unfolding here IH next_day by metis
  qed
qed

lemma distinct_prefix_days:
  assumes "day mod MS_PER_DAY = 0" and "final mod MS_PER_DAY = 0"
  shows "distinct (prefix_days day final)"
  using assms
proof (induction day final rule: prefix_days.induct)
  case (1 day final)
  show ?case
  proof (cases "day > final")
    case False
    have m: "(day + MS_PER_DAY) mod MS_PER_DAY = 0" using 1(2) by simp
    have "distinct (map (hour_prefix day) [0 .. int HOURS_PER_DAY - 1])"
      by (auto simp: distinct_map inj_on_def hour_prefix_inject HOURS_PER_DAY_def)
    moreover have "set (map (hour_prefix day) [0 .. int HOURS_PER_DAY - 1]) \<inter>
        set (prefix_days (day + MS_PER_DAY) final) = {}"
      using day_of_add [of day 1]
      by (auto simp: in_prefix_days [OF m 1(3)] hour_prefix_inject HOURS_PER_DAY_def)
    ultimately show ?thesis
      using False 1(1) [OF False m 1(3)] by (subst prefix_days.simps) simp
  qed (subst prefix_days.simps, simp)
qed

lemma unique_prefix:
  assumes "day mod MS_PER_DAY = 0" and "final mod MS_PER_DAY = 0"
    and "day_of day \<le> day_of t" and "day_of t \<le> day_of final"
  shows "filter (starts_with (hour_prefix t (utc_hours t) @ r)) (prefix_days day final) =
    [hour_prefix t (utc_hours t)]"
proof -
  let ?p = "hour_prefix t (utc_hours t)" and ?ps = "prefix_days day final"
  have "?p \<in> set ?ps"
    using assms utc_hours_range [of t] by (auto simp: in_prefix_days)
  moreover have "starts_with (?p @ r) q \<longleftrightarrow> q = ?p" if "q \<in> set ?ps" for q
    using that assms utc_hours_range [of t]
    by (auto simp: in_prefix_days hour_prefix_starts hour_prefix_inject)
  then have "filter (starts_with (?p @ r)) ?ps = filter (\<lambda>q. q = ?p) ?ps"
    by (rule filter_cong [OF refl])
  moreover have "filter (\<lambda>q. q = ?p) qs = [?p]" if "distinct qs" "?p \<in> set qs" for qs
    using that by (induction qs) (auto simp: filter_empty_conv)
  ultimately show ?thesis using distinct_prefix_days [OF assms(1,2)] by simp
qed

lemma no_prefix:
  assumes "day mod MS_PER_DAY = 0" and "final mod MS_PER_DAY = 0"
    and "day_of t < day_of day \<or> day_of final < day_of t"
  shows "filter (starts_with (hour_prefix t (utc_hours t) @ r)) (prefix_days day final) = []"
  using assms utc_hours_range [of t]
  by (auto simp: filter_empty_conv in_prefix_days hour_prefix_starts)

lemma utc_midnight:
  assumes "\<not> (0 \<le> utc_full_year t \<and> utc_full_year t \<le> 99)"
  shows "utc_midnight t = day_of t * MS_PER_DAY" and "utc_midnight t mod MS_PER_DAY = 0"
    and "day_of (utc_midnight t) = day_of t"
  using assms
  by (simp_all add: utc_midnight_def date_utc_of_parts MS_PER_DAY_def HOURS_PER_DAY_def ms_per_day_def
      day_of_def)

section \<open>Properties\<close>

text \<open>
  C14: the prefixes enumerated for a range hold exactly one prefix of the key of every batch
  whose first event falls on a UTC day of the range, the one of its hour, and no prefix
  of any other key. The years 0 to 99 are excluded: \<open>Date.UTC\<close> reads them as 1900 to 1999.
\<close>

theorem event_prefixes_cover:
  assumes "event_prefixes date_value lo hi = Inr ps"
    and "date_value lo = Some f" and "date_value hi = Some g"
    and "\<not> (0 \<le> utc_full_year f \<and> utc_full_year f \<le> 99)"
    and "\<not> (0 \<le> utc_full_year g \<and> utc_full_year g \<le> 99)"
    and "event_batch_key date_value batch_id occurred_at = Inr key" and "date_value occurred_at = Some t"
  shows "filter (starts_with key) ps =
    (if day_of f \<le> day_of t \<and> day_of t \<le> day_of g then [hour_prefix t (utc_hours t)] else [])"
proof -
  have ps: "ps = prefix_days (utc_midnight f) (utc_midnight g)"
    using assms(1-3) by (auto simp: event_prefixes_def parse_instant_def Let_def split: if_splits)
  have key: "key = hour_prefix t (utc_hours t) @ (batch_id @ js ''.ndjson'')"
    using assms(6,7) by (auto simp: event_batch_key_def parse_instant_def)
  show ?thesis
    unfolding ps key
    using unique_prefix [of "utc_midnight f" "utc_midnight g" t] no_prefix [of "utc_midnight f" "utc_midnight g" t]
      utc_midnight [OF assms(4)] utc_midnight [OF assms(5)]
    by auto
qed

lemma year_2025: "utc_full_year 1750000000000 = 2025"
  by (simp add: utc_full_year_def day_of_def ms_per_day_def year_from_day_def day_from_year_def)

lemma one_day_prefixes:
  "date_value lo = Some t \<Longrightarrow> event_prefixes date_value lo lo = Inr (prefix_days (utc_midnight t) (utc_midnight t))"
  by (simp add: event_prefixes_def parse_instant_def Let_def MAX_RANGE_DAYS_def)

lemma batch_key:
  "date_value occurred_at = Some t \<Longrightarrow>
   event_batch_key date_value batch_id occurred_at = Inr (hour_prefix t (utc_hours t) @ batch_id @ js ''.ndjson'')"
  by (simp add: event_batch_key_def parse_instant_def)

theorem event_prefixes_cover_witness:
  "filter (starts_with (hour_prefix 1750000000000 (utc_hours 1750000000000) @ js ''B'' @ js ''.ndjson''))
     (prefix_days (utc_midnight 1750000000000) (utc_midnight 1750000000000)) =
   [hour_prefix 1750000000000 (utc_hours 1750000000000)]"
  using event_prefixes_cover [OF one_day_prefixes [of "\<lambda>_. Some 1750000000000" "[]"] refl refl _ _
      batch_key [of "\<lambda>_. Some 1750000000000" "[]" _ "js ''B''"] refl]
  by (simp add: year_2025)

lemma year_50: "utc_full_year (- 60589296000000) = 50"
  by (simp add: utc_full_year_def day_of_def ms_per_day_def year_from_day_def day_from_year_def)

lemma january: "month_search leap 0 11 0 = 0"
  by (simp add: numeral_eq_Suc)

lemma midnight_50: "utc_midnight (- 60589296000000) = - 631152000000"
  by (simp add: utc_midnight_def year_50 utc_month_def utc_date_def day_in_year_def day_of_def ms_per_day_def
      date_utc_def day_from_year_def january)

text \<open>
  for a year from 0 to 99 the prefixes miss the key of the range itself, because the
  bounds are moved by 1900 years: the range that is the first day of the year 50.
\<close>

theorem event_prefixes_first_century:
  assumes "date_value lo = Some (- 60589296000000)" and "event_prefixes date_value lo lo = Inr ps"
    and "event_batch_key date_value batch_id lo = Inr key"
  shows "filter (starts_with key) ps = []"
proof -
  have ps: "ps = prefix_days (- 631152000000) (- 631152000000)"
    using assms(1,2) by (auto simp: event_prefixes_def parse_instant_def Let_def midnight_50 split: if_splits)
  have key: "key = hour_prefix (- 60589296000000) (utc_hours (- 60589296000000)) @ (batch_id @ js ''.ndjson'')"
    using assms(1,3) by (auto simp: event_batch_key_def parse_instant_def)
  show ?thesis
    unfolding ps key
    by (rule no_prefix) (simp_all add: MS_PER_DAY_def HOURS_PER_DAY_def day_of_def ms_per_day_def)
qed

theorem event_prefixes_first_century_witness:
  "filter (starts_with (hour_prefix (- 60589296000000) (utc_hours (- 60589296000000)) @ js ''B'' @ js ''.ndjson''))
     (prefix_days (- 631152000000) (- 631152000000)) = []"
  by (rule event_prefixes_first_century [where date_value = "\<lambda>_. Some (- 60589296000000)" and lo = "[]"
        and batch_id = "js ''B''"])
     (simp_all add: one_day_prefixes batch_key midnight_50)

end
