(* ===== verification/Worker_Flush.thy ===== *)
theory Worker_Flush
  imports Worker_SplitRetry Core_Db Core_Ndjson Core_Keys
begin

text \<open>
  Flushing a batch (\<open>apps/worker/src/batch/flush.ts\<close>): resolve the destinations of its
  links, enrich the events, write the batch to the R2 log, then insert the rows into
  Postgres; and the flush that the worker is wired with
  (\<open>buildProductionFlush\<close> in \<open>apps/worker/src/app.module.ts\<close>).

  Everything outside the process is a field of \<open>flush_deps\<close>: the state read from the
  links table, the PUT of an object, the insert statement, the dead-letter sink, sleep and
  the logger, the URL and user-agent parsers, and the reading of a date.
\<close>

section \<open>Rows\<close>

definition sanitize_for_postgres_text :: "jsstr option \<Rightarrow> jsstr option" where
  "sanitize_for_postgres_text v =
     (case v of None \<Rightarrow> None | Some s \<Rightarrow> if str_includes s [0] then None else Some s)"

definition to_new_event_row :: "(jsstr \<Rightarrow> int option) \<Rightarrow> logged_event \<Rightarrow> new_event" where
  "to_new_event_row date_value e =
     \<lparr> ne_event_id = ev_event_id e,
       ne_occurred_at = date_value (ev_occurred_at e),
       ne_tenant_id = ev_tenant_id e,
       ne_link_id = ev_link_id e,
       ne_slug = ev_slug e,
       ne_visitor_hash = sanitize_for_postgres_text (ev_visitor_hash e),
       ne_http_method = sanitize_for_postgres_text (ev_http_method e),
       ne_user_agent = sanitize_for_postgres_text (ev_user_agent e),
       ne_referer = sanitize_for_postgres_text (ev_referer e),
       ne_accept = sanitize_for_postgres_text (ev_accept e),
       ne_accept_language = sanitize_for_postgres_text (ev_accept_language e),
       ne_sec_fetch_site = sanitize_for_postgres_text (ev_sec_fetch_site e),
       ne_sec_fetch_mode = sanitize_for_postgres_text (ev_sec_fetch_mode e),
       ne_sec_fetch_dest = sanitize_for_postgres_text (ev_sec_fetch_dest e),
       ne_sec_fetch_user = sanitize_for_postgres_text (ev_sec_fetch_user e),
       ne_sec_purpose = sanitize_for_postgres_text (ev_sec_purpose e),
       ne_sec_ch_ua = sanitize_for_postgres_text (ev_sec_ch_ua e),
       ne_sec_ch_ua_mobile = sanitize_for_postgres_text (ev_sec_ch_ua_mobile e),
       ne_sec_ch_ua_platform = sanitize_for_postgres_text (ev_sec_ch_ua_platform e),
       ne_purpose = sanitize_for_postgres_text (ev_purpose e),
       ne_x_purpose = sanitize_for_postgres_text (ev_x_purpose e),
       ne_x_moz = sanitize_for_postgres_text (ev_x_moz e),
       ne_country = sanitize_for_postgres_text (ev_country e),
       ne_asn = ev_asn e,
       ne_browser = ev_browser e,
       ne_browser_version = ev_browser_version e,
       ne_os = ev_os e,
       ne_device_type = ev_device_type e,
       ne_source_platform = ev_source_platform e,
       ne_is_in_app = ev_is_in_app e,
       ne_dest_host = ev_dest_host e \<rparr>"

definition to_logged_event :: "enrichment_deps \<Rightarrow> capture_event \<Rightarrow> jsstr option \<Rightarrow> logged_event" where
  "to_logged_event deps event destination =
     (let r = enrich deps \<lparr> ei_user_agent = ev_user_agent event, ei_referer = ev_referer event,
                ei_destination = destination \<rparr> in
      capture_event.extend event
        (logged_event.fields (er_browser r) (er_browser_version r) (er_os r) (er_device_type r)
           (er_source_platform r) (er_is_in_app r) (er_dest_host r)))"

section \<open>Destinations\<close>

datatype unresolved_reason = Not_found | Tenant_mismatch

record resolved_event =
  re_event :: capture_event
  re_destination :: "jsstr option"
  re_reason :: "unresolved_reason option"

definition resolve_destination ::
    "(jsstr, link_destination_lookup) js_map \<Rightarrow> capture_event \<Rightarrow> resolved_event" where
  "resolve_destination by_link_id event =
     (case map_get by_link_id (ev_link_id event) of
        None \<Rightarrow> \<lparr> re_event = event, re_destination = None, re_reason = Some Not_found \<rparr>
      | Some r \<Rightarrow>
          if ld_tenant_id r \<noteq> ev_tenant_id event then
            \<lparr> re_event = event, re_destination = None, re_reason = Some Tenant_mismatch \<rparr>
          else \<lparr> re_event = event, re_destination = Some (ld_destination r), re_reason = None \<rparr>)"

definition log_unresolved_destinations :: "'s retry_env \<Rightarrow> resolved_event list \<Rightarrow> nat \<Rightarrow> 's \<Rightarrow> 's" where
  "log_unresolved_destinations env rs distinct_links s =
     (let not_found = length (filter (\<lambda>r. re_reason r = Some Not_found) rs);
          mismatch = length (filter (\<lambda>r. re_reason r = Some Tenant_mismatch) rs);
          unresolved = not_found + mismatch in
      if unresolved = 0 then s
      else
        re_log env
          (js ''flushBatch: '' @ dec unresolved @ js '' of '' @ dec (length rs) @
           js '' event(s) in this batch did not resolve a destination ('' @ dec not_found @
           js '' link_id not found, '' @ dec mismatch @ js '' tenant mismatch) '' @ [8212] @
           js '' dest_host stays null for these rows, nothing else in the row is affected.'')
          [(js ''batchSize'', json_nat (length rs)), (js ''distinctLinkIdCount'', json_nat distinct_links),
           (js ''unresolvedCount'', json_nat unresolved), (js ''notFoundCount'', json_nat not_found),
           (js ''tenantMismatchCount'', json_nat mismatch)] s)"

section \<open>The flush\<close>

record 's flush_deps =
  fd_env :: "'s retry_env"
  fd_read_links :: "('s, link_row list) io"
  fd_r2_send :: "jsstr \<Rightarrow> jsstr \<Rightarrow> jsstr \<Rightarrow> ('s, unit) io"
  fd_r2_bucket :: jsstr
  fd_dlq :: "'s dlq_sink"
  fd_insert :: "'s insert_statement"
  fd_retry :: r2_retry_options
  fd_enrich :: enrichment_deps
  fd_date :: "jsstr \<Rightarrow> int option"

definition DEFAULT_R2_RETRY :: r2_retry_options where
  "DEFAULT_R2_RETRY = \<lparr> ro_max_attempts = Integral 5, ro_initial_delay_ms = Integral 200 \<rparr>"

text \<open>The sink used when none is configured: it refuses, so the batch is not dropped.\<close>

definition rejecting_dlq_sink :: "'s dlq_sink" where
  "rejecting_dlq_sink reason payload error meta =
     io_throw (new_error (js ''createFlushBatch: the R2 PUT failed and no real dlqSink was configured (CreateFlushBatchOptions.dlqSink) '' @
       [8212] @ js '' the batch cannot be safely discarded, so this flush fails loudly instead of silently dropping it.''))"

definition put_event_batch ::
    "'s flush_deps \<Rightarrow> jsstr \<Rightarrow> jsstr \<Rightarrow> logged_event list \<Rightarrow> ('s, unit) io" where
  "put_event_batch deps batch_id first_occurred_at es =
     (case event_batch_key (fd_date deps) batch_id first_occurred_at of
        Inl e \<Rightarrow> io_throw e
      | Inr key \<Rightarrow> fd_r2_send deps (fd_r2_bucket deps) key (serialize_batch es))"

definition resolve_batch :: "link_row list \<Rightarrow> capture_event list \<Rightarrow> resolved_event list" where
  "resolve_batch links es =
     map (resolve_destination (resolve_destinations_by_link_ids links (remdups (map ev_link_id es)))) es"

definition logged_batch :: "enrichment_deps \<Rightarrow> resolved_event list \<Rightarrow> logged_event list" where
  "logged_batch deps rs = map (\<lambda>r. to_logged_event deps (re_event r) (re_destination r)) rs"

definition flush_batch :: "'s flush_deps \<Rightarrow> 's flush_call" where
  "flush_batch deps es batch_id =
     (case es of
        [] \<Rightarrow> io_return ()
      | first # _ \<Rightarrow>
          io_bind (fd_read_links deps) (\<lambda>links.
            let resolutions = resolve_batch links es;
                logged = logged_batch (fd_enrich deps) resolutions;
                rows = map (to_new_event_row (fd_date deps)) logged;
                put = put_event_batch deps batch_id (ev_occurred_at first) logged in
            io_then
              (io_do (log_unresolved_destinations (fd_env deps) resolutions
                 (length (remdups (map ev_link_id es)))))
              (io_bind
                (put_r2_batch_with_retry (fd_env deps) put es batch_id (fd_dlq deps) (fd_retry deps))
                (\<lambda>outcome.
                   case outcome of
                     Put_failed _ _ \<Rightarrow> io_return ()
                   | Put_succeeded _ \<Rightarrow> insert_events_batch (fd_insert deps) rows))))"

section \<open>The production flush\<close>

definition SPLIT_RETRY_OPTIONS :: split_retry_options where
  "SPLIT_RETRY_OPTIONS =
     \<lparr> so_max_attempts_per_batch = Integral 3, so_initial_delay_ms = Integral 150 \<rparr>"

text \<open>\<open>None\<close> is a flush that does not return; \<open>production_flush_returns\<close> excludes it.\<close>

definition flush_with_split_retry_and_poison_dlq ::
    "'s flush_deps \<Rightarrow> capture_event list \<Rightarrow> jsstr \<Rightarrow> 's \<Rightarrow> (unit outcome \<times> 's) option" where
  "flush_with_split_retry_and_poison_dlq deps es batch_id s =
     (case retry_with_split (fd_env deps) classify_flush_error es (flush_batch deps)
         SPLIT_RETRY_OPTIONS batch_id s of
        None \<Rightarrow> None
      | Some (Inl e, s') \<Rightarrow> Some (Inl e, s')
      | Some (Inr result, s') \<Rightarrow>
          Some (send_poison_events_to_dlq (poison_events result) (fd_dlq deps) batch_id 3 s'))"

section \<open>Facts\<close>

lemma valid_split_options: "validate_split_options SPLIT_RETRY_OPTIONS = Inr ()"
  by (simp add: validate_split_options_def SPLIT_RETRY_OPTIONS_def positive_integer_def
      non_negative_integer_def)

lemma num_val_simps [simp]: "num_val (Integral n) = nat n"
  by (simp add: num_val_def)

lemma retry_with_split_returns:
  "\<exists>r s'. retry_with_split env classify es flush options batch_id s = Some (r, s')"
  using attempt_batch_returns [of es]
  by (cases "validate_split_options options") (auto simp: retry_with_split_def)

lemma logged_event_base [simp]:
  "capture_event.truncate (to_logged_event deps e d) = e"
  by (simp add: to_logged_event_def Let_def capture_event.extend_def capture_event.truncate_def
      logged_event.fields_def)

lemma logged_event_keys [simp]:
  "ev_event_id (to_logged_event deps e d) = ev_event_id e"
  "ev_occurred_at (to_logged_event deps e d) = ev_occurred_at e"
  "ev_tenant_id (to_logged_event deps e d) = ev_tenant_id e"
  "ev_link_id (to_logged_event deps e d) = ev_link_id e"
  "ev_asn (to_logged_event deps e d) = ev_asn e"
  "ev_source_platform (to_logged_event deps e d) =
     resolve_source_platform (url_hostname deps) (ev_referer e) (ev_user_agent e)"
  by (simp_all add: to_logged_event_def Let_def capture_event.extend_def logged_event.fields_def enrich_def)

lemma re_event_resolve [simp]: "re_event (resolve_destination m e) = e"
  by (simp add: resolve_destination_def split: option.split)

lemma logged_batch_events:
  "map capture_event.truncate (logged_batch deps (resolve_batch links es)) = es"
  by (simp add: logged_batch_def resolve_batch_def comp_def)

lemma logged_batch_nth:
  "logged_batch deps (resolve_batch links es) =
   map (\<lambda>e. to_logged_event deps e (re_destination (resolve_destination
     (resolve_destinations_by_link_ids links (remdups (map ev_link_id es))) e))) es"
  by (simp add: logged_batch_def resolve_batch_def)

lemma length_logged_batch [simp]: "length (logged_batch deps (resolve_batch links es)) = length es"
  by (simp add: logged_batch_nth)

text \<open>A destination is used only when the link belongs to the tenant of the event.\<close>

lemma resolve_destination_tenant:
  assumes "re_destination (resolve_destination (resolve_destinations_by_link_ids links ids) e) = Some d"
    and "distinct (map lk_id links)"
  shows "\<exists>row \<in> set links. lk_id row = ev_link_id e \<and> lk_tenant_id row = ev_tenant_id e \<and> lk_destination row = d"
  using assms
  by (auto simp: resolve_destination_def resolve_destinations_get find_Some_iff
      split: option.splits if_splits intro!: nth_mem)

text \<open>The three ways a non-empty flush can go, once the links have been read.\<close>

definition batch_put :: "'s flush_deps \<Rightarrow> link_row list \<Rightarrow> capture_event list \<Rightarrow> jsstr \<Rightarrow> ('s, unit) io" where
  "batch_put deps links es batch_id =
     put_event_batch deps batch_id (ev_occurred_at (hd es)) (logged_batch (fd_enrich deps) (resolve_batch links es))"

definition batch_rows :: "'s flush_deps \<Rightarrow> link_row list \<Rightarrow> capture_event list \<Rightarrow> new_event list" where
  "batch_rows deps links es =
     map (to_new_event_row (fd_date deps)) (logged_batch (fd_enrich deps) (resolve_batch links es))"

definition batch_logged :: "'s flush_deps \<Rightarrow> link_row list \<Rightarrow> capture_event list \<Rightarrow> 's \<Rightarrow> 's" where
  "batch_logged deps links es =
     log_unresolved_destinations (fd_env deps) (resolve_batch links es) (length (remdups (map ev_link_id es)))"

lemma length_batch_rows [simp]: "length (batch_rows deps links es) = length es"
  by (simp add: batch_rows_def)

lemma flush_batch_app:
  assumes "es \<noteq> []" and "fd_read_links deps s = (Inr links, s1)"
  shows "flush_batch deps es batch_id s =
    (case put_r2_batch_with_retry (fd_env deps) (batch_put deps links es batch_id) es batch_id (fd_dlq deps)
         (fd_retry deps) (batch_logged deps links es s1) of
       (Inl e, s2) \<Rightarrow> (Inl e, s2)
     | (Inr (Put_failed _ _), s2) \<Rightarrow> (Inr (), s2)
     | (Inr (Put_succeeded _), s2) \<Rightarrow> insert_events_batch (fd_insert deps) (batch_rows deps links es) s2)"
  using assms
  by (cases es)
     (auto simp: flush_batch_def io_apps Let_def batch_put_def batch_logged_def batch_rows_def
        case_prod_unfold split: sum.split r2_put_outcome.split)

lemma flush_batch_read_error:
  "es \<noteq> [] \<Longrightarrow> fd_read_links deps s = (Inl e, s1) \<Longrightarrow> flush_batch deps es batch_id s = (Inl e, s1)"
  by (cases es) (simp_all add: flush_batch_def)

lemma flush_batch_Nil [simp]: "flush_batch deps [] batch_id s = (Inr (), s)"
  by (simp add: flush_batch_def)

section \<open>Services that keep an invariant\<close>

text \<open>
  An invariant of the state that every service before the insertion keeps, whether its call
  is fulfilled or rejected, still holds when the insertion starts; one that the insertion
  keeps too is kept by the flush and by the production flush.
\<close>

locale put_services =
  fixes deps :: "'s flush_deps" and inv :: "'s \<Rightarrow> bool"
  assumes read_inv: "inv s \<Longrightarrow> inv (snd (fd_read_links deps s))"
    and send_inv: "inv s \<Longrightarrow> inv (snd (fd_r2_send deps bucket key body s))"
    and dlq_inv: "inv s \<Longrightarrow> inv (snd (fd_dlq deps reason payload error meta s))"
    and sleep_inv: "inv s \<Longrightarrow> inv (re_sleep (fd_env deps) ms s)"
    and log_inv: "inv s \<Longrightarrow> inv (re_log (fd_env deps) message details s)"
begin

lemma put_loop_inv:
  assumes "\<And>s. inv s \<Longrightarrow> inv (snd (put s))"
  shows "inv s \<Longrightarrow> inv (snd (retry_put_loop (fd_env deps) put limit delay n attempt e0 s))"
proof (induction n arbitrary: attempt e0 s)
  case 0
  then show ?case by (simp add: log_exhausted_def log_inv)
next
  case (Suc n)
  obtain r s' where p: "put s = (r, s')" by fastforce
  with assms [OF Suc.prems] have "inv s'" by simp
  then show ?case using Suc.IH p by (cases r) (simp_all add: log_non_retryable_def log_inv sleep_inv)
qed

lemma batch_put_inv: "inv s \<Longrightarrow> inv (snd (batch_put deps links es batch_id s))"
  by (simp add: batch_put_def put_event_batch_def send_inv split: sum.split)

lemma retry_put_inv: "inv s \<Longrightarrow> inv (snd (retry_r2_put (fd_env deps) (batch_put deps links es batch_id) options s))"
  using put_loop_inv [OF batch_put_inv]
  by (auto simp: retry_r2_put_def Let_def case_prod_unfold split: sum.split)

lemma put_with_retry_inv:
  "inv s \<Longrightarrow>
   inv (snd (put_r2_batch_with_retry (fd_env deps) (batch_put deps links es batch_id) es batch_id (fd_dlq deps) options s))"
  using retry_put_inv dlq_inv
  by (auto simp: put_r2_batch_with_retry_def io_apps send_r2_put_failure_to_dlq_def
      split: sum.split r2_put_outcome.split)

lemma batch_logged_inv: "inv s \<Longrightarrow> inv (batch_logged deps links es s)"
  by (simp add: batch_logged_def log_unresolved_destinations_def Let_def log_inv)

lemma poison_inv: "inv s \<Longrightarrow> inv (snd (send_poison_events_to_dlq ps (fd_dlq deps) batch_id attempts s))"
proof (induction ps arbitrary: s)
  case (Cons p ps)
  then show ?case using dlq_inv by (cases p) (auto simp: io_apps split: sum.split)
qed simp

end

locale flush_services = put_services +
  assumes insert_inv: "inv s \<Longrightarrow> inv (snd (fd_insert deps rows s))"
begin

lemma flush_batch_inv: "inv s \<Longrightarrow> inv (snd (flush_batch deps es batch_id s))"
proof (cases "es = []")
  case False
  assume inv: "inv s"
  obtain r s1 where read: "fd_read_links deps s = (r, s1)" by fastforce
  then have s1: "inv s1" using read_inv [OF inv] by simp
  show ?thesis
  proof (cases r)
    case (Inl e)
    then show ?thesis using False read s1 by (simp add: flush_batch_read_error)
  next
    case (Inr links)
    then have read: "fd_read_links deps s = (Inr links, s1)" using read by simp
    obtain q s2 where put: "put_r2_batch_with_retry (fd_env deps) (batch_put deps links es batch_id) es batch_id
        (fd_dlq deps) (fd_retry deps) (batch_logged deps links es s1) = (q, s2)" by fastforce
    then have "inv s2"
      using put_with_retry_inv [OF batch_logged_inv [OF s1]] by (metis snd_conv)
    then show ?thesis
      using insert_inv unfolding flush_batch_app [OF False read] put
      by (auto simp: insert_events_batch_def io_apps split: sum.split r2_put_outcome.split)
  qed
qed simp

end

sublocale flush_services \<subseteq> bisected: flush_invariant "flush_batch deps" "fd_env deps" inv
  by unfold_locales (auto intro: flush_batch_inv sleep_inv log_inv)

context flush_services
begin

lemma production_inv:
  assumes "flush_with_split_retry_and_poison_dlq deps es batch_id s = Some (r, s')" and "inv s"
  shows "inv s'"
proof -
  obtain q s1 where q: "retry_with_split (fd_env deps) classify_flush_error es (flush_batch deps)
      SPLIT_RETRY_OPTIONS batch_id s = Some (q, s1)"
    by (rule exE [OF retry_with_split_returns]) (auto intro: that elim: exE)
  then have "inv s1" using bisected.retry_with_split_inv assms(2) by blast
  then have "inv (snd (send_poison_events_to_dlq ps (fd_dlq deps) batch_id 3 s1))" for ps
    by (rule poison_inv)
  then show ?thesis
    using assms(1) q \<open>inv s1\<close>
    by (cases q) (auto simp: flush_with_split_retry_and_poison_dlq_def, metis snd_conv)
qed

end

end
