(* ===== verification/Contracts_Redact.thy ===== *)
theory Contracts_Redact
  imports Js_Json
begin

text \<open>
  Redaction (\<open>packages/contracts/src/redact.ts\<close>): scrubbing the credentials of URLs out of
  a message, and replacing the values of forbidden keys anywhere in a payload.

  \<open>new URL(s)\<close> is a parameter (\<open>parse_url\<close>). A payload is a JavaScript object graph: objects
  and arrays live in a heap and refer to each other by address, so a payload can share
  and even contain itself. \<open>redact_node\<close> is the code's traversal of the graph;
  \<open>redact_tree\<close> is what it does to a payload that is a plain tree, the form of every
  payload that came from \<open>JSON.parse\<close>, and \<open>redact_node_tree\<close> shows that they agree.
\<close>

section \<open>Messages\<close>

definition SECRET_REDACTION_PLACEHOLDER :: jsstr where
  "SECRET_REDACTION_PLACEHOLDER = js ''[REDACTED]''"

record url_parts =
  up_username :: jsstr
  up_password :: jsstr
  up_protocol :: jsstr
  up_host :: jsstr
  up_pathname :: jsstr
  up_search :: jsstr
  up_hash :: jsstr

definition is_alpha :: "nat \<Rightarrow> bool" where
  "is_alpha c \<longleftrightarrow> is_lower c \<or> is_upper c"

definition scheme_char :: "nat \<Rightarrow> bool" where
  "scheme_char c \<longleftrightarrow> is_alpha c \<or> is_digit c \<or> c = 43 \<or> c = 46 \<or> c = 45"

text \<open>
  A match of \<open>[a-zA-Z][a-zA-Z0-9+.-]*://\S+\<close> at the start of the text, with what follows
  it: no scheme character is a colon, so the greedy match needs no backtracking.
\<close>

definition scheme_match :: "jsstr \<Rightarrow> (jsstr \<times> jsstr) option" where
  "scheme_match s =
     (let scheme = takeWhile scheme_char s; rest = dropWhile scheme_char s in
      if s \<noteq> [] \<and> is_alpha (hd s) \<and> starts_with rest (js ''://'')
      then Some (scheme @ js ''://'', drop 3 rest) else None)"

definition url_like_match :: "jsstr \<Rightarrow> (jsstr \<times> jsstr) option" where
  "url_like_match s =
     (case scheme_match s of
        None \<Rightarrow> None
      | Some (scheme, rest) \<Rightarrow>
          (let body = takeWhile (\<lambda>c. \<not> js_space c) rest in
           if body = [] then None else Some (scheme @ body, dropWhile (\<lambda>c. \<not> js_space c) rest)))"

definition trailing_punctuation :: "nat \<Rightarrow> bool" where
  "trailing_punctuation c \<longleftrightarrow> c \<in> set (js ''.,;:!?)]}>'' @ [39, 34])"

definition split_trailing :: "jsstr \<Rightarrow> jsstr \<times> jsstr" where
  "split_trailing chunk =
     (rev (dropWhile trailing_punctuation (rev chunk)), rev (takeWhile trailing_punctuation (rev chunk)))"

definition redact_url_like_chunk :: "(jsstr \<Rightarrow> url_parts option) \<Rightarrow> jsstr \<Rightarrow> jsstr" where
  "redact_url_like_chunk parse_url chunk =
     (let (url_part, trailing) = split_trailing chunk in
      case parse_url url_part of
        None \<Rightarrow>
          (case scheme_match url_part of Some (scheme, _) \<Rightarrow> scheme | None \<Rightarrow> []) @
          SECRET_REDACTION_PLACEHOLDER @ trailing
      | Some u \<Rightarrow>
          if up_username u = [] \<and> up_password u = [] then chunk
          else
            up_protocol u @ js ''//'' @ SECRET_REDACTION_PLACEHOLDER @ js ''@'' @ up_host u @
            up_pathname u @ up_search u @ up_hash u @ trailing)"

lemma url_like_match_shorter: "url_like_match s = Some (m, r) \<Longrightarrow> length r < length s"
proof -
  assume "url_like_match s = Some (m, r)"
  then obtain scheme rest where m: "scheme_match s = Some (scheme, rest)"
    and r: "r = dropWhile (\<lambda>c. \<not> js_space c) rest"
    by (auto simp: url_like_match_def Let_def split: option.splits if_splits)
  from m have "rest = drop 3 (dropWhile scheme_char s)" "s \<noteq> []"
    "starts_with (dropWhile scheme_char s) (js ''://'')"
    by (auto simp: scheme_match_def Let_def split: if_splits)
  then have "length rest < length (dropWhile scheme_char s)"
    by (auto simp: starts_with_iff js_def)
  moreover have "length (dropWhile scheme_char s) \<le> length s" by (rule length_dropWhile_le)
  moreover have "length r \<le> length rest" unfolding r by (rule length_dropWhile_le)
  ultimately show ?thesis by linarith
qed

text \<open>\<open>message.replace(URL_LIKE_PATTERN, redactUrlLikeChunk)\<close>: leftmost matches, left to right.\<close>

function redact_credentials_from_message :: "(jsstr \<Rightarrow> url_parts option) \<Rightarrow> jsstr \<Rightarrow> jsstr" where
  "redact_credentials_from_message parse_url s =
     (case s of
        [] \<Rightarrow> []
      | c # t \<Rightarrow>
          (case url_like_match s of
             Some (chunk, rest) \<Rightarrow>
               redact_url_like_chunk parse_url chunk @ redact_credentials_from_message parse_url rest
           | None \<Rightarrow> c # redact_credentials_from_message parse_url t))"
  by pat_completeness auto
termination
  by (relation "measure (\<lambda>(_, s). length s)") (auto dest!: url_like_match_shorter)

declare redact_credentials_from_message.simps [simp del]

section \<open>Forbidden keys\<close>

definition FORBIDDEN_PAYLOAD_KEYS :: "jsstr list" where
  "FORBIDDEN_PAYLOAD_KEYS = map js
     [''ip'', ''client_ip'', ''client-ip'', ''remote_addr'', ''remote-addr'', ''x-forwarded-for'',
      ''x_forwarded_for'', ''forwarded'', ''x-real-ip'', ''x_real_ip'', ''x-client-ip'', ''x_client_ip'',
      ''cf-connecting-ip'', ''cf_connecting_ip'', ''true-client-ip'', ''true_client_ip'',
      ''fastly-client-ip'', ''fastly_client_ip'', ''cookie'', ''set-cookie'', ''set_cookie'']"

definition is_forbidden_key :: "jsstr \<Rightarrow> bool" where
  "is_forbidden_key key = (to_lower key \<in> set FORBIDDEN_PAYLOAD_KEYS)"

definition identifier_start :: "nat \<Rightarrow> bool" where
  "identifier_start c \<longleftrightarrow> is_alpha c \<or> c = 95 \<or> c = 36"

definition IDENTIFIER_PATTERN :: regex where
  "IDENTIFIER_PATTERN = Cat (Cls identifier_start) (Star (Cls (\<lambda>c. identifier_start c \<or> is_digit c)))"

definition build_property_path :: "jsstr \<Rightarrow> jsstr \<Rightarrow> jsstr" where
  "build_property_path parent key =
     (let segment = (if matches IDENTIFIER_PATTERN key then key else js ''['' @ [39] @ key @ [39] @ js '']'') in
      if parent = [] then segment
      else if matches IDENTIFIER_PATTERN key then parent @ js ''.'' @ key
      else parent @ segment)"

definition build_index_path :: "jsstr \<Rightarrow> nat \<Rightarrow> jsstr" where
  "build_index_path parent index = parent @ js ''['' @ dec index @ js '']''"

section \<open>The traversal of an object graph\<close>

text \<open>A value is a primitive or the address of an array or an object.\<close>

datatype js_primitive = Null_value | Bool_value bool | Integer_value int | Decimal_value jsstr | String_value jsstr

datatype js_value = Prim js_primitive | Ref nat

fun primitive_json :: "js_primitive \<Rightarrow> json" where
  "primitive_json Null_value = JNull"
| "primitive_json (Bool_value b) = JBool b"
| "primitive_json (Integer_value n) = JInt n"
| "primitive_json (Decimal_value x) = JNum x"
| "primitive_json (String_value s) = JStr s"

datatype heap_object = Array_object "js_value list" | Plain_object "(jsstr \<times> js_value) list"

type_synonym js_heap = "nat \<Rightarrow> heap_object option"

definition MAX_REDACTION_DEPTH :: nat where "MAX_REDACTION_DEPTH = 50"

definition MAX_DEPTH_EXCEEDED_PLACEHOLDER :: jsstr where
  "MAX_DEPTH_EXCEEDED_PLACEHOLDER = js ''[MAX_DEPTH_EXCEEDED]''"

definition CIRCULAR_REFERENCE_PLACEHOLDER :: jsstr where
  "CIRCULAR_REFERENCE_PLACEHOLDER = js ''[CIRCULAR_REFERENCE]''"

text \<open>
  The result is a fresh tree and the paths of the redacted keys in the order they are
  met. \<open>anc\<close> is the set of the objects on the path from the root; the array case and the
  object case walk their items with the index and the key.
\<close>

function (sequential) redact_node ::
    "js_heap \<Rightarrow> js_value \<Rightarrow> jsstr \<Rightarrow> nat \<Rightarrow> nat list \<Rightarrow> json \<times> jsstr list"
  and redact_items ::
    "js_heap \<Rightarrow> js_value list \<Rightarrow> nat \<Rightarrow> jsstr \<Rightarrow> nat \<Rightarrow> nat list \<Rightarrow> json list \<times> jsstr list"
  and redact_members ::
    "js_heap \<Rightarrow> (jsstr \<times> js_value) list \<Rightarrow> jsstr \<Rightarrow> nat \<Rightarrow> nat list \<Rightarrow> (jsstr \<times> json) list \<times> jsstr list"
where
  "redact_node h (Prim p) path depth anc = (primitive_json p, [])"
| "redact_node h (Ref a) path depth anc =
     (if depth \<ge> MAX_REDACTION_DEPTH then (JStr MAX_DEPTH_EXCEEDED_PLACEHOLDER, [])
      else if a \<in> set anc then (JStr CIRCULAR_REFERENCE_PLACEHOLDER, [])
      else
        (case h a of
           None \<Rightarrow> (JNull, [])
         | Some (Array_object vs) \<Rightarrow>
             (let (outs, ks) = redact_items h vs 0 path (Suc depth) (a # anc) in (JArr outs, ks))
         | Some (Plain_object ms) \<Rightarrow>
             (let (outs, ks) = redact_members h ms path (Suc depth) (a # anc) in (JObj outs, ks))))"
| "redact_items h [] index path depth anc = ([], [])"
| "redact_items h (v # vs) index path depth anc =
     (let (j, ks) = redact_node h v (build_index_path path index) depth anc;
          (outs, ls) = redact_items h vs (Suc index) path depth anc
      in (j # outs, ks @ ls))"
| "redact_members h [] path depth anc = ([], [])"
| "redact_members h ((key, v) # ms) path depth anc =
     (let (j, ks) =
            (if is_forbidden_key key then (JStr SECRET_REDACTION_PLACEHOLDER, [build_property_path path key])
             else redact_node h v (build_property_path path key) depth anc);
          (outs, ls) = redact_members h ms path depth anc
      in ((key, j) # outs, ks @ ls))"
  by pat_completeness auto
termination
  by (relation "measures [
        (\<lambda>x. case x of Inl (_, v, _, d, _) \<Rightarrow> 2 * (MAX_REDACTION_DEPTH - d) + (case v of Prim _ \<Rightarrow> 0 | Ref _ \<Rightarrow> 1)
           | Inr (Inl (_, _, _, _, d, _)) \<Rightarrow> 2 * (MAX_REDACTION_DEPTH - d) + 2
           | Inr (Inr (_, _, _, d, _)) \<Rightarrow> 2 * (MAX_REDACTION_DEPTH - d) + 2),
        (\<lambda>x. case x of Inl _ \<Rightarrow> 0 | Inr (Inl (_, vs, _)) \<Rightarrow> length vs | Inr (Inr (_, ms, _)) \<Rightarrow> length ms)]")
     (auto split: js_value.split)

definition redact_forbidden_keys :: "js_heap \<Rightarrow> js_value \<Rightarrow> json \<times> jsstr list" where
  "redact_forbidden_keys h v = redact_node h v [] 0 []"

section \<open>Plain trees\<close>

text \<open>The same traversal of a payload that is a tree.\<close>

fun redact_tree :: "json \<Rightarrow> jsstr \<Rightarrow> nat \<Rightarrow> json \<times> jsstr list"
  and redact_tree_items :: "json list \<Rightarrow> nat \<Rightarrow> jsstr \<Rightarrow> nat \<Rightarrow> json list \<times> jsstr list"
  and redact_tree_members :: "(jsstr \<times> json) list \<Rightarrow> jsstr \<Rightarrow> nat \<Rightarrow> (jsstr \<times> json) list \<times> jsstr list"
where
  "redact_tree (JArr vs) path depth =
     (if depth \<ge> MAX_REDACTION_DEPTH then (JStr MAX_DEPTH_EXCEEDED_PLACEHOLDER, [])
      else (let (outs, ks) = redact_tree_items vs 0 path (Suc depth) in (JArr outs, ks)))"
| "redact_tree (JObj ms) path depth =
     (if depth \<ge> MAX_REDACTION_DEPTH then (JStr MAX_DEPTH_EXCEEDED_PLACEHOLDER, [])
      else (let (outs, ks) = redact_tree_members ms path (Suc depth) in (JObj outs, ks)))"
| "redact_tree v path depth = (v, [])"
| "redact_tree_items [] index path depth = ([], [])"
| "redact_tree_items (v # vs) index path depth =
     (let (j, ks) = redact_tree v (build_index_path path index) depth;
          (outs, ls) = redact_tree_items vs (Suc index) path depth
      in (j # outs, ks @ ls))"
| "redact_tree_members [] path depth = ([], [])"
| "redact_tree_members ((key, v) # ms) path depth =
     (let (j, ks) =
            (if is_forbidden_key key then (JStr SECRET_REDACTION_PLACEHOLDER, [build_property_path path key])
             else redact_tree v (build_property_path path key) depth);
          (outs, ls) = redact_tree_members ms path depth
      in ((key, j) # outs, ks @ ls))"

definition redact_payload :: "json \<Rightarrow> json \<times> jsstr list" where
  "redact_payload v = redact_tree v [] 0"

text \<open>The tree that a value of the heap stands for, when it is one.\<close>

inductive stands_for :: "js_heap \<Rightarrow> js_value \<Rightarrow> json \<Rightarrow> bool" for h :: js_heap where
  stands_prim: "stands_for h (Prim p) (primitive_json p)"
| stands_array: "h a = Some (Array_object vs) \<Longrightarrow> list_all2 (stands_for h) vs outs \<Longrightarrow> stands_for h (Ref a) (JArr outs)"
| stands_object: "h a = Some (Plain_object ms) \<Longrightarrow>
    list_all2 (\<lambda>p q. fst p = fst q \<and> stands_for h (snd p) (snd q)) ms outs \<Longrightarrow> stands_for h (Ref a) (JObj outs)"

inductive_cases stands_refE: "stands_for h (Ref a) j"
inductive_cases stands_primE: "stands_for h (Prim p) j"

lemma stands_for_unique: "stands_for h v j \<Longrightarrow> stands_for h v k \<Longrightarrow> j = k"
proof (induction arbitrary: k rule: stands_for.induct)
  case (stands_prim p)
  then show ?case by (auto elim: stands_primE)
next
  case (stands_array a vs outs)
  from stands_array.prems obtain ks where k: "k = JArr ks" "list_all2 (stands_for h) vs ks"
    using stands_array.hyps by (auto elim: stands_refE)
  have "outs = ks"
    using stands_array.IH k(2)
  proof (induction vs outs arbitrary: ks rule: list_all2_induct)
    case (Cons v vs j outs)
    then show ?case by (cases ks) auto
  qed auto
  then show ?case using k by simp
next
  case (stands_object a ms outs)
  from stands_object.prems obtain ks
    where k: "k = JObj ks" "list_all2 (\<lambda>p q. fst p = fst q \<and> stands_for h (snd p) (snd q)) ms ks"
    using stands_object.hyps by (auto elim: stands_refE)
  have "outs = ks"
    using stands_object.IH k(2)
  proof (induction ms outs arbitrary: ks rule: list_all2_induct)
    case (Cons v vs j outs)
    then show ?case by (cases ks) (auto simp: prod_eq_iff)
  qed auto
  then show ?case using k by simp
qed

text \<open>The objects on the path stand for strictly larger trees, so no cycle is met.\<close>

definition larger :: "js_heap \<Rightarrow> nat list \<Rightarrow> nat \<Rightarrow> bool" where
  "larger h anc n \<longleftrightarrow> (\<forall>a \<in> set anc. \<exists>j. stands_for h (Ref a) j \<and> n < size j)"

lemma larger_mono: "larger h anc n \<Longrightarrow> m \<le> n \<Longrightarrow> larger h anc m"
  unfolding larger_def by (meson le_less_trans)

lemma larger_Cons: "larger h anc (size j) \<Longrightarrow> stands_for h (Ref a) j \<Longrightarrow> n < size j \<Longrightarrow> larger h (a # anc) n"
  unfolding larger_def by (auto intro: less_trans)

lemma larger_not_in: "larger h anc (size j) \<Longrightarrow> stands_for h (Ref a) j \<Longrightarrow> a \<notin> set anc"
  unfolding larger_def using stands_for_unique by blast

lemma redact_node_tree:
  "stands_for h v j \<Longrightarrow> larger h anc (size j) \<Longrightarrow> redact_node h v path depth anc = redact_tree j path depth"
proof (induction arbitrary: path depth anc rule: stands_for.induct)
  case (stands_prim p)
  show ?case by (cases p) simp_all
next
  case (stands_array a vs outs)
  have self: "stands_for h (Ref a) (JArr outs)"
    using stands_array stands_for.stands_array [of h a vs outs] by (simp add: list.rel_mono_strong)
  have items: "redact_items h vs index path (Suc depth) (a # anc) = redact_tree_items outs index path (Suc depth)"
    if "list_all2 (\<lambda>v j. stands_for h v j \<and> (\<forall>path depth anc. larger h anc (size j) \<longrightarrow>
        redact_node h v path depth anc = redact_tree j path depth)) vs outs"
      and "\<forall>j \<in> set outs. larger h (a # anc) (size j)" for vs outs index
    using that
  proof (induction vs outs arbitrary: index rule: list_all2_induct)
    case (Cons v vs j outs)
    then show ?case by simp
  qed simp
  have "larger h (a # anc) (size j)" if "j \<in> set outs" for j
    using stands_array.prems self size_list_estimation' [OF that order.refl, of size]
    by (intro larger_Cons [of h anc "JArr outs"]) (auto simp: less_Suc_eq_le)
  then show ?case
    using stands_array larger_not_in [OF stands_array.prems self] items [of vs outs 0] by simp
next
  case (stands_object a ms outs)
  have self: "stands_for h (Ref a) (JObj outs)"
    using stands_object stands_for.stands_object [of h a ms outs]
    by (metis (no_types, lifting) list_all2_mono)
  have items: "redact_members h ms path (Suc depth) (a # anc) = redact_tree_members outs path (Suc depth)"
    if "list_all2 (\<lambda>p q. fst p = fst q \<and> stands_for h (snd p) (snd q) \<and>
        (\<forall>path depth anc. larger h anc (size (snd q)) \<longrightarrow>
          redact_node h (snd p) path depth anc = redact_tree (snd q) path depth)) ms outs"
      and "\<forall>p \<in> set outs. larger h (a # anc) (size (snd p))" for ms outs
    using that
  proof (induction ms outs rule: list_all2_induct)
    case (Cons v vs j outs)
    then show ?case by (cases v; cases j) (simp add: Let_def split: prod.splits)
  qed simp
  have "larger h (a # anc) (size (snd p))" if "p \<in> set outs" for p
  proof (rule larger_Cons [OF stands_object.prems self])
    have "size (snd p) \<le> size_prod (\<lambda>_. 0) size p" by (cases p) simp
    then show "size (snd p) < size (JObj outs)" using that
      by (auto simp: less_Suc_eq_le intro: size_list_estimation' [OF that])
  qed
  then show ?case
    using stands_object larger_not_in [OF stands_object.prems self] items [of ms outs] by simp
qed

section \<open>What redaction guarantees\<close>

text \<open>No member with a forbidden key has anything but the placeholder as its value.\<close>

fun clean :: "json \<Rightarrow> bool" where
  "clean (JArr vs) = (\<forall>v \<in> set vs. clean v)"
| "clean (JObj ms) =
     (\<forall>p \<in> set ms. if is_forbidden_key (fst p) then snd p = JStr SECRET_REDACTION_PLACEHOLDER else clean (snd p))"
| "clean v = True"

lemma clean_placeholders [simp]: "clean (JStr s)" by simp

lemma clean_primitive [simp]: "clean (primitive_json p)" by (cases p) simp_all

lemma redact_clean:
  "clean (fst (redact_node h v path depth anc))"
  "\<forall>j \<in> set (fst (redact_items h vs index path depth anc)). clean j"
  "\<forall>p \<in> set (fst (redact_members h ms path depth anc)).
     if is_forbidden_key (fst p) then snd p = JStr SECRET_REDACTION_PLACEHOLDER else clean (snd p)"
proof (induction h v path depth anc and h vs index path depth anc and h ms path depth anc
    rule: redact_node_redact_items_redact_members.induct)
  case (2 h a path depth anc)
  then show ?case
    by (auto simp: case_prod_unfold Let_def split: option.splits heap_object.splits if_splits prod.splits)
next
  case (6 h key v ms path depth anc)
  then show ?case
    by (cases "redact_node h v (build_property_path path key) depth anc"; cases "is_forbidden_key key";
        cases "redact_members h ms path depth anc") auto
next
  case (4 h v vs index path depth anc)
  then show ?case
    by (cases "redact_node h v (build_index_path path index) depth anc";
        cases "redact_items h vs (Suc index) path depth anc") auto
qed (auto simp: Let_def case_prod_unfold)

lemma redact_tree_clean:
  "clean (fst (redact_tree v path depth))"
  "\<forall>j \<in> set (fst (redact_tree_items vs index path depth)). clean j"
  "\<forall>p \<in> set (fst (redact_tree_members ms path depth)).
     if is_forbidden_key (fst p) then snd p = JStr SECRET_REDACTION_PLACEHOLDER else clean (snd p)"
proof (induction v path depth and vs index path depth and ms path depth
    rule: redact_tree_redact_tree_items_redact_tree_members.induct)
  case (5 v vs index path depth)
  then show ?case
    by (cases "redact_tree v (build_index_path path index) depth";
        cases "redact_tree_items vs (Suc index) path depth") auto
next
  case (7 key v ms path depth)
  then show ?case
    by (cases "redact_tree v (build_property_path path key) depth"; cases "is_forbidden_key key";
        cases "redact_tree_members ms path depth") auto
qed (auto simp: Let_def case_prod_unfold)

text \<open>A payload without forbidden keys, nested at most as deep as allowed, is unchanged.\<close>

fun harmless :: "json \<Rightarrow> nat \<Rightarrow> bool" where
  "harmless (JArr vs) depth = (depth < MAX_REDACTION_DEPTH \<and> (\<forall>v \<in> set vs. harmless v (Suc depth)))"
| "harmless (JObj ms) depth =
     (depth < MAX_REDACTION_DEPTH \<and> (\<forall>p \<in> set ms. \<not> is_forbidden_key (fst p) \<and> harmless (snd p) (Suc depth)))"
| "harmless v depth = True"

lemma redact_tree_harmless:
  "harmless v depth \<Longrightarrow> redact_tree v path depth = (v, [])"
  "\<forall>v \<in> set vs. harmless v depth \<Longrightarrow> redact_tree_items vs index path depth = (vs, [])"
  "\<forall>p \<in> set ms. \<not> is_forbidden_key (fst p) \<and> harmless (snd p) depth \<Longrightarrow>
     redact_tree_members ms path depth = (ms, [])"
  by (induction v path depth and vs index path depth and ms path depth
      rule: redact_tree_redact_tree_items_redact_tree_members.induct) auto

lemma redact_tree_idem:
  "redact_tree (fst (redact_tree v path depth)) path depth = redact_tree v path depth"
  "redact_tree_items (fst (redact_tree_items vs index path depth)) index path depth =
     redact_tree_items vs index path depth"
  "redact_tree_members (fst (redact_tree_members ms path depth)) path depth = redact_tree_members ms path depth"
proof (induction v path depth and vs index path depth and ms path depth
    rule: redact_tree_redact_tree_items_redact_tree_members.induct)
  case (1 vs path depth)
  then show ?case by (cases "redact_tree_items vs 0 path (Suc depth)") auto
next
  case (2 ms path depth)
  then show ?case by (cases "redact_tree_members ms path (Suc depth)") auto
next
  case (5 v vs index path depth)
  then show ?case
    by (cases "redact_tree v (build_index_path path index) depth";
        cases "redact_tree_items vs (Suc index) path depth") auto
next
  case (7 key v ms path depth)
  then show ?case
    by (cases "redact_tree v (build_property_path path key) depth";
        cases "redact_tree_members ms path depth"; cases "is_forbidden_key key") auto
qed auto

text \<open>Two payloads that differ only under forbidden keys.\<close>

inductive agree :: "json \<Rightarrow> json \<Rightarrow> bool" where
  agree_refl: "agree v v"
| agree_array: "list_all2 agree vs ws \<Longrightarrow> agree (JArr vs) (JArr ws)"
| agree_object:
    "list_all2 (\<lambda>p q. fst p = fst q \<and> (is_forbidden_key (fst p) \<or> agree (snd p) (snd q))) ms ns \<Longrightarrow>
     agree (JObj ms) (JObj ns)"

lemma redact_agree: "agree v w \<Longrightarrow> redact_tree v path depth = redact_tree w path depth"
proof (induction arbitrary: path depth rule: agree.induct)
  case (agree_array vs ws)
  have "redact_tree_items vs index path depth = redact_tree_items ws index path depth" for index depth
    using agree_array.IH by (induction vs ws arbitrary: index rule: list_all2_induct) auto
  then show ?case by simp
next
  case (agree_object ms ns)
  have "redact_tree_members ms path depth = redact_tree_members ns path depth" for depth
    using agree_object.IH
  proof (induction ms ns rule: list_all2_induct)
    case (Cons p ms q ns)
    then show ?case by (cases p; cases q) auto
  qed simp
  then show ?case by simp
qed simp

section \<open>What redaction of a message guarantees\<close>

lemma scheme_match_plain:
  assumes "58 \<notin> set p" "p \<noteq> []" "\<not> scheme_char (last p)"
  shows "scheme_match (p @ s) = None"
proof -
  obtain c where c: "c \<in> set p" "\<not> scheme_char c" using assms last_in_set by blast
  have drop: "dropWhile scheme_char (p @ s) = dropWhile scheme_char p @ s"
    using c by (rule dropWhile_append1)
  have "dropWhile scheme_char p \<noteq> []" using c by (auto simp: dropWhile_eq_Nil_conv)
  then obtain d q where dq: "dropWhile scheme_char p = d # q" by (cases "dropWhile scheme_char p") auto
  then have "d \<in> set p" by (metis list.set_intros(1) set_dropWhileD)
  then have "d \<noteq> 58" using assms by auto
  then have "\<not> starts_with (dropWhile scheme_char (p @ s)) (js ''://'')"
    unfolding drop dq by (auto simp: starts_with_iff js_def)
  then show ?thesis by (simp add: scheme_match_def Let_def)
qed

text \<open>Text before a URL, with no colon and not running into its scheme, is copied.\<close>

lemma redact_credentials_plain:
  "58 \<notin> set p \<Longrightarrow> p = [] \<or> \<not> scheme_char (last p) \<Longrightarrow>
   redact_credentials_from_message f (p @ s) = p @ redact_credentials_from_message f s"
proof (induction p)
  case (Cons c p)
  have "url_like_match ((c # p) @ s) = None"
    using Cons.prems scheme_match_plain [of "c # p" s] by (simp add: url_like_match_def)
  then have "redact_credentials_from_message f ((c # p) @ s) = c # redact_credentials_from_message f (p @ s)"
    by (subst redact_credentials_from_message.simps) simp
  also have "redact_credentials_from_message f (p @ s) = p @ redact_credentials_from_message f s"
    using Cons by (cases "p = []") auto
  finally show ?case by simp
qed simp

lemma redact_credentials_url:
  assumes "url_like_match s = Some (chunk, rest)"
  shows "redact_credentials_from_message f s =
    redact_url_like_chunk f chunk @ redact_credentials_from_message f rest"
proof -
  have "s \<noteq> []" using assms by (auto simp: url_like_match_def scheme_match_def)
  then obtain c t where "s = c # t" by (cases s) auto
  then show ?thesis using assms by (subst redact_credentials_from_message.simps) simp
qed

definition same_but_credentials :: "url_parts \<Rightarrow> url_parts \<Rightarrow> bool" where
  "same_but_credentials u v \<longleftrightarrow>
     u\<lparr>up_username := [], up_password := []\<rparr> = v\<lparr>up_username := [], up_password := []\<rparr>"

definition has_credentials :: "url_parts \<Rightarrow> bool" where
  "has_credentials u \<longleftrightarrow> up_username u \<noteq> [] \<or> up_password u \<noteq> []"

lemma redact_url_hides:
  assumes "f (fst (split_trailing a)) = Some u" "f (fst (split_trailing b)) = Some v"
    and "same_but_credentials u v" "has_credentials u" "has_credentials v"
    and "snd (split_trailing a) = snd (split_trailing b)"
  shows "redact_url_like_chunk f a = redact_url_like_chunk f b"
proof -
  have "up_protocol u = up_protocol v" "up_host u = up_host v" "up_pathname u = up_pathname v"
    "up_search u = up_search v" "up_hash u = up_hash v"
    using assms(3) by (cases u; cases v; simp add: same_but_credentials_def)+
  then show ?thesis
    using assms by (auto simp: redact_url_like_chunk_def has_credentials_def split: prod.splits)
qed

section \<open>Properties\<close>

text \<open>
  C17: Redaction of a payload, whatever the graph of its objects (shared, circular or
  deep), leaves no value under a forbidden key but the placeholder.
\<close>

theorem redaction_leaves_no_forbidden_value: "clean (fst (redact_forbidden_keys h v))"
  unfolding redact_forbidden_keys_def by (rule redact_clean)

text \<open>
  The redacted payload and the reported paths do not depend on the values under the
  forbidden keys: two payloads that differ only there cannot be told apart.
\<close>

theorem redaction_independent_of_forbidden_values:
  "agree v w \<Longrightarrow> redact_payload v = redact_payload w"
  unfolding redact_payload_def by (rule redact_agree)

lemma agree_example:
  "agree (JObj [(js ''IP'', JStr (js ''10.0.0.1'')), (js ''q'', JInt 1)])
     (JObj [(js ''IP'', JStr (js ''8.8.8.8'')), (js ''q'', JInt 1)])"
  by (rule agree_object)
     (simp add: agree_refl is_forbidden_key_def FORBIDDEN_PAYLOAD_KEYS_def str_eval)

theorem redaction_independent_of_forbidden_values_witness:
  "redact_payload (JObj [(js ''IP'', JStr (js ''10.0.0.1'')), (js ''q'', JInt 1)]) =
   redact_payload (JObj [(js ''IP'', JStr (js ''8.8.8.8'')), (js ''q'', JInt 1)])"
  using redaction_independent_of_forbidden_values [OF agree_example] .

text \<open>C0: Redacting an already redacted payload changes nothing and reports the same keys.\<close>

theorem redaction_idempotent: "redact_payload (fst (redact_payload v)) = redact_payload v"
  unfolding redact_payload_def by (rule redact_tree_idem)

text \<open>
  C18: On a payload that is a tree, the traversal of the object graph, with its set of
  ancestors, computes the plain recursion over the tree.
\<close>

theorem redaction_of_trees:
  "stands_for h v j \<Longrightarrow> redact_forbidden_keys h v = redact_payload j"
  unfolding redact_forbidden_keys_def redact_payload_def
  by (rule redact_node_tree) (simp_all add: larger_def)

definition example_heap :: js_heap where
  "example_heap = (\<lambda>_. None)(0 := Some (Plain_object [(js ''q'', Ref 1), (js ''ip'', Prim Null_value)]),
     1 := Some (Array_object [Prim (Integer_value 4)]))"

lemma example_heap_stands:
  "stands_for example_heap (Ref 0) (JObj [(js ''q'', JArr [JInt 4]), (js ''ip'', JNull)])"
  by (rule stands_object)
     (auto simp: example_heap_def intro!: stands_array stands_prim [of _ "Integer_value 4", simplified]
        stands_prim [of _ Null_value, simplified])

theorem redaction_of_trees_witness:
  "redact_forbidden_keys example_heap (Ref 0) =
   redact_payload (JObj [(js ''q'', JArr [JInt 4]), (js ''ip'', JNull)])"
  using redaction_of_trees [OF example_heap_stands] .


definition example_parse_url :: "jsstr \<Rightarrow> url_parts option" where
  "example_parse_url s =
     (if s = js ''pg://u:p@h'' then Some (url_parts.make (js ''u'') (js ''p'') (js ''pg:'') (js ''h'') [] [] [])
      else if s = js ''pg://u:q@h'' then Some (url_parts.make (js ''u'') (js ''q'') (js ''pg:'') (js ''h'') [] [] [])
      else None)"


end
