(* ===== verification/Worker_Dlq.thy ===== *)
theory Worker_Dlq
  imports Worker_SplitRetry Contracts_Redact
begin

text \<open>
  The dead-letter service (\<open>apps/worker/src/consumer/dlq.service.ts\<close>): the entry written
  for a payload that cannot be processed, redacted, and the throttled sweep of old entries
  after it.

  The queue (BullMQ on Redis) is a parameter: its \<open>add\<close> and its \<open>clean\<close> may be rejected. The
  service keeps one field, the time of its last sweep, which the state holds and
  \<open>dd_set_last_clean\<close> updates. \<open>dd_now\<close> is \<open>Date.now()\<close>.
\<close>

section \<open>Entries\<close>

definition EVENTS_DLQ_JOB_NAME :: jsstr where
  "EVENTS_DLQ_JOB_NAME = js ''dead-letter''"

datatype property_key = Key_string jsstr | Key_number nat | Key_symbol jsstr

definition property_key_text :: "property_key \<Rightarrow> jsstr" where
  "property_key_text k =
     (case k of Key_string s \<Rightarrow> s | Key_number n \<Rightarrow> dec n | Key_symbol d \<Rightarrow> js ''Symbol('' @ d @ js '')'')"

record zod_issue =
  zi_path :: "property_key list"
  zi_message :: jsstr
  zi_code :: jsstr

definition to_dlq_issues :: "zod_issue list \<Rightarrow> dlq_issue list" where
  "to_dlq_issues = map (\<lambda>issue.
     \<lparr> di_path = join_with (js ''.'') (map property_key_text (zi_path issue)),
       di_message = zi_message issue, di_code = zi_code issue \<rparr>)"

record dlq_job_payload =
  dj_reason :: dlq_reason
  dj_raw_payload :: json
  dj_redacted_keys :: "jsstr list"
  dj_error_message :: jsstr
  dj_sqlstate :: "jsstr option"
  dj_issues :: "dlq_issue list"
  dj_attempts_made :: nat
  dj_original_job_id :: jsstr
  dj_failed_at :: jsstr

section \<open>The service\<close>

definition DLQ_RETENTION_WINDOW_MS :: int where "DLQ_RETENTION_WINDOW_MS = 7 * 24 * 60 * 60 * 1000"
definition DLQ_RETENTION_CLEAN_LIMIT :: int where "DLQ_RETENTION_CLEAN_LIMIT = 1000"
definition DLQ_CLEAN_THROTTLE_MS :: int where "DLQ_CLEAN_THROTTLE_MS = 60 * 60 * 1000"

record retention_options =
  rt_window_ms :: "int option"
  rt_clean_limit :: "int option"
  rt_throttle_ms :: "int option"

record 's dlq_deps =
  dd_add :: "jsstr \<Rightarrow> dlq_job_payload \<Rightarrow> ('s, unit) io"
  dd_clean :: "int \<Rightarrow> int \<Rightarrow> jsstr \<Rightarrow> ('s, unit) io"
  dd_count :: "jsstr list \<Rightarrow> ('s, nat) io"
  dd_log :: "jsstr \<Rightarrow> log_meta \<Rightarrow> 's \<Rightarrow> 's"
  dd_now :: "'s \<Rightarrow> int"
  dd_last_clean :: "'s \<Rightarrow> int"
  dd_set_last_clean :: "int \<Rightarrow> 's \<Rightarrow> 's"
  dd_parse_url :: "jsstr \<Rightarrow> url_parts option"
  dd_window_ms :: int
  dd_clean_limit :: int
  dd_throttle_ms :: int

text \<open>The constructor resolves the options against the defaults.\<close>

definition with_retention :: "retention_options option \<Rightarrow> 's dlq_deps \<Rightarrow> 's dlq_deps" where
  "with_retention options deps =
     (let field = (\<lambda>f d. case Option.bind options f of None \<Rightarrow> d | Some v \<Rightarrow> v) in
      deps\<lparr> dd_window_ms := field rt_window_ms DLQ_RETENTION_WINDOW_MS,
        dd_clean_limit := field rt_clean_limit DLQ_RETENTION_CLEAN_LIMIT,
        dd_throttle_ms := field rt_throttle_ms DLQ_CLEAN_THROTTLE_MS \<rparr>)"

definition log_clean_failure :: "'s dlq_deps \<Rightarrow> thrown \<Rightarrow> 's \<Rightarrow> 's" where
  "log_clean_failure deps clean_error =
     dd_log deps
       (js ''DlqService retention clean() failed; DLQ entries older than '' @ dec_int (dd_window_ms deps) @
        js ''ms may persist past their intended retention window until the next successful sweep: '' @
        redact_credentials_from_message (dd_parse_url deps) (error_message clean_error))
       [(js ''retentionWindowMs'', JInt (dd_window_ms deps)),
        (js ''retentionCleanLimit'', JInt (dd_clean_limit deps))]"

definition clean_aged_entries_throttled :: "'s dlq_deps \<Rightarrow> ('s, unit) io" where
  "clean_aged_entries_throttled deps s =
     (let now = dd_now deps s in
      if now - dd_last_clean deps s < dd_throttle_ms deps then (Inr (), s)
      else
        io_catch (dd_clean deps (dd_window_ms deps) (dd_clean_limit deps) (js ''wait''))
          (\<lambda>clean_error. io_do (log_clean_failure deps clean_error))
          (dd_set_last_clean deps now s))"

definition dlq_entry :: "'s dlq_deps \<Rightarrow> dlq_reason \<Rightarrow> json \<Rightarrow> thrown \<Rightarrow> dlq_send_meta \<Rightarrow> 's \<Rightarrow> dlq_job_payload" where
  "dlq_entry deps reason payload error meta s =
     (let (redacted_payload, redacted_keys) = redact_payload payload in
      \<lparr> dj_reason = reason, dj_raw_payload = redacted_payload, dj_redacted_keys = redacted_keys,
        dj_error_message = redact_credentials_from_message (dd_parse_url deps) (error_message error),
        dj_sqlstate = extract_sql_state error,
        dj_issues = (case dm_issues meta of None \<Rightarrow> [] | Some issues \<Rightarrow> issues),
        dj_attempts_made = dm_attempts_made meta, dj_original_job_id = dm_original_job_id meta,
        dj_failed_at = iso_string (dd_now deps s) \<rparr>)"

definition dlq_send :: "'s dlq_deps \<Rightarrow> 's dlq_sink" where
  "dlq_send deps reason payload error meta s =
     io_then (dd_add deps EVENTS_DLQ_JOB_NAME (dlq_entry deps reason payload error meta s))
       (clean_aged_entries_throttled deps) s"

definition dlq_depth :: "'s dlq_deps \<Rightarrow> ('s, nat) io" where
  "dlq_depth deps = dd_count deps [js ''waiting'', js ''active'', js ''delayed'', js ''paused'']"

section \<open>Facts\<close>

lemma clean_never_rejects: "fst (clean_aged_entries_throttled deps s) = Inr ()"
  by (simp add: clean_aged_entries_throttled_def Let_def io_catch_app split: sum.split)

lemma dlq_send_app:
  "dlq_send deps reason payload error meta s =
     (case dd_add deps EVENTS_DLQ_JOB_NAME (dlq_entry deps reason payload error meta s) s of
        (Inl e, s') \<Rightarrow> (Inl e, s')
      | (Inr _, s') \<Rightarrow> (Inr (), snd (clean_aged_entries_throttled deps s')))"
  using clean_never_rejects [of deps]
  by (auto simp: dlq_send_def io_then_app split: sum.split prod.split)
     (metis prod.collapse old.unit.exhaust)

lemma dlq_entry_clean: "clean (dj_raw_payload (dlq_entry deps reason payload error meta s))"
  by (simp add: dlq_entry_def redact_payload_def case_prod_unfold redact_tree_clean Let_def)

section \<open>Properties\<close>

text \<open>
  A send resolves exactly when the queue accepts the entry: a refusal is passed on with
  no sweep attempted, and a sweep that fails is swallowed, so it can never make an accepted
  entry look lost.
\<close>

theorem dlq_send_resolves_iff_accepted:
  "case dd_add deps EVENTS_DLQ_JOB_NAME (dlq_entry deps reason payload error meta s) s of
     (Inl e, s') \<Rightarrow> dlq_send deps reason payload error meta s = (Inl e, s')
   | (Inr _, s') \<Rightarrow> fst (dlq_send deps reason payload error meta s) = Inr ()"
  by (simp add: dlq_send_app split: prod.split sum.split)

text \<open>
  No value under a forbidden key (an address, a cookie) has any influence on what the
  dead-letter service does: two payloads that differ only there lead to the same entry, the
  same calls and the same state.
\<close>

theorem dlq_send_hides_forbidden_values:
  "agree v w \<Longrightarrow> dlq_send deps reason v error meta s = dlq_send deps reason w error meta s"
  using redact_agree [of v w "[]" 0] by (simp add: dlq_send_def dlq_entry_def redact_payload_def)

definition counting_queue :: "nat dlq_deps" where
  "counting_queue = with_retention None
     \<lparr> dd_add = (\<lambda>name entry n. (Inr (), Suc n)), dd_clean = (\<lambda>window limit kind n. (Inr (), n)),
       dd_count = (\<lambda>kinds n. (Inr n, n)), dd_log = (\<lambda>message meta n. n), dd_now = (\<lambda>n. 0),
       dd_last_clean = (\<lambda>n. 0), dd_set_last_clean = (\<lambda>t n. n), dd_parse_url = (\<lambda>_. None),
       dd_window_ms = 0, dd_clean_limit = 0, dd_throttle_ms = 0 \<rparr>"

theorem dlq_send_hides_forbidden_values_witness:
  "dlq_send counting_queue Schema_validation_failed
     (JObj [(js ''IP'', JStr (js ''10.0.0.1'')), (js ''q'', JInt 1)]) (new_error []) (dlq_send_meta.make [] 1 None) 0 =
   dlq_send counting_queue Schema_validation_failed
     (JObj [(js ''IP'', JStr (js ''8.8.8.8'')), (js ''q'', JInt 1)]) (new_error []) (dlq_send_meta.make [] 1 None) 0"
  by (rule dlq_send_hides_forbidden_values [OF agree_example])

end
