(* ===== verification/Worker_Pipeline.thy ===== *)
theory Worker_Pipeline
  imports Worker_Flush Worker_Dlq "HOL-Library.Sublist"
begin

text \<open>
  The worker's write path put together: the production flush (\<open>app.module.ts\<close>), the R2 event
  log, the \<open>events\<close> table and the dead-letter service, over one world that holds the
  services. The services answer by a script: each call may be served, refused, or served with
  its reply lost, and takes some time; Postgres also rejects a statement with a bad row.
  Nothing is assumed of the script, so the theorems hold for every pattern of failures.

  The theorems: no event of a flush that resolves is lost, every row was logged to R2 before
  it was inserted, rows are only added and never twice for a key, and the sweeps of the
  dead-letter queue keep their distance.
\<close>

section \<open>The world\<close>

datatype reply = Served | Refused thrown | Reply_lost thrown

record world =
  w_links :: "link_row list"
  w_objects :: "(jsstr, jsstr) js_map"
  w_puts :: "(jsstr \<times> jsstr) list"
  w_rows :: "new_event list"
  w_dlq :: "dlq_job_payload list"
  w_last_clean :: int
  w_sweeps :: "int list"
  w_clock :: int
  w_log :: "(jsstr \<times> log_meta) list"
  w_calls :: nat

text \<open>
  \<open>w_puts\<close> is the history of the PUTs, also of objects that were overwritten later; \<open>w_dlq\<close> is
  the history of the entries the queue has accepted; \<open>w_sweeps\<close> the times of the sweeps.
\<close>

record world_params =
  wp_script :: "nat \<Rightarrow> reply \<times> int"
  wp_rejects :: "new_event \<Rightarrow> thrown option"
  wp_enrich :: enrichment_deps
  wp_date :: "jsstr \<Rightarrow> int option"
  wp_parse_url :: "jsstr \<Rightarrow> url_parts option"
  wp_bucket :: jsstr

definition tick :: "world_params \<Rightarrow> world \<Rightarrow> world" where
  "tick p w = w\<lparr>w_calls := Suc (w_calls w), w_clock := w_clock w + snd (wp_script p (w_calls w))\<rparr>"

definition served :: "world_params \<Rightarrow> (world \<Rightarrow> 'a outcome \<times> world) \<Rightarrow> (world, 'a) io" where
  "served p act w =
     (case fst (wp_script p (w_calls w)) of
        Served \<Rightarrow> act (tick p w)
      | Refused e \<Rightarrow> (Inl e, tick p w)
      | Reply_lost e \<Rightarrow> (Inl e, snd (act (tick p w))))"

definition put_object :: "jsstr \<Rightarrow> jsstr \<Rightarrow> (world, unit) io" where
  "put_object key body w =
     (Inr (), w\<lparr>w_objects := map_set key body (w_objects w), w_puts := w_puts w @ [(key, body)]\<rparr>)"

text \<open>One statement: it inserts all its rows or, when one is rejected, none.\<close>

definition insert_rows :: "(new_event \<Rightarrow> thrown option) \<Rightarrow> world insert_statement" where
  "insert_rows rejects rows w =
     (case List.find (\<lambda>r. rejects r \<noteq> None) rows of
        Some r \<Rightarrow> (Inl (the (rejects r)), w)
      | None \<Rightarrow> (let (table, ids) = on_conflict_do_nothing rows (w_rows w) in (Inr ids, w\<lparr>w_rows := table\<rparr>)))"

definition world_env :: "world retry_env" where
  "world_env = \<lparr> re_sleep = (\<lambda>ms w. w\<lparr>w_clock := w_clock w + int ms\<rparr>),
     re_log = (\<lambda>message meta w. w\<lparr>w_log := w_log w @ [(message, meta)]\<rparr>) \<rparr>"

definition world_dlq :: "world_params \<Rightarrow> world dlq_deps" where
  "world_dlq p = with_retention None
     \<lparr> dd_add = (\<lambda>name entry. served p (\<lambda>w. (Inr (), w\<lparr>w_dlq := w_dlq w @ [entry]\<rparr>))),
       dd_clean = (\<lambda>window limit kind. served p (\<lambda>w. (Inr (), w))),
       dd_count = (\<lambda>kinds. served p (\<lambda>w. (Inr (length (w_dlq w)), w))),
       dd_log = re_log world_env,
       dd_now = w_clock,
       dd_last_clean = w_last_clean,
       dd_set_last_clean = (\<lambda>t w. w\<lparr>w_last_clean := t, w_sweeps := w_sweeps w @ [t]\<rparr>),
       dd_parse_url = wp_parse_url p,
       dd_window_ms = 0, dd_clean_limit = 0, dd_throttle_ms = 0 \<rparr>"

definition world_deps :: "world_params \<Rightarrow> world flush_deps" where
  "world_deps p =
     \<lparr> fd_env = world_env,
       fd_read_links = served p (\<lambda>w. (Inr (w_links w), w)),
       fd_r2_send = (\<lambda>bucket key body. served p (put_object key body)),
       fd_r2_bucket = wp_bucket p,
       fd_dlq = dlq_send (world_dlq p),
       fd_insert = (\<lambda>rows. served p (insert_rows (wp_rejects p) rows)),
       fd_retry = DEFAULT_R2_RETRY,
       fd_enrich = wp_enrich p,
       fd_date = wp_date p \<rparr>"

section \<open>Calls\<close>

text \<open>Whatever the script says, a call ends in the state before it or in the state its action leads to.\<close>

lemma served_cases:
  obtains (served) "served p act w = act (tick p w)"
  | (refused) e where "served p act w = (Inl e, tick p w)"
  | (lost) e where "served p act w = (Inl e, snd (act (tick p w)))"
  by (cases "fst (wp_script p (w_calls w))") (auto simp: served_def)

lemma served_inv:
  "P (tick p w) \<Longrightarrow> P (snd (act (tick p w))) \<Longrightarrow> P (snd (served p act w))"
  by (cases rule: served_cases [of p act w]) auto

lemma tick_simps [simp]:
  "w_links (tick p w) = w_links w" "w_objects (tick p w) = w_objects w" "w_puts (tick p w) = w_puts w"
  "w_rows (tick p w) = w_rows w" "w_dlq (tick p w) = w_dlq w" "w_last_clean (tick p w) = w_last_clean w"
  "w_sweeps (tick p w) = w_sweeps w" "w_log (tick p w) = w_log w"
  by (simp_all add: tick_def)

lemma put_object_simps [simp]:
  "w_links (snd (put_object k b w)) = w_links w" "w_rows (snd (put_object k b w)) = w_rows w"
  "w_puts (snd (put_object k b w)) = w_puts w @ [(k, b)]" "w_dlq (snd (put_object k b w)) = w_dlq w"
  "w_last_clean (snd (put_object k b w)) = w_last_clean w" "w_sweeps (snd (put_object k b w)) = w_sweeps w"
  by (simp_all add: put_object_def)

lemma insert_rows_simps [simp]:
  "w_puts (snd (insert_rows rejects rows w)) = w_puts w"
  "w_dlq (snd (insert_rows rejects rows w)) = w_dlq w"
  "w_last_clean (snd (insert_rows rejects rows w)) = w_last_clean w"
  "w_sweeps (snd (insert_rows rejects rows w)) = w_sweeps w"
  by (simp_all add: insert_rows_def case_prod_unfold Let_def split: option.split)

text \<open>What an insertion does to the table.\<close>

lemma insert_rows_table:
  "\<exists>new. w_rows (snd (insert_rows rejects rows w)) = w_rows w @ new \<and> set new \<subseteq> set rows \<and>
     (distinct (map event_key (w_rows w)) \<longrightarrow> distinct (map event_key (w_rows w @ new)))"
proof (cases "List.find (\<lambda>r. rejects r \<noteq> None) rows")
  case None
  obtain t ids where ins: "on_conflict_do_nothing rows (w_rows w) = (t, ids)" by fastforce
  then show ?thesis using on_conflict_spec [OF ins] None by (auto simp: insert_rows_def)
next
  case (Some r)
  then show ?thesis by (simp add: insert_rows_def)
qed

lemma insert_rows_ok:
  assumes "insert_rows rejects rows w = (Inr ids, w')"
  shows "event_key ` set (w_rows w') = event_key ` set (w_rows w) \<union> event_key ` set rows"
proof -
  obtain t ids' where ins: "on_conflict_do_nothing rows (w_rows w) = (t, ids')" by fastforce
  then show ?thesis
    using assms on_conflict_spec [OF ins]
    by (auto simp: insert_rows_def split: option.splits)
qed

lemma world_simps [simp]:
  "fd_env (world_deps p) = world_env" "fd_retry (world_deps p) = DEFAULT_R2_RETRY"
  "fd_dlq (world_deps p) = dlq_send (world_dlq p)" "fd_date (world_deps p) = wp_date p"
  "fd_enrich (world_deps p) = wp_enrich p" "fd_r2_bucket (world_deps p) = wp_bucket p"
  "fd_read_links (world_deps p) = served p (\<lambda>w. (Inr (w_links w), w))"
  "fd_r2_send (world_deps p) bucket key body = served p (put_object key body)"
  "fd_insert (world_deps p) rows = served p (insert_rows (wp_rejects p) rows)"
  by (simp_all add: world_deps_def)

lemma world_env_simps [simp]:
  "re_sleep world_env ms w = w\<lparr>w_clock := w_clock w + int ms\<rparr>"
  "re_log world_env message meta w = w\<lparr>w_log := w_log w @ [(message, meta)]\<rparr>"
  by (simp_all add: world_env_def)

lemma world_dlq_simps [simp]:
  "dd_add (world_dlq p) name entry = served p (\<lambda>w. (Inr (), w\<lparr>w_dlq := w_dlq w @ [entry]\<rparr>))"
  "dd_clean (world_dlq p) window limit kind = served p (\<lambda>w. (Inr (), w))"
  "dd_log (world_dlq p) = re_log world_env" "dd_now (world_dlq p) = w_clock"
  "dd_last_clean (world_dlq p) = w_last_clean"
  "dd_set_last_clean (world_dlq p) t w = w\<lparr>w_last_clean := t, w_sweeps := w_sweeps w @ [t]\<rparr>"
  "dd_throttle_ms (world_dlq p) = DLQ_CLEAN_THROTTLE_MS"
  "dd_window_ms (world_dlq p) = DLQ_RETENTION_WINDOW_MS"
  "dd_clean_limit (world_dlq p) = DLQ_RETENTION_CLEAN_LIMIT"
  by (simp_all add: world_dlq_def with_retention_def Let_def)

section \<open>An event that is stored\<close>

definition in_rows :: "world_params \<Rightarrow> world \<Rightarrow> capture_event \<Rightarrow> bool" where
  "in_rows p w e \<longleftrightarrow> (ev_event_id e, wp_date p (ev_occurred_at e)) \<in> event_key ` set (w_rows w)"

text \<open>A dead-letter entry holds one event or a whole batch.\<close>

definition entry_events :: "dlq_job_payload \<Rightarrow> json list" where
  "entry_events d = (case dj_raw_payload d of JArr vs \<Rightarrow> vs | v \<Rightarrow> [v])"

definition in_dlq :: "world \<Rightarrow> capture_event \<Rightarrow> bool" where
  "in_dlq w e \<longleftrightarrow> (\<exists>d \<in> set (w_dlq w). JObj (capture_members e) \<in> set (entry_events d))"

definition world_stored :: "world_params \<Rightarrow> world \<Rightarrow> capture_event \<Rightarrow> bool" where
  "world_stored p w e \<longleftrightarrow> in_rows p w e \<or> in_dlq w e"

lemma capture_harmless: "harmless (JObj (capture_members e)) d \<longleftrightarrow> d < MAX_REDACTION_DEPTH"
proof -
  have "\<not> is_forbidden_key k" if "k \<in> set CAPTURE_KEYS" for k
    using that by (auto simp: CAPTURE_KEYS_def is_forbidden_key_def FORBIDDEN_PAYLOAD_KEYS_def str_eval)
  moreover have "harmless (json_nullable v) n" "harmless (json_number x) n" for v x n
    by (simp_all add: json_nullable_def json_number_def split: option.split js_number.split)
  ultimately show ?thesis
    by (simp add: capture_members_def CAPTURE_KEYS_def)
qed

lemma redact_captures:
  "redact_payload (JObj (capture_members e)) = (JObj (capture_members e), [])"
  "redact_payload (events_json es) = (events_json es, [])"
  unfolding redact_payload_def events_json_def
  by (rule redact_tree_harmless; simp add: capture_harmless MAX_REDACTION_DEPTH_def del: harmless.simps(2))+

text \<open>The dead-letter call of the world.\<close>

lemma clean_world [simp]:
  "w_rows (snd (clean_aged_entries_throttled (world_dlq p) w)) = w_rows w"
  "w_puts (snd (clean_aged_entries_throttled (world_dlq p) w)) = w_puts w"
  "w_dlq (snd (clean_aged_entries_throttled (world_dlq p) w)) = w_dlq w"
  "w_links (snd (clean_aged_entries_throttled (world_dlq p) w)) = w_links w"
  by (cases rule: served_cases [of p "\<lambda>w. (Inr (), w)"
        "w\<lparr>w_last_clean := w_clock w, w_sweeps := w_sweeps w @ [w_clock w]\<rparr>"];
      simp add: clean_aged_entries_throttled_def Let_def io_catch_app log_clean_failure_def)+

lemma dlq_send_world:
  "w_rows (snd (dlq_send (world_dlq p) reason payload error meta w)) = w_rows w"
  "w_puts (snd (dlq_send (world_dlq p) reason payload error meta w)) = w_puts w"
  "w_links (snd (dlq_send (world_dlq p) reason payload error meta w)) = w_links w"
  "set (w_dlq w) \<subseteq> set (w_dlq (snd (dlq_send (world_dlq p) reason payload error meta w)))"
  by (cases rule: served_cases [of p "\<lambda>w'. (Inr (), w'\<lparr>w_dlq := w_dlq w' @
        [dlq_entry (world_dlq p) reason payload error meta w]\<rparr>)" w],
      auto simp: dlq_send_app)+

lemma dlq_send_ok:
  assumes "dlq_send (world_dlq p) reason payload error meta w = (Inr (), w')"
  shows "\<exists>d \<in> set (w_dlq w'). dj_raw_payload d = fst (redact_payload payload) \<and> dj_reason d = reason"
proof -
  let ?d = "dlq_entry (world_dlq p) reason payload error meta w"
  have "?d \<in> set (w_dlq w')"
    using assms
    by (cases rule: served_cases [of p "\<lambda>w'. (Inr (), w'\<lparr>w_dlq := w_dlq w' @ [?d]\<rparr>)" w])
       (auto simp: dlq_send_app)
  moreover have "dj_raw_payload ?d = fst (redact_payload payload)" "dj_reason ?d = reason"
    by (simp_all add: dlq_entry_def case_prod_unfold Let_def)
  ultimately show ?thesis by blast
qed

section \<open>The contracts of the flush, on the world\<close>

lemma stored_mono:
  "event_key ` set (w_rows w) \<subseteq> event_key ` set (w_rows w') \<Longrightarrow> set (w_dlq w) \<subseteq> set (w_dlq w') \<Longrightarrow>
   world_stored p w e \<Longrightarrow> world_stored p w' e"
  unfolding world_stored_def in_rows_def in_dlq_def by blast

lemma insert_rows_keys:
  "event_key ` set (w_rows w) \<subseteq> event_key ` set (w_rows (snd (insert_rows rejects rows w)))"
  using insert_rows_table [of rejects rows w] by auto

lemma served_stored:
  "event_key ` set (w_rows w) \<subseteq> event_key ` set (w_rows (snd (act (tick p w)))) \<Longrightarrow>
   set (w_dlq w) \<subseteq> set (w_dlq (snd (act (tick p w)))) \<Longrightarrow>
   world_stored p w e \<Longrightarrow> world_stored p (snd (served p act w)) e"
  by (rule served_inv) (auto elim!: stored_mono [rotated 2])

interpretation stored_services: flush_services "world_deps p" "\<lambda>w. world_stored p w e" for p e
proof (unfold_locales, goal_cases)
  case (3 w reason payload error meta)
  then show ?case by (rule stored_mono [rotated 2]) (simp_all add: dlq_send_world)
next
  case (6 w rows)
  then show ?case using insert_rows_keys [of "tick p w"] by (simp add: served_stored)
qed (auto elim!: stored_mono [rotated 2] served_stored [rotated 2])

text \<open>A flush that resolves has stored its batch.\<close>

lemma events_in_entry: "e \<in> set es \<Longrightarrow> dj_raw_payload d = events_json es \<Longrightarrow> JObj (capture_members e) \<in> set (entry_events d)"
  by (simp add: entry_events_def events_json_def)

lemma batch_rows_key:
  "e \<in> set es \<Longrightarrow> (ev_event_id e, fd_date deps (ev_occurred_at e)) \<in> event_key ` set (batch_rows deps links es)"
  by (force simp: batch_rows_def logged_batch_nth event_key_def to_new_event_row_def)

lemma flush_batch_outcome:
  assumes "flush_batch (world_deps p) es batch_id w = (Inr (), w')" and "es \<noteq> []"
  obtains (inserted) links w1 ids where "served p (insert_rows (wp_rejects p) (batch_rows (world_deps p) links es)) w1 = (Inr ids, w')"
  | (dead) error k w1 where "dlq_send (world_dlq p) R2_put_failed (events_json es) error
      \<lparr> dm_original_job_id = batch_id, dm_attempts_made = k, dm_issues = None \<rparr> w1 = (Inr (), w')"
proof -
  obtain r s1 where read: "fd_read_links (world_deps p) w = (r, s1)" by fastforce
  show ?thesis
  proof (cases r)
    case (Inl e)
    then show ?thesis using assms flush_batch_read_error [OF assms(2), of "world_deps p" w e s1 batch_id] read by simp
  next
    case (Inr links)
    then have read: "fd_read_links (world_deps p) w = (Inr links, s1)" using read by simp
    obtain q s2 where q: "retry_r2_put world_env (batch_put (world_deps p) links es batch_id) DEFAULT_R2_RETRY
        (batch_logged (world_deps p) links es s1) = (q, s2)" by fastforce
    have rows: "batch_rows (world_deps p) links es \<noteq> []"
      using assms(2) length_batch_rows by (metis length_0_conv)
    note app = assms(1) [unfolded flush_batch_app [OF assms(2) read] put_r2_batch_with_retry_def io_bind_app io_then_app]
    show ?thesis
    proof (cases q)
      case (Inr outcome)
      show ?thesis
      proof (cases outcome)
        case (Put_succeeded k)
        then obtain ids where "fst (served p (insert_rows (wp_rejects p) (batch_rows (world_deps p) links es)) s2) = Inr ids"
          using app q Inr rows by (auto simp: insert_events_batch_def io_apps split: sum.splits)
        then show ?thesis
          using app q Inr rows Put_succeeded
          by (intro inserted [of links s2 ids]) (auto simp: insert_events_batch_def io_apps intro: prod_eqI split: sum.splits)
      next
        case (Put_failed error k)
        then show ?thesis
          using app q Inr
          by (intro dead [of error k s2]) (auto simp: send_r2_put_failure_to_dlq_def io_apps intro: prod_eqI split: sum.splits)
      qed
    qed (use app q in simp)
  qed
qed

lemma served_Inr: "served p act w = (Inr a, w') \<Longrightarrow> act (tick p w) = (Inr a, w')"
  by (cases rule: served_cases [of p act w]) auto

lemma flush_stores_batch:
  assumes flush: "flush_batch (world_deps p) es batch_id w = (Inr (), w')" and e: "e \<in> set es"
  shows "world_stored p w' e"
proof -
  have "es \<noteq> []" using e by auto
  with flush show ?thesis
  proof (cases rule: flush_batch_outcome)
    case (inserted links w1 ids)
    from insert_rows_ok [OF served_Inr [OF inserted]] batch_rows_key [OF e, of "world_deps p" links]
    show ?thesis by (simp add: world_stored_def in_rows_def)
  next
    case (dead error k w1)
    from dlq_send_ok [OF dead] events_in_entry [OF e]
    show ?thesis by (auto simp: world_stored_def in_dlq_def redact_captures)
  qed
qed

interpretation world_flush: durable_flush "flush_batch (world_deps p)" world_env "world_stored p" for p
  by unfold_locales
     (use stored_services.flush_batch_inv stored_services.sleep_inv stored_services.log_inv
      in \<open>auto intro: flush_stores_batch\<close>)

text \<open>The poison events that the dead-letter queue accepts are stored there.\<close>

lemma poison_stored:
  "send_poison_events_to_dlq ps (dlq_send (world_dlq p)) batch_id attempts w = (Inr (), w') \<Longrightarrow>
   fst ` set ps \<subseteq> {e. world_stored p w' e}"
proof (induction ps arbitrary: w)
  case (Cons q ps)
  obtain e error where q: "q = (e, error)" by fastforce
  obtain r w1 where send: "dlq_send (world_dlq p) Flush_poison (JObj (capture_members e)) error
      \<lparr> dm_original_job_id = batch_id, dm_attempts_made = attempts, dm_issues = None \<rparr> w = (r, w1)" by fastforce
  then have rest: "r = Inr ()" "send_poison_events_to_dlq ps (dlq_send (world_dlq p)) batch_id attempts w1 = (Inr (), w')"
    using Cons.prems by (cases r; simp add: q io_then_app)+
  have "world_stored p w1 e"
    using dlq_send_ok [of p Flush_poison _ _ _ w w1] send rest(1)
    by (fastforce simp: world_stored_def in_dlq_def entry_events_def redact_captures)
  then have "world_stored p w' e"
    using stored_services.poison_inv [where p = p and e = e and s = w1] rest(2) by (metis snd_conv world_simps(3))
  then show ?case using Cons.IH [OF rest(2)] q by simp
qed simp

section \<open>Logged before inserted\<close>

text \<open>A row that a PUT has logged: it is the row of an event of an object that was PUT.\<close>

definition logged_rows :: "world_params \<Rightarrow> world \<Rightarrow> new_event set" where
  "logged_rows p w =
     {r. \<exists>(key, body) \<in> set (w_puts w). \<exists>es. body = serialize_batch es \<and> r \<in> to_new_event_row (wp_date p) ` set es}"

definition logged_first :: "world_params \<Rightarrow> new_event set \<Rightarrow> world \<Rightarrow> bool" where
  "logged_first p old w \<longleftrightarrow> set (w_rows w) \<subseteq> old \<union> logged_rows p w"

lemma logged_rows_mono: "set (w_puts w) \<subseteq> set (w_puts w') \<Longrightarrow> logged_rows p w \<subseteq> logged_rows p w'"
  unfolding logged_rows_def by blast

lemma logged_first_step:
  "w_rows w' = w_rows w \<Longrightarrow> set (w_puts w) \<subseteq> set (w_puts w') \<Longrightarrow> logged_first p old w \<Longrightarrow> logged_first p old w'"
  unfolding logged_first_def using logged_rows_mono [of w w' p] by auto

lemma served_logged_first:
  "w_rows (snd (act (tick p w))) = w_rows w \<Longrightarrow> set (w_puts w) \<subseteq> set (w_puts (snd (act (tick p w)))) \<Longrightarrow>
   logged_first p old w \<Longrightarrow> logged_first p old (snd (served p act w))"
  by (rule served_inv) (auto elim!: logged_first_step [rotated 2])

interpretation logged_services: put_services "world_deps p" "logged_first p old" for p old
proof (unfold_locales, goal_cases)
  case (1 w)
  then show ?case by (simp add: served_logged_first)
next
  case (2 w bucket key body)
  then show ?case by (simp add: served_logged_first subset_insertI)
next
  case (3 w reason payload error meta)
  then show ?case by (rule logged_first_step [rotated 2]) (simp_all add: dlq_send_world)
qed (auto elim!: logged_first_step [rotated 2])

text \<open>The last attempt of a PUT that succeeded has sent the object.\<close>

lemma put_loop_succeeded:
  "retry_put_loop env put limit delay n attempt e0 s = (Put_succeeded k, s') \<Longrightarrow> \<exists>s1. put s1 = (Inr (), s')"
proof (induction n arbitrary: attempt e0 s)
  case (Suc n)
  obtain r s1 where "put s = (r, s1)" by fastforce
  then show ?case using Suc by (cases r) (auto split: if_splits)
qed simp

lemma retry_put_succeeded:
  "retry_r2_put env put options s = (Inr (Put_succeeded k), s') \<Longrightarrow> \<exists>s1. put s1 = (Inr (), s')"
  using put_loop_succeeded by (auto simp: retry_r2_put_def Let_def split: sum.splits prod.splits)

lemma put_logs_rows:
  assumes "retry_r2_put env (batch_put (world_deps p) links es batch_id) options s = (Inr (Put_succeeded k), s')"
  shows "set (batch_rows (world_deps p) links es) \<subseteq> logged_rows p s'"
proof -
  obtain s1 where "batch_put (world_deps p) links es batch_id s1 = (Inr (), s')"
    using retry_put_succeeded [OF assms] by blast
  then obtain key where "served p (put_object key (serialize_batch
      (logged_batch (wp_enrich p) (resolve_batch links es)))) s1 = (Inr (), s')"
    by (auto simp: batch_put_def put_event_batch_def split: sum.splits)
  from served_Inr [OF this]
  have "(key, serialize_batch (logged_batch (wp_enrich p) (resolve_batch links es))) \<in> set (w_puts s')"
    by (auto simp: put_object_def)
  then show ?thesis by (auto simp: logged_rows_def batch_rows_def)
qed

lemma logged_first_flush: "logged_first p old w \<Longrightarrow> logged_first p old (snd (flush_batch (world_deps p) es batch_id w))"
proof (cases "es = []")
  case False
  assume inv: "logged_first p old w"
  obtain r s1 where read: "fd_read_links (world_deps p) w = (r, s1)" by fastforce
  then have s1: "logged_first p old s1" using logged_services.read_inv [OF inv] by simp
  show ?thesis
  proof (cases r)
    case (Inl e)
    then show ?thesis using False read s1 by (simp add: flush_batch_read_error)
  next
    case (Inr links)
    then have read: "fd_read_links (world_deps p) w = (Inr links, s1)" using read by simp
    let ?put = "batch_put (world_deps p) links es batch_id"
    obtain q s2 where q: "retry_r2_put world_env ?put DEFAULT_R2_RETRY (batch_logged (world_deps p) links es s1) = (q, s2)"
      by fastforce
    have s2: "logged_first p old s2"
      using logged_services.retry_put_inv [OF logged_services.batch_logged_inv [OF s1]] q
      by (metis snd_conv world_simps(1))
    have dlq: "logged_first p old (snd (dlq_send (world_dlq p) reason payload error meta s2))" for reason payload error meta
      using logged_services.dlq_inv [OF s2] by simp
    have ins: "logged_first p old (snd (served p (insert_rows (wp_rejects p) (batch_rows (world_deps p) links es)) s2))"
      if "q = Inr (Put_succeeded k)" for k
    proof (rule served_inv)
      show "logged_first p old (tick p s2)" using s2 by (rule logged_first_step [rotated 2]) simp_all
      then show "logged_first p old (snd (insert_rows (wp_rejects p) (batch_rows (world_deps p) links es) (tick p s2)))"
        using insert_rows_table [of "wp_rejects p" "batch_rows (world_deps p) links es" "tick p s2"]
          put_logs_rows [OF q [unfolded that]]
        by (fastforce simp: logged_first_def logged_rows_def)
    qed
    show ?thesis
      unfolding flush_batch_app [OF False read] put_r2_batch_with_retry_def io_bind_app io_then_app
      using q s2 dlq ins
      by (auto simp: insert_events_batch_def io_apps send_r2_put_failure_to_dlq_def
          split: sum.split r2_put_outcome.split prod.split)
  qed
qed simp

interpretation logged_flush: flush_invariant "flush_batch (world_deps p)" world_env "logged_first p old" for p old
  by unfold_locales
     (use logged_services.sleep_inv logged_services.log_inv in \<open>auto intro: logged_first_flush\<close>)

section \<open>The table and the sweeps\<close>

text \<open>Rows are only appended, and a table without duplicate keys gets none.\<close>

definition appended :: "new_event list \<Rightarrow> world \<Rightarrow> bool" where
  "appended old w \<longleftrightarrow> prefix old (w_rows w) \<and>
     (distinct (map event_key old) \<longrightarrow> distinct (map event_key (w_rows w)))"

lemma appended_step: "w_rows w' = w_rows w \<Longrightarrow> appended old w \<Longrightarrow> appended old w'"
  by (simp add: appended_def)

lemma appended_insert: "appended old w \<Longrightarrow> appended old (snd (insert_rows rejects rows w))"
  using insert_rows_table [of rejects rows w] by (auto simp: appended_def intro: prefix_prefix)

lemma served_appended:
  "appended old (snd (act (tick p w))) \<Longrightarrow> appended old w \<Longrightarrow> appended old (snd (served p act w))"
  by (rule served_inv) (auto elim: appended_step [rotated])

lemma appended_tick [simp]: "appended old (tick p w) = appended old w"
  by (simp add: appended_def)

lemma appended_put [simp]: "appended old (snd (put_object k b w)) = appended old w"
  by (simp add: appended_def)

interpretation table_services: flush_services "world_deps p" "appended old" for p old
proof (unfold_locales, goal_cases)
  case (1 w)
  then show ?case by (simp add: served_appended)
next
  case (2 w bucket key body)
  then show ?case by (simp add: served_appended)
next
  case (3 w reason payload error meta)
  then show ?case by (rule appended_step [rotated]) (simp add: dlq_send_world)
next
  case (6 w rows)
  then show ?case by (simp add: served_appended appended_insert)
qed (simp_all add: appended_def)

text \<open>Two sweeps are at least the throttle interval apart.\<close>

definition sweeps_spaced :: "world \<Rightarrow> bool" where
  "sweeps_spaced w \<longleftrightarrow> sorted_wrt (\<lambda>a b. DLQ_CLEAN_THROTTLE_MS \<le> b - a) (w_sweeps w) \<and>
     (\<forall>t \<in> set (w_sweeps w). t \<le> w_last_clean w)"

lemma sweeps_step: "w_sweeps w' = w_sweeps w \<Longrightarrow> w_last_clean w' = w_last_clean w \<Longrightarrow> sweeps_spaced w \<Longrightarrow> sweeps_spaced w'"
  by (simp add: sweeps_spaced_def)

lemma served_sweeps:
  "w_sweeps (snd (act (tick p w))) = w_sweeps w \<Longrightarrow> w_last_clean (snd (act (tick p w))) = w_last_clean w \<Longrightarrow>
   sweeps_spaced w \<Longrightarrow> sweeps_spaced (snd (served p act w))"
  by (rule served_inv) (auto elim!: sweeps_step [rotated 2])

lemma clean_spaced: "sweeps_spaced w \<Longrightarrow> sweeps_spaced (snd (clean_aged_entries_throttled (world_dlq p) w))"
proof -
  assume spaced: "sweeps_spaced w"
  let ?w = "w\<lparr>w_last_clean := w_clock w, w_sweeps := w_sweeps w @ [w_clock w]\<rparr>"
  show ?thesis
  proof (cases "w_clock w - w_last_clean w < DLQ_CLEAN_THROTTLE_MS")
    case False
    then have "sweeps_spaced ?w"
      using spaced by (fastforce simp: sweeps_spaced_def sorted_wrt_append DLQ_CLEAN_THROTTLE_MS_def)
    then have "sweeps_spaced (snd (served p (\<lambda>w. (Inr (), w)) ?w))" by (simp add: served_sweeps)
    then show ?thesis
      using False
      by (auto simp: clean_aged_entries_throttled_def Let_def io_catch_app log_clean_failure_def
          elim!: sweeps_step [rotated 2] split: sum.split)
  qed (simp add: clean_aged_entries_throttled_def spaced)
qed

interpretation sweep_services: flush_services "world_deps p" sweeps_spaced for p
proof (unfold_locales, goal_cases)
  case (1 w)
  then show ?case by (simp add: served_sweeps)
next
  case (2 w bucket key body)
  then show ?case by (simp add: served_sweeps)
next
  case (3 w reason payload error meta)
  have "sweeps_spaced (snd (served p (\<lambda>w'. (Inr (), w'\<lparr>w_dlq := w_dlq w' @
      [dlq_entry (world_dlq p) reason payload error meta w]\<rparr>)) w))"
    using 3 by (simp add: served_sweeps)
  then show ?case
    using clean_spaced by (auto simp: dlq_send_app split: prod.split sum.split)
next
  case (6 w rows)
  then show ?case by (simp add: served_sweeps)
qed (auto elim!: sweeps_step [rotated 2])

section \<open>When nothing fails\<close>

definition healthy :: "world_params \<Rightarrow> bool" where
  "healthy p \<longleftrightarrow> (\<forall>n. fst (wp_script p n) = Served) \<and> (\<forall>r. wp_rejects p r = None)"

lemma served_healthy: "healthy p \<Longrightarrow> served p act w = act (tick p w)"
  by (simp add: healthy_def served_def)

lemma insert_rows_healthy:
  "healthy p \<Longrightarrow> \<exists>ids w'. insert_rows (wp_rejects p) rows w = (Inr ids, w') \<and> w_objects w' = w_objects w \<and>
     w_dlq w' = w_dlq w \<and> w_rows w' = fst (on_conflict_do_nothing rows (w_rows w))"
  by (auto simp: healthy_def insert_rows_def find_None_iff [THEN iffD2] case_prod_unfold Let_def)

lemma flush_batch_healthy:
  assumes healthy: "healthy p" and ne: "es \<noteq> []"
    and key: "event_batch_key (wp_date p) batch_id (ev_occurred_at (hd es)) = Inr key"
  shows "\<exists>w'. flush_batch (world_deps p) es batch_id w = (Inr (), w') \<and>
    map_get (w_objects w') key =
      Some (serialize_batch (logged_batch (wp_enrich p) (resolve_batch (w_links w) es))) \<and>
    w_dlq w' = w_dlq w \<and> set es \<subseteq> {e. in_rows p w' e} \<and>
    w_rows w' = fst (on_conflict_do_nothing (batch_rows (world_deps p) (w_links w) es) (w_rows w))"
proof -
  let ?s1 = "tick p w"
  let ?body = "serialize_batch (logged_batch (wp_enrich p) (resolve_batch (w_links w) es))"
  let ?s = "batch_logged (world_deps p) (w_links w) es ?s1"
  have read: "fd_read_links (world_deps p) w = (Inr (w_links w), ?s1)"
    by (simp add: served_healthy [OF healthy])
  have put: "batch_put (world_deps p) (w_links w) es batch_id ?s = put_object key ?body (tick p ?s)"
    using key by (simp add: batch_put_def put_event_batch_def served_healthy [OF healthy])
  let ?s2 = "snd (put_object key ?body (tick p ?s))"
  have "retry_r2_put world_env (batch_put (world_deps p) (w_links w) es batch_id) DEFAULT_R2_RETRY ?s =
      (Inr (Put_succeeded 1), ?s2)"
    by (simp add: retry_r2_put_def DEFAULT_R2_RETRY_def validate_r2_options_def positive_integer_def
        non_negative_integer_def put numeral_eq_Suc) (simp add: put_object_def)
  then have put2: "put_r2_batch_with_retry world_env (batch_put (world_deps p) (w_links w) es batch_id)
      es batch_id (dlq_send (world_dlq p)) DEFAULT_R2_RETRY ?s = (Inr (Put_succeeded 1), ?s2)"
    by (simp add: put_r2_batch_with_retry_def)
  obtain ids w' where ins: "insert_rows (wp_rejects p) (batch_rows (world_deps p) (w_links w) es) (tick p ?s2) = (Inr ids, w')"
      "w_objects w' = w_objects ?s2" "w_dlq w' = w_dlq ?s2"
      "w_rows w' = fst (on_conflict_do_nothing (batch_rows (world_deps p) (w_links w) es) (w_rows ?s2))"
    using insert_rows_healthy [OF healthy, of _ "tick p ?s2"] by fastforce
  have "flush_batch (world_deps p) es batch_id w = (Inr (), w')"
    using ins(1) ne length_batch_rows [of "world_deps p" "w_links w" es]
    by (auto simp: flush_batch_app [OF ne read] put2 insert_events_batch_def served_healthy [OF healthy] io_apps simp del: length_batch_rows)
  moreover have "w_dlq ?s = w_dlq w" "w_rows ?s = w_rows w"
    by (simp_all add: batch_logged_def log_unresolved_destinations_def Let_def)
  moreover have "set es \<subseteq> {e. in_rows p w' e}"
    using insert_rows_ok [OF ins(1)] batch_rows_key [of _ es "world_deps p" "w_links w"]
    by (auto simp: in_rows_def)
  ultimately show ?thesis using ins by (auto simp: put_object_def)
qed

text \<open>The production flush always returns, and its state keeps what the services keep.\<close>

lemma production_returns:
  "\<exists>r w'. flush_with_split_retry_and_poison_dlq deps es batch_id w = Some (r, w')"
proof -
  obtain q s1 where "retry_with_split (fd_env deps) classify_flush_error es (flush_batch deps)
      SPLIT_RETRY_OPTIONS batch_id w = Some (q, s1)"
    by (rule exE [OF retry_with_split_returns]) (auto intro: that elim: exE)
  then show ?thesis
    by (cases q) (simp_all add: flush_with_split_retry_and_poison_dlq_def prod_eq_iff)
qed

lemma production_stores:
  assumes "flush_with_split_retry_and_poison_dlq (world_deps p) es batch_id w = Some (Inr (), w')"
  shows "set es \<subseteq> {e. world_stored p w' e}"
proof -
  obtain result s1
    where split: "retry_with_split world_env classify_flush_error es (flush_batch (world_deps p))
        SPLIT_RETRY_OPTIONS batch_id w = Some (Inr result, s1)"
      and poison: "send_poison_events_to_dlq (poison_events result) (dlq_send (world_dlq p)) batch_id 3 s1 = (Inr (), w')"
    using assms by (auto simp: flush_with_split_retry_and_poison_dlq_def split: option.splits sum.splits)
  show ?thesis
  proof (cases "es = []")
    case False
    have attempt: "attempt_batch world_env (flush_batch (world_deps p)) classify_flush_error 3 150 es batch_id w =
        Some (Inr result, s1)"
      using split False by (simp add: retry_with_split_def valid_split_options) (simp add: SPLIT_RETRY_OPTIONS_def)
    have "set (committed_events result) \<subseteq> {e. world_stored p s1 e}"
      using world_flush.committed_stored [OF attempt False] by auto
    moreover have "world_stored p w' e" if "world_stored p s1 e" for e
      using stored_services.poison_inv [OF that] poison by (metis snd_conv world_simps(3))
    ultimately have "set (committed_events result) \<subseteq> {e. world_stored p w' e}" by auto
    moreover have "fst ` set (poison_events result) \<subseteq> {e. world_stored p w' e}"
      by (rule poison_stored [OF poison])
    moreover have "set es = set (committed_events result) \<union> fst ` set (poison_events result)"
      using set_shuffles [OF attempt_batch_shuffle [OF attempt False]] by simp
    ultimately show ?thesis by blast
  qed simp
qed

section \<open>Properties\<close>


text \<open>
  C5: R2 comes before Postgres. Every row that a flush adds to the \<open>events\<close> table is the row
  of an event of an object that was PUT to R2 earlier, and rows are only appended, whatever
  fails.
\<close>

theorem rows_are_logged_to_r2_first:
  "\<exists>r w'. flush_with_split_retry_and_poison_dlq (world_deps p) es batch_id w = Some (r, w') \<and>
     prefix (w_rows w) (w_rows w') \<and> set (w_rows w') \<subseteq> set (w_rows w) \<union> logged_rows p w'"
proof -
  obtain q s1 where q: "retry_with_split world_env classify_flush_error es (flush_batch (world_deps p))
      SPLIT_RETRY_OPTIONS batch_id w = Some (q, s1)"
    by (rule exE [OF retry_with_split_returns]) (auto intro: that elim: exE)
  have first: "logged_first p (set (w_rows w)) s1"
    using logged_flush.retry_with_split_inv [OF q] by (simp add: logged_first_def)
  have "logged_first p (set (w_rows w)) (snd (send_poison_events_to_dlq ps (dlq_send (world_dlq p)) batch_id 3 s1))" for ps
    using logged_services.poison_inv [OF first] by simp
  then obtain r w' where r: "flush_with_split_retry_and_poison_dlq (world_deps p) es batch_id w = Some (r, w')"
      "logged_first p (set (w_rows w)) w'"
    using q first by (cases q) (auto simp: flush_with_split_retry_and_poison_dlq_def prod_eq_iff)
  moreover have "appended (w_rows w) w'"
    using table_services.production_inv [OF r(1), of "w_rows w"] by (simp add: appended_def)
  ultimately show ?thesis by (auto simp: logged_first_def appended_def)
qed


definition example_params :: world_params where
  "example_params = \<lparr> wp_script = (\<lambda>n. (Served, 1)), wp_rejects = (\<lambda>_. None),
     wp_enrich = \<lparr> url_hostname = (\<lambda>_. None), ua_parser = (\<lambda>_. None) \<rparr>, wp_date = (\<lambda>_. Some 0),
     wp_parse_url = (\<lambda>_. None), wp_bucket = js ''posta-events'' \<rparr>"

definition empty_world :: world where
  "empty_world = \<lparr> w_links = [], w_objects = [], w_puts = [], w_rows = [], w_dlq = [], w_last_clean = 0,
     w_sweeps = [], w_clock = 0, w_log = [], w_calls = 0 \<rparr>"


lemma production_healthy:
  assumes "healthy p" and "es \<noteq> []"
    and "event_batch_key (wp_date p) batch_id (ev_occurred_at (hd es)) = Inr key"
  shows "\<exists>w'. flush_with_split_retry_and_poison_dlq (world_deps p) es batch_id w = Some (Inr (), w') \<and>
    map_get (w_objects w') key =
      Some (serialize_batch (logged_batch (wp_enrich p) (resolve_batch (w_links w) es))) \<and>
    w_dlq w' = w_dlq w \<and> set es \<subseteq> {e. in_rows p w' e} \<and>
    w_rows w' = fst (on_conflict_do_nothing (batch_rows (world_deps p) (w_links w) es) (w_rows w))"
proof -
  obtain w' where w': "flush_batch (world_deps p) es batch_id w = (Inr (), w')"
      "map_get (w_objects w') key =
        Some (serialize_batch (logged_batch (wp_enrich p) (resolve_batch (w_links w) es)))"
      "w_dlq w' = w_dlq w" "set es \<subseteq> {e. in_rows p w' e}"
      "w_rows w' = fst (on_conflict_do_nothing (batch_rows (world_deps p) (w_links w) es) (w_rows w))"
    using flush_batch_healthy [OF assms] by blast
  have "try_flush world_env (flush_batch (world_deps p) es batch_id) 3 150 w = (None, w')"
    by (simp add: try_flush_def numeral_3_eq_3 w'(1))
  then have "retry_with_split world_env classify_flush_error es (flush_batch (world_deps p))
      SPLIT_RETRY_OPTIONS batch_id w = Some (Inr (es, []), w')"
    unfolding retry_with_split_def valid_split_options
    using assms(2)
    by (simp add: SPLIT_RETRY_OPTIONS_def
        attempt_batch.simps [of world_env "flush_batch (world_deps p)" classify_flush_error 3 150 es batch_id w])
  then show ?thesis
    using w'(2-5) by (simp add: flush_with_split_retry_and_poison_dlq_def)
qed

text \<open>
  C6: When no call fails and Postgres rejects no row, a flush of a batch whose first event
  has a readable date resolves, the object under the key of the batch is the serialised
  batch, every event has its row, and nothing goes to the dead-letter queue.
\<close>

theorem healthy_flush_commits:
  assumes "healthy p" and "es \<noteq> []"
    and "event_batch_key (wp_date p) batch_id (ev_occurred_at (hd es)) = Inr key"
  shows "\<exists>w'. flush_with_split_retry_and_poison_dlq (world_deps p) es batch_id w = Some (Inr (), w') \<and>
    map_get (w_objects w') key =
      Some (serialize_batch (logged_batch (wp_enrich p) (resolve_batch (w_links w) es))) \<and>
    w_dlq w' = w_dlq w \<and> set es \<subseteq> {e. in_rows p w' e}"
  using production_healthy [OF assms] by blast

theorem healthy_flush_commits_witness:
  "\<exists>key w'. flush_with_split_retry_and_poison_dlq (world_deps example_params) example_events (js ''b'') empty_world =
       Some (Inr (), w') \<and>
     map_get (w_objects w') key = Some (serialize_batch (logged_batch (wp_enrich example_params)
       (resolve_batch (w_links empty_world) example_events))) \<and>
     w_dlq w' = w_dlq empty_world \<and> set example_events \<subseteq> {e. in_rows example_params w' e}"
  by (rule exI, rule healthy_flush_commits)
     (simp_all add: healthy_def example_params_def example_events_def event_batch_key_def parse_instant_def)

text \<open>
  Whatever fails, the dead-letter service sets out on two sweeps of old entries only
  when an hour lies between them, also when a sweep fails or the clock is set back.
\<close>

theorem sweeps_keep_their_distance:
  "sweeps_spaced w \<Longrightarrow>
   \<exists>r w'. flush_with_split_retry_and_poison_dlq (world_deps p) es batch_id w = Some (r, w') \<and> sweeps_spaced w'"
proof -
  assume spaced: "sweeps_spaced w"
  obtain r w' where r: "flush_with_split_retry_and_poison_dlq (world_deps p) es batch_id w = Some (r, w')"
    using production_returns [of "world_deps p" es batch_id w] by (elim exE) (rule that)
  with sweep_services.production_inv [OF r spaced] show ?thesis by blast
qed

theorem sweeps_keep_their_distance_witness:
  "\<exists>r w'. flush_with_split_retry_and_poison_dlq (world_deps example_params) example_events (js ''b'') empty_world =
     Some (r, w') \<and> sweeps_spaced w'"
  by (rule sweeps_keep_their_distance) (simp add: empty_world_def sweeps_spaced_def)

end
