(* ===== verification/Worker_Consumer.thy ===== *)
theory Worker_Consumer
  imports Worker_Dlq
begin

text \<open>
  The consumer of the event queue (\<open>apps/worker/src/consumer/events.consumer.ts\<close>) with the
  queue's job options (\<open>packages/core/src/queue/events-queue.ts\<close>): decoding a job, handing the
  event to the sink, and the two ways to the dead-letter queue.

  The sink, the dead-letter service and the logger are parameters; a logger may throw, which
  \<open>safe_log\<close> swallows. The counter of jobs in flight is a field of the state. zod's error
  for a payload that does not parse is a parameter (\<open>ec_zod_error\<close>: the error and its issues).

  \<open>run_job\<close> is what BullMQ documents of a job: a job whose processing returns is completed; one
  whose processing throws is failed, its attempts are counted, the \<open>failed\<close> event is emitted,
  and it is processed again while fewer attempts were made than its options allow.
\<close>

section \<open>Jobs\<close>

definition EVENTS_QUEUE :: jsstr where "EVENTS_QUEUE = js ''events''"
definition EVENTS_DLQ_QUEUE :: jsstr where "EVENTS_DLQ_QUEUE = js ''events-dlq''"

record jobs_options =
  jo_attempts :: nat
  jo_backoff_delay :: nat
  jo_remove_on_complete :: nat
  jo_remove_on_fail :: bool

definition EVENTS_JOB_OPTIONS :: jobs_options where
  "EVENTS_JOB_OPTIONS = \<lparr> jo_attempts = 5, jo_backoff_delay = 1000, jo_remove_on_complete = 1000,
     jo_remove_on_fail = False \<rparr>"

definition event_job_schema :: "(jsstr \<Rightarrow> bool) \<Rightarrow> json \<Rightarrow> capture_event option" where
  "event_job_schema = capture_event_schema"

record bull_job =
  jb_id :: "jsstr option"
  jb_data :: json
  jb_attempts_made :: nat
  jb_attempts :: "nat option"

section \<open>The consumer\<close>

record 's consumer_deps =
  ec_sink :: "capture_event \<Rightarrow> ('s, unit) io"
  ec_dlq :: "'s dlq_sink"
  ec_logger :: "jsstr \<Rightarrow> log_meta \<Rightarrow> ('s, unit) io"
  ec_in_flight :: "'s \<Rightarrow> int"
  ec_set_in_flight :: "int \<Rightarrow> 's \<Rightarrow> 's"
  ec_datetime :: "jsstr \<Rightarrow> bool"
  ec_zod_error :: "json \<Rightarrow> thrown \<times> zod_issue list"
  ec_parse_url :: "jsstr \<Rightarrow> url_parts option"

definition pending_job_count :: "'s consumer_deps \<Rightarrow> 's \<Rightarrow> int" where
  "pending_job_count deps s = ec_in_flight deps s"

definition change_in_flight :: "'s consumer_deps \<Rightarrow> int \<Rightarrow> 's \<Rightarrow> 's" where
  "change_in_flight deps d s = ec_set_in_flight deps (ec_in_flight deps s + d) s"

definition safe_log :: "'s consumer_deps \<Rightarrow> jsstr \<Rightarrow> log_meta \<Rightarrow> ('s, unit) io" where
  "safe_log deps message meta = io_catch (ec_logger deps message meta) (\<lambda>_. io_return ())"

text \<open>\<open>{ jobId: job.id }\<close>; an undefined id is left out.\<close>

definition job_meta :: "bull_job \<Rightarrow> log_meta" where
  "job_meta job = (case jb_id job of None \<Rightarrow> [] | Some i \<Rightarrow> [(js ''jobId'', JStr i)])"

definition original_job_id :: "bull_job \<Rightarrow> jsstr" where
  "original_job_id job = (case jb_id job of None \<Rightarrow> js ''(no id)'' | Some i \<Rightarrow> i)"

definition redact_log :: "'s consumer_deps \<Rightarrow> jsstr \<Rightarrow> jsstr" where
  "redact_log deps = redact_credentials_from_message (ec_parse_url deps)"

definition route_to_dlq :: "'s consumer_deps \<Rightarrow> bull_job \<Rightarrow> ('s, unit) io" where
  "route_to_dlq deps job =
     (let (error, zod_issues) = ec_zod_error deps (jb_data job);
          issues = to_dlq_issues zod_issues;
          job_id = original_job_id job in
      io_then
        (io_catch
          (ec_dlq deps Schema_validation_failed (jb_data job) error
             \<lparr> dm_original_job_id = job_id, dm_attempts_made = 1, dm_issues = Some issues \<rparr>)
          (\<lambda>dlq_error.
             io_then
               (safe_log deps
                 (redact_log deps (js ''Job '' @ job_id @ js '' failed eventJobSchema validation AND failed to route to '' @
                   EVENTS_DLQ_QUEUE @ js '': '' @ error_message dlq_error))
                 (job_meta job))
               (io_throw dlq_error)))
        (safe_log deps
          (js ''Job '' @ job_id @ js '' failed eventJobSchema validation; routed to '' @ EVENTS_DLQ_QUEUE @
           js '' ('' @ dec (length issues) @ js '' issue(s)), job acked with no retry'')
          (job_meta job)))"

definition handle_event :: "'s consumer_deps \<Rightarrow> capture_event \<Rightarrow> ('s, unit) io" where
  "handle_event deps event =
     io_catch (ec_sink deps event)
       (\<lambda>error.
          io_then
            (safe_log deps
              (redact_log deps (js ''Sink failed to handle event '' @ ev_event_id event @ js '': '' @ error_message error))
              [(js ''eventId'', JStr (ev_event_id event)), (js ''linkId'', JStr (ev_link_id event)),
               (js ''tenantId'', JStr (ev_tenant_id event))])
            (io_throw error))"

text \<open>The \<open>finally\<close> block counts the job out again, whatever happened.\<close>

definition process_job :: "'s consumer_deps \<Rightarrow> bull_job \<Rightarrow> ('s, unit) io" where
  "process_job deps job s =
     (let (r, s') =
            (case event_job_schema (ec_datetime deps) (jb_data job) of
               None \<Rightarrow> route_to_dlq deps job
             | Some event \<Rightarrow> handle_event deps event) (change_in_flight deps 1 s)
      in (r, change_in_flight deps (- 1) s'))"

definition on_failed :: "'s consumer_deps \<Rightarrow> bull_job \<Rightarrow> thrown \<Rightarrow> ('s, unit) io" where
  "on_failed deps job error =
     (let attempts_allowed = (case jb_attempts job of None \<Rightarrow> 1 | Some n \<Rightarrow> n);
          made = jb_attempts_made job;
          job_id = original_job_id job in
      if made < attempts_allowed then io_return ()
      else
        io_settle
          (case event_job_schema (ec_datetime deps) (jb_data job) of
             Some event \<Rightarrow>
               ec_dlq deps Attempts_exhausted (JObj (capture_members event)) error
                 \<lparr> dm_original_job_id = job_id, dm_attempts_made = made, dm_issues = None \<rparr>
           | None \<Rightarrow>
               ec_dlq deps Schema_validation_failed (jb_data job) error
                 \<lparr> dm_original_job_id = job_id, dm_attempts_made = made,
                   dm_issues = Some (to_dlq_issues (snd (ec_zod_error deps (jb_data job)))) \<rparr>)
          (\<lambda>r. case r of
             Inl dlq_error \<Rightarrow>
               safe_log deps
                 (redact_log deps (js ''Job '' @ job_id @ js '' exhausted all '' @ dec made @
                   js '' attempt(s) AND failed to route to '' @ EVENTS_DLQ_QUEUE @ js '': '' @ error_message dlq_error))
                 (job_meta job)
           | Inr _ \<Rightarrow>
               safe_log deps
                 (js ''Job '' @ job_id @ js '' exhausted all '' @ dec made @ js '' attempt(s); routed to '' @ EVENTS_DLQ_QUEUE)
                 (job_meta job)))"

section \<open>A job's life in the queue\<close>

datatype job_end = Job_completed nat | Job_failed thrown

fun run_attempts :: "'s consumer_deps \<Rightarrow> bull_job \<Rightarrow> nat \<Rightarrow> 's \<Rightarrow> job_end \<times> 's" where
  "run_attempts deps job left s =
     (let made = Suc (jb_attempts_made job); job' = job\<lparr>jb_attempts_made := made\<rparr> in
      case process_job deps job s of
        (Inr _, s') \<Rightarrow> (Job_completed made, s')
      | (Inl error, s') \<Rightarrow>
          (let s'' = snd (on_failed deps job' error s') in
           case left of 0 \<Rightarrow> (Job_failed error, s'') | Suc n \<Rightarrow> run_attempts deps job' n s''))"

declare run_attempts.simps [simp del]

definition run_job :: "'s consumer_deps \<Rightarrow> json \<Rightarrow> jsstr option \<Rightarrow> 's \<Rightarrow> job_end \<times> 's" where
  "run_job deps payload job_id =
     run_attempts deps
       \<lparr> jb_id = job_id, jb_data = payload, jb_attempts_made = 0,
         jb_attempts = Some (jo_attempts EVENTS_JOB_OPTIONS) \<rparr>
       (jo_attempts EVENTS_JOB_OPTIONS - 1)"

section \<open>Facts\<close>

lemma safe_log_ok [simp]: "fst (safe_log deps message meta s) = Inr ()"
  by (simp add: safe_log_def io_catch_app split: sum.split)

lemma fst_handle_event: "fst (handle_event deps event s) = fst (ec_sink deps event s)"
  by (simp add: handle_event_def io_apps split: sum.split)

lemma fst_route_to_dlq:
  "fst (route_to_dlq deps job s) =
   fst (ec_dlq deps Schema_validation_failed (jb_data job) (fst (ec_zod_error deps (jb_data job)))
     \<lparr> dm_original_job_id = original_job_id job, dm_attempts_made = 1,
       dm_issues = Some (to_dlq_issues (snd (ec_zod_error deps (jb_data job)))) \<rparr> s)"
  by (simp add: route_to_dlq_def io_apps case_prod_unfold Let_def split: sum.split)

lemma length_to_dlq_issues [simp]: "length (to_dlq_issues xs) = length xs"
  by (simp add: to_dlq_issues_def)

text \<open>
  What the consumer needs of its sink and of the dead-letter service: a call that resolves
  has put its event or payload in a safe place, and nothing is taken from there later.
\<close>

locale consumer_store =
  fixes deps :: "'s consumer_deps"
    and handled :: "'s \<Rightarrow> capture_event \<Rightarrow> bool" and dead :: "'s \<Rightarrow> json \<Rightarrow> bool"
  assumes sink_stores: "ec_sink deps e s = (Inr (), s') \<Longrightarrow> handled s' e"
    and dlq_stores: "ec_dlq deps reason payload error meta s = (Inr (), s') \<Longrightarrow> dead s' payload"
    and logger_keeps_handled: "handled s e \<Longrightarrow> handled (snd (ec_logger deps message details s)) e"
    and logger_keeps_dead: "dead s v \<Longrightarrow> dead (snd (ec_logger deps message details s)) v"
    and counter_keeps_handled: "handled s e \<Longrightarrow> handled (ec_set_in_flight deps n s) e"
    and counter_keeps_dead: "dead s v \<Longrightarrow> dead (ec_set_in_flight deps n s) v"
begin

lemma safe_log_keeps:
  "handled s e \<Longrightarrow> handled (snd (safe_log deps message meta s)) e"
  "dead s v \<Longrightarrow> dead (snd (safe_log deps message meta s)) v"
  by (simp_all add: safe_log_def io_catch_app logger_keeps_handled logger_keeps_dead split: sum.split)

lemma process_stores:
  assumes "process_job deps job s = (Inr (), s')"
  shows "case event_job_schema (ec_datetime deps) (jb_data job) of
    None \<Rightarrow> dead s' (jb_data job) | Some e \<Rightarrow> handled s' e"
proof (cases "event_job_schema (ec_datetime deps) (jb_data job)")
  case None
  let ?s = "change_in_flight deps 1 s"
  let ?send = "ec_dlq deps Schema_validation_failed (jb_data job) (fst (ec_zod_error deps (jb_data job)))
     \<lparr> dm_original_job_id = original_job_id job, dm_attempts_made = Suc 0,
       dm_issues = Some (to_dlq_issues (snd (ec_zod_error deps (jb_data job)))) \<rparr> ?s"
  obtain r s1 where route: "route_to_dlq deps job ?s = (r, s1)" by fastforce
  then have s': "r = Inr ()" "s' = change_in_flight deps (- 1) s1" using assms None by (simp_all add: process_job_def)
  then have "fst ?send = Inr ()" using fst_route_to_dlq [of deps job ?s] route by simp
  then obtain s2 where send: "?send = (Inr (), s2)" by (cases ?send) auto
  have "\<exists>message meta. s1 = snd (safe_log deps message meta s2)"
    using route send
    by (auto simp: route_to_dlq_def io_apps case_prod_unfold Let_def) (metis snd_conv)
  then have "dead s1 (jb_data job)" using safe_log_keeps(2) [OF dlq_stores [OF send]] by blast
  then show ?thesis using None s'(2) by (simp add: change_in_flight_def counter_keeps_dead)
next
  case (Some e)
  let ?s = "change_in_flight deps 1 s"
  obtain r s1 where sink: "ec_sink deps e ?s = (r, s1)" by fastforce
  have "fst (handle_event deps e ?s) = Inr ()" using assms Some by (auto simp: process_job_def split: prod.splits)
  then have r: "r = Inr ()" using sink by (simp add: fst_handle_event)
  then have "handle_event deps e ?s = (Inr (), s1)" using sink by (simp add: handle_event_def)
  then have "s' = change_in_flight deps (- 1) s1" using assms Some by (simp add: process_job_def)
  moreover have "handled s1 e" using sink_stores sink r by blast
  ultimately show ?thesis using Some by (simp add: change_in_flight_def counter_keeps_handled)
qed

lemma run_attempts_stores:
  "run_attempts deps job left s = (Job_completed n, s') \<Longrightarrow>
   (case event_job_schema (ec_datetime deps) (jb_data job) of
      None \<Rightarrow> dead s' (jb_data job) | Some e \<Rightarrow> handled s' e) \<and>
   jb_attempts_made job < n \<and> n \<le> jb_attempts_made job + Suc left"
proof (induction left arbitrary: job s)
  case 0
  then show ?case
    by (subst (asm) run_attempts.simps) (auto simp: Let_def dest: process_stores split: prod.splits sum.splits)
next
  case (Suc left)
  obtain r s1 where p: "process_job deps job s = (r, s1)" by fastforce
  show ?case
  proof (cases r)
    case (Inl error)
    then have "run_attempts deps (job\<lparr>jb_attempts_made := Suc (jb_attempts_made job)\<rparr>) left
        (snd (on_failed deps (job\<lparr>jb_attempts_made := Suc (jb_attempts_made job)\<rparr>) error s1)) = (Job_completed n, s')"
      using Suc.prems p by (subst (asm) run_attempts.simps) (simp add: Let_def)
    from Suc.IH [OF this] show ?thesis by (auto split: option.splits)
  next
    case (Inr u)
    then show ?thesis
      using Suc.prems p process_stores [of job s s1] by (subst (asm) run_attempts.simps) (auto simp: Let_def)
  qed
qed

lemma completed_job_stored:
  "run_job deps payload job_id s = (Job_completed n, s') \<Longrightarrow>
   (case event_job_schema (ec_datetime deps) payload of None \<Rightarrow> dead s' payload | Some e \<Rightarrow> handled s' e) \<and>
   1 \<le> n \<and> n \<le> jo_attempts EVENTS_JOB_OPTIONS"
  unfolding run_job_def by (drule run_attempts_stores) (auto simp: EVENTS_JOB_OPTIONS_def split: option.splits)

end

section \<open>Properties\<close>

text \<open>
  A job is acknowledged exactly when its event was handled by the sink, or, for a payload
  that is not an event, when the dead-letter service accepted it; what the logger does plays
  no part.
\<close>

theorem job_acknowledged_iff_safe:
  "fst (process_job deps job s) =
   (case event_job_schema (ec_datetime deps) (jb_data job) of
      Some event \<Rightarrow> fst (ec_sink deps event (change_in_flight deps 1 s))
    | None \<Rightarrow>
        fst (ec_dlq deps Schema_validation_failed (jb_data job) (fst (ec_zod_error deps (jb_data job)))
          \<lparr> dm_original_job_id = original_job_id job, dm_attempts_made = 1,
            dm_issues = Some (to_dlq_issues (snd (ec_zod_error deps (jb_data job)))) \<rparr>
          (change_in_flight deps 1 s)))"
  by (simp add: process_job_def case_prod_unfold fst_handle_event fst_route_to_dlq split: option.split)

text \<open>
  The handler of the failed event never rejects, and it does nothing at all as long as
  the queue will try the job again.
\<close>

theorem failed_event_handled:
  "fst (on_failed deps job error s) = Inr () \<and>
   (snd (on_failed deps job error s) = s \<or>
    (case jb_attempts job of None \<Rightarrow> 1 | Some n \<Rightarrow> n) \<le> jb_attempts_made job)"
  by (auto simp: on_failed_def Let_def io_settle_app not_less split: sum.split option.split)

text \<open>
  What is logged about a payload that is not an event does not depend on the payload, its
  error or its issues beyond their number: if the dead-letter service treats two jobs alike,
  processing them is the same.
\<close>

theorem rejected_payload_not_logged:
  assumes "event_job_schema (ec_datetime deps) v = None" "event_job_schema (ec_datetime deps) w = None"
    and "length (snd (ec_zod_error deps v)) = length (snd (ec_zod_error deps w))"
    and "\<And>meta. ec_dlq deps Schema_validation_failed v (fst (ec_zod_error deps v))
           (meta\<lparr>dm_issues := Some (to_dlq_issues (snd (ec_zod_error deps v)))\<rparr>) =
         ec_dlq deps Schema_validation_failed w (fst (ec_zod_error deps w))
           (meta\<lparr>dm_issues := Some (to_dlq_issues (snd (ec_zod_error deps w)))\<rparr>)"
  shows "process_job deps (job\<lparr>jb_data := v\<rparr>) s = process_job deps (job\<lparr>jb_data := w\<rparr>) s"
proof -
  have "ec_dlq deps Schema_validation_failed v (fst (ec_zod_error deps v))
      \<lparr> dm_original_job_id = i, dm_attempts_made = 1, dm_issues = Some (to_dlq_issues (snd (ec_zod_error deps v))) \<rparr> =
    ec_dlq deps Schema_validation_failed w (fst (ec_zod_error deps w))
      \<lparr> dm_original_job_id = i, dm_attempts_made = 1, dm_issues = Some (to_dlq_issues (snd (ec_zod_error deps w))) \<rparr>" for i
    using assms(4) [of "\<lparr> dm_original_job_id = i, dm_attempts_made = 1, dm_issues = None \<rparr>"] by simp
  then show ?thesis
    using assms(1-3)
    by (simp add: process_job_def route_to_dlq_def case_prod_unfold Let_def job_meta_def original_job_id_def)
qed

text \<open>
  The count of jobs in flight is the same after a job as before it, however the job
  ends, when the sink, the dead-letter service and the logger leave the count alone.
\<close>

theorem in_flight_count_restored:
  assumes "\<And>n s. ec_in_flight deps (ec_set_in_flight deps n s) = n"
    and "\<And>e s. ec_in_flight deps (snd (ec_sink deps e s)) = ec_in_flight deps s"
    and "\<And>reason v error meta s. ec_in_flight deps (snd (ec_dlq deps reason v error meta s)) = ec_in_flight deps s"
    and "\<And>message meta s. ec_in_flight deps (snd (ec_logger deps message meta s)) = ec_in_flight deps s"
  shows "pending_job_count deps (snd (process_job deps job s)) = pending_job_count deps s"
proof -
  have log: "ec_in_flight deps (snd (safe_log deps message meta s)) = ec_in_flight deps s" for message meta s
    using assms(4) by (simp add: safe_log_def io_catch_app split: sum.split)
  have "ec_in_flight deps (snd (route_to_dlq deps job s)) = ec_in_flight deps s" for s
    using assms(3) log by (simp add: route_to_dlq_def io_apps case_prod_unfold Let_def split: sum.split)
  moreover have "ec_in_flight deps (snd (handle_event deps e s)) = ec_in_flight deps s" for e s
    using assms(2) log by (simp add: handle_event_def io_apps split: sum.split)
  ultimately show ?thesis
    using assms(1)
    by (simp add: pending_job_count_def process_job_def change_in_flight_def case_prod_unfold Let_def
        split: option.split)
qed

text \<open>A consumer whose state is the count of jobs in flight, for the witnesses.\<close>

definition counting_consumer :: "int consumer_deps" where
  "counting_consumer =
     \<lparr> ec_sink = (\<lambda>e. io_return ()), ec_dlq = (\<lambda>reason payload error meta. io_return ()),
       ec_logger = (\<lambda>message meta. io_throw (new_error [])), ec_in_flight = (\<lambda>n. n),
       ec_set_in_flight = (\<lambda>n _. n), ec_datetime = (\<lambda>_. True), ec_zod_error = (\<lambda>_. (new_error [], [])),
       ec_parse_url = (\<lambda>_. None) \<rparr>"

definition example_job :: bull_job where
  "example_job = \<lparr> jb_id = Some (js ''7''), jb_data = JNull, jb_attempts_made = 0, jb_attempts = Some 5 \<rparr>"

theorem rejected_payload_not_logged_witness:
  "process_job counting_consumer (example_job\<lparr>jb_data := JStr (js ''10.0.0.1'')\<rparr>) 0 =
   process_job counting_consumer (example_job\<lparr>jb_data := JInt 5\<rparr>) 0"
  by (rule rejected_payload_not_logged)
     (simp_all add: counting_consumer_def event_job_schema_def capture_event_schema_def)

theorem in_flight_count_restored_witness:
  "pending_job_count counting_consumer (snd (process_job counting_consumer example_job 3)) =
   pending_job_count counting_consumer 3"
  by (rule in_flight_count_restored) (simp_all add: counting_consumer_def)

end
