(* ===== verification/Worker_System.thy ===== *)
theory Worker_System
  imports Worker_Pipeline Worker_Consumer
begin

text \<open>
  The worker end to end, over the world of \<open>Worker_Pipeline\<close>: the consumer of the queue, whose
  sink runs the production flush and whose dead-letter service is that of the world.

  The sink here is the accumulator with a batch size of one: its \<open>add\<close> starts the flush of
  the event at once and settles with it. The count of jobs in flight is kept beside the
  world.
\<close>

type_synonym system = "world \<times> int"

definition lift_world :: "(world, 'a) io \<Rightarrow> (system, 'a) io" where
  "lift_world m s = (let (r, w) = m (fst s) in (r, (w, snd s)))"

text \<open>A flush that does not return would leave the job active; \<open>production_returns\<close> excludes it.\<close>

definition flush_one :: "world_params \<Rightarrow> jsstr \<Rightarrow> capture_event \<Rightarrow> (world, unit) io" where
  "flush_one p batch_id e w =
     (case flush_with_split_retry_and_poison_dlq (world_deps p) [e] batch_id w of
        Some (r, w') \<Rightarrow> (r, w')
      | None \<Rightarrow> (Inl (new_error []), w))"

definition system_deps :: "world_params \<Rightarrow> (jsstr \<Rightarrow> bool) \<Rightarrow> (json \<Rightarrow> thrown \<times> zod_issue list) \<Rightarrow> system consumer_deps" where
  "system_deps p datetime zod_error =
     \<lparr> ec_sink = (\<lambda>e. lift_world (flush_one p (ev_event_id e) e)),
       ec_dlq = (\<lambda>reason payload error meta. lift_world (dlq_send (world_dlq p) reason payload error meta)),
       ec_logger = (\<lambda>message meta. lift_world (io_do (re_log world_env message meta))),
       ec_in_flight = snd,
       ec_set_in_flight = (\<lambda>n s. (fst s, n)),
       ec_datetime = datetime,
       ec_zod_error = zod_error,
       ec_parse_url = wp_parse_url p \<rparr>"

lemma system_simps [simp]:
  "ec_sink (system_deps p datetime z) e = lift_world (flush_one p (ev_event_id e) e)"
  "ec_dlq (system_deps p datetime z) reason v error meta = lift_world (dlq_send (world_dlq p) reason v error meta)"
  "ec_logger (system_deps p datetime z) message details = lift_world (io_do (re_log world_env message details))"
  "ec_in_flight (system_deps p datetime z) = snd"
  "ec_set_in_flight (system_deps p datetime z) n s = (fst s, n)"
  "ec_datetime (system_deps p datetime z) = datetime"
  by (simp_all add: system_deps_def)

text \<open>A payload that is not an event is safe when the queue has accepted its redacted form.\<close>

definition dead_lettered :: "world \<Rightarrow> json \<Rightarrow> bool" where
  "dead_lettered w v \<longleftrightarrow> (\<exists>d \<in> set (w_dlq w). dj_raw_payload d = fst (redact_payload v))"

lemma lift_world_Inr: "lift_world m s = (Inr a, s') \<Longrightarrow> m (fst s) = (Inr a, fst s')"
  by (auto simp: lift_world_def split: prod.splits)

interpretation system_store: consumer_store "system_deps p datetime z"
  "\<lambda>s e. world_stored p (fst s) e" "\<lambda>s v. dead_lettered (fst s) v" for p datetime z
proof (unfold_locales, goal_cases)
  case (1 e s s')
  then have "flush_one p (ev_event_id e) e (fst s) = (Inr (), fst s')"
    by (simp add: lift_world_Inr)
  then have "flush_with_split_retry_and_poison_dlq (world_deps p) [e] (ev_event_id e) (fst s) = Some (Inr (), fst s')"
    by (auto simp: flush_one_def split: option.splits)
  from production_stores [OF this] show ?case by simp
next
  case (2 reason v error meta s s')
  then have "dlq_send (world_dlq p) reason v error meta (fst s) = (Inr (), fst s')"
    by (simp add: lift_world_Inr)
  from dlq_send_ok [OF this] show ?case by (auto simp: dead_lettered_def)
qed (auto simp: lift_world_def dead_lettered_def intro: stored_mono [rotated 2])


lemma dlq_send_healthy: "healthy p \<Longrightarrow> fst (dlq_send (world_dlq p) reason v error meta w) = Inr ()"
  by (simp add: dlq_send_app served_healthy)


end
