(* ===== verification/Worker_Accumulator.thy ===== *)
theory Worker_Accumulator
  imports Js_Async "HOL-Library.Multiset"
begin

text \<open>
  The batch accumulator of the worker (\<open>apps/worker/src/batch/accumulator.ts\<close>).

  JavaScript runs one callback at a time, so the accumulator is a state machine whose
  steps are those callbacks: a call of \<open>add\<close> or \<open>flushNow\<close>, the interval timer, and the
  settling of a flush that was started earlier. The promise that \<open>add\<close> returns is the
  number of the call (a waiter); \<open>acc_settled\<close> lists the waiters in the order in which
  their promises settled. \<open>new_id n\<close> is the \<open>n\<close>-th identifier \<open>newId\<close> gives.
\<close>

section \<open>State\<close>

record 'e open_batch =
  ob_batch_id :: jsstr
  ob_events :: "'e list"
  ob_waiters :: "nat list"
  ob_timer :: nat

text \<open>A flush in progress: the arguments of \<open>runFlush\<close>.\<close>

record 'e running_flush =
  rf_events :: "'e list"
  rf_batch_id :: jsstr
  rf_waiters :: "nat list"

record 'e accumulator =
  acc_batch_size :: nat
  acc_interval_ms :: nat
  acc_current :: "'e open_batch option"
  acc_last_flush_at :: int
  acc_running :: "'e running_flush list"
  acc_settled :: "(nat \<times> unit outcome) list"
  acc_timers :: "nat list"
  acc_next_waiter :: nat
  acc_next_batch :: nat

definition new_accumulator :: "js_num \<Rightarrow> js_num \<Rightarrow> int \<Rightarrow> 'e accumulator outcome" where
  "new_accumulator batch_size interval now =
     (if \<not> positive_integer batch_size then
        Inl (new_error (js ''BatchAccumulator batchSize must be a positive integer; received '' @
          js_num_text batch_size))
      else if \<not> positive_integer interval then
        Inl (new_error (js ''BatchAccumulator batchIntervalMs must be a positive integer; received '' @
          js_num_text interval))
      else
        Inr \<lparr> acc_batch_size = num_val batch_size, acc_interval_ms = num_val interval,
              acc_current = None, acc_last_flush_at = now, acc_running = [], acc_settled = [],
              acc_timers = [], acc_next_waiter = 0, acc_next_batch = 0 \<rparr>)"

section \<open>Operations\<close>

definition acc_size :: "'e accumulator \<Rightarrow> nat" where
  "acc_size a = (case acc_current a of None \<Rightarrow> 0 | Some b \<Rightarrow> length (ob_events b))"

definition last_flush_age_ms :: "int \<Rightarrow> 'e accumulator \<Rightarrow> int" where
  "last_flush_age_ms now a = now - acc_last_flush_at a"

text \<open>\<open>startBatch\<close> takes an identifier and arms a timer, both numbered by the batch.\<close>

definition start_batch :: "(nat \<Rightarrow> jsstr) \<Rightarrow> 'e accumulator \<Rightarrow> 'e open_batch \<times> 'e accumulator" where
  "start_batch new_id a =
     (let n = acc_next_batch a in
      (\<lparr> ob_batch_id = new_id n, ob_events = [], ob_waiters = [], ob_timer = n \<rparr>,
       a \<lparr> acc_next_batch := Suc n, acc_timers := n # acc_timers a \<rparr>))"

text \<open>\<open>triggerFlush\<close>: the open batch is closed before its flush starts.\<close>

definition trigger_flush :: "'e accumulator \<Rightarrow> 'e accumulator" where
  "trigger_flush a =
     (case acc_current a of
        None \<Rightarrow> a
      | Some b \<Rightarrow>
          a \<lparr> acc_timers := removeAll (ob_timer b) (acc_timers a), acc_current := None,
             acc_running := acc_running a @
               [\<lparr> rf_events = ob_events b, rf_batch_id = ob_batch_id b, rf_waiters = ob_waiters b \<rparr>] \<rparr>)"

definition acc_add :: "(nat \<Rightarrow> jsstr) \<Rightarrow> 'e \<Rightarrow> 'e accumulator \<Rightarrow> nat \<times> 'e accumulator" where
  "acc_add new_id event a =
     (let (open_batch, a1) =
            (case acc_current a of Some b \<Rightarrow> (b, a) | None \<Rightarrow> start_batch new_id a);
          events = ob_events open_batch @ [event];
          w = acc_next_waiter a1;
          a2 = a1 \<lparr> acc_next_waiter := Suc w,
                    acc_current := Some (open_batch \<lparr> ob_events := events,
                      ob_waiters := ob_waiters open_batch @ [w] \<rparr>) \<rparr>
      in (w, if length events \<ge> acc_batch_size a then trigger_flush a2 else a2))"

text \<open>The two ways \<open>runFlush\<close> ends, for the flush at position \<open>i\<close> of those in progress.\<close>

definition drop_nth :: "nat \<Rightarrow> 'a list \<Rightarrow> 'a list" where
  "drop_nth i xs = take i xs @ drop (Suc i) xs"

definition flush_resolved :: "nat \<Rightarrow> int \<Rightarrow> 'e accumulator \<Rightarrow> 'e accumulator" where
  "flush_resolved i now a =
     a \<lparr> acc_running := drop_nth i (acc_running a), acc_last_flush_at := now,
        acc_settled := acc_settled a @ map (\<lambda>w. (w, Inr ())) (rf_waiters (acc_running a ! i)) \<rparr>"

definition flush_rejected :: "nat \<Rightarrow> thrown \<Rightarrow> 'e accumulator \<Rightarrow> 'e accumulator" where
  "flush_rejected i error a =
     a \<lparr> acc_running := drop_nth i (acc_running a),
        acc_settled := acc_settled a @ map (\<lambda>w. (w, Inl error)) (rf_waiters (acc_running a ! i)) \<rparr>"

text \<open>The message logged for a rejected flush; a logger that throws is ignored.\<close>

definition flush_failed_message :: "'e running_flush \<Rightarrow> thrown \<Rightarrow> jsstr" where
  "flush_failed_message f error =
     js ''BatchAccumulator flush failed for batch '' @ rf_batch_id f @ js '' ('' @
     dec (length (rf_events f)) @ js '' event(s)): '' @ error_message error"

definition timer_fires :: "nat \<Rightarrow> 'e accumulator \<Rightarrow> 'e accumulator" where
  "timer_fires t a = trigger_flush (a \<lparr> acc_timers := removeAll t (acc_timers a) \<rparr>)"

section \<open>Steps\<close>

datatype 'e acc_event =
    Add 'e
  | Flush_now
  | Timer nat
  | Resolved nat int
  | Rejected nat thrown

inductive acc_step ::
    "(nat \<Rightarrow> jsstr) \<Rightarrow> 'e accumulator \<Rightarrow> 'e acc_event \<Rightarrow> 'e accumulator \<Rightarrow> bool"
  for new_id :: "nat \<Rightarrow> jsstr" where
  step_add: "acc_step new_id a (Add e) (snd (acc_add new_id e a))"
| step_flush_now: "acc_step new_id a Flush_now (trigger_flush a)"
| step_timer: "t \<in> set (acc_timers a) \<Longrightarrow> acc_step new_id a (Timer t) (timer_fires t a)"
| step_resolved: "i < length (acc_running a) \<Longrightarrow> acc_step new_id a (Resolved i now) (flush_resolved i now a)"
| step_rejected: "i < length (acc_running a) \<Longrightarrow> acc_step new_id a (Rejected i e) (flush_rejected i e a)"

inductive acc_run ::
    "(nat \<Rightarrow> jsstr) \<Rightarrow> 'e accumulator \<Rightarrow> 'e acc_event list \<Rightarrow> 'e accumulator \<Rightarrow> bool"
  for new_id :: "nat \<Rightarrow> jsstr" where
  run_nil: "acc_run new_id a [] a"
| run_step: "acc_run new_id a es b \<Longrightarrow> acc_step new_id b e c \<Longrightarrow> acc_run new_id a (es @ [e]) c"

inductive_cases acc_step_addE: "acc_step new_id a (Add e) b"
inductive_cases acc_step_timerE: "acc_step new_id a (Timer t) b"
inductive_simps acc_step_add_iff: "acc_step new_id a (Add e) b"
inductive_simps acc_step_flush_iff: "acc_step new_id a Flush_now b"

text \<open>The events given to \<open>add\<close>, in order: waiter \<open>w\<close> belongs to the \<open>w\<close>-th of them.\<close>

fun added :: "'e acc_event list \<Rightarrow> 'e list" where
  "added [] = []"
| "added (Add e # es) = e # added es"
| "added (_ # es) = added es"

lemma added_append: "added (xs @ ys) = added xs @ added ys"
  by (induction xs rule: added.induct) simp_all

section \<open>Invariant\<close>

text \<open>
  The waiters that are pending: of the open batch and of the flushes in progress, each
  with its event.
\<close>

definition batch_pairs :: "'e open_batch \<Rightarrow> (nat \<times> 'e) list" where
  "batch_pairs b = zip (ob_waiters b) (ob_events b)"

definition flush_pairs :: "'e running_flush \<Rightarrow> (nat \<times> 'e) list" where
  "flush_pairs f = zip (rf_waiters f) (rf_events f)"

definition pending :: "'e accumulator \<Rightarrow> (nat \<times> 'e) multiset" where
  "pending a =
     (case acc_current a of None \<Rightarrow> {#} | Some b \<Rightarrow> mset (batch_pairs b)) +
     mset (concat (map flush_pairs (acc_running a)))"

definition open_ok :: "nat \<Rightarrow> nat list \<Rightarrow> nat \<Rightarrow> 'e open_batch \<Rightarrow> bool" where
  "open_ok limit timers next b \<longleftrightarrow>
     0 < length (ob_events b) \<and> length (ob_events b) < limit \<and>
     length (ob_waiters b) = length (ob_events b) \<and> timers = [ob_timer b] \<and> ob_timer b < next"

definition flush_ok :: "nat \<Rightarrow> 'e running_flush \<Rightarrow> bool" where
  "flush_ok limit f \<longleftrightarrow>
     0 < length (rf_events f) \<and> length (rf_events f) \<le> limit \<and>
     length (rf_waiters f) = length (rf_events f)"

definition acc_inv :: "'e list \<Rightarrow> 'e accumulator \<Rightarrow> bool" where
  "acc_inv evs a \<longleftrightarrow>
     0 < acc_batch_size a \<and>
     (case acc_current a of
        None \<Rightarrow> acc_timers a = []
      | Some b \<Rightarrow> open_ok (acc_batch_size a) (acc_timers a) (acc_next_batch a) b) \<and>
     (\<forall>f \<in> set (acc_running a). flush_ok (acc_batch_size a) f) \<and>
     acc_next_waiter a = length evs \<and>
     pending a + mset (map (\<lambda>(w, _). (w, evs ! w)) (acc_settled a)) =
       mset (zip [0 ..< length evs] evs) \<and>
     (\<forall>w \<in> fst ` set (acc_settled a). w < length evs)"

lemma inv_new: "new_accumulator n i now = Inr a \<Longrightarrow> acc_inv [] a"
  by (auto simp: new_accumulator_def acc_inv_def pending_def positive_integer_def num_val_def
      split: if_splits js_num.splits)

text \<open>The invariant with an open batch that may be full, as between the two halves of \<open>add\<close>.\<close>

definition acc_inv_open :: "'e list \<Rightarrow> 'e accumulator \<Rightarrow> 'e open_batch \<Rightarrow> bool" where
  "acc_inv_open evs a b \<longleftrightarrow>
     acc_current a = Some b \<and> open_ok (Suc (acc_batch_size a)) (acc_timers a) (acc_next_batch a) b \<and>
     (\<forall>f \<in> set (acc_running a). flush_ok (acc_batch_size a) f) \<and>
     acc_next_waiter a = length evs \<and> 0 < acc_batch_size a \<and>
     pending a + mset (map (\<lambda>(w, _). (w, evs ! w)) (acc_settled a)) =
       mset (zip [0 ..< length evs] evs) \<and>
     (\<forall>w \<in> fst ` set (acc_settled a). w < length evs)"

lemma inv_open_trigger: "acc_inv_open evs a b \<Longrightarrow> acc_inv evs (trigger_flush a)"
  by (auto simp: acc_inv_open_def acc_inv_def trigger_flush_def pending_def batch_pairs_def
      flush_pairs_def flush_ok_def open_ok_def ac_simps)

lemma inv_open_of_inv: "acc_inv evs a \<Longrightarrow> acc_current a = Some b \<Longrightarrow> acc_inv_open evs a b"
  by (auto simp: acc_inv_open_def acc_inv_def open_ok_def)

lemma inv_of_open:
  "acc_inv_open evs a b \<Longrightarrow> length (ob_events b) < acc_batch_size a \<Longrightarrow> acc_inv evs a"
  by (auto simp: acc_inv_open_def acc_inv_def open_ok_def)

lemma inv_trigger: "acc_inv evs a \<Longrightarrow> acc_inv evs (trigger_flush a)"
proof (cases "acc_current a")
  case None
  then show "acc_inv evs a \<Longrightarrow> ?thesis" by (simp add: trigger_flush_def)
qed (use inv_open_of_inv inv_open_trigger in blast)

lemma timer_fires_trigger:
  assumes "acc_inv evs a" and "t \<in> set (acc_timers a)"
  shows "timer_fires t a = trigger_flush a"
proof (cases "acc_current a")
  case None
  then show ?thesis using assms by (simp add: acc_inv_def)
next
  case (Some b)
  then have "acc_timers a = [t]" "ob_timer b = t" using assms by (auto simp: acc_inv_def open_ok_def)
  then show ?thesis using Some by (simp add: timer_fires_def trigger_flush_def)
qed

lemma settled_pairs_snoc:
  assumes "\<forall>w \<in> fst ` set ws. w < length evs"
  shows "map (\<lambda>(w, _). (w, (evs @ [e]) ! w)) ws = map (\<lambda>(w, _). (w, evs ! w)) ws"
  using assms by (auto simp: nth_append)

lemma zip_upt_snoc: "zip [0 ..< Suc (length evs)] (evs @ [e]) = zip [0 ..< length evs] evs @ [(length evs, e)]"
  by simp

text \<open>The state of \<open>add\<close> just before it decides whether the batch is full.\<close>

definition add_pre :: "(nat \<Rightarrow> jsstr) \<Rightarrow> 'e \<Rightarrow> 'e accumulator \<Rightarrow> 'e accumulator \<times> 'e open_batch" where
  "add_pre new_id e a =
     (let (open_batch, a1) = (case acc_current a of Some b \<Rightarrow> (b, a) | None \<Rightarrow> start_batch new_id a);
          b = open_batch \<lparr> ob_events := ob_events open_batch @ [e],
                ob_waiters := ob_waiters open_batch @ [acc_next_waiter a1] \<rparr>
      in (a1 \<lparr> acc_next_waiter := Suc (acc_next_waiter a1), acc_current := Some b \<rparr>, b))"

lemma acc_add_pre:
  "acc_add new_id e a =
    (acc_next_waiter a,
     let (a2, b) = add_pre new_id e a
     in if length (ob_events b) \<ge> acc_batch_size a then trigger_flush a2 else a2)"
  by (simp add: acc_add_def add_pre_def start_batch_def Let_def split: option.split)

lemma add_pre_inv:
  assumes inv: "acc_inv evs a" and pre: "add_pre new_id e a = (a2, b)"
  shows "acc_inv_open (evs @ [e]) a2 b \<and> acc_batch_size a2 = acc_batch_size a"
proof -
  have settled: "map (\<lambda>(w, _). (w, (evs @ [e]) ! w)) (acc_settled a) =
      map (\<lambda>(w, _). (w, evs ! w)) (acc_settled a)"
    using inv by (intro settled_pairs_snoc) (simp add: acc_inv_def)
  have all: "pending a + mset (map (\<lambda>(w, _). (w, evs ! w)) (acc_settled a)) = mset (zip [0 ..< length evs] evs)"
    and w: "acc_next_waiter a = length evs"
    using inv by (simp_all add: acc_inv_def)
  show ?thesis
  proof (cases "acc_current a")
    case None
    then have p: "pending a2 = add_mset (length evs, e) (pending a)"
      using pre w by (auto simp: add_pre_def start_batch_def Let_def pending_def batch_pairs_def)
    have "pending a2 + mset (map (\<lambda>(w, _). (w, (evs @ [e]) ! w)) (acc_settled a)) =
        mset (zip [0 ..< length (evs @ [e])] (evs @ [e]))"
      unfolding p settled using all by (simp add: zip_upt_snoc)
    moreover have "acc_settled a2 = acc_settled a"
      using None pre by (auto simp: add_pre_def start_batch_def Let_def)
    ultimately show ?thesis
      using None inv pre by (auto simp: add_pre_def start_batch_def Let_def acc_inv_open_def acc_inv_def open_ok_def)
  next
    case (Some b0)
    then have len: "length (ob_waiters b0) = length (ob_events b0)" "length (ob_events b0) < acc_batch_size a"
      using inv by (auto simp: acc_inv_def open_ok_def)
    then have p: "pending a2 = add_mset (length evs, e) (pending a)"
      using Some pre w by (auto simp: add_pre_def Let_def pending_def batch_pairs_def)
    have "pending a2 + mset (map (\<lambda>(w, _). (w, (evs @ [e]) ! w)) (acc_settled a)) =
        mset (zip [0 ..< length (evs @ [e])] (evs @ [e]))"
      unfolding p settled using all by (simp add: zip_upt_snoc)
    moreover have "acc_settled a2 = acc_settled a"
      using Some pre by (auto simp: add_pre_def Let_def)
    ultimately show ?thesis
      using Some inv pre len by (auto simp: add_pre_def Let_def acc_inv_open_def acc_inv_def open_ok_def)
  qed
qed

lemma inv_add:
  assumes "acc_inv evs a"
  shows "acc_inv (evs @ [e]) (snd (acc_add new_id e a))"
proof -
  obtain a2 b where pre: "add_pre new_id e a = (a2, b)" by fastforce
  note o = add_pre_inv [OF assms pre]
  show ?thesis
  proof (cases "acc_batch_size a \<le> length (ob_events b)")
    case True
    then show ?thesis using inv_open_trigger [of _ a2 b] o by (simp add: acc_add_pre pre)
  next
    case False
    then show ?thesis using inv_of_open [of _ a2 b] o by (simp add: acc_add_pre pre)
  qed
qed

lemma mset_drop_nth: "i < length xs \<Longrightarrow> mset (concat (map f xs)) = mset (f (xs ! i)) + mset (concat (map f (drop_nth i xs)))"
  by (subst id_take_nth_drop [of i xs]) (simp_all add: drop_nth_def)

lemma set_drop_nth: "set (drop_nth i xs) \<subseteq> set xs"
  using set_take_subset set_drop_subset by (fastforce simp: drop_nth_def)

lemma pairs_of_waiters:
  assumes inv: "acc_inv evs a" and f: "f \<in> set (acc_running a)"
  shows "flush_pairs f = map (\<lambda>w. (w, evs ! w)) (rf_waiters f)" and "\<forall>w \<in> set (rf_waiters f). w < length evs"
proof -
  have len: "length (rf_waiters f) = length (rf_events f)" using inv f by (auto simp: acc_inv_def flush_ok_def)
  have "set_mset (pending a) \<subseteq> set (zip [0 ..< length evs] evs)"
    using inv unfolding acc_inv_def by (metis mset_subset_eq_add_left set_mset_mono set_mset_mset)
  moreover have "set (flush_pairs f) \<subseteq> set_mset (pending a)" using f by (auto simp: pending_def)
  ultimately have sub: "set (flush_pairs f) \<subseteq> set (zip [0 ..< length evs] evs)" by blast
  have nth: "rf_waiters f ! j < length evs \<and> rf_events f ! j = evs ! (rf_waiters f ! j)"
    if "j < length (rf_waiters f)" for j
  proof -
    have "(rf_waiters f ! j, rf_events f ! j) \<in> set (flush_pairs f)"
      using that len by (auto simp: flush_pairs_def in_set_zip)
    then have "(rf_waiters f ! j, rf_events f ! j) \<in> set (zip [0 ..< length evs] evs)" using sub by blast
    then show ?thesis by (auto simp: in_set_zip)
  qed
  then show "flush_pairs f = map (\<lambda>w. (w, evs ! w)) (rf_waiters f)"
    using len by (intro nth_equalityI) (simp_all add: flush_pairs_def)
  show "\<forall>w \<in> set (rf_waiters f). w < length evs"
    using nth by (metis in_set_conv_nth)
qed

text \<open>Both ends of a flush, with the outcome \<open>r\<close> of its waiters.\<close>

lemma inv_settle:
  assumes inv: "acc_inv evs a" and i: "i < length (acc_running a)"
  shows "acc_inv evs (a \<lparr> acc_running := drop_nth i (acc_running a), acc_last_flush_at := now,
    acc_settled := acc_settled a @ map (\<lambda>w. (w, r)) (rf_waiters (acc_running a ! i)) \<rparr>)"
proof -
  let ?f = "acc_running a ! i"
  have f: "?f \<in> set (acc_running a)" using i by simp
  note pw = pairs_of_waiters [OF inv f]
  have "mset (concat (map flush_pairs (acc_running a))) =
      mset (map (\<lambda>w. (w, evs ! w)) (rf_waiters ?f)) + mset (concat (map flush_pairs (drop_nth i (acc_running a))))"
    using mset_drop_nth [OF i, of flush_pairs] pw(1) by simp
  then show ?thesis
    using inv pw(2) set_drop_nth [of i "acc_running a"]
    by (auto simp: acc_inv_def pending_def comp_def ac_simps split: option.splits)
qed

lemma inv_resolved: "acc_inv evs a \<Longrightarrow> i < length (acc_running a) \<Longrightarrow> acc_inv evs (flush_resolved i now a)"
  using inv_settle [of evs a i "Inr ()"] by (simp add: flush_resolved_def)

lemma inv_rejected: "acc_inv evs a \<Longrightarrow> i < length (acc_running a) \<Longrightarrow> acc_inv evs (flush_rejected i e a)"
  using inv_settle [of evs a i "Inl e" "acc_last_flush_at a"] by (simp add: flush_rejected_def)

lemma inv_step:
  assumes "acc_step new_id a e b" and "acc_inv evs a"
  shows "acc_inv (evs @ added [e]) b"
  using assms
proof (cases rule: acc_step.cases)
  case (step_timer t)
  then show ?thesis using assms(2) timer_fires_trigger [OF assms(2)] inv_trigger by simp
qed (simp_all add: assms(2) inv_add inv_trigger inv_resolved inv_rejected)

lemma inv_run: "acc_run new_id a es b \<Longrightarrow> acc_inv evs a \<Longrightarrow> acc_inv (evs @ added es) b"
proof (induction rule: acc_run.induct)
  case (run_step a es b e c)
  then show ?case using inv_step [of new_id b e c "evs @ added es"] by (simp add: added_append)
qed simp

section \<open>Consequences\<close>

lemma inv_waiters:
  assumes "acc_inv evs a"
  shows "image_mset fst (pending a) + mset (map fst (acc_settled a)) = mset [0 ..< length evs]"
proof -
  have "image_mset fst (pending a + mset (map (\<lambda>(w, _). (w, evs ! w)) (acc_settled a))) =
      image_mset fst (mset (zip [0 ..< length evs] evs))"
    using assms by (simp add: acc_inv_def)
  moreover have "image_mset fst (mset (map (\<lambda>(w, _). (w, evs ! w)) (acc_settled a))) = mset (map fst (acc_settled a))"
    by (simp add: case_prod_unfold comp_def flip: mset_map)
  moreover have "image_mset fst (mset (zip [0 ..< length evs] evs)) = mset [0 ..< length evs]"
    by (simp flip: mset_map)
  ultimately show ?thesis by simp
qed

lemma inv_settled_distinct: "acc_inv evs a \<Longrightarrow> distinct (map fst (acc_settled a))"
proof -
  assume "acc_inv evs a"
  obtain xs where "mset xs = image_mset fst (pending a)" using ex_mset by blast
  with inv_waiters [OF \<open>acc_inv evs a\<close>] have "mset (xs @ map fst (acc_settled a)) = mset [0 ..< length evs]"
    by simp
  then have "distinct (xs @ map fst (acc_settled a))"
    using mset_eq_imp_distinct_iff distinct_upt by blast
  then show ?thesis by simp
qed

lemma inv_idle_settled:
  assumes "acc_inv evs a" and "acc_current a = None" and "acc_running a = []"
  shows "set (map fst (acc_settled a)) = {..< length evs}"
proof -
  have "pending a = {#}" using assms by (simp add: pending_def)
  then have "mset (map fst (acc_settled a)) = mset [0 ..< length evs]"
    using inv_waiters [OF assms(1)] by simp
  then show ?thesis by (metis atLeast_upt set_mset_mset)
qed

lemma settled_grows: "acc_step new_id a e b \<Longrightarrow> \<exists>new. acc_settled b = acc_settled a @ new"
  by (cases rule: acc_step.cases)
     (auto simp: acc_add_def trigger_flush_def start_batch_def timer_fires_def flush_resolved_def
       flush_rejected_def Let_def split: option.split prod.split)

section \<open>Properties\<close>

text \<open>
  C12: in every run of the accumulator, the open batch is never empty and never reaches the
  batch size, a timer is armed exactly while a batch is open, and every flush that was
  started carries between one and \<open>batchSize\<close> events, one waiter for each.
\<close>

theorem accumulator_bounds:
  assumes "new_accumulator batch_size interval now = Inr a" and "acc_run new_id a steps b"
  shows "acc_size b < acc_batch_size b \<and>
    (case acc_current b of None \<Rightarrow> acc_timers b = [] | Some ob \<Rightarrow> ob_events ob \<noteq> [] \<and> acc_timers b = [ob_timer ob]) \<and>
    (\<forall>f \<in> set (acc_running b). 1 \<le> length (rf_events f) \<and> length (rf_events f) \<le> acc_batch_size b \<and>
       length (rf_waiters f) = length (rf_events f))"
  using inv_run [OF assms(2) inv_new [OF assms(1)]]
  by (auto simp: acc_inv_def acc_size_def open_ok_def flush_ok_def Suc_le_eq split: option.splits)

definition empty_accumulator :: "nat accumulator" where
  "empty_accumulator =
     \<lparr> acc_batch_size = 2, acc_interval_ms = 1000, acc_current = None, acc_last_flush_at = 0,
       acc_running = [], acc_settled = [], acc_timers = [], acc_next_waiter = 0, acc_next_batch = 0 \<rparr>"

definition two_adds :: "nat accumulator" where
  "two_adds = snd (acc_add dec 8 (snd (acc_add dec 7 empty_accumulator)))"

lemma two_adds_run:
  "new_accumulator (Integral 2) (Integral 1000) 0 = Inr empty_accumulator"
  "acc_run dec empty_accumulator (([] @ [Add 7]) @ [Add 8]) two_adds"
proof -
  show "new_accumulator (Integral 2) (Integral 1000) 0 = Inr empty_accumulator"
    by (simp add: new_accumulator_def positive_integer_def num_val_def empty_accumulator_def)
  show "acc_run dec empty_accumulator (([] @ [Add 7]) @ [Add 8]) two_adds"
    unfolding two_adds_def by (rule run_step [OF run_step [OF run_nil step_add] step_add])
qed

lemma two_adds_full: "acc_current two_adds = None" "map rf_events (acc_running two_adds) = [[7, 8]]"
  by (simp_all add: two_adds_def empty_accumulator_def acc_add_def start_batch_def trigger_flush_def Let_def)

theorem accumulator_bounds_witness:
  "\<exists>f. f \<in> set (acc_running two_adds) \<and> rf_events f = [7, 8] \<and> 1 \<le> length (rf_events f) \<and>
     length (rf_events f) \<le> acc_batch_size two_adds \<and> length (rf_waiters f) = length (rf_events f)"
proof -
  obtain f where "f \<in> set (acc_running two_adds)" "rf_events f = [7, 8]"
    using two_adds_full(2) by (cases "acc_running two_adds") auto
  then show ?thesis using accumulator_bounds [OF two_adds_run] by blast
qed

text \<open>
  C11: in every run each promise returned by \<open>add\<close> is settled at most once, and is either
  settled or waiting, together with its own event, in exactly one batch; no promise is
  left behind when no batch is open and no flush is in progress.
\<close>

theorem accumulator_settles_once:
  assumes "new_accumulator batch_size interval now = Inr a" and "acc_run new_id a steps b"
  shows "distinct (map fst (acc_settled b)) \<and>
    pending b + mset (map (\<lambda>(w, _). (w, added steps ! w)) (acc_settled b)) =
      mset (zip [0 ..< length (added steps)] (added steps)) \<and>
    (acc_current b = None \<longrightarrow> acc_running b = [] \<longrightarrow>
       set (map fst (acc_settled b)) = {..< length (added steps)})"
proof -
  have inv: "acc_inv (added steps) b" using inv_run [OF assms(2) inv_new [OF assms(1)]] by simp
  then have "pending b + mset (map (\<lambda>(w, _). (w, added steps ! w)) (acc_settled b)) =
      mset (zip [0 ..< length (added steps)] (added steps))"
    by (simp add: acc_inv_def)
  then show ?thesis using inv_settled_distinct [OF inv] inv_idle_settled [OF inv] by blast
qed

theorem accumulator_settles_once_witness:
  "pending two_adds + mset (map (\<lambda>(w, _). (w, [7, 8] ! w)) (acc_settled two_adds)) = mset (zip [0 ..< 2] [7, 8])"
  using accumulator_settles_once [OF two_adds_run] by (simp add: numeral_eq_Suc)

text \<open>
  the add that fills a batch starts its flush in the same call: the events of the batch,
  in the order they were added, are handed over and the next add opens a new batch.
\<close>

theorem full_batch_is_flushed:
  assumes "acc_current a = Some ob" and "Suc (length (ob_events ob)) = acc_batch_size a"
  shows "acc_current (snd (acc_add new_id e a)) = None \<and>
    acc_running (snd (acc_add new_id e a)) = acc_running a @
      [\<lparr> rf_events = ob_events ob @ [e], rf_batch_id = ob_batch_id ob,
         rf_waiters = ob_waiters ob @ [acc_next_waiter a] \<rparr>]"
  using assms by (simp add: acc_add_def trigger_flush_def Let_def)

theorem full_batch_is_flushed_witness:
  "\<exists>a. acc_current (snd (acc_add dec (5 :: nat) a)) = None \<and> length (acc_running (snd (acc_add dec 5 a))) = 1"
proof -
  let ?obb = "\<lparr> ob_batch_id = [], ob_events = [4 :: nat], ob_waiters = [0], ob_timer = 0 \<rparr>"
  let ?a = "\<lparr> acc_batch_size = 2, acc_interval_ms = 1, acc_current = Some ?obb, acc_last_flush_at = 0,
       acc_running = [], acc_settled = [], acc_timers = [0], acc_next_waiter = 1, acc_next_batch = 1 \<rparr>"
  have "acc_current ?a = Some ?obb" "Suc (length (ob_events ?obb)) = acc_batch_size ?a" by simp_all
  from full_batch_is_flushed [OF this, of dec 5]
  have "acc_current (snd (acc_add dec 5 ?a)) = None \<and> length (acc_running (snd (acc_add dec 5 ?a))) = 1"
    by simp
  then show ?thesis by (rule exI [of _ ?a])
qed

end
