(* ===== verification/Worker_Shutdown.thy ===== *)
theory Worker_Shutdown
  imports Js_Async Worker_R2Retry
begin

text \<open>
  The graceful shutdown of the worker (\<open>apps/worker/src/consumer/shutdown.ts\<close>): pausing the
  consumer, draining what is in flight, and giving up after a timeout.

  The timer is an input: the number of rounds that the drain loop gets before the timer
  fires. So the loop is a total function of that number, and \<open>drain_settles\<close> says how many rounds are
  enough.
\<close>

definition DRAIN_POLL_INTERVAL_MS :: nat where "DRAIN_POLL_INTERVAL_MS = 20"

record 's shutdown_deps =
  sd_pause :: "('s, unit) io"
  sd_pending_job_count :: "'s \<Rightarrow> int"
  sd_size :: "'s \<Rightarrow> nat"
  sd_flush_now :: "('s, unit) io"
  sd_sleep :: "nat \<Rightarrow> 's \<Rightarrow> 's"
  sd_logger :: "jsstr \<Rightarrow> log_meta \<Rightarrow> ('s, unit) io"
  sd_timeout_ms :: js_num

definition shutdown_safe_log :: "'s shutdown_deps \<Rightarrow> jsstr \<Rightarrow> log_meta \<Rightarrow> ('s, unit) io" where
  "shutdown_safe_log deps message meta = io_catch (sd_logger deps message meta) (\<lambda>_. io_return ())"

definition still_busy :: "'s shutdown_deps \<Rightarrow> 's \<Rightarrow> bool" where
  "still_busy deps s \<longleftrightarrow> 0 < sd_pending_job_count deps s \<or> 0 < sd_size deps s"

definition drain_pause :: "'s shutdown_deps \<Rightarrow> 's \<Rightarrow> 's" where
  "drain_pause deps s =
     (if 0 < sd_pending_job_count deps s then sd_sleep deps DRAIN_POLL_INTERVAL_MS s else s)"

fun drain_loop :: "'s shutdown_deps \<Rightarrow> nat \<Rightarrow> 's \<Rightarrow> unit raced \<times> 's" where
  "drain_loop deps rounds s =
     (if \<not> still_busy deps s then (Settled (Inr ()), s)
      else
        case rounds of
          0 \<Rightarrow> (Timed_out, s)
        | Suc n \<Rightarrow>
            (case sd_flush_now deps s of
               (Inl error, s') \<Rightarrow> (Settled (Inl error), s')
             | (Inr _, s') \<Rightarrow> drain_loop deps n (drain_pause deps s')))"

declare drain_loop.simps [simp del]

definition drain :: "'s shutdown_deps \<Rightarrow> nat \<Rightarrow> 's \<Rightarrow> unit raced \<times> 's" where
  "drain deps rounds s =
     (case sd_pause deps s of
        (Inl error, s') \<Rightarrow> (Settled (Inl error), s')
      | (Inr _, s') \<Rightarrow> drain_loop deps rounds s')"

definition timeout_message :: "'s shutdown_deps \<Rightarrow> jsstr" where
  "timeout_message deps =
     js ''Shutdown sequence exceeded SHUTDOWN_TIMEOUT_MS='' @ js_num_text (sd_timeout_ms deps) @ js ''ms''"

definition on_module_destroy :: "'s shutdown_deps \<Rightarrow> nat \<Rightarrow> ('s, unit) io" where
  "on_module_destroy deps rounds s =
     (case drain deps rounds s of
        (Settled (Inr _), s') \<Rightarrow> (Inr (), s')
      | (Timed_out, s') \<Rightarrow>
          shutdown_safe_log deps
            (timeout_message deps @ js ''; proceeding with process exit '' @ [8212] @
             js '' any job still active at this point stays un-acked in BullMQ (its own lock will expire) and is redelivered to the next worker rather than lost. See apps/worker/src/consumer/shutdown.ts for why this is swallowed rather than rethrown, and why it is safe to.'')
            [(js ''shutdownTimeoutMs'', (case sd_timeout_ms deps of Integral n \<Rightarrow> JInt n | NonIntegral t \<Rightarrow> JNum t))] s'
      | (Settled (Inl error), s') \<Rightarrow>
          shutdown_safe_log deps
            (js ''Graceful shutdown's pause+drain sequence failed (not a timeout): '' @ error_message error @
             js ''; proceeding with process exit regardless.'') [] s')"

section \<open>Facts\<close>

lemma drain_loop_settled:
  "drain_loop deps rounds s = (Settled (Inr u), s') \<Longrightarrow> \<not> still_busy deps s'"
proof (induction rounds arbitrary: s)
  case 0
  then show ?case by (subst (asm) drain_loop.simps) (auto split: if_splits)
next
  case (Suc n)
  then show ?case by (subst (asm) drain_loop.simps) (auto split: if_splits prod.splits sum.splits)
qed

text \<open>Rounds that each make progress: a flush and a pause lower a measure.\<close>

lemma drain_loop_progress:
  assumes "\<And>s. still_busy deps s \<Longrightarrow> \<exists>s'. sd_flush_now deps s = (Inr (), s') \<and> m (drain_pause deps s') < m s"
  shows "m s \<le> rounds \<Longrightarrow> \<exists>s'. drain_loop deps rounds s = (Settled (Inr ()), s')"
proof (induction rounds arbitrary: s)
  case 0
  then have "\<not> still_busy deps s" using assms [of s] by auto
  then show ?case by (subst drain_loop.simps) simp
next
  case (Suc n)
  show ?case
  proof (cases "still_busy deps s")
    case True
    then obtain s1 where s1: "sd_flush_now deps s = (Inr (), s1)" "m (drain_pause deps s1) < m s"
      using assms by blast
    then have "m (drain_pause deps s1) \<le> n" using Suc.prems by linarith
    then show ?thesis using Suc.IH [of "drain_pause deps s1"] s1 True by (subst drain_loop.simps) simp
  qed (subst drain_loop.simps, simp)
qed

section \<open>Properties\<close>

text \<open>
  A drain that ends by itself without an error has left nothing behind: no job is in
  flight and the accumulator is empty. And the shutdown hook never rejects, so it never
  keeps the process from exiting.
\<close>

theorem drained_leaves_nothing:
  "fst (on_module_destroy deps rounds s) = Inr () \<and>
   (case drain deps rounds s of
      (Settled (Inr _), s') \<Rightarrow> sd_pending_job_count deps s' \<le> 0 \<and> sd_size deps s' = 0
    | _ \<Rightarrow> True)"
  by (auto simp: on_module_destroy_def shutdown_safe_log_def io_catch_app drain_def still_busy_def
      dest!: drain_loop_settled split: prod.split raced.split sum.split)

text \<open>
  When pausing works and every round of the drain makes progress, lowering some measure
  of the work left, a timeout of as many rounds as there is work is enough: the drain ends
  by itself, idle, and nothing is logged.
\<close>

theorem drain_settles:
  assumes "sd_pause deps s = (Inr (), s1)"
    and "\<And>s. still_busy deps s \<Longrightarrow> \<exists>s'. sd_flush_now deps s = (Inr (), s') \<and> m (drain_pause deps s') < (m s :: nat)"
    and "m s1 \<le> rounds"
  shows "\<exists>s'. on_module_destroy deps rounds s = (Inr (), s') \<and> \<not> still_busy deps s'"
proof -
  obtain s' where s': "drain_loop deps rounds s1 = (Settled (Inr ()), s')"
    using drain_loop_progress [of deps m s1 rounds] assms(2,3) by blast
  then show ?thesis
    using drain_loop_settled [OF s'] assms(1) by (auto simp: on_module_destroy_def drain_def)
qed

text \<open>Two numbers: the jobs in flight and the size of the open batch; a flush completes its jobs.\<close>

definition example_shutdown :: "(nat \<times> nat) shutdown_deps" where
  "example_shutdown =
     \<lparr> sd_pause = io_return (), sd_pending_job_count = (\<lambda>s. int (fst s)), sd_size = snd,
       sd_flush_now = (\<lambda>s. (Inr (), (fst s - 2, 0))), sd_sleep = (\<lambda>ms s. s),
       sd_logger = (\<lambda>message meta. io_return ()), sd_timeout_ms = Integral 1000 \<rparr>"

theorem drain_settles_witness:
  "\<exists>s'. on_module_destroy example_shutdown 8 (5, 3) = (Inr (), s') \<and> \<not> still_busy example_shutdown s'"
  by (rule drain_settles [where m = "\<lambda>s. fst s + snd s"])
     (auto simp: example_shutdown_def still_busy_def drain_pause_def)

end
