(* ===== verification/Worker_Health.thy ===== *)
theory Worker_Health
  imports Core_Db Worker_R2Retry
begin

text \<open>
  The worker's health endpoint (\<open>apps/worker/src/health.controller.ts\<close>) and the daily
  maintenance of the partitions (\<open>apps/worker/src/partitions/partition-maintenance.job.ts\<close>).
  Queue, dead-letter service, accumulator, pool and gauge are parameters.
\<close>

section \<open>Health\<close>

definition FLUSH_STALE_MULTIPLIER :: int where "FLUSH_STALE_MULTIPLIER = 3"

definition QUEUE_DEPTH_JOB_TYPES :: "jsstr list" where
  "QUEUE_DEPTH_JOB_TYPES = map js [''waiting'', ''active'', ''delayed'', ''paused'']"

record 's health_deps =
  hd_queue_counts :: "jsstr list \<Rightarrow> ('s, nat) io"
  hd_dlq_depth :: "('s, nat) io"
  hd_size :: "'s \<Rightarrow> nat"
  hd_last_flush_age_ms :: "'s \<Rightarrow> int"
  hd_flush_interval_ms :: int

datatype health_state = Health_ok | Health_unhealthy

record worker_health_status =
  wh_status :: health_state
  wh_queue_depth :: nat
  wh_dlq_depth :: nat
  wh_last_flush_age_ms :: int
  wh_batch_size :: nat

text \<open>The response: status 200, or 503 by an exception, with the same body.\<close>

datatype health_response = Health_200 worker_health_status | Health_503 worker_health_status

definition is_stale :: "int \<Rightarrow> int \<Rightarrow> nat \<Rightarrow> nat \<Rightarrow> bool" where
  "is_stale age interval queue_depth batch_size \<longleftrightarrow>
     interval * FLUSH_STALE_MULTIPLIER < age \<and> (0 < queue_depth \<or> 0 < batch_size)"

definition get_health :: "'s health_deps \<Rightarrow> ('s, health_response) io" where
  "get_health deps =
     io_bind (hd_queue_counts deps QUEUE_DEPTH_JOB_TYPES) (\<lambda>queue_depth.
     io_bind (hd_dlq_depth deps) (\<lambda>dlq_depth s.
       (let age = hd_last_flush_age_ms deps s;
            size = hd_size deps s;
            stale = is_stale age (hd_flush_interval_ms deps) queue_depth size;
            body = \<lparr> wh_status = (if stale then Health_unhealthy else Health_ok),
              wh_queue_depth = queue_depth, wh_dlq_depth = dlq_depth, wh_last_flush_age_ms = age,
              wh_batch_size = size \<rparr>
        in (Inr (if stale then Health_503 body else Health_200 body), s))))"

section \<open>Partition maintenance\<close>

definition PARTITION_MAINTENANCE_QUEUE_NAME :: jsstr where
  "PARTITION_MAINTENANCE_QUEUE_NAME = js ''partition-maintenance''"
definition PARTITION_MAINTENANCE_JOB_NAME :: jsstr where
  "PARTITION_MAINTENANCE_JOB_NAME = js ''ensure-partitions-ahead''"
definition SCHEDULER_ID :: jsstr where "SCHEDULER_ID = js ''partition-maintenance-daily''"
definition DAILY_CRON_PATTERN :: jsstr where "DAILY_CRON_PATTERN = js ''0 0 * * *''"
definition MONTHS_AHEAD :: nat where "MONTHS_AHEAD = 3"

record 's maintenance_deps =
  md_create :: "jsstr \<Rightarrow> ('s, unit) io"
  md_count_default :: "('s, nat) io"
  md_gauge_set :: "nat \<Rightarrow> 's \<Rightarrow> 's"
  md_log :: "jsstr \<Rightarrow> log_meta \<Rightarrow> 's \<Rightarrow> 's"
  md_now :: "'s \<Rightarrow> int"
  md_upsert_scheduler :: "jsstr \<Rightarrow> jsstr \<Rightarrow> jsstr \<Rightarrow> ('s, unit) io"
  md_close_worker :: "('s, unit) io"
  md_obliterate :: "('s, unit) io"
  md_close_queue :: "('s, unit) io"

definition process_partition_maintenance_job :: "'s maintenance_deps \<Rightarrow> ('s, unit) io" where
  "process_partition_maintenance_job deps =
     io_then (\<lambda>s. ensure_partitions_ahead (md_create deps) (md_now deps s) MONTHS_AHEAD s)
       (io_bind (md_count_default deps) (\<lambda>rows.
         io_then (io_do (md_gauge_set deps rows))
           (if 0 < rows then
              io_do (md_log deps
                (js ''events_default has '' @ dec rows @ js '' row(s) '' @ [8212] @
                 js '' the partition maintenance job failed to create a partition ahead of need. Rows in events_default always mean the maintenance job failed.'')
                [(js ''table'', JStr (js ''events_default'')), (js ''rowCount'', json_nat rows)])
            else io_return ())))"

definition start_partition_maintenance_job :: "'s maintenance_deps \<Rightarrow> ('s, unit) io" where
  "start_partition_maintenance_job deps =
     md_upsert_scheduler deps SCHEDULER_ID DAILY_CRON_PATTERN PARTITION_MAINTENANCE_JOB_NAME"

definition on_maintenance_failed :: "'s maintenance_deps \<Rightarrow> jsstr option \<Rightarrow> thrown \<Rightarrow> 's \<Rightarrow> 's" where
  "on_maintenance_failed deps job_id error =
     md_log deps
       (js ''Partition maintenance job '' @ (case job_id of None \<Rightarrow> js ''(unknown)'' | Some i \<Rightarrow> i) @
        js '' failed: '' @ error_message error)
       ((case job_id of None \<Rightarrow> [] | Some i \<Rightarrow> [(js ''jobId'', JStr i)]) @
        [(js ''error'', JStr (error_message error))])"

definition both_failed :: "thrown \<Rightarrow> thrown \<Rightarrow> thrown" where
  "both_failed obliterate_error close_error =
     new_error (js ''Failed to clean up the partition maintenance queue: obliterate() failed with '' @ [34] @
       error_message obliterate_error @ [34] @ js '', then close() failed with '' @ [34] @
       error_message close_error @ [34] @ js ''.'')"

text \<open>\<open>close\<close>: the queue is closed also when it could not be obliterated; errors are objects.\<close>

definition close_maintenance :: "'s maintenance_deps \<Rightarrow> ('s, unit) io" where
  "close_maintenance deps =
     io_then (md_close_worker deps)
       (io_settle (md_obliterate deps) (\<lambda>o1.
         io_settle (md_close_queue deps) (\<lambda>o2.
           case (o1, o2) of
             (Inl e1, Inl e2) \<Rightarrow> io_throw (both_failed e1 e2)
           | (Inl e1, Inr _) \<Rightarrow> io_throw e1
           | (Inr _, Inl e2) \<Rightarrow> io_throw e2
           | (Inr _, Inr _) \<Rightarrow> io_return ())))"

section \<open>Properties\<close>

text \<open>
  The endpoint answers 503 exactly when there is work (queued jobs or an open batch) and
  the last flush is older than three flush intervals; an idle worker is never unhealthy. It
  fails only when one of the two counts does.
\<close>

theorem health_unhealthy_iff_stuck:
  assumes "hd_queue_counts deps QUEUE_DEPTH_JOB_TYPES s = (Inr q, s1)" and "hd_dlq_depth deps s1 = (Inr d, s2)"
  shows "\<exists>body. get_health deps s =
      (Inr (if wh_status body = Health_unhealthy then Health_503 body else Health_200 body), s2) \<and>
    wh_queue_depth body = q \<and> wh_dlq_depth body = d \<and> wh_batch_size body = hd_size deps s2 \<and>
    (wh_status body = Health_unhealthy \<longleftrightarrow>
      (0 < q \<or> 0 < hd_size deps s2) \<and> 3 * hd_flush_interval_ms deps < hd_last_flush_age_ms deps s2)"
  using assms
  by (intro exI [of _ "\<lparr> wh_status = (if is_stale (hd_last_flush_age_ms deps s2) (hd_flush_interval_ms deps) q (hd_size deps s2)
        then Health_unhealthy else Health_ok), wh_queue_depth = q, wh_dlq_depth = d,
      wh_last_flush_age_ms = hd_last_flush_age_ms deps s2, wh_batch_size = hd_size deps s2 \<rparr>"])
     (auto simp: get_health_def Let_def is_stale_def FLUSH_STALE_MULTIPLIER_def)

definition example_health :: "unit health_deps" where
  "example_health = \<lparr> hd_queue_counts = (\<lambda>kinds. io_return 2), hd_dlq_depth = io_return 0, hd_size = (\<lambda>_. 0),
     hd_last_flush_age_ms = (\<lambda>_. 40), hd_flush_interval_ms = 10 \<rparr>"

theorem health_unhealthy_iff_stuck_witness:
  "\<exists>body. get_health example_health () =
      (Inr (if wh_status body = Health_unhealthy then Health_503 body else Health_200 body), ()) \<and>
    wh_queue_depth body = 2 \<and> wh_dlq_depth body = 0 \<and> wh_batch_size body = hd_size example_health () \<and>
    (wh_status body = Health_unhealthy \<longleftrightarrow>
      (0 < (2::nat) \<or> 0 < hd_size example_health ()) \<and>
      3 * hd_flush_interval_ms example_health < hd_last_flush_age_ms example_health ())"
  by (rule health_unhealthy_iff_stuck) (simp_all add: example_health_def)

end
