(* ===== verification/Worker_Replay.thy ===== *)
theory Worker_Replay
  imports Worker_Flush Core_Keys
begin

text \<open>
  Rebuilding the \<open>events\<close> table from the R2 event log (\<open>apps/worker/src/cli/replay-driver.ts\<close> and
  \<open>replay.ts\<close>): the driver, which reads the records of some prefixes and inserts them in
  batches, and the command line around it.

  Listing and reading objects are parameters with the pages and bodies they return
  (\<open>Core_Ndjson\<close>); the objects do not change during a replay, so the records are a list, with the
  error that ends it if there is one. \<open>toNewEventRow\<close> of a record that is not a logged event is a
  parameter (\<open>rd_other_row\<close>). \<open>util.parseArgs\<close> is a parameter of the command line.
\<close>

section \<open>The driver\<close>

definition DEFAULT_REPLAY_BATCH_SIZE :: nat where "DEFAULT_REPLAY_BATCH_SIZE = 500"

record 's replay_deps =
  rd_insert :: "'s insert_statement"
  rd_list_objects :: "jsstr \<Rightarrow> jsstr option \<Rightarrow> list_page outcome"
  rd_get_object :: "jsstr \<Rightarrow> get_object"
  rd_list_fuel :: nat
  rd_date :: "jsstr \<Rightarrow> int option"
  rd_other_row :: "json \<Rightarrow> new_event outcome"

record replay_summary =
  rs_records_read :: nat
  rs_batches_written :: nat

definition replay_row :: "'s replay_deps \<Rightarrow> json \<Rightarrow> new_event outcome" where
  "replay_row deps v =
     (case read_logged v of
        Some e \<Rightarrow> Inr (to_new_event_row (rd_date deps) e)
      | None \<Rightarrow> rd_other_row deps v)"

definition flush_buffer :: "'s replay_deps \<Rightarrow> new_event list \<Rightarrow> nat \<Rightarrow> ('s, nat) io" where
  "flush_buffer deps buffer written =
     (if buffer = [] then io_return written
      else io_then (insert_events_batch (rd_insert deps) buffer) (io_return (Suc written)))"

text \<open>The loop over the records; the arguments after the batch size are its local variables.\<close>

fun replay_records ::
    "'s replay_deps \<Rightarrow> nat \<Rightarrow> (json \<Rightarrow> bool) option \<Rightarrow> thrown option \<Rightarrow>
     new_event list \<Rightarrow> nat \<Rightarrow> nat \<Rightarrow> json list \<Rightarrow> ('s, replay_summary) io" where
  "replay_records deps batch_size keep err buffer read written [] =
     (case err of
        Some e \<Rightarrow> io_throw e
      | None \<Rightarrow>
          io_bind (flush_buffer deps buffer written) (\<lambda>written'.
            io_return \<lparr> rs_records_read = read, rs_batches_written = written' \<rparr>))"
| "replay_records deps batch_size keep err buffer read written (v # vs) =
     (if (case keep of Some f \<Rightarrow> \<not> f v | None \<Rightarrow> False) then
        replay_records deps batch_size keep err buffer (Suc read) written vs
      else
        (case replay_row deps v of
           Inl e \<Rightarrow> io_throw e
         | Inr row \<Rightarrow>
             if batch_size \<le> length buffer + 1 then
               io_bind (flush_buffer deps (buffer @ [row]) written) (\<lambda>written'.
                 replay_records deps batch_size keep err [] (Suc read) written' vs)
             else replay_records deps batch_size keep err (buffer @ [row]) (Suc read) written vs))"

text \<open>\<open>None\<close> when the listing does not end within its fuel.\<close>

definition replay_event_log ::
    "'s replay_deps \<Rightarrow> jsstr list \<Rightarrow> nat option \<Rightarrow> (json \<Rightarrow> bool) option \<Rightarrow> ('s, replay_summary) io option" where
  "replay_event_log deps pfxs batch_size keep =
     map_option
       (\<lambda>(vs, err).
          replay_records deps (case batch_size of None \<Rightarrow> DEFAULT_REPLAY_BATCH_SIZE | Some n \<Rightarrow> n) keep err [] 0 0 vs)
       (stream_event_log (rd_list_fuel deps) (rd_list_objects deps) (rd_get_object deps) pfxs)"

section \<open>The arguments\<close>

record replay_cli_options =
  rc_from :: jsstr
  rc_to :: jsstr
  rc_tenant_id :: "jsstr option"
  rc_dry_run :: bool
  rc_batch_size :: "nat option"

record raw_replay_args =
  ra_from :: "jsstr option"
  ra_to :: "jsstr option"
  ra_tenant :: "jsstr option"
  ra_dry_run :: "bool option"
  ra_batch_size :: "jsstr option"

definition MAX_BATCH_SIZE :: nat where "MAX_BATCH_SIZE = 500"

definition replay_args_error :: "jsstr \<Rightarrow> thrown" where
  "replay_args_error message =
     Err (js ''ReplayArgsError'') (js ''ReplayArgsError'') message None None False None"

definition quoted :: "jsstr \<Rightarrow> jsstr" where
  "quoted s = [34] @ s @ [34]"

definition parse_required_date ::
    "(jsstr \<Rightarrow> int option) \<Rightarrow> jsstr option \<Rightarrow> jsstr \<Rightarrow> (jsstr \<times> int) outcome" where
  "parse_required_date date_value raw flag =
     (case raw of
        None \<Rightarrow> Inl (replay_args_error (js ''posta replay: '' @ flag @ js '' is required''))
      | Some s \<Rightarrow>
          if s = [] then Inl (replay_args_error (js ''posta replay: '' @ flag @ js '' is required''))
          else
            (case date_value s of
               None \<Rightarrow>
                 Inl (replay_args_error (js ''posta replay: '' @ flag @ js '' '' @ quoted s @
                   js '' is not a valid ISO-8601 date''))
             | Some t \<Rightarrow> Inr (s, t)))"

text \<open>
  \<open>Number.parseInt\<close> of decimal digits is infinite from \<open>2 ^ 1024 - 2 ^ 970\<close> on, where rounding
  to a double overflows, and then it is no integer.
\<close>

definition parse_batch_size :: "jsstr \<Rightarrow> nat outcome" where
  "parse_batch_size raw =
     (let fully_numeric = matches (Plus (Cls is_digit)) raw; parsed = undec raw in
      if \<not> fully_numeric \<or> 2 ^ 1024 - 2 ^ 970 \<le> parsed \<or> parsed = 0 then
        Inl (replay_args_error (js ''posta replay: --batch-size '' @ quoted raw @ js '' must be a positive integer''))
      else if MAX_BATCH_SIZE < parsed then
        Inl (replay_args_error (js ''posta replay: --batch-size '' @ quoted raw @ js '' exceeds the maximum of '' @
          dec MAX_BATCH_SIZE @ js '' (matches EVENT_BATCH_SIZE's own production ceiling '' @ [8212] @
          js '' apps/worker/src/env.ts)''))
      else Inr parsed)"

definition parse_replay_args ::
    "(jsstr list \<Rightarrow> raw_replay_args outcome) \<Rightarrow> (jsstr \<Rightarrow> int option) \<Rightarrow> jsstr list \<Rightarrow> replay_cli_options outcome" where
  "parse_replay_args parse_args date_value argv =
     (case parse_args argv of
        Inl cause \<Rightarrow>
          Inl (replay_args_error (js ''posta replay: failed to parse arguments: '' @ error_message cause))
      | Inr raw \<Rightarrow>
          (case parse_required_date date_value (ra_from raw) (js ''--from'') of
             Inl e \<Rightarrow> Inl e
           | Inr (from_raw, from_time) \<Rightarrow>
               (case parse_required_date date_value (ra_to raw) (js ''--to'') of
                  Inl e \<Rightarrow> Inl e
                | Inr (to_raw, to_time) \<Rightarrow>
                    if to_time < from_time then
                      Inl (replay_args_error (js ''posta replay: --from ('' @ quoted from_raw @
                        js '') is after --to ('' @ quoted to_raw @ js '') '' @ [8212] @ js '' check for swapped flags''))
                    else
                      (case (case ra_batch_size raw of
                               None \<Rightarrow> Inr None
                             | Some b \<Rightarrow> map_sum id Some (parse_batch_size b)) of
                         Inl e \<Rightarrow> Inl e
                       | Inr batch_size \<Rightarrow>
                           Inr \<lparr> rc_from = from_raw, rc_to = to_raw, rc_tenant_id = ra_tenant raw,
                             rc_dry_run = (ra_dry_run raw = Some True), rc_batch_size = batch_size \<rparr>))))"

section \<open>The command line\<close>

record 's replay_cli_deps =
  rl_driver :: "'s replay_deps"
  rl_parse_args :: "jsstr list \<Rightarrow> raw_replay_args outcome"
  rl_stdout :: "jsstr \<Rightarrow> 's \<Rightarrow> 's"
  rl_stderr :: "jsstr \<Rightarrow> 's \<Rightarrow> 's"

record replay_cli_result =
  rr_exit_code :: nat
  rr_matched_count :: "nat option"
  rr_summary :: "replay_summary option"

definition EXIT_OK :: nat where "EXIT_OK = 0"
definition EXIT_ARGS_ERROR :: nat where "EXIT_ARGS_ERROR = 1"
definition EXIT_RUNTIME_ERROR :: nat where "EXIT_RUNTIME_ERROR = 2"

definition warn_if_tenant_matched_nothing ::
    "(jsstr \<Rightarrow> 's \<Rightarrow> 's) \<Rightarrow> jsstr option \<Rightarrow> nat \<Rightarrow> nat \<Rightarrow> 's \<Rightarrow> 's" where
  "warn_if_tenant_matched_nothing stderr tenant_id records_read matched_count s =
     (case tenant_id of
        None \<Rightarrow> s
      | Some t \<Rightarrow>
          if records_read = 0 \<or> 0 < matched_count then s
          else
            stderr (js ''posta replay: --tenant '' @ quoted t @ js '' matched 0 of '' @ dec records_read @
              js '' record(s) read in range '' @ [8212] @
              js '' not an error, but double-check the tenant id if that is unexpected.'') s)"

text \<open>\<open>record.tenant_id === tenantId\<close> on a record that may be any object.\<close>

definition matches_tenant :: "jsstr \<Rightarrow> json \<Rightarrow> bool" where
  "matches_tenant t v = (case v of JObj ms \<Rightarrow> map_of ms (js ''tenant_id'') = Some (JStr t) | _ \<Rightarrow> False)"

definition matches_tenant_option :: "jsstr option \<Rightarrow> json \<Rightarrow> bool" where
  "matches_tenant_option tenant_id v = (case tenant_id of None \<Rightarrow> True | Some t \<Rightarrow> matches_tenant t v)"

definition cli_failed :: "'s replay_cli_deps \<Rightarrow> thrown \<Rightarrow> 's \<Rightarrow> replay_cli_result \<times> 's" where
  "cli_failed deps e s =
     (\<lparr> rr_exit_code = EXIT_RUNTIME_ERROR, rr_matched_count = None, rr_summary = None \<rparr>,
      rl_stderr deps (js ''posta replay: failed: '' @ error_message e) s)"

definition dry_run ::
    "'s replay_cli_deps \<Rightarrow> jsstr option \<Rightarrow> json list \<times> thrown option \<Rightarrow> 's \<Rightarrow> replay_cli_result \<times> 's" where
  "dry_run deps tenant_id records s =
     (case records of
        (_, Some e) \<Rightarrow> cli_failed deps e s
      | (vs, None) \<Rightarrow>
          (let matched = length (filter (matches_tenant_option tenant_id) vs);
               s' = warn_if_tenant_matched_nothing (rl_stderr deps) tenant_id (length vs) matched s in
           (\<lparr> rr_exit_code = EXIT_OK, rr_matched_count = Some matched, rr_summary = None \<rparr>,
            rl_stdout deps
              (js ''posta replay --dry-run: '' @ dec matched @ js '' record(s) would be replayed'' @
               (case tenant_id of None \<Rightarrow> [] | Some t \<Rightarrow> js '' for tenant '' @ quoted t) @ js '', 0 inserted'') s')))"

definition replay_done ::
    "'s replay_cli_deps \<Rightarrow> jsstr option \<Rightarrow> replay_summary outcome \<times> 's \<Rightarrow> replay_cli_result \<times> 's" where
  "replay_done deps tenant_id result =
     (case result of
        (Inl e, s) \<Rightarrow> cli_failed deps e s
      | (Inr summary, s) \<Rightarrow>
          (\<lparr> rr_exit_code = EXIT_OK, rr_matched_count = None, rr_summary = Some summary \<rparr>,
           rl_stdout deps
             (js ''posta replay: read '' @ dec (rs_records_read summary) @ js '' record(s), wrote '' @
              dec (rs_batches_written summary) @ js '' batch(es)'' @
              (case tenant_id of None \<Rightarrow> [] | Some t \<Rightarrow> js '' (filtered to tenant '' @ quoted t @ js '')''))
             (warn_if_tenant_matched_nothing (rl_stderr deps) tenant_id (rs_records_read summary)
               (rs_batches_written summary) s)))"

definition run_replay_cli ::
    "'s replay_cli_deps \<Rightarrow> jsstr list \<Rightarrow> 's \<Rightarrow> (replay_cli_result \<times> 's) option" where
  "run_replay_cli deps argv s =
     (let driver = rl_driver deps in
      case parse_replay_args (rl_parse_args deps) (rd_date driver) argv of
        Inl e \<Rightarrow>
          Some (\<lparr> rr_exit_code = EXIT_ARGS_ERROR, rr_matched_count = None, rr_summary = None \<rparr>,
            rl_stderr deps (error_message e) s)
      | Inr options \<Rightarrow>
          (case event_prefixes (rd_date driver) (rc_from options) (rc_to options) of
             Inl e \<Rightarrow> Some (cli_failed deps e s)
           | Inr pfxs \<Rightarrow>
               if rc_dry_run options then
                 map_option (\<lambda>records. dry_run deps (rc_tenant_id options) records s)
                   (stream_event_log (rd_list_fuel driver) (rd_list_objects driver) (rd_get_object driver) pfxs)
               else
                 map_option (\<lambda>run. replay_done deps (rc_tenant_id options) (run s))
                   (replay_event_log driver pfxs (rc_batch_size options)
                     (map_option matches_tenant (rc_tenant_id options)))))"

section \<open>What a replay inserts\<close>

text \<open>A table that only the replay writes: the insertion statement on a list of rows.\<close>

definition table_insert :: "new_event list insert_statement" where
  "table_insert rows table = (let (t, ids) = on_conflict_do_nothing rows table in (Inr ids, t))"

lemma on_conflict_batches:
  "fst (on_conflict_do_nothing (xs @ ys) table) =
   fst (on_conflict_do_nothing ys (fst (on_conflict_do_nothing xs table)))"
  by (induction xs table rule: on_conflict_do_nothing.induct) (auto simp: case_prod_unfold Let_def)

definition kept :: "(json \<Rightarrow> bool) option \<Rightarrow> json list \<Rightarrow> json list" where
  "kept keep vs = (case keep of None \<Rightarrow> vs | Some f \<Rightarrow> filter f vs)"

lemma kept_simps [simp]:
  "kept keep [] = []"
  "kept keep (v # vs) = (if (case keep of Some f \<Rightarrow> \<not> f v | None \<Rightarrow> False) then kept keep vs else v # kept keep vs)"
  by (simp_all add: kept_def split: option.split)

lemma flush_buffer_table:
  assumes "rd_insert deps = table_insert"
  shows "\<exists>n. flush_buffer deps buffer written table = (Inr n, fst (on_conflict_do_nothing buffer table))"
  using assms
  by (auto simp: flush_buffer_def insert_events_batch_def table_insert_def io_apps case_prod_unfold Let_def)

lemma replay_records_table:
  assumes insert: "rd_insert deps = table_insert"
    and rows: "map (replay_row deps) (kept keep vs) = map Inr rows"
  shows "\<exists>n. replay_records deps batch_size keep None buffer read written vs table =
    (Inr \<lparr> rs_records_read = read + length vs, rs_batches_written = n \<rparr>,
     fst (on_conflict_do_nothing (buffer @ rows) table))"
  using rows
proof (induction vs arbitrary: buffer read written rows table)
  case Nil
  then show ?case using flush_buffer_table [OF insert, of buffer written table] by (auto simp: io_bind_app)
next
  case (Cons v vs)
  show ?case
  proof (cases "case keep of Some f \<Rightarrow> \<not> f v | None \<Rightarrow> False")
    case True
    then show ?thesis using Cons.IH [of rows buffer "Suc read" written table] Cons.prems by simp
  next
    case False
    then obtain row rest where r: "rows = row # rest" "replay_row deps v = Inr row"
        "map (replay_row deps) (kept keep vs) = map Inr rest"
      using Cons.prems by (cases rows) auto
    obtain n where n: "flush_buffer deps (buffer @ [row]) written table =
        (Inr n, fst (on_conflict_do_nothing (buffer @ [row]) table))"
      using flush_buffer_table [OF insert] by blast
    show ?thesis
      using False r n Cons.IH [OF r(3), of "[]" "Suc read" n "fst (on_conflict_do_nothing (buffer @ [row]) table)"]
        Cons.IH [OF r(3), of "buffer @ [row]" "Suc read" written table]
      using on_conflict_batches [of "buffer @ [row]" rest table]
      by (auto simp: io_bind_app)
  qed
qed

section \<open>Properties\<close>

text \<open>
  A replay gives the table that a single insertion of all the selected records in the
  order of the log would give, whatever the batch size, and it reads every record.
\<close>

theorem replay_is_one_insertion:
  assumes "rd_insert deps = table_insert"
    and "stream_event_log (rd_list_fuel deps) (rd_list_objects deps) (rd_get_object deps) pfxs = Some (vs, None)"
    and "map (replay_row deps) (kept keep vs) = map Inr rows"
  shows "\<exists>run b. replay_event_log deps pfxs batch_size keep = Some run \<and>
    run table = (Inr \<lparr> rs_records_read = length vs, rs_batches_written = b \<rparr>,
      fst (on_conflict_do_nothing rows table))"
  using assms replay_records_table [OF assms(1,3), where read = 0 and buffer = "[]"]
  by (auto simp: replay_event_log_def)


definition example_flush :: "unit flush_deps" where
  "example_flush =
     \<lparr> fd_env = silent_env, fd_read_links = io_return [], fd_r2_send = (\<lambda>b k t. io_return ()),
       fd_r2_bucket = [], fd_dlq = rejecting_dlq_sink, fd_insert = (\<lambda>rows. io_return []),
       fd_retry = DEFAULT_R2_RETRY, fd_enrich = \<lparr> url_hostname = (\<lambda>_. None), ua_parser = (\<lambda>_. None) \<rparr>,
       fd_date = (\<lambda>_. Some 0) \<rparr>"

definition example_batch :: "capture_event list" where
  "example_batch = [example_event (js ''a'') (js ''s'')]"

definition example_logged_event :: logged_event where
  "example_logged_event = to_logged_event (fd_enrich example_flush) (example_event (js ''a'') (js ''s'')) None"

lemma example_batch_logged:
  "logged_batch (fd_enrich example_flush) (resolve_batch [] example_batch) = [example_logged_event]"
  by (simp add: example_logged_event_def logged_batch_def resolve_batch_def example_batch_def
      resolve_destination_def resolve_destinations_by_link_ids_def example_event_def)

lemma example_logged_event_eq:
  "example_logged_event = capture_event.extend (example_event (js ''a'') (js ''s''))
     (logged_event.fields None None None None (Platform Directo) False None)"
  by (simp add: example_logged_event_def to_logged_event_def example_event_def enrich_def example_flush_def
      resolve_source_platform_def platform_of_ua_def parse_user_agent_def all_null_result_def is_in_app_def
      Let_def)

lemma example_logged_event_ok:
  "integral_asn example_logged_event" "known_platform example_logged_event"
  by (simp_all add: example_logged_event_eq integral_asn_def known_platform_def example_event_def
      capture_event.extend_def logged_event.fields_def)

lemma example_logged_event_separators: "separator_free example_logged_event"
  by (simp add: separator_free_def serialize_event_def to_log_line_def example_logged_event_eq
      example_event_def capture_event.extend_def logged_event.fields_def json_nullable_def
      json_number_def source_json_def device_text_def platform_text_def quote_def chars.simps
      quote_char_def is_surrogate_def is_high_def is_low_def dec_signed_def dec.simps str_eval)

definition example_replay :: "new_event list replay_deps" where
  "example_replay =
     \<lparr> rd_insert = table_insert,
       rd_list_objects = (\<lambda>p t. Inr \<lparr> lp_contents = [Some (js ''k'')], lp_is_truncated = False, lp_next_token = None \<rparr>),
       rd_get_object = (\<lambda>k. Body (serialize_batch [example_logged_event])), rd_list_fuel = 1,
       rd_date = (\<lambda>_. Some 0), rd_other_row = (\<lambda>_. Inl (new_error [])) \<rparr>"


lemma example_replay_stream:
  "stream_event_log (rd_list_fuel example_replay) (rd_list_objects example_replay) (rd_get_object example_replay)
     [js ''p''] = Some ([to_log_line example_logged_event], None)"
proof -
  have "stream_records_from_object (rd_get_object example_replay) (js ''k'') = (map to_log_line [example_logged_event], None)"
    by (rule stream_serialized)
       (simp_all add: example_replay_def example_logged_event_ok example_logged_event_separators)
  then show ?thesis by (simp add: example_replay_def page_keys_def js_def)
qed

theorem replay_is_one_insertion_witness:
  "\<exists>run b. replay_event_log example_replay [js ''p''] (Some 1) None = Some run \<and>
    run [] = (Inr \<lparr> rs_records_read = length [to_log_line example_logged_event], rs_batches_written = b \<rparr>,
      fst (on_conflict_do_nothing [to_new_event_row (\<lambda>_. Some 0) example_logged_event] []))"
  by (rule replay_is_one_insertion [OF _ example_replay_stream])
     (simp_all add: example_replay_def replay_row_def kept_def read_log_line example_logged_event_ok)

text \<open>
  Options that the argument parser accepts are usable: both instants are dates, the first is
  not after the second, and a batch size is between 1 and 500.
\<close>

theorem parsed_replay_args_are_valid:
  assumes "parse_replay_args parse_args date_value argv = Inr options"
  shows "\<exists>f t. date_value (rc_from options) = Some f \<and> date_value (rc_to options) = Some t \<and> f \<le> t \<and>
    (case rc_batch_size options of None \<Rightarrow> True | Some n \<Rightarrow> n \<in> {1..500})"
proof -
  have batch: "1 \<le> n \<and> n \<le> 500" if "map_sum id Some (parse_batch_size raw) = Inr (Some n)" for raw n
    using that by (cases "parse_batch_size raw")
      (auto simp: parse_batch_size_def Let_def MAX_BATCH_SIZE_def split: if_splits)
  show ?thesis
    using assms
    by (auto simp: parse_replay_args_def parse_required_date_def dest!: batch
        split: sum.splits option.splits if_splits prod.splits)
qed

definition example_raw_args :: raw_replay_args where
  "example_raw_args = \<lparr> ra_from = Some (js ''a''), ra_to = Some (js ''b''), ra_tenant = None, ra_dry_run = None,
     ra_batch_size = None \<rparr>"

definition example_options :: replay_cli_options where
  "example_options = \<lparr> rc_from = js ''a'', rc_to = js ''b'', rc_tenant_id = None, rc_dry_run = False,
     rc_batch_size = None \<rparr>"

theorem parsed_replay_args_are_valid_witness:
  "\<exists>f t. (Some (0::int)) = Some f \<and> Some (0::int) = Some t \<and> f \<le> t \<and>
    (case rc_batch_size example_options of None \<Rightarrow> True | Some n \<Rightarrow> n \<in> {1..500})"
proof -
  have "parse_replay_args (\<lambda>_. Inr example_raw_args) (\<lambda>_. Some 0) [] = Inr example_options"
    by (simp add: parse_replay_args_def example_raw_args_def example_options_def parse_required_date_def js_def)
  from parsed_replay_args_are_valid [OF this] show ?thesis .
qed

text \<open>
  A dry run writes nothing and a command line that is not understood reads nothing
  either: when the two output streams leave the state alone, so does the command, and the
  exit code tells the three outcomes apart.
\<close>

theorem dry_run_writes_nothing:
  assumes "\<And>line s. rl_stdout deps line s = s" "\<And>line s. rl_stderr deps line s = s"
    and "run_replay_cli deps argv s = Some (result, s')"
    and "case parse_replay_args (rl_parse_args deps) (rd_date (rl_driver deps)) argv of
           Inl _ \<Rightarrow> True | Inr options \<Rightarrow> rc_dry_run options"
  shows "s' = s \<and> rr_summary result = None \<and>
    rr_exit_code result \<in> {EXIT_OK, EXIT_ARGS_ERROR, EXIT_RUNTIME_ERROR}"
  using assms
  by (auto simp: run_replay_cli_def cli_failed_def dry_run_def warn_if_tenant_matched_nothing_def Let_def
      split: sum.splits option.splits prod.splits if_splits)

definition example_cli :: "new_event list replay_cli_deps" where
  "example_cli = \<lparr> rl_driver = example_replay, rl_parse_args = (\<lambda>_. Inl (new_error [])),
     rl_stdout = (\<lambda>line s. s), rl_stderr = (\<lambda>line s. s) \<rparr>"

theorem dry_run_writes_nothing_witness:
  "\<exists>result s'. run_replay_cli example_cli [] [] = Some (result, s') \<and> s' = [] \<and> rr_summary result = None \<and>
    rr_exit_code result \<in> {EXIT_OK, EXIT_ARGS_ERROR, EXIT_RUNTIME_ERROR}"
proof -
  have parse: "parse_replay_args (rl_parse_args example_cli) (rd_date (rl_driver example_cli)) [] =
      Inl (replay_args_error (js ''posta replay: failed to parse arguments: ''))"
    by (simp add: parse_replay_args_def example_cli_def)
  then obtain result where run: "run_replay_cli example_cli [] [] = Some (result, [])"
    by (simp add: run_replay_cli_def Let_def example_cli_def)
  have "[] = ([] :: new_event list) \<and> rr_summary result = None \<and>
      rr_exit_code result \<in> {EXIT_OK, EXIT_ARGS_ERROR, EXIT_RUNTIME_ERROR}"
    by (rule dry_run_writes_nothing [OF _ _ run]) (simp_all add: parse, simp_all add: example_cli_def)
  with run show ?thesis by blast
qed

end
