(* ===== verification/Worker_ReplayReport.thy ===== *)
theory Worker_ReplayReport
  imports Worker_Replay Worker_Dlq
begin

text \<open>
  The replay with a report (\<open>apps/worker/src/cli/replay-report.ts\<close>): every record of the log is
  checked against a schema, good records are inserted in batches, rejected ones are counted
  by reason, and the counts are reconciled at the end.

  The pages of the object listing, the issues zod reports for a bad record, the clock and
  the two output streams are parameters.
\<close>

section \<open>Records\<close>

text \<open>\<open>ReplayRecordSchema\<close>: other members are allowed.\<close>

definition replay_record_schema :: "(jsstr \<Rightarrow> bool) \<Rightarrow> json \<Rightarrow> bool" where
  "replay_record_schema z_datetime v =
     (case v of
        JObj ms \<Rightarrow>
          (let f = map_of ms; ok = (\<lambda>check k. z_string check (f k) \<noteq> None) in
           ok (matches ULID_PATTERN) (js ''event_id'') \<and> ok z_datetime (js ''occurred_at'') \<and>
           ok (\<lambda>s. s \<noteq> []) (js ''tenant_id'') \<and> ok (\<lambda>s. s \<noteq> []) (js ''link_id'') \<and>
           ok (\<lambda>s. s \<noteq> []) (js ''slug'') \<and> ok (\<lambda>s. s \<noteq> []) (js ''source_platform'') \<and>
           cast_bool (f (js ''is_in_app'')) \<noteq> None)
      | _ \<Rightarrow> False)"

definition describe_rejection :: "zod_issue list \<Rightarrow> jsstr" where
  "describe_rejection issues =
     join_with (js ''; '')
       (map (\<lambda>issue.
          (if zi_path issue \<noteq> [] then join_with (js ''.'') (map property_key_text (zi_path issue)) else js ''(root)'') @
          js '': '' @ zi_message issue) issues)"

section \<open>The report\<close>

record replay_counts =
  ct_objects_read :: nat
  ct_records_parsed :: nat
  ct_rows_inserted :: int
  ct_rows_skipped :: int
  ct_rejection_reasons :: "(jsstr \<times> nat) list"

record replay_report = replay_counts +
  ct_rows_rejected :: nat
  ct_reconciled :: bool
  ct_exit_code :: nat

definition EXIT_RECONCILIATION_MISMATCH :: nat where "EXIT_RECONCILIATION_MISMATCH = 3"

definition build_replay_report :: "replay_counts \<Rightarrow> replay_report" where
  "build_replay_report counts =
     (let rejected = foldl (\<lambda>sum entry. sum + snd entry) 0 (ct_rejection_reasons counts);
          reconciled = (ct_rows_inserted counts + ct_rows_skipped counts = int (ct_records_parsed counts)) in
      replay_counts.extend counts
        (replay_report.fields rejected reconciled (if reconciled then EXIT_OK else EXIT_RECONCILIATION_MISMATCH)))"

definition format_progress_line :: "nat \<Rightarrow> nat \<Rightarrow> int \<Rightarrow> jsstr" where
  "format_progress_line objects_read records_parsed elapsed_ms =
     js ''posta replay-report: progress '' @ [8212] @ js '' objects read: '' @ dec objects_read @
     js '', records parsed: '' @ dec records_parsed @ js '', elapsed: '' @ dec_int elapsed_ms @ js ''ms''"

definition format_final_report_lines :: "replay_report \<Rightarrow> jsstr list" where
  "format_final_report_lines report =
     [js ''posta replay-report: objects read: '' @ dec (ct_objects_read report),
      js ''posta replay-report: records parsed: '' @ dec (ct_records_parsed report),
      js ''posta replay-report: rows inserted: '' @ dec_int (ct_rows_inserted report),
      js ''posta replay-report: rows skipped (already present): '' @ dec_int (ct_rows_skipped report),
      js ''posta replay-report: rows rejected: '' @ dec (ct_rows_rejected report)] @
     map (\<lambda>entry. js ''posta replay-report:   rejected ('' @ dec (snd entry) @ js ''x): '' @ fst entry)
       (ct_rejection_reasons report) @
     [if ct_reconciled report then
        js ''posta replay-report: reconciliation OK '' @ [8212] @ js '' inserted ('' @
        dec_int (ct_rows_inserted report) @ js '') + skipped ('' @ dec_int (ct_rows_skipped report) @
        js '') = parsed ('' @ dec (ct_records_parsed report) @ js '')''
      else
        js ''posta replay-report: RECONCILIATION MISMATCH '' @ [8212] @ js '' inserted ('' @
        dec_int (ct_rows_inserted report) @ js '') + skipped ('' @ dec_int (ct_rows_skipped report) @
        js '') '' @ [8800] @ js '' parsed ('' @ dec (ct_records_parsed report) @
        js ''); replay exits non-zero rather than report a rebuild that may have silently lost rows'']"

section \<open>The run\<close>

record 's report_deps =
  rq_driver :: "'s replay_deps"
  rq_list_pages :: "jsstr \<Rightarrow> nat list \<times> thrown option"
  rq_datetime :: "jsstr \<Rightarrow> bool"
  rq_issues :: "json \<Rightarrow> zod_issue list"
  rq_now :: "'s \<Rightarrow> int"
  rq_stdout :: "jsstr \<Rightarrow> 's \<Rightarrow> 's"
  rq_stderr :: "jsstr \<Rightarrow> 's \<Rightarrow> 's"

record report_state =
  st_parsed :: nat
  st_inserted :: int
  st_skipped :: int
  st_since_progress :: nat
  st_rejections :: "(jsstr, nat) js_map"
  st_buffer :: "new_event list"

fun count_objects_under_prefixes :: "'s report_deps \<Rightarrow> nat \<Rightarrow> jsstr list \<Rightarrow> nat outcome" where
  "count_objects_under_prefixes deps count [] = Inr count"
| "count_objects_under_prefixes deps count (pfx # ps) =
     (case rq_list_pages deps pfx of
        (_, Some e) \<Rightarrow> Inl e
      | (pages, None) \<Rightarrow> count_objects_under_prefixes deps (count + sum_list pages) ps)"

definition report_flush :: "'s report_deps \<Rightarrow> report_state \<Rightarrow> ('s, report_state) io" where
  "report_flush deps st =
     (if st_buffer st = [] then io_return st
      else
        io_bind (insert_events_batch_with_counts (rd_insert (rq_driver deps)) (st_buffer st)) (\<lambda>ids.
          io_return (st\<lparr> st_inserted := st_inserted st + int (length ids),
            st_skipped := st_skipped st + (int (length (st_buffer st)) - int (length ids)),
            st_buffer := [] \<rparr>)))"

definition report_rejection :: "'s report_deps \<Rightarrow> json \<Rightarrow> report_state \<Rightarrow> report_state" where
  "report_rejection deps v st =
     (let reason = describe_rejection (rq_issues deps v);
          count = (case map_get (st_rejections st) reason of None \<Rightarrow> 0 | Some n \<Rightarrow> n) in
      st\<lparr> st_rejections := map_set reason (count + 1) (st_rejections st) \<rparr>)"

definition report_progress :: "'s report_deps \<Rightarrow> nat \<Rightarrow> int \<Rightarrow> nat \<Rightarrow> report_state \<Rightarrow> ('s, report_state) io" where
  "report_progress deps objects_read started_at every st s =
     (if every \<le> st_since_progress st then
        (Inr (st\<lparr>st_since_progress := 0\<rparr>),
         rq_stderr deps (format_progress_line objects_read (st_parsed st) (rq_now deps s - started_at)) s)
      else (Inr st, s))"

definition report_record ::
    "'s report_deps \<Rightarrow> nat \<Rightarrow> int \<Rightarrow> nat \<Rightarrow> nat \<Rightarrow> json \<Rightarrow> report_state \<Rightarrow> ('s, report_state) io" where
  "report_record deps objects_read started_at batch_size every v st =
     (if \<not> replay_record_schema (rq_datetime deps) v then io_return (report_rejection deps v st)
      else
        (case replay_row (rq_driver deps) v of
           Inl e \<Rightarrow> io_throw e
         | Inr row \<Rightarrow>
             (let st' = st\<lparr> st_parsed := Suc (st_parsed st), st_since_progress := Suc (st_since_progress st),
                    st_buffer := st_buffer st @ [row] \<rparr> in
              io_bind (if batch_size \<le> length (st_buffer st') then report_flush deps st' else io_return st')
                (report_progress deps objects_read started_at every))))"

fun report_records ::
    "'s report_deps \<Rightarrow> nat \<Rightarrow> int \<Rightarrow> nat \<Rightarrow> nat \<Rightarrow> thrown option \<Rightarrow> json list \<Rightarrow> report_state \<Rightarrow>
     ('s, report_state) io" where
  "report_records deps objects_read started_at batch_size every err [] st =
     (case err of Some e \<Rightarrow> io_throw e | None \<Rightarrow> report_flush deps st)"
| "report_records deps objects_read started_at batch_size every err (v # vs) st =
     io_bind (report_record deps objects_read started_at batch_size every v st)
       (report_records deps objects_read started_at batch_size every err vs)"

definition batch_size_error :: "nat \<Rightarrow> thrown" where
  "batch_size_error n =
     Err (js ''ReplayReportBatchSizeError'') (js ''ReplayReportBatchSizeError'')
       (js ''posta replay-report: batchSize '' @ dec n @ js '' exceeds the maximum of '' @ dec MAX_BATCH_SIZE @
        js '' (matches replay.ts's own --batch-size ceiling '' @ [8212] @
        js '' apps/worker/src/cli/replay.ts's MAX_BATCH_SIZE) '' @ [8212] @
        js '' refusing to run before any R2 read or Postgres write'') None None False None"

definition initial_report_state :: report_state where
  "initial_report_state = \<lparr> st_parsed = 0, st_inserted = 0, st_skipped = 0, st_since_progress = 0,
     st_rejections = [], st_buffer = [] \<rparr>"

definition finish_report :: "'s report_deps \<Rightarrow> nat \<Rightarrow> report_state \<Rightarrow> ('s, replay_report) io" where
  "finish_report deps objects_read st =
     (let report = build_replay_report
            \<lparr> ct_objects_read = objects_read, ct_records_parsed = st_parsed st, ct_rows_inserted = st_inserted st,
              ct_rows_skipped = st_skipped st, ct_rejection_reasons = st_rejections st \<rparr> in
      io_then (io_do (fold (rq_stdout deps) (format_final_report_lines report))) (io_return report))"

definition replay_with_report ::
    "'s report_deps \<Rightarrow> jsstr list \<Rightarrow> nat option \<Rightarrow> nat option \<Rightarrow> 's \<Rightarrow> (replay_report outcome \<times> 's) option" where
  "replay_with_report deps pfxs batch_size progress_every s =
     (let size = (case batch_size of None \<Rightarrow> DEFAULT_REPLAY_BATCH_SIZE | Some n \<Rightarrow> n);
          every = (case progress_every of None \<Rightarrow> DEFAULT_REPLAY_BATCH_SIZE | Some n \<Rightarrow> n);
          driver = rq_driver deps in
      if MAX_BATCH_SIZE < size then Some (Inl (batch_size_error size), s)
      else
        (case count_objects_under_prefixes deps 0 pfxs of
           Inl e \<Rightarrow> Some (Inl e, s)
         | Inr objects_read \<Rightarrow>
             map_option
               (\<lambda>(vs, err).
                  io_bind (report_records deps objects_read (rq_now deps s) size every err vs initial_report_state)
                    (finish_report deps objects_read) s)
               (stream_event_log (rd_list_fuel driver) (rd_list_objects driver) (rd_get_object driver) pfxs)))"

section \<open>Facts\<close>

text \<open>
  What the counters say at every moment: inserted and skipped rows and the buffer add up to
  the parsed records.
\<close>

definition balanced :: "report_state \<Rightarrow> bool" where
  "balanced st \<longleftrightarrow> st_inserted st + st_skipped st + int (length (st_buffer st)) = int (st_parsed st)"

lemma report_flush_balanced:
  "report_flush deps st s = (Inr st', s') \<Longrightarrow> balanced st \<Longrightarrow> balanced st' \<and> st_buffer st' = []"
  by (auto simp: report_flush_def balanced_def io_bind_app split: if_splits sum.splits)

lemma report_record_balanced:
  assumes "report_record deps n t sz every v st s = (Inr st', s')" and "balanced st"
  shows "balanced st'"
proof (cases "replay_record_schema (rq_datetime deps) v")
  case True
  then obtain row where row: "replay_row (rq_driver deps) v = Inr row"
    using assms(1) by (auto simp: report_record_def split: sum.splits)
  let ?st = "st\<lparr> st_parsed := Suc (st_parsed st), st_since_progress := Suc (st_since_progress st),
    st_buffer := st_buffer st @ [row] \<rparr>"
  have st: "balanced ?st" using assms(2) by (simp add: balanced_def)
  obtain st1 s1 where st1: "(if sz \<le> length (st_buffer ?st) then report_flush deps ?st else io_return ?st) s = (Inr st1, s1)"
      "report_progress deps n t every st1 s1 = (Inr st', s')"
    using assms(1) True row by (auto simp: report_record_def Let_def io_bind_app prod_eq_iff split: sum.splits)
  have "balanced st1" using st1(1) st report_flush_balanced by (fastforce split: if_splits)
  then show ?thesis using st1(2) by (auto simp: report_progress_def balanced_def split: if_splits)
next
  case False
  then show ?thesis
    using assms by (auto simp: report_record_def report_rejection_def balanced_def Let_def)
qed

lemma report_records_balanced:
  "report_records deps n t sz every err vs st s = (Inr st', s') \<Longrightarrow> balanced st \<Longrightarrow>
   balanced st' \<and> st_buffer st' = []"
proof (induction vs arbitrary: st s)
  case Nil
  then show ?case by (auto dest: report_flush_balanced split: option.splits)
next
  case (Cons v vs)
  then show ?case
    by (auto simp: io_bind_app split: sum.splits) (metis prod.collapse report_record_balanced)+
qed

section \<open>Properties\<close>

text \<open>
  C20: The reconciliation can never fail: whatever Postgres reports about the inserted rows,
  even more rows than were sent, a run that returns a report says that it is reconciled and
  exits with 0. The exit code for a mismatch is unreachable.
\<close>

theorem reconciliation_never_fails:
  assumes "replay_with_report deps pfxs batch_size progress_every s = Some (Inr report, s')"
  shows "ct_reconciled report \<and> ct_exit_code report = EXIT_OK"
proof -
  obtain n t sz every err vs where "io_bind (report_records deps n t sz every err vs initial_report_state)
      (finish_report deps n) s = (Inr report, s')"
    using assms by (auto simp: replay_with_report_def Let_def split: if_splits sum.splits)
  then obtain st s1 where st: "report_records deps n t sz every err vs initial_report_state s = (Inr st, s1)"
      "finish_report deps n st s1 = (Inr report, s')"
    by (auto simp: io_bind_app prod_eq_iff split: sum.splits)
  have "balanced initial_report_state" by (simp add: balanced_def initial_report_state_def)
  with report_records_balanced [OF st(1)] have "balanced st" "st_buffer st = []" by auto
  then show ?thesis
    using st(2)
    by (auto simp: finish_report_def build_replay_report_def Let_def balanced_def io_apps
        replay_counts.extend_def replay_report.fields_def)
qed

definition example_report :: "new_event list report_deps" where
  "example_report =
     \<lparr> rq_driver = example_replay\<lparr> rd_list_objects := (\<lambda>p t.
           Inr \<lparr> lp_contents = [], lp_is_truncated = False, lp_next_token = None \<rparr>) \<rparr>,
       rq_list_pages = (\<lambda>p. ([0], None)), rq_datetime = (\<lambda>_. True), rq_issues = (\<lambda>_. []),
       rq_now = (\<lambda>_. 0), rq_stdout = (\<lambda>line s. s), rq_stderr = (\<lambda>line s. s) \<rparr>"

lemma fold_ignore: "fold (\<lambda>x s. s) xs s = s"
  by (induction xs) simp_all

theorem reconciliation_never_fails_witness:
  "\<exists>report. replay_with_report example_report [js ''p''] None None [] = Some (Inr report, []) \<and>
     ct_reconciled report \<and> ct_exit_code report = EXIT_OK"
proof -
  obtain report where run: "replay_with_report example_report [js ''p''] None None [] = Some (Inr report, [])"
    by (simp add: replay_with_report_def example_report_def example_replay_def Let_def MAX_BATCH_SIZE_def
        DEFAULT_REPLAY_BATCH_SIZE_def page_keys_def report_flush_def initial_report_state_def finish_report_def
        io_apps fold_ignore)
  with reconciliation_never_fails [OF run] show ?thesis by blast
qed

end
