(* ===== verification/Core_Redis.thy ===== *)
theory Core_Redis
  imports Js_Async Core_Keys Worker_R2Retry
begin

text \<open>
  The keys in Redis (\<open>packages/core/src/redis/keys.ts\<close>), the deletions that invalidate cached
  entries (\<open>invalidate.ts\<close>), and the salt of the day that visitor hashes are computed with
  (\<open>salt.ts\<close>). Redis, the clock, the random bytes and the logger are parameters; the memo of a
  process is a field of the state. The memo holds promises in the code; \<open>fetchOrGenerateSalt\<close>
  never rejects, so a promise is modelled by the salt it resolves with.
\<close>

section \<open>Keys\<close>

definition link_key :: "jsstr \<Rightarrow> jsstr \<Rightarrow> jsstr" where
  "link_key tenant slug = js ''link:'' @ tenant @ js '':'' @ slug"

definition handle_key :: "jsstr \<Rightarrow> jsstr" where
  "handle_key handle = js ''handle:'' @ handle"

definition format_utc_date :: "int \<Rightarrow> jsstr" where
  "format_utc_date t =
     dec_int (utc_full_year t) @ js ''-'' @ pad2 (int (utc_month t) + 1) @ js ''-'' @ pad2 (utc_date t)"

definition salt_key :: "int \<Rightarrow> jsstr" where
  "salt_key t = js ''salt:'' @ format_utc_date t"

section \<open>Invalidation\<close>

definition invalidate_link :: "(jsstr \<Rightarrow> ('s, nat) io) \<Rightarrow> jsstr \<Rightarrow> jsstr \<Rightarrow> ('s, nat) io" where
  "invalidate_link del tenant slug = del (link_key tenant slug)"

definition invalidate_handle :: "(jsstr \<Rightarrow> ('s, nat) io) \<Rightarrow> jsstr \<Rightarrow> ('s, nat) io" where
  "invalidate_handle del handle = del (handle_key handle)"

section \<open>Inserting into a bounded memo\<close>

text \<open>
  The two memos of the program (this one and that of \<open>resolve-tenant.ts\<close>) insert the same
  way: the oldest key goes when the memo is full and the key is new.
\<close>

lemma length_map_delete: "wf_map m \<Longrightarrow> map_has m k \<Longrightarrow> Suc (length (map_delete k m)) = length m"
proof (induction m)
  case (Cons p m)
  then show ?case
    by (cases "fst p = k") (auto simp: wf_map_def map_has_def map_delete_def delete_id)
qed (simp add: map_has_def)

lemma first_key_has: "first_key m = Some k \<Longrightarrow> map_has m k"
  by (cases m) (auto simp: first_key_def map_has_def)

definition make_room :: "nat \<Rightarrow> 'k \<Rightarrow> ('k, 'v) js_map \<Rightarrow> ('k, 'v) js_map" where
  "make_room limit k m =
     (if limit \<le> length m \<and> \<not> map_has m k then
        (case first_key m of None \<Rightarrow> m | Some oldest \<Rightarrow> map_delete oldest m)
      else m)"

definition evict_and_set :: "nat \<Rightarrow> 'k \<Rightarrow> 'v \<Rightarrow> ('k, 'v) js_map \<Rightarrow> ('k, 'v) js_map" where
  "evict_and_set limit k v m = map_set k v (make_room limit k m)"

lemma make_room_wf [simp]: "wf_map m \<Longrightarrow> wf_map (make_room n k m)"
  by (simp add: make_room_def split: option.split)

lemma make_room_get: "map_get (make_room n k m) k' = Some w \<Longrightarrow> map_get m k' = Some w"
  by (simp add: make_room_def split: if_splits option.splits)

lemma make_room_present: "map_has m k \<Longrightarrow> make_room n k m = m"
  by (simp add: make_room_def)

lemma make_room_new:
  assumes "wf_map m" and "0 < n" and "length m \<le> n" and "\<not> map_has m k"
  shows "length (make_room n k m) < n"
proof (cases "n \<le> length m")
  case True
  with assms(2) obtain oldest where first: "first_key m = Some oldest"
    by (cases m) (auto simp: first_key_def)
  from length_map_delete [OF assms(1) first_key_has [OF first]] show ?thesis
    using True first assms(3,4) by (simp add: make_room_def)
qed (simp add: make_room_def)

interpretation memo: bounded_memo evict_and_set
proof (unfold_locales, goal_cases)
  case (3 m k' k n v w)
  then show ?case by (auto simp: evict_and_set_def dest: make_room_get)
next
  case (4 m n k v)
  then show ?case
    using make_room_new [of m n k] make_room_present [of m k n]
    by (cases "map_has m k") (simp_all add: evict_and_set_def length_map_set)
qed (simp_all add: evict_and_set_def make_room_present)

section \<open>The salt of the day\<close>

definition SALT_TTL_SECONDS :: nat where "SALT_TTL_SECONDS = 172800"
definition SALT_MEMO_MAX_ENTRIES :: nat where "SALT_MEMO_MAX_ENTRIES = 2"

record 's salt_deps =
  sl_set_nx :: "jsstr \<Rightarrow> jsstr \<Rightarrow> nat \<Rightarrow> ('s, bool) io"
  sl_get :: "jsstr \<Rightarrow> ('s, jsstr option) io"
  sl_random :: "'s \<Rightarrow> jsstr \<times> 's"
  sl_now :: "'s \<Rightarrow> int"
  sl_error :: "jsstr \<Rightarrow> log_meta \<Rightarrow> 's \<Rightarrow> 's"
  sl_memo :: "'s \<Rightarrow> (jsstr, jsstr) js_map"
  sl_set_memo :: "(jsstr, jsstr) js_map \<Rightarrow> 's \<Rightarrow> 's"

definition fetch_or_generate_salt :: "'s salt_deps \<Rightarrow> int \<Rightarrow> 's \<Rightarrow> jsstr \<times> 's" where
  "fetch_or_generate_salt deps now s =
     (let key = salt_key now; (candidate, s1) = sl_random deps s;
          (r, s2) =
            io_then (sl_set_nx deps key candidate SALT_TTL_SECONDS)
              (io_bind (sl_get deps key)
                (\<lambda>stored. case stored of
                   Some v \<Rightarrow> io_return v
                 | None \<Rightarrow> io_throw (new_error (js ''Redis GET returned no value for '' @ key @ js '' immediately after SET'')))) s1
      in case r of
           Inr v \<Rightarrow> (v, s2)
         | Inl error \<Rightarrow>
             (candidate,
              sl_error deps
                (js ''Daily salt SET/GET failed against Redis; falling back to a process-local salt for this UTC day. Hashes computed during this window will not match other instances until Redis recovers.'')
                [(js ''errorType'', JStr (error_type error))] s2))"

definition remember_salt :: "(jsstr, jsstr) js_map \<Rightarrow> jsstr \<Rightarrow> jsstr \<Rightarrow> (jsstr, jsstr) js_map" where
  "remember_salt m date_key salt = evict_and_set SALT_MEMO_MAX_ENTRIES date_key salt m"

definition get_daily_salt :: "'s salt_deps \<Rightarrow> 's \<Rightarrow> jsstr \<times> 's" where
  "get_daily_salt deps s =
     (let now = sl_now deps s; date_key = format_utc_date now in
      case map_get (sl_memo deps s) date_key of
        Some v \<Rightarrow> (v, s)
      | None \<Rightarrow>
          (let (salt, s') = fetch_or_generate_salt deps now s in
           (salt, sl_set_memo deps (remember_salt (sl_memo deps s') date_key salt) s')))"

section \<open>Several processes and one Redis\<close>

text \<open>
  The processes of a deployment, numbered, with one Redis: while it is up \<open>SET NX\<close> stores a value
  only when the key has none, and while it is down every command is rejected.
\<close>

record salt_world =
  sw_store :: "jsstr \<Rightarrow> jsstr option"
  sw_up :: bool
  sw_memos :: "nat \<Rightarrow> (jsstr, jsstr) js_map"
  sw_now :: int
  sw_random :: "nat \<Rightarrow> jsstr"
  sw_draws :: nat

definition salt_process :: "nat \<Rightarrow> salt_world salt_deps" where
  "salt_process i =
     \<lparr> sl_set_nx = (\<lambda>k v ttl w.
         if \<not> sw_up w then (Inl (new_error (js ''connection refused'')), w)
         else if sw_store w k = None then (Inr True, w\<lparr>sw_store := (sw_store w)(k \<mapsto> v)\<rparr>) else (Inr False, w)),
       sl_get = (\<lambda>k w.
         if \<not> sw_up w then (Inl (new_error (js ''connection refused'')), w) else (Inr (sw_store w k), w)),
       sl_random = (\<lambda>w. (sw_random w (sw_draws w), w\<lparr>sw_draws := Suc (sw_draws w)\<rparr>)),
       sl_now = sw_now,
       sl_error = (\<lambda>message meta w. w),
       sl_memo = (\<lambda>w. sw_memos w i),
       sl_set_memo = (\<lambda>m w. w\<lparr>sw_memos := (sw_memos w)(i := m)\<rparr>) \<rparr>"

text \<open>Every memo is bounded and agrees with Redis.\<close>

definition salts_agree :: "salt_world \<Rightarrow> bool" where
  "salts_agree w \<longleftrightarrow> (\<forall>i. wf_map (sw_memos w i) \<and> length (sw_memos w i) \<le> SALT_MEMO_MAX_ENTRIES \<and>
     (\<forall>d v. map_get (sw_memos w i) d = Some v \<longrightarrow> sw_store w (js ''salt:'' @ d) = Some v))"

lemma get_salt_world:
  assumes "sw_up w"
  shows "get_daily_salt (salt_process i) w =
   (let d = format_utc_date (sw_now w); k = js ''salt:'' @ d in
    case map_get (sw_memos w i) d of
      Some v \<Rightarrow> (v, w)
    | None \<Rightarrow>
        (let v = (case sw_store w k of Some v \<Rightarrow> v | None \<Rightarrow> sw_random w (sw_draws w)) in
         (v, w\<lparr> sw_draws := Suc (sw_draws w), sw_store := (sw_store w)(k \<mapsto> v),
            sw_memos := (sw_memos w)(i := remember_salt (sw_memos w i) d v) \<rparr>)))"
  using assms
  by (auto simp: get_daily_salt_def fetch_or_generate_salt_def salt_process_def salt_key_def Let_def
      io_apps fun_upd_idem split: option.split)

lemma get_salt_agrees:
  assumes "salts_agree w" and "get_daily_salt (salt_process i) w = (v, w')" and "sw_up w"
  shows "sw_up w' \<and> salts_agree w' \<and> sw_store w' (salt_key (sw_now w)) = Some v \<and>
    (\<forall>k u. sw_store w k = Some u \<longrightarrow> sw_store w' k = Some u)"
proof -
  let ?d = "format_utc_date (sw_now w)"
  let ?k = "js ''salt:'' @ ?d"
  show ?thesis
  proof (cases "map_get (sw_memos w i) ?d")
    case (Some u)
    then have "v = u" "w' = w" using assms(2) using assms(3) by (simp_all add: get_salt_world Let_def)
    then show ?thesis using Some assms(1,3) by (auto simp: salts_agree_def salt_key_def)
  next
    case None
    let ?v = "case sw_store w ?k of Some v \<Rightarrow> v | None \<Rightarrow> sw_random w (sw_draws w)"
    let ?m = "remember_salt (sw_memos w i) ?d ?v"
    have v: "v = ?v" and w': "w' = w\<lparr> sw_draws := Suc (sw_draws w), sw_store := (sw_store w)(?k \<mapsto> ?v),
        sw_memos := (sw_memos w)(i := ?m) \<rparr>"
      using assms(2,3) None by (auto simp add: get_salt_world Let_def)
    have wf: "wf_map (sw_memos w j)" "length (sw_memos w j) \<le> SALT_MEMO_MAX_ENTRIES" for j
      using assms(1) by (auto simp: salts_agree_def)
    have keep: "sw_store w' k = Some u" if "sw_store w k = Some u" for k u
      using that by (auto simp: w' split: option.split)
    have "wf_map ?m" "length ?m \<le> SALT_MEMO_MAX_ENTRIES"
      unfolding remember_salt_def
      using memo.remember_wf [OF wf(1)] memo.remember_bound [OF wf(1) _ wf(2)]
      by (simp_all add: SALT_MEMO_MAX_ENTRIES_def)
    moreover have "sw_store w' (js ''salt:'' @ d) = Some u" if "map_get ?m d = Some u" for d u
    proof (rule memo.remember_entries [OF wf(1) [of i], of "\<lambda>d u. sw_store w' (js ''salt:'' @ d) = Some u"])
      show "map_get (evict_and_set SALT_MEMO_MAX_ENTRIES ?d ?v (sw_memos w i)) d = Some u"
        using that by (simp add: remember_salt_def)
      show "sw_store w' ?k = Some ?v" by (simp add: w')
      show "sw_store w' (js ''salt:'' @ d') = Some u'" if "map_get (sw_memos w i) d' = Some u'" for d' u'
        using that assms(1) keep by (auto simp: salts_agree_def)
    qed
    ultimately show ?thesis
      using wf assms(1,3) keep by (auto simp: salts_agree_def w' salt_key_def v)
  qed
qed

section \<open>Properties\<close>


definition fresh_deployment :: salt_world where
  "fresh_deployment = \<lparr> sw_store = (\<lambda>_. None), sw_up = True, sw_memos = (\<lambda>_. []), sw_now = 0, sw_random = (\<lambda>n. [97 + n]),
     sw_draws = 0 \<rparr>"


text \<open>
  C29: a process whose first call of a UTC day meets a Redis that is down uses a random salt of its own, and keeps it for
  the rest of the day: whatever becomes of Redis and of the other processes, as long as the memo of the process
  is not touched it answers this salt. So its hashes differ from those of the others until the day ends, not until Redis
  recovers as the comment of the module and the log message say.
\<close>

theorem fallback_salt_outlives_the_outage:
  assumes "\<not> sw_up w" and "map_get (sw_memos w i) (format_utc_date (sw_now w)) = None" and "wf_map (sw_memos w i)"
    and "get_daily_salt (salt_process i) w = (salt, w1)"
    and "sw_memos w2 i = sw_memos w1 i" and "format_utc_date (sw_now w2) = format_utc_date (sw_now w)"
  shows "salt = sw_random w (sw_draws w) \<and> sw_store w1 = sw_store w \<and>
    get_daily_salt (salt_process i) w2 = (salt, w2)"
proof -
  have r: "salt = sw_random w (sw_draws w)" "sw_store w1 = sw_store w"
    "sw_memos w1 i = remember_salt (sw_memos w i) (format_utc_date (sw_now w)) salt"
    using assms(1,2,4)
    by (auto simp: get_daily_salt_def fetch_or_generate_salt_def salt_process_def Let_def io_apps)
  have "map_get (sw_memos w2 i) (format_utc_date (sw_now w2)) = Some salt"
    unfolding assms(5,6) r(3) remember_salt_def by (rule memo.remember_get [OF assms(3)])
  then show ?thesis using r by (simp add: get_daily_salt_def salt_process_def)
qed

theorem fallback_salt_outlives_the_outage_witness:
  "\<exists>w1. get_daily_salt (salt_process 0) (fresh_deployment\<lparr>sw_up := False\<rparr>) = ([97], w1) \<and>
     fst (get_daily_salt (salt_process 1) (w1\<lparr>sw_up := True\<rparr>)) = [98] \<and>
     fst (get_daily_salt (salt_process 0) (w1\<lparr>sw_up := True\<rparr>)) = [97]"
proof -
  let ?w = "fresh_deployment\<lparr>sw_up := False\<rparr>"
  obtain salt w1 where g: "get_daily_salt (salt_process 0) ?w = (salt, w1)" by fastforce
  have "get_daily_salt (salt_process 0) ?w =
      ([97], ?w\<lparr>sw_draws := 1, sw_memos := (sw_memos ?w)(0 := remember_salt [] (format_utc_date 0) [97])\<rparr>)"
    by (simp add: get_daily_salt_def fetch_or_generate_salt_def salt_process_def Let_def io_apps fresh_deployment_def)
  then have w1: "w1 = ?w\<lparr>sw_draws := 1, sw_memos := (sw_memos ?w)(0 := remember_salt [] (format_utc_date 0) [97])\<rparr>"
    using g by simp
  have "salt = [97] \<and> sw_store w1 = sw_store ?w \<and>
      get_daily_salt (salt_process 0) (w1\<lparr>sw_up := True\<rparr>) = (salt, w1\<lparr>sw_up := True\<rparr>)"
    using fallback_salt_outlives_the_outage [OF _ _ _ g, of "w1\<lparr>sw_up := True\<rparr>"]
    by (simp add: w1 fresh_deployment_def)
  moreover have "fst (get_daily_salt (salt_process 1) (w1\<lparr>sw_up := True\<rparr>)) = [98]"
    by (simp add: get_salt_world w1 fresh_deployment_def Let_def)
  ultimately show ?thesis using g by auto
qed

end
