(* ===== verification/Js_Number.thy ===== *)
theory Js_Number
  imports Js_Strings Complex_Main
begin

text \<open>
  Numbers read from text: \<open>Number(s)\<close> and \<open>Number.parseInt(s, 10)\<close> with the rounding to double precision that they do.
  A finite number is the rational it stands for; the sign of a zero is not kept, because the program never looks at it.
\<close>

section \<open>Rounding to double precision\<close>

datatype double = Not_a_number | Infinite bool | Finite rat

definition power_of_two :: "int \<Rightarrow> rat" where
  "power_of_two e = (if 0 \<le> e then 2 ^ nat e else 1 / 2 ^ nat (- e))"

fun bit_length :: "nat \<Rightarrow> nat" where
  "bit_length n = (if n = 0 then 0 else Suc (bit_length (n div 2)))"

declare bit_length.simps [simp del]

text \<open>The exponent of the leading binary digit of a positive number.\<close>

definition binary_exponent :: "rat \<Rightarrow> int" where
  "binary_exponent q =
     (let (a, b) = quotient_of q; k = int (bit_length (nat a)) - int (bit_length (nat b)) in
      if power_of_two k \<le> q then k else k - 1)"

definition nearest_even :: "rat \<Rightarrow> int" where
  "nearest_even q =
     (let f = \<lfloor>q\<rfloor>; d = q - of_int f in
      if d < 1 / 2 then f else if d > 1 / 2 then f + 1 else if even f then f else f + 1)"

definition to_double :: "rat \<Rightarrow> double" where
  "to_double q =
     (if q = 0 then Finite 0
      else
        let e = max (- 1074) (binary_exponent \<bar>q\<bar> - 52);
            v = of_int (nearest_even (\<bar>q\<bar> / power_of_two e)) * power_of_two e
        in if power_of_two 1024 \<le> v then Infinite (q < 0) else Finite (sgn q * v))"

section \<open>Reading\<close>

definition digit_value :: "nat \<Rightarrow> nat" where
  "digit_value c = (if is_digit c then c - 48 else if 97 \<le> c then c - 87 else c - 55)"

definition digits_value :: "nat \<Rightarrow> jsstr \<Rightarrow> nat" where
  "digits_value base s = foldl (\<lambda>n c. base * n + digit_value c) 0 s"

definition exponent_value :: "jsstr \<Rightarrow> int option" where
  "exponent_value s =
     (case s of
        [] \<Rightarrow> Some 0
      | c # t \<Rightarrow>
          if c \<noteq> 69 \<and> c \<noteq> 101 then None
          else
            let (negative, ds) = (if starts_with t (js ''-'') then (True, tl t) else if starts_with t (js ''+'') then (False, tl t) else (False, t))
            in if ds = [] \<or> \<not> list_all is_digit ds then None
               else Some ((if negative then - 1 else 1) * int (digits_value 10 ds)))"

definition decimal_value :: "jsstr \<Rightarrow> rat option" where
  "decimal_value s =
     (let whole = takeWhile is_digit s; r = dropWhile is_digit s;
          (fraction, t) = (if starts_with r (js ''.'') then (takeWhile is_digit (tl r), dropWhile is_digit (tl r)) else ([], r))
      in if whole @ fraction = [] then None
         else
           case exponent_value t of
             None \<Rightarrow> None
           | Some e \<Rightarrow>
               let shift = e - int (length fraction); n = of_nat (digits_value 10 (whole @ fraction))
               in Some (if 0 \<le> shift then n * 10 ^ nat shift else n / 10 ^ nat (- shift)))"

definition radix_prefix :: "jsstr \<Rightarrow> (nat \<times> (nat \<Rightarrow> bool)) option" where
  "radix_prefix s =
     (case s of
        z # x # _ \<Rightarrow>
          if z \<noteq> 48 then None
          else if x = 120 \<or> x = 88 then Some (16, is_hex_digit)
          else if x = 111 \<or> x = 79 then Some (8, \<lambda>c. 48 \<le> c \<and> c \<le> 55)
          else if x = 98 \<or> x = 66 then Some (2, \<lambda>c. c = 48 \<or> c = 49)
          else None
      | _ \<Rightarrow> None)"

definition unsigned_number :: "bool \<Rightarrow> jsstr \<Rightarrow> double" where
  "unsigned_number negative s =
     (if s = js ''Infinity'' then Infinite negative
      else case decimal_value s of
        None \<Rightarrow> Not_a_number
      | Some q \<Rightarrow> to_double (if negative then - q else q))"

definition to_number :: "jsstr \<Rightarrow> double" where
  "to_number text =
     (let s = trim text in
      if s = [] then Finite 0
      else
        case radix_prefix s of
          Some (base, digit) \<Rightarrow>
            (let ds = drop 2 s in
             if ds = [] \<or> \<not> list_all digit ds then Not_a_number else to_double (of_nat (digits_value base ds)))
        | None \<Rightarrow>
            if starts_with s (js ''-'') then unsigned_number True (tl s)
            else if starts_with s (js ''+'') then unsigned_number False (tl s)
            else unsigned_number False s)"

definition parse_int_10 :: "jsstr \<Rightarrow> double" where
  "parse_int_10 text =
     (let s = trim_start text;
          negative = starts_with s (js ''-'');
          ds = takeWhile is_digit (if negative \<or> starts_with s (js ''+'') then tl s else s)
      in if ds = [] then Not_a_number
         else to_double ((if negative then - 1 else 1) * of_nat (digits_value 10 ds)))"

definition integer_value :: "double \<Rightarrow> int option" where
  "integer_value x = (case x of Finite q \<Rightarrow> if q = of_int \<lfloor>q\<rfloor> then Some \<lfloor>q\<rfloor> else None | _ \<Rightarrow> None)"

section \<open>Integers up to \<open>2 ^ 53\<close> are exact\<close>

lemma power_of_two_pos [simp]: "0 < power_of_two e"
  by (simp add: power_of_two_def)

lemma power_of_two_nat: "power_of_two (int k) = 2 ^ k"
  by (simp add: power_of_two_def)

lemma bit_length_bounds: "0 < n \<Longrightarrow> 2 ^ (bit_length n - 1) \<le> n \<and> n < 2 ^ bit_length n \<and> 0 < bit_length n"
proof (induction n rule: bit_length.induct)
  case (1 n)
  show ?case
  proof (cases "n div 2 = 0")
    case True
    with 1(2) have "n = 1" by simp
    then show ?thesis by (simp add: bit_length.simps)
  next
    case False
    with 1 have IH: "2 ^ (bit_length (n div 2) - 1) \<le> n div 2" "n div 2 < 2 ^ bit_length (n div 2)" "0 < bit_length (n div 2)"
      by auto
    have l: "bit_length n = Suc (bit_length (n div 2))" using 1(2) by (subst bit_length.simps) simp
    have "2 ^ bit_length (n div 2) = 2 * (2::nat) ^ (bit_length (n div 2) - 1)"
      using IH(3) by (metis Suc_pred' power_Suc)
    then show ?thesis using IH l by simp linarith
  qed
qed

lemma binary_exponent_nat:
  assumes "0 < n" and "n < 2 ^ k"
  shows "binary_exponent (of_nat n) < int k"
proof -
  let ?l = "bit_length n"
  have b: "2 ^ (?l - 1) \<le> n" "n < 2 ^ ?l" "0 < ?l" using bit_length_bounds [OF assms(1)] by auto
  have "quotient_of (of_nat n) = (int n, 1)" 
    by (simp add: Fract_of_nat_eq [symmetric] quotient_of_Fract normalize_def)
  moreover have "bit_length 1 = 1" by (simp add: bit_length.simps)
  moreover have "power_of_two (int ?l - 1) \<le> of_nat n"
  proof -
    have "int ?l - 1 = int (?l - 1)" using b(3) by simp
    then have "power_of_two (int ?l - 1) = of_nat (2 ^ (?l - 1))" by (simp only: power_of_two_nat) simp
    also have "\<dots> \<le> (of_nat n :: rat)" using b(1) by (simp only: of_nat_le_iff)
    finally show ?thesis .
  qed
  ultimately have "binary_exponent (of_nat n) = int ?l - 1"
    by (simp add: binary_exponent_def)
  moreover have "?l - 1 < k"
  proof -
    have "(2::nat) ^ (?l - 1) < 2 ^ k" using b(1) assms(2) by (rule le_less_trans)
    then show ?thesis by simp
  qed
  ultimately show ?thesis using b(3) by linarith
qed

lemma nearest_even_int [simp]: "nearest_even (of_int i) = i"
  by (simp add: nearest_even_def)

lemma to_double_nat:
  assumes "n < 2 ^ 53"
  shows "to_double (of_nat n) = Finite (of_nat n)"
proof (cases "n = 0")
  case False
  define e where "e = max (- 1074) (binary_exponent (of_nat n) - 52)"
  have "binary_exponent (of_nat n) < 53" using binary_exponent_nat [of n 53] False assms by simp
  then have "e \<le> 0" by (simp add: e_def)
  then have "of_nat n / power_of_two e = of_int (int n * 2 ^ nat (- e))"
    by (auto simp: power_of_two_def)
  then have "of_int (nearest_even (of_nat n / power_of_two e)) * power_of_two e = of_nat n"
    using power_of_two_pos [of e] by (metis nearest_even_int nonzero_eq_divide_eq less_irrefl)
  moreover have "\<not> power_of_two 1024 \<le> of_nat n"
  proof -
    have "(of_nat n :: rat) < of_nat (2 ^ 53)" using assms by (simp only: of_nat_less_iff)
    also have "\<dots> \<le> power_of_two 1024" by (simp add: power_of_two_def)
    finally show ?thesis by simp
  qed
  ultimately show ?thesis using False by (simp add: to_double_def Let_def flip: e_def)
qed (simp add: to_double_def)

lemma digits_value_dec [simp]: "digits_value 10 (dec n) = n"
proof -
  have "foldl (\<lambda>n c. 10 * n + digit_value c) m s = foldl (\<lambda>n c. 10 * n + (c - 48)) m s" if "list_all is_digit s" for m s
    using that by (induction s arbitrary: m) (simp_all add: digit_value_def)
  then show ?thesis using undec_dec [of n] dec_digits by (simp add: digits_value_def undec_def list_all_iff)
qed

lemma dec_digit_list: "list_all is_digit (dec n)"
  using dec_digits by (simp add: list_all_iff)

lemma decimal_value_dec [simp]: "decimal_value (dec n) = Some (of_nat n)"
proof -
  have digits: "takeWhile is_digit (dec n) = dec n" "dropWhile is_digit (dec n) = []"
    using dec_digits by simp_all
  show ?thesis by (simp add: decimal_value_def digits exponent_value_def starts_with_def js_def del: takeWhile_eq_all_conv)
qed

lemma trim_dec [simp]: "trim (dec n) = dec n"
  using set_dec by (intro trim_no_space) (force simp: js_space_def)

lemma hd_dec: "dec n = c # s \<Longrightarrow> is_digit c"
  using dec_digits [of n] by auto

lemma parse_int_10_dec:
  assumes "n < 2 ^ 53"
  shows "parse_int_10 (dec n) = Finite (of_nat n)"
proof -
  obtain c s where d: "dec n = c # s" by (cases "dec n") auto
  have c: "48 \<le> c" "c \<le> 57" using hd_dec [OF d] by (simp_all add: is_digit_def)
  have "\<not> starts_with (dec n) (js ''-'')" "\<not> starts_with (dec n) (js ''+'')" "trim_start (dec n) = dec n"
    using c by (auto simp: d js_def trim_start_def js_space_def)
  moreover have digits: "takeWhile is_digit (dec n) = dec n" using dec_digits by simp
  ultimately show ?thesis
    using to_double_nat [OF assms] by (simp add: parse_int_10_def digits del: takeWhile_eq_all_conv)
qed

lemma radix_prefix_digits: "list_all is_digit s \<Longrightarrow> radix_prefix s = None"
  by (auto simp: radix_prefix_def is_digit_def split: list.split)

lemma to_number_dec:
  assumes "n < 2 ^ 53"
  shows "to_number (dec n) = Finite (of_nat n)"
proof -
  obtain c s where d: "dec n = c # s" by (cases "dec n") auto
  have c: "48 \<le> c" "c \<le> 57" using hd_dec [OF d] by (simp_all add: is_digit_def)
  then have "dec n \<noteq> js ''Infinity''" "\<not> starts_with (dec n) (js ''-'')" "\<not> starts_with (dec n) (js ''+'')"
    by (auto simp: d js_def)
  then show ?thesis
    using radix_prefix_digits [OF dec_digit_list, of n] to_double_nat [OF assms]
    by (simp add: to_number_def unsigned_number_def Let_def)
qed

lemma integer_value_nat [simp]: "integer_value (Finite (of_nat n)) = Some (int n)"
proof -
  have "\<lfloor>of_nat n :: rat\<rfloor> = int n" by simp
  then show ?thesis by (simp add: integer_value_def)
qed

end
