(* ===== verification/Core_Clients.thy ===== *)
theory Core_Clients
  imports Js_Number Js_Async
begin

text \<open>
  Building the clients of Postgres and Redis (\<open>packages/core/src/db/client.ts\<close>, \<open>packages/core/src/redis/client.ts\<close>): which
  URL and pool size they get, and the process-wide Redis client with its close. The clients are numbered in the order
  in which they are built; the environment is a function from keys to text.
\<close>

section \<open>Postgres\<close>

record db_client_options =
  dc_connection_string :: "jsstr option"
  dc_max :: "double option"

record db_client =
  db_connection_string :: jsstr
  db_pool_max :: double

text \<open>\<open>options.x ?? process.env.X\<close>, where an empty text counts as unset.\<close>

definition given_or_env :: "jsstr option \<Rightarrow> jsstr option \<Rightarrow> jsstr option" where
  "given_or_env given env_value = (case given of Some v \<Rightarrow> Some v | None \<Rightarrow> env_value)"

definition resolve_connection_string :: "db_client_options \<Rightarrow> (jsstr \<Rightarrow> jsstr option) \<Rightarrow> jsstr outcome" where
  "resolve_connection_string options process_env =
     (case given_or_env (dc_connection_string options) (process_env (js ''DATABASE_URL'')) of
        Some connection_string \<Rightarrow>
          if connection_string = [] then
            Inl (new_error (js ''DATABASE_URL must be set (or pass connectionString explicitly to createDbClient).''))
          else Inr connection_string
      | None \<Rightarrow>
          Inl (new_error (js ''DATABASE_URL must be set (or pass connectionString explicitly to createDbClient).'')))"

definition resolve_pool_max :: "db_client_options \<Rightarrow> (jsstr \<Rightarrow> jsstr option) \<Rightarrow> double outcome" where
  "resolve_pool_max options process_env =
     (case dc_max options of
        Some m \<Rightarrow> Inr m
      | None \<Rightarrow>
          (case process_env (js ''DB_POOL_MAX'') of
             None \<Rightarrow>
               Inl (new_error (js ''DB_POOL_MAX must be set (or pass max explicitly to createDbClient). Pool max is explicit and env-supplied on purpose, never left to the driver default '' @
                 [8212] @ js '' see CLAUDE.md / plan T1.1.1.''))
           | Some raw_max \<Rightarrow>
               if raw_max = [] then
                 Inl (new_error (js ''DB_POOL_MAX must be set (or pass max explicitly to createDbClient). Pool max is explicit and env-supplied on purpose, never left to the driver default '' @
                   [8212] @ js '' see CLAUDE.md / plan T1.1.1.''))
               else
                 (case integer_value (parse_int_10 raw_max) of
                    Some n \<Rightarrow>
                      if n \<le> 0 then
                        Inl (new_error (js ''DB_POOL_MAX must be a positive integer, got \"'' @ raw_max @ js ''\".''))
                      else Inr (parse_int_10 raw_max)
                  | None \<Rightarrow>
                      Inl (new_error (js ''DB_POOL_MAX must be a positive integer, got \"'' @ raw_max @ js ''\".'')))))"

definition create_db_client :: "db_client_options \<Rightarrow> (jsstr \<Rightarrow> jsstr option) \<Rightarrow> db_client outcome" where
  "create_db_client options process_env =
     (case resolve_connection_string options process_env of
        Inl e \<Rightarrow> Inl e
      | Inr connection_string \<Rightarrow>
          (case resolve_pool_max options process_env of
             Inl e \<Rightarrow> Inl e
           | Inr m \<Rightarrow> Inr \<lparr> db_connection_string = connection_string, db_pool_max = m \<rparr>))"

section \<open>Redis\<close>

record redis_client_options =
  ro_url :: "jsstr option"
  ro_lazy_connect :: "bool option"

record redis_client_config =
  rk_url :: jsstr
  rk_max_retries_per_request :: nat
  rk_enable_offline_queue :: bool
  rk_lazy_connect :: bool

definition resolve_url :: "redis_client_options \<Rightarrow> (jsstr \<Rightarrow> jsstr option) \<Rightarrow> jsstr outcome" where
  "resolve_url options process_env =
     (case given_or_env (ro_url options) (process_env (js ''REDIS_URL'')) of
        Some url \<Rightarrow>
          if url = [] then Inl (new_error (js ''REDIS_URL must be set (or pass url explicitly to createRedisClient).''))
          else Inr url
      | None \<Rightarrow> Inl (new_error (js ''REDIS_URL must be set (or pass url explicitly to createRedisClient).'')))"

definition create_redis_client :: "redis_client_options \<Rightarrow> (jsstr \<Rightarrow> jsstr option) \<Rightarrow> redis_client_config outcome" where
  "create_redis_client options process_env =
     (case resolve_url options process_env of
        Inl e \<Rightarrow> Inl e
      | Inr url \<Rightarrow>
          Inr \<lparr> rk_url = url, rk_max_retries_per_request = 1, rk_enable_offline_queue = False,
                rk_lazy_connect = (case ro_lazy_connect options of Some b \<Rightarrow> b | None \<Rightarrow> False) \<rparr>)"

datatype redis_status = Waiting | Ended | Active
datatype close_call = Disconnect | Quit

record redis_process =
  rp_memoized_client :: "nat option"
  rp_clients :: "redis_client_config list"
  rp_closed :: "(nat \<times> close_call) list"

definition get_redis ::
  "redis_client_options \<Rightarrow> (jsstr \<Rightarrow> jsstr option) \<Rightarrow> redis_process \<Rightarrow> nat outcome \<times> redis_process" where
  "get_redis options process_env st =
     (case rp_memoized_client st of
        Some c \<Rightarrow> (Inr c, st)
      | None \<Rightarrow>
          (case create_redis_client options process_env of
             Inl e \<Rightarrow> (Inl e, st)
           | Inr config \<Rightarrow>
               let c = length (rp_clients st)
               in (Inr c, st\<lparr>rp_memoized_client := Some c, rp_clients := rp_clients st @ [config]\<rparr>)))"

text \<open>The close awaits \<open>quit()\<close>, which may reject: \<open>quit\<close> is its outcome.\<close>

definition close_redis :: "(nat \<Rightarrow> redis_status) \<Rightarrow> unit outcome \<Rightarrow> redis_process \<Rightarrow> unit outcome \<times> redis_process" where
  "close_redis status quit st =
     (case rp_memoized_client st of
        None \<Rightarrow> (Inr (), st)
      | Some client \<Rightarrow>
          let st = st\<lparr>rp_memoized_client := None\<rparr>
          in if status client = Waiting \<or> status client = Ended
             then (Inr (), st\<lparr>rp_closed := rp_closed st @ [(client, Disconnect)]\<rparr>)
             else (quit, st\<lparr>rp_closed := rp_closed st @ [(client, Quit)]\<rparr>))"

inductive redis_step :: "(jsstr \<Rightarrow> jsstr option) \<Rightarrow> redis_process \<Rightarrow> redis_process \<Rightarrow> bool" for process_env where
  get: "get_redis options process_env st = (r, st') \<Longrightarrow> redis_step process_env st st'"
| close: "close_redis status quit st = (r, st') \<Longrightarrow> redis_step process_env st st'"

inductive_cases redis_stepE: "redis_step process_env st st'"

definition no_clients :: redis_process where
  "no_clients = \<lparr> rp_memoized_client = None, rp_clients = [], rp_closed = [] \<rparr>"

section \<open>Properties\<close>

lemma given_or_env_simps [simp]:
  "given_or_env (Some v) e = Some v" "given_or_env None e = e"
  by (simp_all add: given_or_env_def)

lemma resolve_pool_max_Inr:
  "resolve_pool_max options process_env = Inr m \<Longrightarrow>
   dc_max options = Some m \<or> dc_max options = None \<and> (\<exists>n. integer_value m = Some n \<and> 0 < n)"
  by (auto simp: resolve_pool_max_def split: option.splits if_splits)

text \<open>Every client is either the memoized one, which is the newest, or has been closed once.\<close>

definition clients_accounted :: "redis_process \<Rightarrow> bool" where
  "clients_accounted st \<longleftrightarrow>
     map fst (rp_closed st) =
       [0 ..< (case rp_memoized_client st of None \<Rightarrow> length (rp_clients st) | Some c \<Rightarrow> c)] \<and>
     (\<forall>c. rp_memoized_client st = Some c \<longrightarrow> length (rp_clients st) = Suc c)"

lemma get_accounted: "clients_accounted st \<Longrightarrow> get_redis options process_env st = (r, st') \<Longrightarrow> clients_accounted st'"
  by (auto simp: get_redis_def clients_accounted_def Let_def split: option.splits sum.splits)

lemma close_accounted: "clients_accounted st \<Longrightarrow> close_redis status quit st = (r, st') \<Longrightarrow> clients_accounted st'"
  by (auto simp: close_redis_def clients_accounted_def Let_def split: option.splits if_splits)

lemma no_clients_accounted: "clients_accounted no_clients"
  by (simp add: clients_accounted_def no_clients_def)

lemma reachable_accounted: "(redis_step process_env)\<^sup>*\<^sup>* no_clients st \<Longrightarrow> clients_accounted st"
  by (induction rule: rtranclp_induct) (auto intro: no_clients_accounted get_accounted close_accounted elim!: redis_stepE)

text \<open>
  however calls of \<open>getRedis\<close> and \<open>closeRedis\<close> follow each other, and even when a close rejects, every client that was
  built is the memoized one or has been closed exactly once; and when there is a memoized client, \<open>getRedis\<close> returns it
  and builds nothing, whatever its options.
\<close>

theorem redis_clients_are_closed_once:
  assumes "(redis_step process_env)\<^sup>*\<^sup>* no_clients st"
  shows "distinct (map fst (rp_closed st)) \<and>
     {..< length (rp_clients st)} = set (map fst (rp_closed st)) \<union> set_option (rp_memoized_client st) \<and>
     (\<forall>c. rp_memoized_client st = Some c \<longrightarrow>
        c \<notin> set (map fst (rp_closed st)) \<and> get_redis options process_env st = (Inr c, st))"
  using reachable_accounted [OF assms]
  by (cases "rp_memoized_client st") (auto simp: clients_accounted_def get_redis_def)

definition example_redis :: redis_process where
  "example_redis =
     \<lparr> rp_memoized_client = Some 1,
       rp_clients = replicate 2 \<lparr> rk_url = [114], rk_max_retries_per_request = 1, rk_enable_offline_queue = False,
         rk_lazy_connect = False \<rparr>,
       rp_closed = [(0, Quit)] \<rparr>"

theorem redis_clients_are_closed_once_witness:
  "get_redis \<lparr> ro_url = None, ro_lazy_connect = None \<rparr> (\<lambda>_. Some [114]) example_redis = (Inr 1, example_redis)"
proof -
  let ?env = "\<lambda>_. Some [114 :: nat]" and ?options = "\<lparr> ro_url = None, ro_lazy_connect = None \<rparr>"
  have first: "redis_step ?env no_clients (snd (get_redis ?options ?env no_clients))"
    by (rule redis_step.get [OF prod.collapse [symmetric]])
  have second: "redis_step ?env (snd (get_redis ?options ?env no_clients))
      (snd (close_redis (\<lambda>_. Active) (Inl (new_error [])) (snd (get_redis ?options ?env no_clients))))"
    by (rule redis_step.close [OF prod.collapse [symmetric]])
  have third: "redis_step ?env
      (snd (close_redis (\<lambda>_. Active) (Inl (new_error [])) (snd (get_redis ?options ?env no_clients)))) example_redis"
  proof (rule redis_step.get)
    show "get_redis ?options ?env (snd (close_redis (\<lambda>_. Active) (Inl (new_error [])) (snd (get_redis ?options ?env no_clients)))) =
        (Inr 1, example_redis)"
      by (simp add: get_redis_def close_redis_def create_redis_client_def resolve_url_def no_clients_def example_redis_def
          Let_def numeral_2_eq_2)
  qed
  have "(redis_step ?env)\<^sup>*\<^sup>* no_clients example_redis"
    using r_into_rtranclp [of "redis_step ?env", OF first] second third by (meson rtranclp.rtrancl_into_rtrancl)
  from redis_clients_are_closed_once [OF this, of ?options] show ?thesis by (simp add: example_redis_def)
qed

text \<open>\<open>parseInt\<close> stops at the first character that is no digit, so a size such as \<open>12abc\<close> counts as the integer 12.\<close>

theorem pool_size_ignores_trailing_text:
  "resolve_pool_max \<lparr> dc_connection_string = None, dc_max = None \<rparr> (\<lambda>_. Some (js ''12abc'')) = Inr (Finite 12)"
proof -
  have "to_double (of_nat 12) = Finite (of_nat 12)" by (rule to_double_nat) simp
  then have "parse_int_10 (js ''12abc'') = Finite (of_nat 12)"
    by (simp add: parse_int_10_def str_eval js_def digits_value_def digit_value_def)
  then show ?thesis
    using integer_value_nat [of 12] by (simp add: resolve_pool_max_def)
qed

end
