(* ===== verification/Contracts_Env.thy ===== *)
theory Contracts_Env
  imports Js_Number Contracts_Redact
begin

text \<open>
  Reading the environment (\<open>packages/contracts/src/env.ts\<close>): the field schemas, the loader that reports every failing key,
  and the redaction of a loaded configuration. The environment is a function from keys to text. A schema gives the
  paths of its issues or the parsed configuration; what Zod says about an issue is not kept, because the loader
  drops it. The URL check of \<open>z.url()\<close> is a parameter.
\<close>

section \<open>Fields\<close>

type_synonym raw_env = "jsstr \<Rightarrow> jsstr option"

definition z_coerce_number :: "jsstr option \<Rightarrow> double" where
  "z_coerce_number raw = (case raw of None \<Rightarrow> Not_a_number | Some v \<Rightarrow> to_number v)"

text \<open>\<open>z.int()\<close> accepts the integers that a double holds exactly, up to \<open>Number.MAX_SAFE_INTEGER\<close>.\<close>

definition MAX_SAFE_INTEGER :: int where
  "MAX_SAFE_INTEGER = 9007199254740991"

definition z_coerce_int :: "jsstr option \<Rightarrow> int option" where
  "z_coerce_int raw =
     (case integer_value (z_coerce_number raw) of
        None \<Rightarrow> None
      | Some n \<Rightarrow> if \<bar>n\<bar> \<le> MAX_SAFE_INTEGER then Some n else None)"

definition z_port :: "jsstr option \<Rightarrow> int option" where
  "z_port raw =
     (case z_coerce_int raw of None \<Rightarrow> None | Some n \<Rightarrow> if 1 \<le> n \<and> n \<le> 65535 then Some n else None)"

definition z_positive_int :: "jsstr option \<Rightarrow> int option" where
  "z_positive_int raw =
     (case z_coerce_int raw of None \<Rightarrow> None | Some n \<Rightarrow> if 0 < n then Some n else None)"

definition z_url :: "(jsstr \<Rightarrow> jsstr option) \<Rightarrow> jsstr option \<Rightarrow> jsstr option" where
  "z_url url_check raw = Option.bind raw url_check"

definition z_non_empty :: "jsstr option \<Rightarrow> jsstr option" where
  "z_non_empty raw =
     (case raw of
        None \<Rightarrow> None
      | Some v \<Rightarrow> let trimmed = trim v in if 1 \<le> length trimmed then Some trimmed else None)"

definition z_enum :: "jsstr list \<Rightarrow> jsstr option \<Rightarrow> jsstr option" where
  "z_enum values raw = (case raw of None \<Rightarrow> None | Some v \<Rightarrow> if v \<in> set values then Some v else None)"

definition TRUE_VALUES :: "jsstr list" where
  "TRUE_VALUES = [js ''true'', js ''1'', js ''yes'', js ''on'']"

definition FALSE_VALUES :: "jsstr list" where
  "FALSE_VALUES = [js ''false'', js ''0'', js ''no'', js ''off'']"

definition z_booleanish :: "jsstr option \<Rightarrow> bool option" where
  "z_booleanish raw =
     (case raw of
        None \<Rightarrow> None
      | Some v \<Rightarrow>
          let normalized = to_lower (trim v) in
          if normalized \<in> set TRUE_VALUES then Some True
          else if normalized \<in> set FALSE_VALUES then Some False
          else None)"

definition z_csv_list :: "jsstr option \<Rightarrow> jsstr list option" where
  "z_csv_list raw = map_option (\<lambda>v. filter (\<lambda>item. 0 < length item) (map trim (split_on 44 v))) raw"

definition z_optional_url :: "(jsstr \<Rightarrow> jsstr option) \<Rightarrow> jsstr option \<Rightarrow> jsstr option" where
  "z_optional_url url_check raw =
     (case raw of None \<Rightarrow> None | Some v \<Rightarrow> if v = [] \<or> z_url url_check (Some v) \<noteq> None then Some v else None)"

section \<open>Loading\<close>

definition SECRET_ENV_KEYS :: "jsstr list" where
  "SECRET_ENV_KEYS =
     [js ''DATABASE_URL'', js ''DATABASE_URL_WORKER'', js ''REDIS_URL'', js ''R2_ACCOUNT_ID'', js ''R2_ACCESS_KEY_ID'',
      js ''R2_SECRET_ACCESS_KEY'', js ''BETTER_AUTH_SECRET'', js ''SEED_USER_PASSWORD'', js ''REVALIDATE_SECRET'']"

datatype failure_reason = Missing | Invalid

record env_failure =
  ef_key :: jsstr
  ef_reason :: failure_reason

type_synonym issue_path = "jsstr list"
type_synonym 'a env_schema = "raw_env \<Rightarrow> issue_path list + 'a"

definition issue_key :: "issue_path \<Rightarrow> jsstr" where
  "issue_key path = (case path of [] \<Rightarrow> js ''(root)'' | k # _ \<Rightarrow> k)"

definition failure_of :: "raw_env \<Rightarrow> jsstr \<Rightarrow> env_failure" where
  "failure_of raw_env key =
     \<lparr> ef_key = key, ef_reason = (if raw_env key = None \<or> raw_env key = Some [] then Missing else Invalid) \<rparr>"

fun collect_failures :: "raw_env \<Rightarrow> jsstr list \<Rightarrow> issue_path list \<Rightarrow> env_failure list" where
  "collect_failures raw_env seen_keys [] = []"
| "collect_failures raw_env seen_keys (path # paths) =
     (let key = issue_key path in
      if key \<in> set seen_keys then collect_failures raw_env seen_keys paths
      else failure_of raw_env key # collect_failures raw_env (key # seen_keys) paths)"

definition load_env :: "'a env_schema \<Rightarrow> raw_env \<Rightarrow> env_failure list + 'a" where
  "load_env schema raw_env =
     (case schema raw_env of
        Inr data \<Rightarrow> Inr data
      | Inl issues \<Rightarrow> Inl (collect_failures raw_env [] issues))"

definition reason_text :: "failure_reason \<Rightarrow> jsstr" where
  "reason_text r = (case r of Missing \<Rightarrow> js ''missing'' | Invalid \<Rightarrow> js ''invalid'')"

definition format_env_failures :: "env_failure list \<Rightarrow> jsstr" where
  "format_env_failures failures =
     join_with [10] (js ''Invalid environment configuration. Fix these variables before starting:'' #
       map (\<lambda>f. js ''  - '' @ ef_key f @ js '': '' @ reason_text (ef_reason f)) failures)"

text \<open>The own entries of the configuration, in order, with values of any type.\<close>

definition redact_secrets :: "(jsstr \<times> json) list \<Rightarrow> jsstr list \<Rightarrow> (jsstr \<times> json) list" where
  "redact_secrets values secret_keys =
     map (\<lambda>(key, v). (key, if key \<in> set secret_keys then JStr SECRET_REDACTION_PLACEHOLDER else v)) values"

text \<open>A field of an object schema adds its path to the issues when its value is refused.\<close>

definition field_issues :: "raw_env \<Rightarrow> string \<Rightarrow> (jsstr option \<Rightarrow> 'a option) \<Rightarrow> issue_path list" where
  "field_issues raw_env key field = (case field (raw_env (js key)) of None \<Rightarrow> [[js key]] | Some _ \<Rightarrow> [])"

section \<open>Numbers and lists in fields\<close>

lemma z_coerce_int_dec:
  assumes "int n \<le> MAX_SAFE_INTEGER"
  shows "z_coerce_int (Some (dec n)) = Some (int n)"
proof -
  have "n < 2 ^ 53" using assms by (simp add: MAX_SAFE_INTEGER_def)
  then show ?thesis using assms by (simp add: z_coerce_int_def z_coerce_number_def to_number_dec)
qed

lemma z_coerce_int_None [simp]: "z_coerce_int None = None"
  by (simp add: z_coerce_int_def z_coerce_number_def integer_value_def)

lemma z_coerce_int_Nil: "z_coerce_int (Some []) = Some 0"
  by (simp add: z_coerce_int_def z_coerce_number_def to_number_def trim_def trim_start_def integer_value_def MAX_SAFE_INTEGER_def)

lemma z_port_dec: "z_port (Some (dec n)) = Some (int n)" if "1 \<le> n" "n \<le> 65535"
  using that by (simp add: z_port_def z_coerce_int_dec MAX_SAFE_INTEGER_def)

lemma z_port_Some: "z_port raw = Some n \<Longrightarrow> 1 \<le> n \<and> n \<le> 65535"
  by (auto simp: z_port_def split: option.splits if_splits)

lemma z_positive_int_Some: "z_positive_int raw = Some n \<Longrightarrow> 0 < n \<and> n \<le> MAX_SAFE_INTEGER"
  by (auto simp: z_positive_int_def z_coerce_int_def split: option.splits if_splits)

lemma z_positive_int_dec: "0 < n \<Longrightarrow> int n \<le> MAX_SAFE_INTEGER \<Longrightarrow> z_positive_int (Some (dec n)) = Some (int n)"
  by (simp add: z_positive_int_def z_coerce_int_dec)

lemma z_non_empty_Some: "z_non_empty raw = Some t \<Longrightarrow> t \<noteq> []"
  by (auto simp: z_non_empty_def Let_def split: option.splits if_splits)

lemma z_csv_list_items: "z_csv_list (Some v) = Some items \<Longrightarrow> item \<in> set items \<Longrightarrow> item \<noteq> [] \<and> 44 \<notin> set item"
  using set_trim split_on_parts by (fastforce simp: z_csv_list_def)

lemma z_csv_list_join:
  assumes "items \<noteq> []" and "\<forall>i \<in> set items. i \<noteq> [] \<and> 44 \<notin> set i \<and> trim i = i"
  shows "z_csv_list (Some (join_with [44] items)) = Some items"
proof -
  have "map trim items = items" using assms(2) by (simp add: map_idI)
  then show ?thesis using assms by (simp add: z_csv_list_def split_join)
qed

section \<open>The failures\<close>

lemma collect_failures_keys:
  "set (map ef_key (collect_failures raw_env seen paths)) = set (map issue_key paths) - set seen \<and>
   distinct (map ef_key (collect_failures raw_env seen paths))"
  by (induction paths arbitrary: seen) (auto simp: Let_def failure_of_def)

lemma collect_failures_reason:
  "f \<in> set (collect_failures raw_env seen paths) \<Longrightarrow> f = failure_of raw_env (ef_key f)"
  by (induction paths arbitrary: seen) (auto simp: Let_def failure_of_def split: if_splits)

lemma collect_failures_cong:
  "(\<And>p. p \<in> set paths \<Longrightarrow> failure_of raw_env (issue_key p) = failure_of other (issue_key p)) \<Longrightarrow>
   collect_failures raw_env seen paths = collect_failures other seen paths"
  by (induction paths arbitrary: seen) (simp_all add: Let_def)

lemma field_issues_Nil: "field_issues raw_env key field = [] \<longleftrightarrow> (\<exists>v. field (raw_env (js key)) = Some v)"
  by (auto simp: field_issues_def split: option.split)

lemma field_issues_key: "p \<in> set (field_issues raw_env key field) \<Longrightarrow> p = [js key]"
  by (auto simp: field_issues_def split: option.splits)

lemma distinct_singleton_list: "distinct xs \<Longrightarrow> set xs = {x} \<Longrightarrow> xs = [x]"
  by (cases xs; cases "tl xs") auto

section \<open>Properties\<close>

text \<open>
  the loader reports every failing key once, with the right reason, and the report depends on the environment
  only in which keys fail and which of those are unset: two environments that differ in their values alone give
  the same text, so no value of the environment, secret or not, is ever printed.
\<close>

theorem env_report_hides_values:
  assumes "schema raw_env = Inl issues"
  shows "\<exists>failures. load_env schema raw_env = Inl failures \<and>
     distinct (map ef_key failures) \<and> set (map ef_key failures) = set (map issue_key issues) \<and>
     (\<forall>f \<in> set failures. ef_reason f = Missing \<longleftrightarrow> raw_env (ef_key f) \<in> {None, Some []}) \<and>
     (\<forall>other. schema other = Inl issues \<longrightarrow>
        (\<forall>k. raw_env k \<in> {None, Some []} \<longleftrightarrow> other k \<in> {None, Some []}) \<longrightarrow>
        map_sum format_env_failures id (load_env schema other) = Inl (format_env_failures failures))"
proof -
  let ?fs = "collect_failures raw_env [] issues"
  have reason: "\<forall>f \<in> set ?fs. ef_reason f = Missing \<longleftrightarrow> raw_env (ef_key f) \<in> {None, Some []}"
  proof
    fix f assume "f \<in> set ?fs"
    then have "ef_reason f = ef_reason (failure_of raw_env (ef_key f))"
      by (rule arg_cong [where f = ef_reason, OF collect_failures_reason])
    then show "ef_reason f = Missing \<longleftrightarrow> raw_env (ef_key f) \<in> {None, Some []}" by (simp add: failure_of_def)
  qed
  have same: "collect_failures other [] issues = ?fs"
    if "\<forall>k. raw_env k \<in> {None, Some []} \<longleftrightarrow> other k \<in> {None, Some []}" for other
    using that by (intro collect_failures_cong) (simp add: failure_of_def)
  have load: "load_env schema env = Inl (collect_failures env [] issues)" if "schema env = Inl issues" for env
    using that by (simp add: load_env_def)
  have keys: "distinct (map ef_key ?fs)" "set (map ef_key ?fs) = set (map issue_key issues)"
    using collect_failures_keys [of raw_env "[]" issues] by simp_all
  show ?thesis
  proof (intro exI [of _ ?fs] conjI allI impI load assms keys reason)
    fix other
    assume a: "schema other = Inl issues" and b: "\<forall>k. raw_env k \<in> {None, Some []} \<longleftrightarrow> other k \<in> {None, Some []}"
    show "map_sum format_env_failures id (load_env schema other) = Inl (format_env_failures ?fs)"
      by (simp only: load [OF a] map_sum.simps same [OF b])
  qed
qed

definition example_schema :: "int env_schema" where
  "example_schema raw_env =
     (case z_port (raw_env (js ''API_PORT'')) of None \<Rightarrow> Inl [[js ''API_PORT'']] | Some n \<Rightarrow> Inr n)"

theorem env_report_hides_values_witness:
  "\<exists>failures. load_env example_schema (\<lambda>_. Some []) = Inl failures \<and> map ef_key failures = [js ''API_PORT'']"
proof -
  have fails: "example_schema (\<lambda>_. Some []) = Inl [[js ''API_PORT'']]"
    by (simp add: example_schema_def z_port_def z_coerce_int_Nil)
  obtain failures where f: "load_env example_schema (\<lambda>_. Some []) = Inl failures" "distinct (map ef_key failures)"
      "set (map ef_key failures) = set (map issue_key [[js ''API_PORT'']])"
    by (rule exE [OF env_report_hides_values [where schema = example_schema, OF fails]]) (elim conjE, assumption)
  have "set (map ef_key failures) = {js ''API_PORT''}" using f(3) by (simp only: issue_key_def list.map list.set list.case)
  with f(2) have "map ef_key failures = [js ''API_PORT'']" by (rule distinct_singleton_list)
  with f(1) show ?thesis by (intro exI conjI)
qed

text \<open>
  a redacted configuration has the keys of the configuration in their order and the values of all keys that are
  not secret; what stands under a secret key does not depend on its value.
\<close>

theorem redacted_configuration:
  "map fst (redact_secrets values secrets) = map fst values \<and>
   (\<forall>i < length values. redact_secrets values secrets ! i =
      (fst (values ! i), if fst (values ! i) \<in> set secrets then JStr SECRET_REDACTION_PLACEHOLDER else snd (values ! i))) \<and>
   redact_secrets (redact_secrets values secrets) secrets = redact_secrets values secrets"
  by (auto simp: redact_secrets_def split: prod.splits)

theorem redacted_configuration_witness:
  "redact_secrets [(js ''REDIS_URL'', JStr [112]), (js ''API_PORT'', JInt 3001)] SECRET_ENV_KEYS ! 0 =
     (js ''REDIS_URL'', JStr SECRET_REDACTION_PLACEHOLDER)"
  using redacted_configuration [of "[(js ''REDIS_URL'', JStr [112]), (js ''API_PORT'', JInt 3001)]" SECRET_ENV_KEYS]
  by (auto simp: SECRET_ENV_KEYS_def)

text \<open>
  a list that is printed with commas is read back, and every item read from a list is trimmed, not empty and free of
  commas.
\<close>

theorem csv_list_roundtrip:
  "(items \<noteq> [] \<longrightarrow> (\<forall>i \<in> set items. i \<noteq> [] \<and> 44 \<notin> set i \<and> trim i = i) \<longrightarrow>
      z_csv_list (Some (join_with [44] items)) = Some items) \<and>
   (z_csv_list (Some v) = Some read_items \<longrightarrow> (\<forall>i \<in> set read_items. i \<noteq> [] \<and> 44 \<notin> set i))"
  using z_csv_list_join z_csv_list_items by blast

theorem csv_list_roundtrip_witness:
  "z_csv_list (Some (js ''app,api'')) = Some [js ''app'', js ''api'']"
proof -
  have "trim (js ''app'') = js ''app''" "trim (js ''api'') = js ''api''" by (simp_all add: str_eval js_def)
  then show ?thesis
    using csv_list_roundtrip [of "[js ''app'', js ''api'']" "[]" "[]"] by (simp add: js_def)
qed

end
