(* ===== verification/Apps_Env.thy ===== *)
theory Apps_Env
  imports Contracts_Env Js_Async
begin

text \<open>
  The environments of the programs: the API (\<open>apps/api/src/env.ts\<close>), the worker (\<open>apps/worker/src/env.ts\<close>), the replay
  command (\<open>apps/worker/src/cli/replay.ts\<close>) and the web application (\<open>apps/web/src/env.ts\<close>), and the two reads of the
  worker's concurrency. A schema collects the issues of all its fields in their order. The checks of \<open>z.url()\<close> and
  \<open>z.email()\<close> are parameters.
\<close>

section \<open>Shared fields\<close>

definition NODE_ENVS :: "jsstr list" where
  "NODE_ENVS = [js ''development'', js ''test'', js ''production'']"

definition LOG_LEVELS :: "jsstr list" where
  "LOG_LEVELS = [js ''fatal'', js ''error'', js ''warn'', js ''info'', js ''debug'', js ''trace'', js ''silent'']"

definition PROTOCOLS :: "jsstr list" where
  "PROTOCOLS = [js ''http'', js ''https'']"

definition z_email :: "(jsstr \<Rightarrow> bool) \<Rightarrow> jsstr option \<Rightarrow> jsstr option" where
  "z_email email raw = (case raw of None \<Rightarrow> None | Some v \<Rightarrow> if email v then Some v else None)"

definition z_seed_password :: "jsstr option \<Rightarrow> jsstr option" where
  "z_seed_password raw = (case z_non_empty raw of None \<Rightarrow> None | Some v \<Rightarrow> if 12 \<le> length v then Some v else None)"

text \<open>The parsed value of a field that has no issue.\<close>

definition field_value :: "raw_env \<Rightarrow> string \<Rightarrow> (jsstr option \<Rightarrow> 'a option) \<Rightarrow> 'a" where
  "field_value raw_env key field = the (field (raw_env (js key)))"

definition object_schema :: "(raw_env \<Rightarrow> issue_path list list) \<Rightarrow> (raw_env \<Rightarrow> 'a) \<Rightarrow> 'a env_schema" where
  "object_schema issues values raw_env =
     (if concat (issues raw_env) = [] then Inr (values raw_env) else Inl (concat (issues raw_env)))"

section \<open>The API\<close>

record api_env =
  ae_posta_link_domain :: jsstr
  ae_posta_app_subdomain :: jsstr
  ae_posta_api_subdomain :: jsstr
  ae_posta_protocol :: jsstr
  ae_posta_reserved_handles :: "jsstr list"
  ae_database_url :: jsstr
  ae_redis_url :: jsstr
  ae_r2_account_id :: jsstr
  ae_r2_access_key_id :: jsstr
  ae_r2_secret_access_key :: jsstr
  ae_r2_bucket_events :: jsstr
  ae_r2_bucket_avatars :: jsstr
  ae_r2_endpoint :: jsstr
  ae_geoip_db_dir :: jsstr
  ae_better_auth_secret :: jsstr
  ae_better_auth_url :: jsstr
  ae_seed_user_email :: jsstr
  ae_seed_user_password :: jsstr
  ae_seed_user_handle :: jsstr
  ae_node_env :: jsstr
  ae_log_level :: jsstr
  ae_api_port :: int
  ae_link_cache_ttl_seconds :: int
  ae_redis_lookup_timeout_ms :: int
  ae_max_inflight_enqueues :: int

definition api_env_issues :: "(jsstr \<Rightarrow> jsstr option) \<Rightarrow> (jsstr \<Rightarrow> bool) \<Rightarrow> raw_env \<Rightarrow> issue_path list list" where
  "api_env_issues url email raw_env =
     [field_issues raw_env ''POSTA_LINK_DOMAIN'' z_non_empty,
      field_issues raw_env ''POSTA_APP_SUBDOMAIN'' z_non_empty,
      field_issues raw_env ''POSTA_API_SUBDOMAIN'' z_non_empty,
      field_issues raw_env ''POSTA_PROTOCOL'' (z_enum PROTOCOLS),
      field_issues raw_env ''POSTA_RESERVED_HANDLES'' z_csv_list,
      field_issues raw_env ''DATABASE_URL'' (z_url url),
      field_issues raw_env ''REDIS_URL'' (z_url url),
      field_issues raw_env ''R2_ACCOUNT_ID'' z_non_empty,
      field_issues raw_env ''R2_ACCESS_KEY_ID'' z_non_empty,
      field_issues raw_env ''R2_SECRET_ACCESS_KEY'' z_non_empty,
      field_issues raw_env ''R2_BUCKET_EVENTS'' z_non_empty,
      field_issues raw_env ''R2_BUCKET_AVATARS'' z_non_empty,
      field_issues raw_env ''R2_ENDPOINT'' (z_optional_url url),
      field_issues raw_env ''GEOIP_DB_DIR'' z_non_empty,
      field_issues raw_env ''BETTER_AUTH_SECRET'' z_non_empty,
      field_issues raw_env ''BETTER_AUTH_URL'' (z_url url),
      field_issues raw_env ''SEED_USER_EMAIL'' (z_email email),
      field_issues raw_env ''SEED_USER_PASSWORD'' z_seed_password,
      field_issues raw_env ''SEED_USER_HANDLE'' z_non_empty,
      field_issues raw_env ''NODE_ENV'' (z_enum NODE_ENVS),
      field_issues raw_env ''LOG_LEVEL'' (z_enum LOG_LEVELS),
      field_issues raw_env ''API_PORT'' z_port,
      field_issues raw_env ''LINK_CACHE_TTL_SECONDS'' z_positive_int,
      field_issues raw_env ''REDIS_LOOKUP_TIMEOUT_MS'' z_positive_int,
      field_issues raw_env ''MAX_INFLIGHT_ENQUEUES'' z_positive_int]"

definition api_env_schema :: "(jsstr \<Rightarrow> jsstr option) \<Rightarrow> (jsstr \<Rightarrow> bool) \<Rightarrow> api_env env_schema" where
  "api_env_schema url email = object_schema (api_env_issues url email) (\<lambda>raw_env.
     \<lparr> ae_posta_link_domain = field_value raw_env ''POSTA_LINK_DOMAIN'' z_non_empty,
        ae_posta_app_subdomain = field_value raw_env ''POSTA_APP_SUBDOMAIN'' z_non_empty,
        ae_posta_api_subdomain = field_value raw_env ''POSTA_API_SUBDOMAIN'' z_non_empty,
        ae_posta_protocol = field_value raw_env ''POSTA_PROTOCOL'' (z_enum PROTOCOLS),
        ae_posta_reserved_handles = field_value raw_env ''POSTA_RESERVED_HANDLES'' z_csv_list,
        ae_database_url = field_value raw_env ''DATABASE_URL'' (z_url url),
        ae_redis_url = field_value raw_env ''REDIS_URL'' (z_url url),
        ae_r2_account_id = field_value raw_env ''R2_ACCOUNT_ID'' z_non_empty,
        ae_r2_access_key_id = field_value raw_env ''R2_ACCESS_KEY_ID'' z_non_empty,
        ae_r2_secret_access_key = field_value raw_env ''R2_SECRET_ACCESS_KEY'' z_non_empty,
        ae_r2_bucket_events = field_value raw_env ''R2_BUCKET_EVENTS'' z_non_empty,
        ae_r2_bucket_avatars = field_value raw_env ''R2_BUCKET_AVATARS'' z_non_empty,
        ae_r2_endpoint = field_value raw_env ''R2_ENDPOINT'' (z_optional_url url),
        ae_geoip_db_dir = field_value raw_env ''GEOIP_DB_DIR'' z_non_empty,
        ae_better_auth_secret = field_value raw_env ''BETTER_AUTH_SECRET'' z_non_empty,
        ae_better_auth_url = field_value raw_env ''BETTER_AUTH_URL'' (z_url url),
        ae_seed_user_email = field_value raw_env ''SEED_USER_EMAIL'' (z_email email),
        ae_seed_user_password = field_value raw_env ''SEED_USER_PASSWORD'' z_seed_password,
        ae_seed_user_handle = field_value raw_env ''SEED_USER_HANDLE'' z_non_empty,
        ae_node_env = field_value raw_env ''NODE_ENV'' (z_enum NODE_ENVS),
        ae_log_level = field_value raw_env ''LOG_LEVEL'' (z_enum LOG_LEVELS),
        ae_api_port = field_value raw_env ''API_PORT'' z_port,
        ae_link_cache_ttl_seconds = field_value raw_env ''LINK_CACHE_TTL_SECONDS'' z_positive_int,
        ae_redis_lookup_timeout_ms = field_value raw_env ''REDIS_LOOKUP_TIMEOUT_MS'' z_positive_int,
        ae_max_inflight_enqueues = field_value raw_env ''MAX_INFLIGHT_ENQUEUES'' z_positive_int \<rparr>)"

section \<open>The worker and the replay command\<close>

definition DEFAULT_WORKER_CONCURRENCY :: int where
  "DEFAULT_WORKER_CONCURRENCY = 8"

definition z_batch_size :: "jsstr option \<Rightarrow> int option" where
  "z_batch_size raw = (case z_positive_int raw of None \<Rightarrow> None | Some n \<Rightarrow> if n \<le> 500 then Some n else None)"

definition z_concurrency :: "jsstr option \<Rightarrow> int option" where
  "z_concurrency raw = (case raw of None \<Rightarrow> Some DEFAULT_WORKER_CONCURRENCY | Some _ \<Rightarrow> z_positive_int raw)"

record worker_env =
  we_database_url_worker :: jsstr
  we_redis_url :: jsstr
  we_r2_account_id :: "jsstr option"
  we_r2_access_key_id :: jsstr
  we_r2_secret_access_key :: jsstr
  we_r2_bucket_events :: jsstr
  we_r2_endpoint :: jsstr
  we_worker_port :: int
  we_node_env :: jsstr
  we_log_level :: jsstr
  we_event_batch_size :: int
  we_event_batch_interval_ms :: int
  we_worker_concurrency :: int
  we_shutdown_timeout_ms :: int

text \<open>
  The rule across the two R2 keys, with an issue on each. Zod runs it after the fields when these have no issue; whether it
  also runs after issues of fields is its decision, the parameter \<open>refines\<close>, and then it sees the raw values.
\<close>

definition require_at_least_one_r2_addressing_var :: "jsstr option \<Rightarrow> jsstr option \<Rightarrow> issue_path list" where
  "require_at_least_one_r2_addressing_var r2_endpoint r2_account_id =
     (let has_endpoint = (r2_endpoint \<noteq> Some []);
          has_account_id = (trim (case r2_account_id of None \<Rightarrow> [] | Some v \<Rightarrow> v) \<noteq> [])
      in if has_endpoint \<or> has_account_id then [] else [[js ''R2_ENDPOINT''], [js ''R2_ACCOUNT_ID'']])"

definition super_refine ::
  "(raw_env \<Rightarrow> bool) \<Rightarrow> 'a env_schema \<Rightarrow> ('a \<Rightarrow> issue_path list) \<Rightarrow> (raw_env \<Rightarrow> issue_path list) \<Rightarrow> 'a env_schema" where
  "super_refine refines schema rule raw_rule raw_env =
     (case schema raw_env of
        Inl issues \<Rightarrow> Inl (if refines raw_env then issues @ raw_rule raw_env else issues)
      | Inr data \<Rightarrow> if rule data = [] then Inr data else Inl (rule data))"

definition raw_addressing_rule :: "raw_env \<Rightarrow> issue_path list" where
  "raw_addressing_rule raw_env =
     require_at_least_one_r2_addressing_var (raw_env (js ''R2_ENDPOINT'')) (raw_env (js ''R2_ACCOUNT_ID''))"

definition worker_env_issues :: "(jsstr \<Rightarrow> jsstr option) \<Rightarrow> raw_env \<Rightarrow> issue_path list list" where
  "worker_env_issues url raw_env =
     [field_issues raw_env ''DATABASE_URL_WORKER'' (z_url url),
      field_issues raw_env ''REDIS_URL'' (z_url url),
      field_issues raw_env ''R2_ACCOUNT_ID'' Some,
      field_issues raw_env ''R2_ACCESS_KEY_ID'' z_non_empty,
      field_issues raw_env ''R2_SECRET_ACCESS_KEY'' z_non_empty,
      field_issues raw_env ''R2_BUCKET_EVENTS'' z_non_empty,
      field_issues raw_env ''R2_ENDPOINT'' (z_optional_url url),
      field_issues raw_env ''WORKER_PORT'' z_port,
      field_issues raw_env ''NODE_ENV'' (z_enum NODE_ENVS),
      field_issues raw_env ''LOG_LEVEL'' (z_enum LOG_LEVELS),
      field_issues raw_env ''EVENT_BATCH_SIZE'' z_batch_size,
      field_issues raw_env ''EVENT_BATCH_INTERVAL_MS'' z_positive_int,
      field_issues raw_env ''WORKER_CONCURRENCY'' z_concurrency,
      field_issues raw_env ''SHUTDOWN_TIMEOUT_MS'' z_positive_int]"

definition worker_env_schema_object :: "(jsstr \<Rightarrow> jsstr option) \<Rightarrow> worker_env env_schema" where
  "worker_env_schema_object url = object_schema (worker_env_issues url) (\<lambda>raw_env.
     \<lparr> we_database_url_worker = field_value raw_env ''DATABASE_URL_WORKER'' (z_url url),
        we_redis_url = field_value raw_env ''REDIS_URL'' (z_url url),
        we_r2_account_id = field_value raw_env ''R2_ACCOUNT_ID'' Some,
        we_r2_access_key_id = field_value raw_env ''R2_ACCESS_KEY_ID'' z_non_empty,
        we_r2_secret_access_key = field_value raw_env ''R2_SECRET_ACCESS_KEY'' z_non_empty,
        we_r2_bucket_events = field_value raw_env ''R2_BUCKET_EVENTS'' z_non_empty,
        we_r2_endpoint = field_value raw_env ''R2_ENDPOINT'' (z_optional_url url),
        we_worker_port = field_value raw_env ''WORKER_PORT'' z_port,
        we_node_env = field_value raw_env ''NODE_ENV'' (z_enum NODE_ENVS),
        we_log_level = field_value raw_env ''LOG_LEVEL'' (z_enum LOG_LEVELS),
        we_event_batch_size = field_value raw_env ''EVENT_BATCH_SIZE'' z_batch_size,
        we_event_batch_interval_ms = field_value raw_env ''EVENT_BATCH_INTERVAL_MS'' z_positive_int,
        we_worker_concurrency = field_value raw_env ''WORKER_CONCURRENCY'' z_concurrency,
        we_shutdown_timeout_ms = field_value raw_env ''SHUTDOWN_TIMEOUT_MS'' z_positive_int \<rparr>)"

definition worker_env_schema :: "(raw_env \<Rightarrow> bool) \<Rightarrow> (jsstr \<Rightarrow> jsstr option) \<Rightarrow> worker_env env_schema" where
  "worker_env_schema refines url =
     super_refine refines (worker_env_schema_object url)
       (\<lambda>env. require_at_least_one_r2_addressing_var (Some (we_r2_endpoint env)) (we_r2_account_id env))
       raw_addressing_rule"

definition warn_if_concurrency_cannot_fill_batch_size :: "worker_env \<Rightarrow> jsstr option" where
  "warn_if_concurrency_cannot_fill_batch_size env =
     (if we_event_batch_size env \<le> we_worker_concurrency env then None
      else Some (js ''WORKER_CONCURRENCY ('' @ dec_int (we_worker_concurrency env) @ js '') is less than EVENT_BATCH_SIZE ('' @
        dec_int (we_event_batch_size env) @ js '') '' @ [8212] @
        js '' since T3.5.4, at most WORKER_CONCURRENCY events can be in flight at once, so the batch count trigger can never fire; every batch will flush on the EVENT_BATCH_INTERVAL_MS timer instead, at up to WORKER_CONCURRENCY events per flush.''))"

definition read_worker_concurrency :: "raw_env \<Rightarrow> int outcome" where
  "read_worker_concurrency raw_env =
     (case raw_env (js ''WORKER_CONCURRENCY'') of
        None \<Rightarrow> Inr DEFAULT_WORKER_CONCURRENCY
      | Some raw \<Rightarrow>
          (case z_positive_int (Some raw) of
             None \<Rightarrow> Inl (new_error (js ''WORKER_CONCURRENCY must be a positive integer; received '' @ stringify (JStr raw)))
           | Some n \<Rightarrow> Inr n))"

record replay_env =
  rv_database_url_worker :: jsstr
  rv_r2_account_id :: "jsstr option"
  rv_r2_access_key_id :: jsstr
  rv_r2_secret_access_key :: jsstr
  rv_r2_bucket_events :: jsstr
  rv_r2_endpoint :: jsstr

definition replay_env_issues :: "(jsstr \<Rightarrow> jsstr option) \<Rightarrow> raw_env \<Rightarrow> issue_path list list" where
  "replay_env_issues url raw_env =
     [field_issues raw_env ''DATABASE_URL_WORKER'' (z_url url),
      field_issues raw_env ''R2_ACCOUNT_ID'' Some,
      field_issues raw_env ''R2_ACCESS_KEY_ID'' z_non_empty,
      field_issues raw_env ''R2_SECRET_ACCESS_KEY'' z_non_empty,
      field_issues raw_env ''R2_BUCKET_EVENTS'' z_non_empty,
      field_issues raw_env ''R2_ENDPOINT'' (z_optional_url url)]"

definition replay_env_schema :: "(raw_env \<Rightarrow> bool) \<Rightarrow> (jsstr \<Rightarrow> jsstr option) \<Rightarrow> replay_env env_schema" where
  "replay_env_schema refines url =
     super_refine refines
       (object_schema (replay_env_issues url) (\<lambda>raw_env.
          \<lparr> rv_database_url_worker = field_value raw_env ''DATABASE_URL_WORKER'' (z_url url),
             rv_r2_account_id = field_value raw_env ''R2_ACCOUNT_ID'' Some,
             rv_r2_access_key_id = field_value raw_env ''R2_ACCESS_KEY_ID'' z_non_empty,
             rv_r2_secret_access_key = field_value raw_env ''R2_SECRET_ACCESS_KEY'' z_non_empty,
             rv_r2_bucket_events = field_value raw_env ''R2_BUCKET_EVENTS'' z_non_empty,
             rv_r2_endpoint = field_value raw_env ''R2_ENDPOINT'' (z_optional_url url) \<rparr>))
       (\<lambda>env. require_at_least_one_r2_addressing_var (Some (rv_r2_endpoint env)) (rv_r2_account_id env))
       raw_addressing_rule"

section \<open>The web application\<close>

record web_server_env =
  ww_node_env :: jsstr
  ww_web_port :: int
  ww_revalidate_secret :: jsstr
  ww_posta_link_domain :: jsstr
  ww_posta_protocol :: jsstr
  ww_posta_app_subdomain :: jsstr
  ww_posta_api_subdomain :: jsstr

definition web_server_env_issues :: "raw_env \<Rightarrow> issue_path list list" where
  "web_server_env_issues raw_env =
     [field_issues raw_env ''NODE_ENV'' (z_enum NODE_ENVS),
      field_issues raw_env ''WEB_PORT'' z_port,
      field_issues raw_env ''REVALIDATE_SECRET'' z_non_empty,
      field_issues raw_env ''POSTA_LINK_DOMAIN'' z_non_empty,
      field_issues raw_env ''POSTA_PROTOCOL'' (z_enum PROTOCOLS),
      field_issues raw_env ''POSTA_APP_SUBDOMAIN'' z_non_empty,
      field_issues raw_env ''POSTA_API_SUBDOMAIN'' z_non_empty]"

definition web_server_env_schema :: "web_server_env env_schema" where
  "web_server_env_schema = object_schema web_server_env_issues (\<lambda>raw_env.
     \<lparr> ww_node_env = field_value raw_env ''NODE_ENV'' (z_enum NODE_ENVS),
        ww_web_port = field_value raw_env ''WEB_PORT'' z_port,
        ww_revalidate_secret = field_value raw_env ''REVALIDATE_SECRET'' z_non_empty,
        ww_posta_link_domain = field_value raw_env ''POSTA_LINK_DOMAIN'' z_non_empty,
        ww_posta_protocol = field_value raw_env ''POSTA_PROTOCOL'' (z_enum PROTOCOLS),
        ww_posta_app_subdomain = field_value raw_env ''POSTA_APP_SUBDOMAIN'' z_non_empty,
        ww_posta_api_subdomain = field_value raw_env ''POSTA_API_SUBDOMAIN'' z_non_empty \<rparr>)"

definition web_public_env_schema :: "(jsstr \<Rightarrow> jsstr option) \<Rightarrow> jsstr env_schema" where
  "web_public_env_schema url =
     object_schema (\<lambda>raw_env. [field_issues raw_env ''NEXT_PUBLIC_API_URL'' (z_url url)])
       (\<lambda>raw_env. field_value raw_env ''NEXT_PUBLIC_API_URL'' (z_url url))"

section \<open>What an accepted environment holds\<close>

lemma field_value_Some: "field_issues raw_env key field = [] \<Longrightarrow> field (raw_env (js key)) = Some (field_value raw_env key field)"
  by (auto simp: field_issues_def field_value_def split: option.splits)

lemma object_schema_Inr:
  "object_schema issues values raw_env = Inr data \<longleftrightarrow> (\<forall>i \<in> set (issues raw_env). i = []) \<and> data = values raw_env"
  by (auto simp: object_schema_def)

lemma object_schema_Inl:
  "object_schema issues values raw_env = Inl paths \<longleftrightarrow> concat (issues raw_env) \<noteq> [] \<and> paths = concat (issues raw_env)"
  by (auto simp: object_schema_def)

lemma z_batch_size_Some: "z_batch_size raw = Some n \<Longrightarrow> 0 < n \<and> n \<le> 500"
  using z_positive_int_Some by (auto simp: z_batch_size_def split: option.splits if_splits)

lemma z_concurrency_Some: "z_concurrency raw = Some n \<Longrightarrow> 0 < n"
  using z_positive_int_Some by (auto simp: z_concurrency_def DEFAULT_WORKER_CONCURRENCY_def split: option.splits)

lemma super_refine_Inr:
  "super_refine refines schema rule raw_rule raw_env = Inr data \<longleftrightarrow> schema raw_env = Inr data \<and> rule data = []"
  by (auto simp: super_refine_def split: sum.splits)

lemma read_concurrency_iff:
  "read_worker_concurrency raw_env = Inr n \<longleftrightarrow> z_concurrency (raw_env (js ''WORKER_CONCURRENCY'')) = Some n"
  by (auto simp: read_worker_concurrency_def z_concurrency_def split: option.splits)

lemma worker_object_fields:
  assumes "worker_env_schema_object url raw_env = Inr env"
  shows "z_port (raw_env (js ''WORKER_PORT'')) = Some (we_worker_port env)"
    and "z_batch_size (raw_env (js ''EVENT_BATCH_SIZE'')) = Some (we_event_batch_size env)"
    and "z_positive_int (raw_env (js ''EVENT_BATCH_INTERVAL_MS'')) = Some (we_event_batch_interval_ms env)"
    and "z_concurrency (raw_env (js ''WORKER_CONCURRENCY'')) = Some (we_worker_concurrency env)"
    and "z_positive_int (raw_env (js ''SHUTDOWN_TIMEOUT_MS'')) = Some (we_shutdown_timeout_ms env)"
    and "raw_env (js ''R2_ACCOUNT_ID'') = we_r2_account_id env"
proof -
  have clean: "\<And>i. i \<in> set (worker_env_issues url raw_env) \<Longrightarrow> i = []"
    using assms by (simp add: worker_env_schema_object_def object_schema_Inr)
  note env = conjunct2 [OF assms [unfolded worker_env_schema_object_def object_schema_Inr]]
  show "z_port (raw_env (js ''WORKER_PORT'')) = Some (we_worker_port env)"
    unfolding env worker_env.select_convs by (rule field_value_Some, rule clean) (simp add: worker_env_issues_def)
  show "z_batch_size (raw_env (js ''EVENT_BATCH_SIZE'')) = Some (we_event_batch_size env)"
    unfolding env worker_env.select_convs by (rule field_value_Some, rule clean) (simp add: worker_env_issues_def)
  show "z_positive_int (raw_env (js ''EVENT_BATCH_INTERVAL_MS'')) = Some (we_event_batch_interval_ms env)"
    unfolding env worker_env.select_convs by (rule field_value_Some, rule clean) (simp add: worker_env_issues_def)
  show "z_concurrency (raw_env (js ''WORKER_CONCURRENCY'')) = Some (we_worker_concurrency env)"
    unfolding env worker_env.select_convs by (rule field_value_Some, rule clean) (simp add: worker_env_issues_def)
  show "z_positive_int (raw_env (js ''SHUTDOWN_TIMEOUT_MS'')) = Some (we_shutdown_timeout_ms env)"
    unfolding env worker_env.select_convs by (rule field_value_Some, rule clean) (simp add: worker_env_issues_def)
  show "raw_env (js ''R2_ACCOUNT_ID'') = we_r2_account_id env"
    unfolding env worker_env.select_convs by (simp add: field_value_def)
qed

section \<open>Properties\<close>

lemma load_env_Inr: "load_env schema raw_env = Inr env \<longleftrightarrow> schema raw_env = Inr env"
  by (simp add: load_env_def split: sum.split)

lemma load_env_failing_key:
  assumes "field (raw_env (js key)) = None" and "field_issues raw_env key field \<in> set (issues raw_env)"
  shows "\<exists>failures. load_env (object_schema issues values) raw_env = Inl failures \<and>
     failure_of raw_env (js key) \<in> set failures"
proof -
  have "[js key] \<in> set (concat (issues raw_env))" 
    using assms by (auto simp: field_issues_def intro!: bexI [of _ "[[js key]]"])
  then have schema: "object_schema issues values raw_env = Inl (concat (issues raw_env))"
    by (metis list.distinct(1) list.set_cases object_schema_Inl)
  let ?fs = "collect_failures raw_env [] (concat (issues raw_env))"
  have "js key \<in> ef_key ` set ?fs"
    using collect_failures_keys [of raw_env "[]" "concat (issues raw_env)"] \<open>[js key] \<in> _\<close>
    by (force simp: issue_key_def)
  then obtain f where f: "f \<in> set ?fs" "ef_key f = js key" by auto
  then have "f = failure_of raw_env (js key)" using collect_failures_reason [OF f(1)] by simp
  with f(1) schema show ?thesis by (auto simp: load_env_def)
qed

text \<open>
  an environment that the worker accepts is one it can run with: the port is a port, a batch has 1 to 500 events,
  timers are positive, R2 can be addressed by an endpoint or an account, and the two reads of the concurrency, of the
  decorator and of the schema, give the same positive number.
\<close>

theorem worker_env_is_usable:
  assumes "load_env (worker_env_schema refines url) raw_env = Inr env"
  shows "1 \<le> we_worker_port env \<and> we_worker_port env \<le> 65535 \<and>
     0 < we_event_batch_size env \<and> we_event_batch_size env \<le> 500 \<and>
     0 < we_event_batch_interval_ms env \<and> 0 < we_shutdown_timeout_ms env \<and>
     (we_r2_endpoint env \<noteq> [] \<or> (\<exists>a. we_r2_account_id env = Some a \<and> trim a \<noteq> [])) \<and>
     read_worker_concurrency raw_env = Inr (we_worker_concurrency env) \<and> 0 < we_worker_concurrency env"
proof -
  have object: "worker_env_schema_object url raw_env = Inr env"
    and rule: "require_at_least_one_r2_addressing_var (Some (we_r2_endpoint env)) (we_r2_account_id env) = []"
    using assms by (simp_all add: load_env_Inr worker_env_schema_def super_refine_Inr)
  note fields = worker_object_fields [OF object]
  have "we_r2_endpoint env \<noteq> [] \<or> (\<exists>a. we_r2_account_id env = Some a \<and> trim a \<noteq> [])"
    using rule by (auto simp: require_at_least_one_r2_addressing_var_def trim_def trim_start_def split: option.splits if_splits)
  then show ?thesis
    using z_port_Some [OF fields(1)] z_batch_size_Some [OF fields(2)] z_positive_int_Some [OF fields(3)]
      z_concurrency_Some [OF fields(4)] z_positive_int_Some [OF fields(5)] fields(4)
    by (simp add: read_concurrency_iff)
qed

text \<open>
  the two reads of the concurrency never disagree: what the decorator reads is what the schema gives, and when the
  decorator's read throws, the schema names \<open>WORKER_CONCURRENCY\<close> among the failing keys.
\<close>

theorem concurrency_reads_agree:
  "case read_worker_concurrency raw_env of
     Inr n \<Rightarrow> (\<forall>env. load_env (worker_env_schema_object url) raw_env = Inr env \<longrightarrow> we_worker_concurrency env = n)
   | Inl e \<Rightarrow> (\<exists>failures. load_env (worker_env_schema_object url) raw_env = Inl failures \<and>
       (\<exists>f \<in> set failures. ef_key f = js ''WORKER_CONCURRENCY''))"
proof (cases "read_worker_concurrency raw_env")
  case (Inr n)
  then have "z_concurrency (raw_env (js ''WORKER_CONCURRENCY'')) = Some n" by (simp add: read_concurrency_iff)
  then have "we_worker_concurrency env = n" if "worker_env_schema_object url raw_env = Inr env" for env
    using worker_object_fields(4) [OF that] by simp
  then show ?thesis unfolding Inr sum.case load_env_Inr by blast
next
  case (Inl e)
  then have refused: "z_concurrency (raw_env (js ''WORKER_CONCURRENCY'')) = None"
    using read_concurrency_iff [of raw_env] by (cases "z_concurrency (raw_env (js ''WORKER_CONCURRENCY''))") auto
  have member: "field_issues raw_env ''WORKER_CONCURRENCY'' z_concurrency \<in> set (worker_env_issues url raw_env)"
    by (simp add: worker_env_issues_def)
  have "\<exists>failures. load_env (worker_env_schema_object url) raw_env = Inl failures \<and>
      failure_of raw_env (js ''WORKER_CONCURRENCY'') \<in> set failures"
    unfolding worker_env_schema_object_def by (rule load_env_failing_key [where issues = "worker_env_issues url", OF refused member])
  then obtain failures where f: "load_env (worker_env_schema_object url) raw_env = Inl failures"
      "failure_of raw_env (js ''WORKER_CONCURRENCY'') \<in> set failures"
    by blast
  have "ef_key (failure_of raw_env (js ''WORKER_CONCURRENCY'')) = js ''WORKER_CONCURRENCY''" by (simp only: failure_of_def env_failure.select_convs)
  with f show ?thesis unfolding Inl sum.case by (intro exI conjI bexI)
qed

text \<open>
  with an empty \<open>R2_ACCOUNT_ID\<close>, which the template of the environment asks for in local development, the API does not
  start, whatever the endpoint: its schema reports the key as missing.
\<close>

theorem api_refuses_empty_account_id:
  assumes "raw_env (js ''R2_ACCOUNT_ID'') = Some []"
  shows "\<exists>failures. load_env (api_env_schema url email) raw_env = Inl failures \<and>
     \<lparr> ef_key = js ''R2_ACCOUNT_ID'', ef_reason = Missing \<rparr> \<in> set failures"
proof -
  have refused: "z_non_empty (raw_env (js ''R2_ACCOUNT_ID'')) = None"
    using assms by (simp add: z_non_empty_def trim_def trim_start_def)
  have member: "field_issues raw_env ''R2_ACCOUNT_ID'' z_non_empty \<in> set (api_env_issues url email raw_env)"
    by (simp add: api_env_issues_def)
  have failure: "failure_of raw_env (js ''R2_ACCOUNT_ID'') = \<lparr> ef_key = js ''R2_ACCOUNT_ID'', ef_reason = Missing \<rparr>"
    using assms by (simp add: failure_of_def)
  show ?thesis
    unfolding api_env_schema_def failure [symmetric]
    by (rule load_env_failing_key [where issues = "api_env_issues url email", OF refused member])
qed

section \<open>Examples\<close>

definition example_raw_env :: raw_env where
  "example_raw_env = map_of
     [(js ''DATABASE_URL_WORKER'', js ''postgres:''), (js ''REDIS_URL'', js ''redis:''), (js ''R2_ACCOUNT_ID'', []),
      (js ''R2_ACCESS_KEY_ID'', js ''key''), (js ''R2_SECRET_ACCESS_KEY'', js ''secret''), (js ''R2_BUCKET_EVENTS'', js ''events''),
      (js ''R2_ENDPOINT'', js ''http:''), (js ''WORKER_PORT'', dec 3002), (js ''NODE_ENV'', js ''test''),
      (js ''LOG_LEVEL'', js ''info''), (js ''EVENT_BATCH_SIZE'', dec 100), (js ''EVENT_BATCH_INTERVAL_MS'', dec 2000),
      (js ''SHUTDOWN_TIMEOUT_MS'', dec 30000), (js ''DB_POOL_MAX'', dec 10)]"

lemma example_raw_values:
  "example_raw_env (js ''DATABASE_URL_WORKER'') = Some (js ''postgres:'')"
  "example_raw_env (js ''REDIS_URL'') = Some (js ''redis:'')"
  "example_raw_env (js ''R2_ACCOUNT_ID'') = Some []"
  "example_raw_env (js ''R2_ACCESS_KEY_ID'') = Some (js ''key'')"
  "example_raw_env (js ''R2_SECRET_ACCESS_KEY'') = Some (js ''secret'')"
  "example_raw_env (js ''R2_BUCKET_EVENTS'') = Some (js ''events'')"
  "example_raw_env (js ''R2_ENDPOINT'') = Some (js ''http:'')"
  "example_raw_env (js ''WORKER_PORT'') = Some (dec 3002)"
  "example_raw_env (js ''NODE_ENV'') = Some (js ''test'')"
  "example_raw_env (js ''LOG_LEVEL'') = Some (js ''info'')"
  "example_raw_env (js ''EVENT_BATCH_SIZE'') = Some (dec 100)"
  "example_raw_env (js ''EVENT_BATCH_INTERVAL_MS'') = Some (dec 2000)"
  "example_raw_env (js ''WORKER_CONCURRENCY'') = None"
  "example_raw_env (js ''SHUTDOWN_TIMEOUT_MS'') = Some (dec 30000)"
  "example_raw_env (js ''DB_POOL_MAX'') = Some (dec 10)"
  by (simp_all add: example_raw_env_def)

definition example_worker_env :: worker_env where
  "example_worker_env =
     \<lparr> we_database_url_worker = js ''postgres:'', we_redis_url = js ''redis:'', we_r2_account_id = Some [],
       we_r2_access_key_id = js ''key'', we_r2_secret_access_key = js ''secret'', we_r2_bucket_events = js ''events'',
       we_r2_endpoint = js ''http:'', we_worker_port = 3002, we_node_env = js ''test'', we_log_level = js ''info'',
       we_event_batch_size = 100, we_event_batch_interval_ms = 2000, we_worker_concurrency = 8,
       we_shutdown_timeout_ms = 30000 \<rparr>"

lemma example_fields:
  "z_url Some (Some v) = Some v" "z_optional_url Some (Some v) = Some v"
  "z_non_empty (Some (js ''key'')) = Some (js ''key'')" "z_non_empty (Some (js ''secret'')) = Some (js ''secret'')"
  "z_non_empty (Some (js ''events'')) = Some (js ''events'')"
  "z_enum NODE_ENVS (Some (js ''test'')) = Some (js ''test'')" "z_enum LOG_LEVELS (Some (js ''info'')) = Some (js ''info'')"
  "z_port (Some (dec 3002)) = Some 3002" "z_batch_size (Some (dec 100)) = Some 100"
  "z_positive_int (Some (dec 2000)) = Some 2000" "z_positive_int (Some (dec 30000)) = Some 30000"
  "z_concurrency None = Some 8"
  using z_port_dec [of 3002] z_positive_int_dec [of 100] z_positive_int_dec [of 2000] z_positive_int_dec [of 30000]
  by (simp_all add: z_url_def z_optional_url_def z_non_empty_def trim_def trim_start_def js_space_def js_def z_enum_def
      NODE_ENVS_def LOG_LEVELS_def MAX_SAFE_INTEGER_def z_batch_size_def z_concurrency_def DEFAULT_WORKER_CONCURRENCY_def)

lemma example_worker_env_loads: "load_env (worker_env_schema refines Some) example_raw_env = Inr example_worker_env"
proof -
  have "worker_env_schema_object Some example_raw_env = Inr example_worker_env"
    by (simp only: worker_env_schema_object_def object_schema_def worker_env_issues_def field_issues_def field_value_def
        example_raw_values example_fields option.case option.sel concat.simps append_Nil if_True simp_thms
        example_worker_env_def)
  then show ?thesis
    by (simp add: load_env_Inr worker_env_schema_def super_refine_Inr require_at_least_one_r2_addressing_var_def
        example_worker_env_def)
qed

theorem worker_env_is_usable_witness: "read_worker_concurrency example_raw_env = Inr 8"
  using worker_env_is_usable [OF example_worker_env_loads] by (simp add: example_worker_env_def)

theorem concurrency_reads_agree_witness: "we_worker_concurrency example_worker_env = 8"
proof -
  have "read_worker_concurrency example_raw_env = Inr 8"
    by (simp add: read_worker_concurrency_def example_raw_values DEFAULT_WORKER_CONCURRENCY_def)
  moreover have "load_env (worker_env_schema_object Some) example_raw_env = Inr example_worker_env"
    using example_worker_env_loads by (simp add: load_env_Inr worker_env_schema_def super_refine_Inr)
  ultimately show ?thesis using concurrency_reads_agree [where raw_env = example_raw_env and url = Some] by simp
qed

theorem api_refuses_empty_account_id_witness:
  "\<exists>failures. load_env (api_env_schema Some (\<lambda>_. True)) example_raw_env = Inl failures \<and>
     \<lparr> ef_key = js ''R2_ACCOUNT_ID'', ef_reason = Missing \<rparr> \<in> set failures"
  using api_refuses_empty_account_id [where raw_env = example_raw_env, OF example_raw_values(3)] .

end
