(* ===== verification/Core_Geoip.thy ===== *)
theory Core_Geoip
  imports Js_Async Js_Unicode Contracts_Capture Worker_R2Retry
begin

text \<open>
  Network and country of an address (\<open>packages/core/src/geoip\<close>): \<open>loader.ts\<close> opens the two databases once per
  process, \<open>lookup.ts\<close> answers from them, never for a private or reserved address. \<open>isIP\<close> of Node, reading a
  file and the MaxMind reader are parameters.
\<close>

section \<open>Addresses that are not looked up\<close>

text \<open>\<open>Number(part)\<close> of a part of an IPv4 address, which is all digits when \<open>isIP\<close> says 4.\<close>

definition octet :: "jsstr \<Rightarrow> int" where
  "octet part = int (undec part)"

definition octet_at :: "jsstr list \<Rightarrow> nat \<Rightarrow> int" where
  "octet_at parts i = (if i < length parts then octet (parts ! i) else - 1)"

definition is_private_or_reserved_ipv4 :: "jsstr \<Rightarrow> bool" where
  "is_private_or_reserved_ipv4 ip =
     (let parts = split_on 46 ip; first = octet_at parts 0; second = octet_at parts 1 in
      if first = 127 then True
      else if first = 10 then True
      else if first = 172 \<and> 16 \<le> second \<and> second \<le> 31 then True
      else if first = 192 \<and> second = 168 then True
      else if first = 169 \<and> second = 254 then True
      else False)"

text \<open>\<open>Number.parseInt(group, 16)\<close> of a group of an IPv6 address: its leading hex digits, \<open>None\<close> for \<open>NaN\<close>.\<close>

definition hex_of :: "jsstr \<Rightarrow> nat" where
  "hex_of s = foldl (\<lambda>n c. 16 * n + (case hex_val c of Some d \<Rightarrow> d | None \<Rightarrow> 0)) 0 s"

definition parse_hex :: "jsstr \<Rightarrow> nat option" where
  "parse_hex s = (let digits = takeWhile is_hex_digit s in if digits = [] then None else Some (hex_of digits))"

definition first_hextet_value :: "jsstr \<Rightarrow> nat option" where
  "first_hextet_value ip =
     (if starts_with ip (js ''::'') then Some 0 else parse_hex (hd (split_on 58 ip)))"

definition is_private_or_reserved_ipv6 :: "jsstr \<Rightarrow> bool" where
  "is_private_or_reserved_ipv6 ip =
     (let normalized = to_lower ip in
      if normalized = js ''::1'' then True
      else
        (case first_hextet_value normalized of
           None \<Rightarrow> False
         | Some value \<Rightarrow>
             if 64512 \<le> value \<and> value \<le> 65023 then True
             else if 65152 \<le> value \<and> value \<le> 65215 then True
             else False))"

definition is_lookupable_address :: "(jsstr \<Rightarrow> nat) \<Rightarrow> jsstr \<Rightarrow> bool" where
  "is_lookupable_address is_ip ip =
     (let version = is_ip ip in
      if version = 0 then False
      else if version = 4 then \<not> is_private_or_reserved_ipv4 ip else \<not> is_private_or_reserved_ipv6 ip)"

section \<open>The lookup\<close>

definition CF_COUNTRY_PLACEHOLDERS :: "jsstr list" where
  "CF_COUNTRY_PLACEHOLDERS = [js ''XX'', js ''T1'']"

definition normalize_cf_country :: "jsstr option \<Rightarrow> jsstr option" where
  "normalize_cf_country cf_country =
     (case cf_country of
        None \<Rightarrow> None
      | Some c \<Rightarrow>
          (let trimmed = trim c in
           if length trimmed = 0 then None
           else if to_upper trimmed \<in> set CF_COUNTRY_PLACEHOLDERS then None
           else Some trimmed))"

text \<open>
  \<open>gd_asn\<close>, \<open>gd_country\<close>: \<open>reader.get(ip)\<close> with the field the code reads, which may throw. A reader does not
  change the world, but its failure is logged.
\<close>

record geo_databases =
  gd_asn :: "jsstr \<Rightarrow> js_number option outcome"
  gd_country :: "jsstr \<Rightarrow> jsstr option outcome"

definition log_lookup_failure :: "(jsstr \<Rightarrow> log_meta \<Rightarrow> 's \<Rightarrow> 's) \<Rightarrow> jsstr \<Rightarrow> thrown \<Rightarrow> 's \<Rightarrow> 's" where
  "log_lookup_failure logger field error =
     logger (js ''GeoIP '' @ field @ js '' lookup threw unexpectedly; returning null for this request'')
       [(js ''errorType'', JStr (error_type error))]"

definition lookup_mmdb ::
  "(jsstr \<Rightarrow> 'a option outcome) \<Rightarrow> jsstr \<Rightarrow> (jsstr \<Rightarrow> log_meta \<Rightarrow> 's \<Rightarrow> 's) \<Rightarrow> jsstr \<Rightarrow> 's \<Rightarrow> 'a option \<times> 's" where
  "lookup_mmdb reader ip logger field s =
     (case reader ip of
        Inr found \<Rightarrow> (found, s)
      | Inl error \<Rightarrow> (None, log_lookup_failure logger field error s))"

definition lookup_network ::
  "(jsstr \<Rightarrow> nat) \<Rightarrow> geo_databases \<Rightarrow> (jsstr \<Rightarrow> log_meta \<Rightarrow> 's \<Rightarrow> 's) \<Rightarrow> jsstr \<Rightarrow> jsstr option \<Rightarrow>
   's \<Rightarrow> (js_number option \<times> jsstr option) \<times> 's" where
  "lookup_network is_ip databases logger ip cf_country s =
     (let cf = normalize_cf_country cf_country;
          lookupable = is_lookupable_address is_ip ip;
          (asn, s1) = (if lookupable then lookup_mmdb (gd_asn databases) ip logger (js ''asn'') s else (None, s));
          (country, s2) =
            (case cf of
               Some c \<Rightarrow> (Some c, s1)
             | None \<Rightarrow>
                 if lookupable then lookup_mmdb (gd_country databases) ip logger (js ''country'') s1 else (None, s1))
      in ((asn, country), s2))"

section \<open>Opening the databases\<close>

definition resolve_db_dir :: "jsstr option \<Rightarrow> jsstr option \<Rightarrow> jsstr outcome" where
  "resolve_db_dir option_dir env_dir =
     (case (case option_dir of Some d \<Rightarrow> Some d | None \<Rightarrow> env_dir) of
        Some d \<Rightarrow> if d = [] then Inl (new_error (js ''GEOIP_DB_DIR must be set (or pass dbDir explicitly to createGeoDatabases).''))
                  else Inr d
      | None \<Rightarrow> Inl (new_error (js ''GEOIP_DB_DIR must be set (or pass dbDir explicitly to createGeoDatabases).'')))"

definition with_cause :: "jsstr \<Rightarrow> thrown \<Rightarrow> thrown" where
  "with_cause message cause = Err (js ''Error'') (js ''Error'') message None (Some cause) False None"

definition read_database ::
  "(jsstr \<Rightarrow> jsstr \<Rightarrow> jsstr) \<Rightarrow> (jsstr \<Rightarrow> 'b outcome) \<Rightarrow> ('b \<Rightarrow> 'r outcome) \<Rightarrow> jsstr \<Rightarrow> jsstr \<Rightarrow> jsstr \<Rightarrow> 'r outcome" where
  "read_database path_join read_file new_reader db_dir filename label =
     (let db_path = path_join db_dir filename in
      case read_file db_path of
        Inl cause \<Rightarrow>
          Inl (with_cause (js ''GeoIP '' @ label @ js '' database not found or unreadable at \"'' @ db_path @
            js ''\" (from GEOIP_DB_DIR). Run `pnpm geo:fetch` to download it, or check that GEOIP_DB_DIR points at the right directory.'') cause)
      | Inr buffer \<Rightarrow>
          (case new_reader buffer of
             Inl cause \<Rightarrow>
               Inl (with_cause (js ''GeoIP '' @ label @ js '' database at \"'' @ db_path @
                 js ''\" (from GEOIP_DB_DIR) is not a valid MMDB file '' @ [8212] @
                 js '' it may be truncated or corrupt. Run `pnpm geo:fetch` to re-download it.'') cause)
           | Inr reader \<Rightarrow> Inr reader))"

definition create_geo_databases ::
  "(jsstr \<Rightarrow> jsstr \<Rightarrow> jsstr) \<Rightarrow> (jsstr \<Rightarrow> 'b outcome) \<Rightarrow> ('b \<Rightarrow> (jsstr \<Rightarrow> js_number option outcome) outcome) \<Rightarrow>
   ('b \<Rightarrow> (jsstr \<Rightarrow> jsstr option outcome) outcome) \<Rightarrow> jsstr option \<Rightarrow> jsstr option \<Rightarrow> geo_databases outcome" where
  "create_geo_databases path_join read_file asn_reader country_reader option_dir env_dir =
     (case resolve_db_dir option_dir env_dir of
        Inl e \<Rightarrow> Inl e
      | Inr db_dir \<Rightarrow>
          (case read_database path_join read_file asn_reader db_dir (js ''dbip-asn-lite.mmdb'') (js ''ASN'') of
             Inl e \<Rightarrow> Inl e
           | Inr asn \<Rightarrow>
               (case read_database path_join read_file country_reader db_dir (js ''dbip-country-lite.mmdb'') (js ''country'') of
                  Inl e \<Rightarrow> Inl e
                | Inr country \<Rightarrow> Inr \<lparr> gd_asn = asn, gd_country = country \<rparr>)))"

text \<open>The module variable \<open>memoized\<close>: opened at most once, and a failed opening is tried again.\<close>

definition open_geo_databases :: "geo_databases outcome \<Rightarrow> geo_databases option \<Rightarrow> geo_databases outcome \<times> geo_databases option" where
  "open_geo_databases create memoized =
     (case memoized of
        Some dbs \<Rightarrow> (Inr dbs, memoized)
      | None \<Rightarrow>
          (case create of Inl e \<Rightarrow> (Inl e, None) | Inr dbs \<Rightarrow> (Inr dbs, Some dbs)))"

section \<open>Facts\<close>

lemma undec_octet: "octet (dec n) = int n"
  by (simp add: octet_def)

definition ipv4_text :: "nat \<Rightarrow> nat \<Rightarrow> nat \<Rightarrow> nat \<Rightarrow> jsstr" where
  "ipv4_text a b c d = join_with (js ''.'') [dec a, dec b, dec c, dec d]"

lemma split_ipv4: "split_on 46 (ipv4_text a b c d) = [dec a, dec b, dec c, dec d]"
proof -
  have "46 \<notin> set (dec n)" for n using set_dec [of 46 n] by auto
  then show ?thesis unfolding ipv4_text_def using split_join [of "[dec a, dec b, dec c, dec d]" 46] by (simp add: js_def)
qed

lemma private_ipv4_iff:
  "is_private_or_reserved_ipv4 (ipv4_text a b c d) \<longleftrightarrow>
     a = 127 \<or> a = 10 \<or> a = 172 \<and> 16 \<le> b \<and> b \<le> 31 \<or> a = 192 \<and> b = 168 \<or> a = 169 \<and> b = 254"
  by (auto simp: is_private_or_reserved_ipv4_def split_ipv4 octet_at_def undec_octet Let_def)

section \<open>Properties\<close>

text \<open>
  a lookup never fails, whatever the databases throw; the code of Cloudflare is preferred, trimmed, unless it is one of the two
  placeholders; and for an address that is no address or is private or reserved the databases are not asked: the answer
  does not depend on them and nothing is logged.
\<close>

theorem network_lookup:
  "\<exists>asn country s'. lookup_network is_ip dbs logger ip cf s = ((asn, country), s') \<and>
     (\<forall>c. normalize_cf_country cf = Some c \<longrightarrow> country = Some c) \<and>
     (\<not> is_lookupable_address is_ip ip \<longrightarrow> asn = None \<and> country = normalize_cf_country cf \<and> s' = s) \<and>
     (is_ip (ipv4_text a b u v) = 4 \<longrightarrow> is_lookupable_address is_ip (ipv4_text a b u v) \<longrightarrow>
        a \<notin> {10, 127} \<and> (a, b) \<noteq> (192, 168) \<and> (a, b) \<noteq> (169, 254) \<and> \<not> (a = 172 \<and> 16 \<le> b \<and> b \<le> 31))"
proof -
  obtain asn country s' where r: "lookup_network is_ip dbs logger ip cf s = ((asn, country), s')" by (metis prod.exhaust)
  have "\<forall>c. normalize_cf_country cf = Some c \<longrightarrow> country = Some c"
    using r by (auto simp: lookup_network_def split: prod.splits option.splits if_splits)
  moreover have "\<not> is_lookupable_address is_ip ip \<longrightarrow> asn = None \<and> country = normalize_cf_country cf \<and> s' = s"
    using r by (auto simp: lookup_network_def split: prod.splits option.splits if_splits)
  moreover have "is_ip (ipv4_text a b u v) = 4 \<longrightarrow> is_lookupable_address is_ip (ipv4_text a b u v) \<longrightarrow>
      a \<notin> {10, 127} \<and> (a, b) \<noteq> (192, 168) \<and> (a, b) \<noteq> (169, 254) \<and> \<not> (a = 172 \<and> 16 \<le> b \<and> b \<le> 31)"
    by (auto simp: is_lookupable_address_def private_ipv4_iff Let_def)
  ultimately show ?thesis using r by blast
qed

definition example_databases :: geo_databases where
  "example_databases = \<lparr> gd_asn = (\<lambda>_. Inl (new_error (js ''broken''))), gd_country = (\<lambda>_. Inr (Some (js ''ES''))) \<rparr>"

theorem network_lookup_witness:
  "\<exists>asn country s'. lookup_network (\<lambda>_. 4) example_databases (\<lambda>_ _ n. Suc n) (ipv4_text 10 0 0 1) (Some (js '' FR'')) 0 =
       ((asn, country), s') \<and> asn = None \<and> country = Some (js ''FR'') \<and> s' = (0::nat)"
proof -
  have "normalize_cf_country (Some (js '' FR'')) = Some (js ''FR'')"
    by (simp add: normalize_cf_country_def CF_COUNTRY_PLACEHOLDERS_def str_eval)
  moreover have "\<not> is_lookupable_address (\<lambda>_. 4) (ipv4_text 10 0 0 1)"
    by (simp add: is_lookupable_address_def private_ipv4_iff)
  ultimately show ?thesis
    using network_lookup [where is_ip = "\<lambda>_. 4" and dbs = example_databases and logger = "\<lambda>_ _ n. Suc n"
      and ip = "ipv4_text 10 0 0 1" and cf = "Some (js '' FR'')" and s = "0::nat" and a = 1 and b = 1 and u = 1 and v = 1]
    by auto
qed

text \<open>
  The check of the loopback address is textual: written out in full, or as an IPv4 address mapped into IPv6, a loopback
  address counts as public and is looked up.
\<close>

theorem loopback_in_another_spelling_is_looked_up:
  "is_ip (js ''0:0:0:0:0:0:0:1'') = 6 \<Longrightarrow> is_ip (js ''::ffff:127.0.0.1'') = 6 \<Longrightarrow>
   is_lookupable_address is_ip (js ''0:0:0:0:0:0:0:1'') \<and> is_lookupable_address is_ip (js ''::ffff:127.0.0.1'') \<and>
   is_private_or_reserved_ipv6 (js ''::1'')"
  by (simp add: is_lookupable_address_def is_private_or_reserved_ipv6_def first_hextet_value_def parse_hex_def hex_of_def
      str_eval)

theorem loopback_in_another_spelling_is_looked_up_witness:
  "is_lookupable_address (\<lambda>_. 6) (js ''0:0:0:0:0:0:0:1'') \<and> is_lookupable_address (\<lambda>_. 6) (js ''::ffff:127.0.0.1'') \<and>
   is_private_or_reserved_ipv6 (js ''::1'')"
  by (rule loopback_in_another_spelling_is_looked_up) simp_all

end
