(* ===== verification/Apps_Boot.thy ===== *)
theory Apps_Boot
  imports Apps_Env Core_Clients Core_Keys Core_Geoip Contracts_Domain Worker_Accumulator Worker_Replay
begin

text \<open>
  Starting the programs: the worker (\<open>apps/worker/src/main.ts\<close> with the providers of \<open>app.module.ts\<close> and the R2 client of
  \<open>packages/core/src/r2/client.ts\<close>), the API (\<open>apps/api/src/main.ts\<close>) and the replay command (\<open>main\<close> of
  \<open>apps/worker/src/cli/replay.ts\<close>). A start ends in one of four ways: the import of a module throws, the environment is
  reported and the process exits, the bootstrap fails and the process exits, or the process listens.
\<close>

datatype 'a process_end =
    Import_failed thrown
  | Bad_environment jsstr
  | Bootstrap_failed thrown
  | Listening 'a

section \<open>The worker\<close>

record s3_client_config =
  s3_endpoint :: jsstr
  s3_region :: jsstr
  s3_force_path_style :: bool
  s3_access_key_id :: jsstr
  s3_secret_access_key :: jsstr

definition create_r2_client :: "r2_config \<Rightarrow> jsstr \<Rightarrow> jsstr \<Rightarrow> s3_client_config outcome" where
  "create_r2_client config access_key_id secret_access_key =
     (case resolve_endpoint config of
        Inl e \<Rightarrow> Inl e
      | Inr endpoint \<Rightarrow>
          Inr \<lparr> s3_endpoint = endpoint, s3_region = js ''auto'', s3_force_path_style = True,
                s3_access_key_id = access_key_id, s3_secret_access_key = secret_access_key \<rparr>)"

record app_module_config =
  am_redis_url :: jsstr
  am_database_url :: jsstr
  am_db_pool_max :: "double option"
  am_batch_size :: js_num
  am_batch_interval_ms :: js_num
  am_shutdown_timeout_ms :: int
  am_r2_endpoint :: "jsstr option"
  am_r2_access_key_id :: "jsstr option"
  am_r2_secret_access_key :: "jsstr option"
  am_r2_bucket :: "jsstr option"
  am_r2_account_id :: "jsstr option"

text \<open>The clients that \<open>buildProductionFlush\<close> makes before it returns the flush: the R2 client and its bucket.\<close>

definition build_production_clients :: "app_module_config \<Rightarrow> (s3_client_config \<times> jsstr) outcome" where
  "build_production_clients config =
     (case (am_r2_access_key_id config, am_r2_secret_access_key config, am_r2_bucket config) of
        (Some access_key_id, Some secret_access_key, Some bucket) \<Rightarrow>
          map_sum id (\<lambda>client. (client, bucket))
            (create_r2_client
              \<lparr> rc_endpoint = (case am_r2_endpoint config of None \<Rightarrow> [] | Some e \<Rightarrow> e),
                rc_account_id = am_r2_account_id config \<rparr>
              access_key_id secret_access_key)
      | _ \<Rightarrow>
          Inl (new_error (js ''AppModule.forRoot: r2AccessKeyId, r2SecretAccessKey and r2Bucket are required unless `flush` is overridden (T3.4.4) '' @
            [8212] @ js '' the BATCH_ACCUMULATOR provider builds a real flushBatch eagerly regardless of whether anything ever drives the accumulator it is attached to.'')))"

definition db_client_factory :: "app_module_config \<Rightarrow> raw_env \<Rightarrow> db_client outcome" where
  "db_client_factory config process_env =
     create_db_client \<lparr> dc_connection_string = Some (am_database_url config), dc_max = am_db_pool_max config \<rparr> process_env"

definition batch_accumulator_factory ::
  "app_module_config \<Rightarrow> int \<Rightarrow> ((s3_client_config \<times> jsstr) \<times> 'e accumulator) outcome" where
  "batch_accumulator_factory config now =
     (case build_production_clients config of
        Inl e \<Rightarrow> Inl e
      | Inr clients \<Rightarrow>
          map_sum id (\<lambda>accumulator. (clients, accumulator))
            (new_accumulator (am_batch_size config) (am_batch_interval_ms config) now))"

definition worker_module_config :: "worker_env \<Rightarrow> app_module_config" where
  "worker_module_config env =
     \<lparr> am_redis_url = we_redis_url env,
       am_database_url = we_database_url_worker env,
       am_db_pool_max = None,
       am_batch_size = Integral (we_event_batch_size env),
       am_batch_interval_ms = Integral (we_event_batch_interval_ms env),
       am_shutdown_timeout_ms = we_shutdown_timeout_ms env,
       am_r2_endpoint = Some (we_r2_endpoint env),
       am_r2_access_key_id = Some (we_r2_access_key_id env),
       am_r2_secret_access_key = Some (we_r2_secret_access_key env),
       am_r2_bucket = Some (we_r2_bucket_events env),
       am_r2_account_id = we_r2_account_id env \<rparr>"

record 'e worker_process =
  wk_concurrency :: int
  wk_db :: db_client
  wk_r2 :: "s3_client_config \<times> jsstr"
  wk_accumulator :: "'e accumulator"
  wk_port :: int
  wk_warning :: "jsstr option"

definition bootstrap_worker :: "worker_env \<Rightarrow> raw_env \<Rightarrow> int \<Rightarrow> int \<Rightarrow> 'e worker_process outcome" where
  "bootstrap_worker env process_env concurrency now =
     (case db_client_factory (worker_module_config env) process_env of
        Inl e \<Rightarrow> Inl e
      | Inr db \<Rightarrow>
          (case batch_accumulator_factory (worker_module_config env) now of
             Inl e \<Rightarrow> Inl e
           | Inr (r2, accumulator) \<Rightarrow>
               Inr \<lparr> wk_concurrency = concurrency, wk_db = db, wk_r2 = r2, wk_accumulator = accumulator,
                     wk_port = we_worker_port env, wk_warning = warn_if_concurrency_cannot_fill_batch_size env \<rparr>))"

text \<open>The concurrency is read while the module of the consumer is imported, before the schema runs.\<close>

definition worker_main ::
  "(raw_env \<Rightarrow> bool) \<Rightarrow> (jsstr \<Rightarrow> jsstr option) \<Rightarrow> raw_env \<Rightarrow> int \<Rightarrow> 'e worker_process process_end" where
  "worker_main refines url process_env now =
     (case read_worker_concurrency process_env of
        Inl e \<Rightarrow> Import_failed e
      | Inr concurrency \<Rightarrow>
          (case load_env (worker_env_schema refines url) process_env of
             Inl failures \<Rightarrow> Bad_environment (format_env_failures failures)
           | Inr env \<Rightarrow>
               (case bootstrap_worker env process_env concurrency now of
                  Inl e \<Rightarrow> Bootstrap_failed e
                | Inr process \<Rightarrow> Listening process)))"

section \<open>The API\<close>

record api_process =
  ap_urls :: domain_config
  ap_reserved_handles :: "jsstr list"
  ap_db :: db_client
  ap_redis :: redis_client_config
  ap_geo :: geo_databases
  ap_timeout_ms :: int
  ap_cache_ttl_seconds :: int
  ap_max_inflight :: int
  ap_port :: int

definition domain_config_of :: "api_env \<Rightarrow> domain_config" where
  "domain_config_of env =
     \<lparr> dc_domain = ae_posta_link_domain env,
       dc_protocol = (if ae_posta_protocol env = js ''http'' then Http else Https),
       dc_app_subdomain = ae_posta_app_subdomain env,
       dc_api_subdomain = ae_posta_api_subdomain env \<rparr>"

definition bootstrap_api :: "(jsstr \<Rightarrow> geo_databases outcome) \<Rightarrow> api_env \<Rightarrow> raw_env \<Rightarrow> api_process outcome" where
  "bootstrap_api open_geo env process_env =
     (case create_db_client \<lparr> dc_connection_string = Some (ae_database_url env), dc_max = None \<rparr> process_env of
        Inl e \<Rightarrow> Inl e
      | Inr db \<Rightarrow>
          (case get_redis \<lparr> ro_url = Some (ae_redis_url env), ro_lazy_connect = None \<rparr> process_env no_clients of
             (Inl e, _) \<Rightarrow> Inl e
           | (Inr redis, clients) \<Rightarrow>
               (case open_geo (ae_geoip_db_dir env) of
                  Inl e \<Rightarrow> Inl e
                | Inr geo \<Rightarrow>
                    Inr \<lparr> ap_urls = domain_config_of env,
                          ap_reserved_handles = resolve_reserved_handles (ae_posta_reserved_handles env),
                          ap_db = db, ap_redis = rp_clients clients ! redis, ap_geo = geo,
                          ap_timeout_ms = ae_redis_lookup_timeout_ms env,
                          ap_cache_ttl_seconds = ae_link_cache_ttl_seconds env,
                          ap_max_inflight = ae_max_inflight_enqueues env, ap_port = ae_api_port env \<rparr>)))"

definition api_main ::
  "(jsstr \<Rightarrow> jsstr option) \<Rightarrow> (jsstr \<Rightarrow> bool) \<Rightarrow> (jsstr \<Rightarrow> geo_databases outcome) \<Rightarrow> raw_env \<Rightarrow> api_process process_end" where
  "api_main url email open_geo process_env =
     (case load_env (api_env_schema url email) process_env of
        Inl failures \<Rightarrow> Bad_environment (format_env_failures failures)
      | Inr env \<Rightarrow>
          (case bootstrap_api open_geo env process_env of
             Inl e \<Rightarrow> Bootstrap_failed e
           | Inr process \<Rightarrow> Listening process))"

section \<open>The replay command\<close>

text \<open>After the run the R2 client is destroyed and the pool closed, whatever failed; a thrown value is never falsy.\<close>

definition replay_failures :: "thrown option \<Rightarrow> thrown option \<Rightarrow> thrown option \<Rightarrow> jsstr list" where
  "replay_failures run_error r2_close_error db_close_error =
     concat
       [case run_error of None \<Rightarrow> [] | Some e \<Rightarrow> [js ''the replay itself failed with \"'' @ error_message e @ js ''\"''],
        case r2_close_error of None \<Rightarrow> [] | Some e \<Rightarrow> [js ''closing the R2 client failed with \"'' @ error_message e @ js ''\"''],
        case db_close_error of None \<Rightarrow> [] | Some e \<Rightarrow> [js ''closing the db pool failed with \"'' @ error_message e @ js ''\"'']]"

definition rejection :: "'a outcome \<Rightarrow> thrown option" where
  "rejection r = (case r of Inl e \<Rightarrow> Some e | Inr _ \<Rightarrow> None)"

definition replay_and_close ::
  "('s, replay_cli_result) io \<Rightarrow> ('s, unit) io \<Rightarrow> ('s, unit) io \<Rightarrow> ('s, nat) io" where
  "replay_and_close run destroy_r2 close_db =
     io_settle run (\<lambda>result. io_settle destroy_r2 (\<lambda>r2_close. io_settle close_db (\<lambda>db_close.
       let failures = replay_failures (rejection result) (rejection r2_close) (rejection db_close) in
       if 1 < length failures then
         io_throw (new_error (js ''posta replay: multiple failures '' @ [8212, 32] @
           join_with (js ''; then, separately, '') failures @ js ''.''))
       else case (result, r2_close, db_close) of
         (Inl e, _, _) \<Rightarrow> io_throw e
       | (_, Inl e, _) \<Rightarrow> io_throw e
       | (_, _, Inl e) \<Rightarrow> io_throw e
       | (Inr r, Inr _, Inr _) \<Rightarrow> io_return (rr_exit_code r))))"

text \<open>
  The whole command: the exit code of the process. The clients are built before the run; when one cannot be
  built the command rejects, as when the run does.
\<close>

definition replay_main ::
  "(raw_env \<Rightarrow> bool) \<Rightarrow> (jsstr \<Rightarrow> jsstr option) \<Rightarrow> raw_env \<Rightarrow>
   (db_client \<Rightarrow> s3_client_config \<Rightarrow> jsstr \<Rightarrow> ('s, replay_cli_result) io) \<Rightarrow> ('s, unit) io \<Rightarrow> ('s, unit) io \<Rightarrow> 's \<Rightarrow> nat \<times> 's" where
  "replay_main refines url process_env run destroy_r2 close_db s =
     (case load_env (replay_env_schema refines url) process_env of
        Inl failures \<Rightarrow> (EXIT_ARGS_ERROR, s)
      | Inr env \<Rightarrow>
          (case create_db_client \<lparr> dc_connection_string = Some (rv_database_url_worker env), dc_max = None \<rparr> process_env of
             Inl e \<Rightarrow> (EXIT_RUNTIME_ERROR, s)
           | Inr db \<Rightarrow>
               (case create_r2_client \<lparr> rc_endpoint = rv_r2_endpoint env, rc_account_id = rv_r2_account_id env \<rparr>
                   (rv_r2_access_key_id env) (rv_r2_secret_access_key env) of
                  Inl e \<Rightarrow> (EXIT_RUNTIME_ERROR, s)
                | Inr client \<Rightarrow>
                    (case replay_and_close (run db client (rv_r2_bucket_events env)) destroy_r2 close_db s of
                       (Inl e, s') \<Rightarrow> (EXIT_RUNTIME_ERROR, s')
                     | (Inr code, s') \<Rightarrow> (code, s')))))"

section \<open>Starting the worker\<close>

text \<open>What \<open>z.url()\<close> promises of its result, as far as it matters here.\<close>

definition urls_not_empty :: "(jsstr \<Rightarrow> jsstr option) \<Rightarrow> bool" where
  "urls_not_empty url \<longleftrightarrow> (\<forall>v u. url v = Some u \<longrightarrow> u \<noteq> [])"

lemma worker_database_url:
  assumes "urls_not_empty url" and "worker_env_schema_object url raw_env = Inr env"
  shows "we_database_url_worker env \<noteq> []"
proof -
  have clean: "\<And>i. i \<in> set (worker_env_issues url raw_env) \<Longrightarrow> i = []"
    using assms(2) by (simp add: worker_env_schema_object_def object_schema_Inr)
  note env = conjunct2 [OF assms(2) [unfolded worker_env_schema_object_def object_schema_Inr]]
  have "z_url url (raw_env (js ''DATABASE_URL_WORKER'')) = Some (we_database_url_worker env)"
    unfolding env worker_env.select_convs by (rule field_value_Some, rule clean) (simp add: worker_env_issues_def)
  with assms(1) show ?thesis by (auto simp: z_url_def urls_not_empty_def bind_eq_Some_conv)
qed

lemma create_db_client_given:
  "c \<noteq> [] \<Longrightarrow> create_db_client \<lparr> dc_connection_string = Some c, dc_max = None \<rparr> process_env =
     map_sum id (\<lambda>m. \<lparr> db_connection_string = c, db_pool_max = m \<rparr>)
       (resolve_pool_max \<lparr> dc_connection_string = None, dc_max = None \<rparr> process_env)"
  by (simp add: create_db_client_def resolve_connection_string_def resolve_pool_max_def split: sum.split option.split)

lemma new_accumulator_positive:
  "0 < n \<Longrightarrow> 0 < i \<Longrightarrow> \<exists>a. new_accumulator (Integral n) (Integral i) now = Inr a \<and> acc_batch_size a = nat n \<and>
     acc_interval_ms a = nat i"
  by (simp add: new_accumulator_def positive_integer_def num_val_def)

lemma create_r2_client_Inr:
  "create_r2_client config k sec = Inr client \<longleftrightarrow>
     (\<exists>endpoint. resolve_endpoint config = Inr endpoint \<and>
        client = \<lparr> s3_endpoint = endpoint, s3_region = js ''auto'', s3_force_path_style = True,
          s3_access_key_id = k, s3_secret_access_key = sec \<rparr>)"
  by (auto simp: create_r2_client_def split: sum.split)

lemma resolve_endpoint_Inr:
  "(\<exists>endpoint. resolve_endpoint config = Inr endpoint) \<longleftrightarrow>
     rc_endpoint config \<noteq> [] \<or> (\<exists>a. rc_account_id config = Some a \<and> matches R2_ACCOUNT_ID_FORMAT a)"
proof -
  have "\<not> matches R2_ACCOUNT_ID_FORMAT []" by (simp add: R2_ACCOUNT_ID_FORMAT_def matches_Times_Cls)
  then show ?thesis by (auto simp: resolve_endpoint_def split: option.split)
qed

text \<open>
  an environment that the schema accepts is neither refused by the import nor reported; the worker then listens exactly
  when the pool size of the environment is a positive integer and R2 has an endpoint or a well-formed account id; and a
  listening worker runs with the concurrency, batch size and interval of its environment.
\<close>

theorem worker_starts:
  assumes "urls_not_empty url" and loaded: "load_env (worker_env_schema refines url) process_env = Inr env"
  shows "((\<exists>p :: 'e worker_process. worker_main refines url process_env now = Listening p) \<longleftrightarrow>
       (\<exists>m. resolve_pool_max \<lparr> dc_connection_string = None, dc_max = None \<rparr> process_env = Inr m) \<and>
       (we_r2_endpoint env \<noteq> [] \<or> (\<exists>a. we_r2_account_id env = Some a \<and> matches R2_ACCOUNT_ID_FORMAT a))) \<and>
     (case (worker_main refines url process_env now :: 'e worker_process process_end) of
        Import_failed _ \<Rightarrow> False
      | Bad_environment _ \<Rightarrow> False
      | Bootstrap_failed _ \<Rightarrow> True
      | Listening p \<Rightarrow>
          wk_concurrency p = we_worker_concurrency env \<and> wk_port p = we_worker_port env \<and>
          acc_batch_size (wk_accumulator p) = nat (we_event_batch_size env) \<and>
          acc_interval_ms (wk_accumulator p) = nat (we_event_batch_interval_ms env))"
proof -
  have object: "worker_env_schema_object url process_env = Inr env"
    using loaded by (simp add: load_env_Inr worker_env_schema_def super_refine_Inr)
  have concurrency: "read_worker_concurrency process_env = Inr (we_worker_concurrency env)"
    using worker_object_fields(4) [OF object] by (simp add: read_concurrency_iff)
  note usable = worker_object_fields [OF object]
  obtain a :: "'e accumulator" where a: "new_accumulator (Integral (we_event_batch_size env)) (Integral (we_event_batch_interval_ms env)) now = Inr a"
      "acc_batch_size a = nat (we_event_batch_size env)" "acc_interval_ms a = nat (we_event_batch_interval_ms env)"
    using new_accumulator_positive z_batch_size_Some [OF usable(2)] z_positive_int_Some [OF usable(3)] by blast
  let ?config = "\<lparr> rc_endpoint = we_r2_endpoint env, rc_account_id = we_r2_account_id env \<rparr>"
  have main: "(worker_main refines url process_env now :: 'e worker_process process_end) =
      (case bootstrap_worker env process_env (we_worker_concurrency env) now of
         Inl e \<Rightarrow> Bootstrap_failed e | Inr process \<Rightarrow> Listening process)"
    by (simp add: worker_main_def concurrency loaded)
  have factory: "batch_accumulator_factory (worker_module_config env) now =
      map_sum id (\<lambda>endpoint. ((\<lparr> s3_endpoint = endpoint, s3_region = js ''auto'', s3_force_path_style = True,
          s3_access_key_id = we_r2_access_key_id env, s3_secret_access_key = we_r2_secret_access_key env \<rparr>,
          we_r2_bucket_events env), a)) (resolve_endpoint ?config)"
    by (simp add: batch_accumulator_factory_def build_production_clients_def worker_module_config_def a(1) create_r2_client_def
        split: sum.split)
  have db: "db_client_factory (worker_module_config env) process_env =
      map_sum id (\<lambda>m. \<lparr> db_connection_string = we_database_url_worker env, db_pool_max = m \<rparr>)
        (resolve_pool_max \<lparr> dc_connection_string = None, dc_max = None \<rparr> process_env)"
    using create_db_client_given [OF worker_database_url [OF assms(1) object]]
    by (simp add: db_client_factory_def worker_module_config_def)
  have addressed: "(we_r2_endpoint env \<noteq> [] \<or> (\<exists>a. we_r2_account_id env = Some a \<and> matches R2_ACCOUNT_ID_FORMAT a)) \<longleftrightarrow>
      (\<exists>endpoint. resolve_endpoint ?config = Inr endpoint)"
    by (simp add: resolve_endpoint_Inr)
  show ?thesis
    unfolding main addressed bootstrap_worker_def db factory
    by (cases "resolve_pool_max \<lparr> dc_connection_string = None, dc_max = None \<rparr> process_env"; cases "resolve_endpoint ?config")
      (simp_all add: a(2,3))
qed

theorem worker_starts_witness:
  "\<exists>p. worker_main (\<lambda>_. False) (\<lambda>v. if v = [] then None else Some v) example_raw_env 0 = Listening p \<and> wk_concurrency p = 8"
proof -
  let ?url = "\<lambda>v. if v = [] then None else Some v"
  have nonempty: "urls_not_empty ?url" by (simp add: urls_not_empty_def)
  have "z_url ?url (Some (js ''postgres:'')) = Some (js ''postgres:'')" "z_url ?url (Some (js ''redis:'')) = Some (js ''redis:'')"
      "z_optional_url ?url (Some (js ''http:'')) = Some (js ''http:'')"
    by (simp_all add: z_url_def z_optional_url_def)
  then have "worker_env_schema_object ?url example_raw_env = Inr example_worker_env"
    by (simp only: worker_env_schema_object_def object_schema_def worker_env_issues_def field_issues_def field_value_def
        example_raw_values example_fields option.case option.sel concat.simps append_Nil if_True simp_thms
        example_worker_env_def)
  then have loaded: "load_env (worker_env_schema (\<lambda>_. False) ?url) example_raw_env = Inr example_worker_env"
    by (simp add: load_env_Inr worker_env_schema_def super_refine_Inr require_at_least_one_r2_addressing_var_def
        example_worker_env_def)
  have "parse_int_10 (dec 10) = Finite (of_nat 10)" by (rule parse_int_10_dec) simp
  then have "resolve_pool_max \<lparr> dc_connection_string = None, dc_max = None \<rparr> example_raw_env = Inr (Finite (of_nat 10))"
    using integer_value_nat [of 10] by (simp add: resolve_pool_max_def example_raw_values)
  moreover have "we_r2_endpoint example_worker_env \<noteq> []" "we_worker_concurrency example_worker_env = 8"
    by (simp_all add: example_worker_env_def)
  ultimately show ?thesis
    using worker_starts [OF nonempty loaded, of 0] by (auto split: process_end.splits)
qed

section \<open>Starting the API and ending a replay\<close>

text \<open>
  an API that listens has a port, positive bounds for its timeouts, caches and queue, all built-in reserved handles, and
  its databases open; it never listens with an empty account id.
\<close>

theorem api_listens_only_when_ready:
  assumes "api_main url email open_geo process_env = Listening p"
  shows "1 \<le> ap_port p \<and> ap_port p \<le> 65535 \<and> 0 < ap_timeout_ms p \<and> 0 < ap_cache_ttl_seconds p \<and> 0 < ap_max_inflight p \<and>
     set RESERVED_HANDLES \<subseteq> set (ap_reserved_handles p) \<and> dc_domain (ap_urls p) \<noteq> [] \<and>
     (\<exists>dir. dir \<noteq> [] \<and> open_geo dir = Inr (ap_geo p)) \<and>
     process_env (js ''R2_ACCOUNT_ID'') \<noteq> Some []"
proof -
  obtain env where env: "api_env_schema url email process_env = Inr env" and boot: "bootstrap_api open_geo env process_env = Inr p"
    using assms by (auto simp: api_main_def load_env_Inr split: sum.splits)
  have clean: "\<And>i. i \<in> set (api_env_issues url email process_env) \<Longrightarrow> i = []"
    using env by (simp add: api_env_schema_def object_schema_Inr)
  note env_eq = conjunct2 [OF env [unfolded api_env_schema_def object_schema_Inr]]
  have port: "z_port (process_env (js ''API_PORT'')) = Some (ae_api_port env)"
    and ttl: "z_positive_int (process_env (js ''LINK_CACHE_TTL_SECONDS'')) = Some (ae_link_cache_ttl_seconds env)"
    and timeout: "z_positive_int (process_env (js ''REDIS_LOOKUP_TIMEOUT_MS'')) = Some (ae_redis_lookup_timeout_ms env)"
    and inflight: "z_positive_int (process_env (js ''MAX_INFLIGHT_ENQUEUES'')) = Some (ae_max_inflight_enqueues env)"
    and domain: "z_non_empty (process_env (js ''POSTA_LINK_DOMAIN'')) = Some (ae_posta_link_domain env)"
    and dir: "z_non_empty (process_env (js ''GEOIP_DB_DIR'')) = Some (ae_geoip_db_dir env)"
    and account: "z_non_empty (process_env (js ''R2_ACCOUNT_ID'')) = Some (ae_r2_account_id env)"
    unfolding env_eq api_env.select_convs by (rule field_value_Some, rule clean, simp add: api_env_issues_def)+
  have p: "ap_port p = ae_api_port env" "ap_timeout_ms p = ae_redis_lookup_timeout_ms env"
      "ap_cache_ttl_seconds p = ae_link_cache_ttl_seconds env" "ap_max_inflight p = ae_max_inflight_enqueues env"
      "ap_reserved_handles p = resolve_reserved_handles (ae_posta_reserved_handles env)"
      "dc_domain (ap_urls p) = ae_posta_link_domain env" "open_geo (ae_geoip_db_dir env) = Inr (ap_geo p)"
    using boot by (auto simp: bootstrap_api_def domain_config_of_def split: sum.splits prod.splits)
  have "process_env (js ''R2_ACCOUNT_ID'') \<noteq> Some []" using account by (auto simp: z_non_empty_def trim_def trim_start_def)
  moreover have "set RESERVED_HANDLES \<subseteq> set (ap_reserved_handles p)"
    using merge_overrides_set by (auto simp: p(5) resolve_reserved_handles_def)
  ultimately show ?thesis
    using z_port_Some [OF port] z_positive_int_Some [OF ttl] z_positive_int_Some [OF timeout] z_positive_int_Some [OF inflight]
      z_non_empty_Some [OF domain] z_non_empty_Some [OF dir] p by auto
qed

lemma replay_failures_length:
  "length (replay_failures a b c) = length (filter (\<lambda>x. x \<noteq> None) [a, b, c])"
  by (simp add: replay_failures_def split: option.split)

text \<open>
  whatever fails, the replay command destroys its R2 client and closes its pool, in this order, once it has
  run; its exit code is 0 only when the run resolved with 0 and both clients closed.
\<close>

theorem replay_closes_its_clients:
  "snd (replay_and_close run destroy_r2 close_db s) = snd (close_db (snd (destroy_r2 (snd (run s))))) \<and>
   (fst (replay_and_close run destroy_r2 close_db s) = Inr code \<longleftrightarrow>
      (\<exists>r. fst (run s) = Inr r \<and> rr_exit_code r = code) \<and> fst (destroy_r2 (snd (run s))) = Inr () \<and>
      fst (close_db (snd (destroy_r2 (snd (run s))))) = Inr ()) \<and>
   (fst (replay_main refines url process_env (\<lambda>_ _ _. run) destroy_r2 close_db s) = EXIT_OK \<longrightarrow>
      (\<exists>r. fst (run s) = Inr r \<and> rr_exit_code r = EXIT_OK) \<and> fst (destroy_r2 (snd (run s))) = Inr () \<and>
      fst (close_db (snd (destroy_r2 (snd (run s))))) = Inr ())"
proof -
  have state: "snd (replay_and_close run destroy_r2 close_db s) = snd (close_db (snd (destroy_r2 (snd (run s)))))"
    by (simp add: replay_and_close_def io_settle_app Let_def split: sum.split)
  have result: "fst (replay_and_close run destroy_r2 close_db s) = Inr code \<longleftrightarrow>
      (\<exists>r. fst (run s) = Inr r \<and> rr_exit_code r = code) \<and> fst (destroy_r2 (snd (run s))) = Inr () \<and>
      fst (close_db (snd (destroy_r2 (snd (run s))))) = Inr ()" for code
    by (cases "fst (run s)"; cases "fst (destroy_r2 (snd (run s)))"; cases "fst (close_db (snd (destroy_r2 (snd (run s)))))")
      (simp_all add: replay_and_close_def io_settle_app replay_failures_length rejection_def Let_def)
  have "fst (replay_and_close run destroy_r2 close_db s) = Inr EXIT_OK"
    if "fst (replay_main refines url process_env (\<lambda>_ _ _. run) destroy_r2 close_db s) = EXIT_OK"
    using that
    by (auto simp: replay_main_def EXIT_OK_def EXIT_ARGS_ERROR_def EXIT_RUNTIME_ERROR_def split: sum.splits prod.splits)
  with state result show ?thesis by blast
qed

theorem replay_closes_its_clients_witness:
  "snd (replay_and_close (\<lambda>s. (Inl (new_error []), s + 1)) (\<lambda>s. (Inl (new_error []), s * 2)) (\<lambda>s. (Inr (), s + 5)) (1 :: nat)) = 9"
  using replay_closes_its_clients [of "\<lambda>s. (Inl (new_error []), s + 1)" "\<lambda>s. (Inl (new_error []), s * 2)"
      "\<lambda>s. (Inr (), s + 5)" "1 :: nat"] by simp

end
