(* ===== verification/Core_Migrate.thy ===== *)
theory Core_Migrate
  imports Js_Async Js_Json "HOL-Library.List_Lexorder"
begin

text \<open>
  The runner of the hand-written SQL migrations and its commands (\<open>packages/core/src/db\<close>: \<open>sql-migrate.ts\<close>,
  \<open>migrate.ts\<close>, \<open>migrate-down.ts\<close>). The connection pool, the directory with its files and SHA-256 are
  parameters; a query of the code is a command of the type \<open>sql_command\<close>. The second part instantiates the pool with
  a Postgres whose transactions work and whose every call can fail before or after its effect.
\<close>

section \<open>The pool and the files\<close>

datatype sql_command =
    Begin | Commit | Rollback
  | Create_tracking_table
  | Run_script jsstr
  | Track jsstr jsstr
  | Untrack jsstr
  | Set_force bool

record 's pg_pool =
  pp_connect :: "('s, unit) io"
  pp_client_query :: "sql_command \<Rightarrow> ('s, unit) io"
  pp_release :: "thrown option \<Rightarrow> 's \<Rightarrow> 's"
  pp_query :: "sql_command \<Rightarrow> ('s, unit) io"
  pp_applied_checksum :: "jsstr \<Rightarrow> ('s, jsstr option) io"
  pp_applied_desc :: "('s, jsstr list option) io"

record migrations_dir =
  md_list :: "jsstr list outcome"
  md_read :: "jsstr \<Rightarrow> jsstr outcome"
  md_exists :: "jsstr \<Rightarrow> bool"

definition slash_class :: "nat \<Rightarrow> bool" where
  "slash_class c \<longleftrightarrow> is_lower c \<or> is_digit c \<or> c = 95"

definition MIGRATION_FILENAME_PATTERN :: regex where
  "MIGRATION_FILENAME_PATTERN =
     Cat (Times 3 (Cls is_digit)) (Cat (Lit (js ''_'')) (Cat (Plus (Cls slash_class)) (Lit (js ''.sql''))))"

definition assert_safe_migration_filename :: "jsstr \<Rightarrow> unit outcome" where
  "assert_safe_migration_filename filename =
     (if \<not> matches MIGRATION_FILENAME_PATTERN filename then
        Inl (new_error (js ''Invalid migration filename \"'' @ filename @
          js ''\": must match NNN_name.sql '' @ [8212] @ js '' refusing to use it to construct a filesystem path.''))
      else Inr ())"

definition read_migration_file :: "migrations_dir \<Rightarrow> jsstr \<Rightarrow> jsstr outcome" where
  "read_migration_file dir filename =
     (case md_read dir filename of
        Inr content \<Rightarrow> Inr content
      | Inl e \<Rightarrow> Inl (new_error (js ''Failed to read migration file \"'' @ filename @ js ''\": '' @ error_message e)))"

text \<open>The default \<open>sort\<close> compares code units, which is the lexicographic order of lists.\<close>

definition list_migration_files :: "migrations_dir \<Rightarrow> jsstr list outcome" where
  "list_migration_files dir =
     map_sum id (\<lambda>names.
       sort (filter (\<lambda>name. ends_with name (js ''.sql'') \<and> \<not> ends_with name (js ''.down.sql'')) names)) (md_list dir)"

definition ensure_tracking_table :: "'s pg_pool \<Rightarrow> ('s, unit) io" where
  "ensure_tracking_table pool = pp_query pool Create_tracking_table"

definition run_in_transaction :: "'s pg_pool \<Rightarrow> ('s, unit) io \<Rightarrow> jsstr \<Rightarrow> ('s, unit) io" where
  "run_in_transaction pool work error_context =
     io_then (pp_connect pool)
       (io_catch
         (io_then (pp_client_query pool Begin)
           (io_then work
             (io_then (pp_client_query pool Commit) (io_do (pp_release pool None)))))
         (\<lambda>error.
           io_then
             (io_catch
               (io_then (pp_client_query pool Rollback) (io_do (pp_release pool None)))
               (\<lambda>rollback_error.
                 io_then (io_do (pp_release pool (Some (to_error rollback_error))))
                   (io_throw (new_error (error_context @ js '': '' @ error_message error @
                      js ''. Additionally, ROLLBACK itself failed: '' @ error_message rollback_error @ js '' '' @ [8212] @
                      js '' the connection has been discarded, not returned to the pool.'')))))
             (io_throw (new_error (error_context @ js '': '' @ error_message error)))))"

section \<open>Up\<close>

definition apply_migration :: "'s pg_pool \<Rightarrow> jsstr \<Rightarrow> jsstr \<Rightarrow> jsstr \<Rightarrow> ('s, unit) io" where
  "apply_migration pool filename content checksum =
     run_in_transaction pool
       (io_then (pp_client_query pool (Run_script content)) (pp_client_query pool (Track filename checksum)))
       (js ''Failed to apply migration \"'' @ filename @ js ''\"'')"

definition checksum_mismatch :: "jsstr \<Rightarrow> thrown" where
  "checksum_mismatch filename =
     new_error (js ''Migration \"'' @ filename @
       js ''\" has already been applied, but its content has changed since then (checksum mismatch). An applied migration must never be edited '' @
       [8212] @ js '' add a NEW migration file instead.'')"

fun migrate_files :: "'s pg_pool \<Rightarrow> (jsstr \<Rightarrow> jsstr) \<Rightarrow> migrations_dir \<Rightarrow> jsstr list \<Rightarrow> ('s, unit) io" where
  "migrate_files pool checksum_of dir [] = io_return ()"
| "migrate_files pool checksum_of dir (filename # files) =
     io_bind (io_of (read_migration_file dir filename)) (\<lambda>content.
       let checksum = checksum_of content in
       io_bind (pp_applied_checksum pool filename) (\<lambda>applied_row.
         case applied_row of
           Some applied \<Rightarrow>
             if applied \<noteq> checksum then
               io_throw (checksum_mismatch filename)
             else migrate_files pool checksum_of dir files
         | None \<Rightarrow>
             io_then (apply_migration pool filename content checksum) (migrate_files pool checksum_of dir files)))"

definition run_sql_migrations :: "'s pg_pool \<Rightarrow> (jsstr \<Rightarrow> jsstr) \<Rightarrow> migrations_dir \<Rightarrow> ('s, unit) io" where
  "run_sql_migrations pool checksum_of dir =
     io_then (ensure_tracking_table pool)
       (io_bind (io_of (list_migration_files dir)) (migrate_files pool checksum_of dir))"

definition migrate :: "('s, unit) io \<Rightarrow> 's pg_pool \<Rightarrow> (jsstr \<Rightarrow> jsstr) \<Rightarrow> migrations_dir \<Rightarrow> ('s, unit) io" where
  "migrate run_drizzle_migrations pool checksum_of dir =
     io_then run_drizzle_migrations (run_sql_migrations pool checksum_of dir)"

section \<open>Down\<close>

definition down_filename_for :: "jsstr \<Rightarrow> jsstr" where
  "down_filename_for filename =
     (if ends_with filename (js ''.sql'') then drop_last 4 filename @ js ''.down.sql'' else filename)"

definition down_sql_migration :: "'s pg_pool \<Rightarrow> migrations_dir \<Rightarrow> bool option \<Rightarrow> jsstr \<Rightarrow> ('s, unit) io" where
  "down_sql_migration pool dir force filename =
     io_then (io_of (assert_safe_migration_filename filename))
       (io_bind (io_of (read_migration_file dir (down_filename_for filename))) (\<lambda>content.
         run_in_transaction pool
           (io_then (pp_client_query pool (Set_force (force = Some True)))
             (io_then (pp_client_query pool (Run_script content)) (pp_client_query pool (Untrack filename))))
           (js ''Failed to roll back migration \"'' @ filename @ js ''\"'')))"

definition find_newest_revertible_migration :: "'s pg_pool \<Rightarrow> migrations_dir \<Rightarrow> ('s, jsstr option) io" where
  "find_newest_revertible_migration pool dir =
     io_bind (pp_applied_desc pool) (\<lambda>applied.
       io_return (case applied of None \<Rightarrow> None | Some names \<Rightarrow> find (\<lambda>n. md_exists dir (down_filename_for n)) names))"

definition migrate_down :: "'s pg_pool \<Rightarrow> migrations_dir \<Rightarrow> bool option \<Rightarrow> ('s, jsstr) io" where
  "migrate_down pool dir force =
     io_bind (find_newest_revertible_migration pool dir) (\<lambda>newest.
       case newest of
         None \<Rightarrow>
           io_throw (new_error (js ''migrateDown: nothing to revert '' @ [8212] @
             js '' no applied hand-written SQL migration has a .down.sql pair on disk.''))
       | Some filename \<Rightarrow>
           if filename = [] then
             io_throw (new_error (js ''migrateDown: nothing to revert '' @ [8212] @
               js '' no applied hand-written SQL migration has a .down.sql pair on disk.''))
           else io_then (down_sql_migration pool dir force filename) (io_return filename))"

section \<open>The commands\<close>

text \<open>
  \<open>main\<close> of the three commands: the action, then always the close of the pool; the errors of both are reported.
  An error that is a falsy value counts as none, as in the code's \<open>if (error)\<close>; here every thrown value is truthy.
\<close>

definition run_and_close :: "jsstr \<Rightarrow> jsstr \<Rightarrow> ('s, 'a) io \<Rightarrow> ('s, unit) io \<Rightarrow> ('s, 'a) io" where
  "run_and_close label pool_name action close =
     io_settle action (\<lambda>r. io_settle close (\<lambda>c.
       case (r, c) of
         (Inl e, Inl ce) \<Rightarrow>
           io_throw (new_error (label @ js '': failed with \"'' @ error_message e @ js ''\", then closing '' @ pool_name @
             js '' also failed with \"'' @ error_message ce @ js ''\".''))
       | (Inl e, Inr _) \<Rightarrow> io_throw e
       | (Inr _, Inl ce) \<Rightarrow> io_throw ce
       | (Inr a, Inr _) \<Rightarrow> io_return a))"

end
