(* ===== verification/Core_MigrateRuns.thy ===== *)
theory Core_MigrateRuns
  imports Core_Migrate
begin

text \<open>
  What a run of the migrations leaves behind. Postgres is a value of type \<open>'d\<close> that scripts change, the tracking table,
  and the snapshot of an open transaction. Every call has a fate: it is done, it fails without an effect, or its effect happens and
  the reply is lost. Whatever the fates, schema and tracking table agree, no transaction stays open and no client is
  kept.
\<close>

section \<open>Postgres\<close>

datatype fate = Done | Failed thrown | Lost thrown

record 'd pg_world =
  pw_data :: 'd
  pw_tracked :: "(jsstr \<times> jsstr) list"
  pw_force :: bool
  pw_snapshot :: "('d \<times> (jsstr \<times> jsstr) list) option"
  pw_clients :: nat
  pw_calls :: nat
  pw_fate :: "nat \<Rightarrow> fate"

type_synonym 'd script_semantics = "bool \<Rightarrow> jsstr \<Rightarrow> 'd \<Rightarrow> thrown + 'd"

definition roll_back :: "'d pg_world \<Rightarrow> 'd pg_world" where
  "roll_back w =
     (case pw_snapshot w of
        None \<Rightarrow> w
      | Some (d, t) \<Rightarrow> w\<lparr>pw_data := d, pw_tracked := t, pw_force := False, pw_snapshot := None\<rparr>)"

fun effect :: "'d script_semantics \<Rightarrow> sql_command \<Rightarrow> 'd pg_world \<Rightarrow> thrown + 'd pg_world" where
  "effect exec Begin w = Inr (w\<lparr>pw_snapshot := Some (pw_data w, pw_tracked w)\<rparr>)"
| "effect exec Commit w = Inr (w\<lparr>pw_force := False, pw_snapshot := None\<rparr>)"
| "effect exec Rollback w = Inr (roll_back w)"
| "effect exec Create_tracking_table w = Inr w"
| "effect exec (Run_script s) w =
     (case exec (pw_force w) s (pw_data w) of Inl e \<Rightarrow> Inl e | Inr d \<Rightarrow> Inr (w\<lparr>pw_data := d\<rparr>))"
| "effect exec (Track f c) w =
     (if f \<in> fst ` set (pw_tracked w) then Inl (new_error (js ''duplicate key value violates unique constraint''))
      else Inr (w\<lparr>pw_tracked := pw_tracked w @ [(f, c)]\<rparr>))"
| "effect exec (Untrack f) w = Inr (w\<lparr>pw_tracked := filter (\<lambda>p. fst p \<noteq> f) (pw_tracked w)\<rparr>)"
| "effect exec (Set_force b) w = Inr (w\<lparr>pw_force := b\<rparr>)"

definition counted :: "'d pg_world \<Rightarrow> 'd pg_world" where
  "counted w = w\<lparr>pw_calls := Suc (pw_calls w)\<rparr>"

definition pg_call :: "('d pg_world \<Rightarrow> thrown + 'd pg_world) \<Rightarrow> ('d pg_world, unit) io" where
  "pg_call f w =
     (case pw_fate w (pw_calls w) of
        Failed e \<Rightarrow> (Inl e, counted w)
      | Done \<Rightarrow> (case f w of Inl e \<Rightarrow> (Inl e, counted w) | Inr w' \<Rightarrow> (Inr (), counted w'))
      | Lost e \<Rightarrow> (case f w of Inl e' \<Rightarrow> (Inl e', counted w) | Inr w' \<Rightarrow> (Inl e, counted w')))"

text \<open>Destroying a connection (\<open>release(error)\<close>) makes the server roll back; a lost reply of a connect leaves no client.\<close>

definition pg :: "'d script_semantics \<Rightarrow> 'd pg_world pg_pool" where
  "pg exec =
     \<lparr> pp_connect = (\<lambda>w. case pw_fate w (pw_calls w) of
         Done \<Rightarrow> (Inr (), counted (w\<lparr>pw_clients := Suc (pw_clients w)\<rparr>))
       | Failed e \<Rightarrow> (Inl e, counted w)
       | Lost e \<Rightarrow> (Inl e, counted w)),
       pp_client_query = (\<lambda>cmd. pg_call (effect exec cmd)),
       pp_release = (\<lambda>e w.
         (case e of None \<Rightarrow> w | Some _ \<Rightarrow> roll_back w)\<lparr>pw_clients := pw_clients w - 1\<rparr>),
       pp_query = (\<lambda>cmd. pg_call (effect exec cmd)),
       pp_applied_checksum = (\<lambda>f w. case pw_fate w (pw_calls w) of
         Done \<Rightarrow> (Inr (map_of (pw_tracked w) f), counted w)
       | Failed e \<Rightarrow> (Inl e, counted w)
       | Lost e \<Rightarrow> (Inl e, counted w)),
       pp_applied_desc = (\<lambda>w. case pw_fate w (pw_calls w) of
         Done \<Rightarrow> (Inr (Some (rev (sort (map fst (pw_tracked w))))), counted w)
       | Failed e \<Rightarrow> (Inl e, counted w)
       | Lost e \<Rightarrow> (Inl e, counted w)) \<rparr>"

definition idle :: "'d pg_world \<Rightarrow> bool" where
  "idle w \<longleftrightarrow> pw_snapshot w = None \<and> pw_force w = False"

section \<open>A transaction is all or nothing\<close>

text \<open>The commands that run between BEGIN and COMMIT touch neither the snapshot nor the clients.\<close>

definition stays_inside :: "('d pg_world, unit) io \<Rightarrow> bool" where
  "stays_inside work \<longleftrightarrow> (\<forall>w. pw_snapshot (snd (work w)) = pw_snapshot w \<and> pw_clients (snd (work w)) = pw_clients w \<and>
     pw_fate (snd (work w)) = pw_fate w)"

lemma counted_simps [simp]:
  "pw_data (counted w) = pw_data w" "pw_tracked (counted w) = pw_tracked w" "pw_force (counted w) = pw_force w"
  "pw_snapshot (counted w) = pw_snapshot w" "pw_clients (counted w) = pw_clients w" "pw_fate (counted w) = pw_fate w"
  by (simp_all add: counted_def)

lemma roll_back_simps [simp]:
  "pw_clients (roll_back w) = pw_clients w" "pw_fate (roll_back w) = pw_fate w" "pw_snapshot (roll_back w) = None"
  by (auto simp: roll_back_def split: option.splits)

lemma client_query_cases:
  "pp_client_query (pg exec) cmd w =
     (case pw_fate w (pw_calls w) of
        Failed e \<Rightarrow> (Inl e, counted w)
      | Done \<Rightarrow> (case effect exec cmd w of Inl e \<Rightarrow> (Inl e, counted w) | Inr w' \<Rightarrow> (Inr (), counted w'))
      | Lost e \<Rightarrow> (case effect exec cmd w of Inl e' \<Rightarrow> (Inl e', counted w) | Inr w' \<Rightarrow> (Inl e, counted w')))"
  by (simp add: pg_def pg_call_def)

definition inner_command :: "sql_command \<Rightarrow> bool" where
  "inner_command cmd \<longleftrightarrow> cmd \<notin> {Begin, Commit, Rollback}"

lemma effect_inner:
  "inner_command cmd \<Longrightarrow> effect exec cmd w = Inr w' \<Longrightarrow>
   pw_snapshot w' = pw_snapshot w \<and> pw_clients w' = pw_clients w \<and> pw_fate w' = pw_fate w"
  by (cases cmd) (auto simp: inner_command_def split: sum.splits if_splits)

lemma stays_inside_query: "inner_command cmd \<Longrightarrow> stays_inside (pp_client_query (pg exec) cmd)"
  by (auto simp: stays_inside_def client_query_cases dest: effect_inner split: fate.split sum.split)

lemma stays_inside_then: "stays_inside m \<Longrightarrow> stays_inside n \<Longrightarrow> stays_inside (io_then m n)"
  by (auto simp: stays_inside_def io_then_app split: sum.split)

text \<open>What is inside a transaction that began in \<open>w\<close>.\<close>

definition inside :: "'d pg_world \<Rightarrow> 'd pg_world \<Rightarrow> bool" where
  "inside w v \<longleftrightarrow> pw_snapshot v = Some (pw_data w, pw_tracked w) \<and> pw_clients v = Suc (pw_clients w)"

text \<open>The same database, no open transaction and no client kept.\<close>

definition unchanged :: "'d pg_world \<Rightarrow> 'd pg_world \<Rightarrow> bool" where
  "unchanged w v \<longleftrightarrow> idle v \<and> pw_data v = pw_data w \<and> pw_tracked v = pw_tracked w \<and> pw_clients v = pw_clients w"

definition clean_up :: "'d script_semantics \<Rightarrow> jsstr \<Rightarrow> thrown \<Rightarrow> ('d pg_world, unit) io" where
  "clean_up exec error_context error =
     io_then
       (io_catch
         (io_then (pp_client_query (pg exec) Rollback) (io_do (pp_release (pg exec) None)))
         (\<lambda>rollback_error.
           io_then (io_do (pp_release (pg exec) (Some (to_error rollback_error))))
             (io_throw (new_error (error_context @ js '': '' @ error_message error @
                js ''. Additionally, ROLLBACK itself failed: '' @ error_message rollback_error @ js '' '' @ [8212] @
                js '' the connection has been discarded, not returned to the pool.'')))))
       (io_throw (new_error (error_context @ js '': '' @ error_message error)))"

lemma release_pg:
  "pp_release (pg exec) None w = w\<lparr>pw_clients := pw_clients w - 1\<rparr>"
  "pp_release (pg exec) (Some e) w = (roll_back w)\<lparr>pw_clients := pw_clients w - 1\<rparr>"
  by (simp_all add: pg_def)

lemma roll_back_idem [simp]: "roll_back (roll_back v) = roll_back v"
  by (simp add: roll_back_def split: option.split)

lemma roll_back_counted:
  "roll_back (counted v) = counted (roll_back v)" "roll_back (counted (roll_back v)) = counted (roll_back v)"
  by (simp_all add: roll_back_def counted_def split: option.split)

lemma clean_up_cases:
  "\<exists>e. clean_up exec c error v = (Inl e, counted (roll_back v)\<lparr>pw_clients := pw_clients v - 1\<rparr>)"
  by (cases "pw_fate v (pw_calls v)")
    (simp_all add: clean_up_def io_apps client_query_cases release_pg roll_back_counted)

lemma transaction_app:
  "run_in_transaction (pg exec) work c w =
     (case pw_fate w (pw_calls w) of
        Done \<Rightarrow>
          io_catch
            (io_then (pp_client_query (pg exec) Begin)
              (io_then work (io_then (pp_client_query (pg exec) Commit) (io_do (pp_release (pg exec) None)))))
            (clean_up exec c) (counted (w\<lparr>pw_clients := Suc (pw_clients w)\<rparr>))
      | Failed e \<Rightarrow> (Inl e, counted w)
      | Lost e \<Rightarrow> (Inl e, counted w))"
  by (simp add: run_in_transaction_def clean_up_def [abs_def] io_then_app pg_def split: fate.split)

text \<open>Every way out of a transaction: nothing has changed, or everything has.\<close>

definition committed :: "('d pg_world, unit) io \<Rightarrow> 'd pg_world \<Rightarrow> 'd pg_world \<Rightarrow> bool" where
  "committed work w v \<longleftrightarrow> (\<exists>b b'. pw_data b = pw_data w \<and> pw_tracked b = pw_tracked w \<and> pw_force b = pw_force w \<and>
     work b = (Inr (), b') \<and> pw_data v = pw_data b' \<and> pw_tracked v = pw_tracked b') \<and> idle v \<and> pw_clients v = pw_clients w"

lemma clean_up_inside:
  assumes "inside w v"
  shows "\<exists>e v'. clean_up exec c error v = (Inl e, v') \<and> unchanged w v'"
  using clean_up_cases [of exec c error v] assms by (auto simp: inside_def unchanged_def idle_def roll_back_def)

lemma clean_up_outside:
  assumes "pw_snapshot v = None"
  shows "\<exists>e. clean_up exec c error v = (Inl e, counted v\<lparr>pw_clients := pw_clients v - 1\<rparr>)"
  using clean_up_cases [of exec c error v] assms by (simp add: roll_back_def)

text \<open>Once begun: the work, the commit and, when either fails, the clean-up.\<close>

lemma begun_transaction:
  assumes "inside w b" and "stays_inside work" and "pw_data b = pw_data w" and "pw_tracked b = pw_tracked w"
    and "pw_force b = pw_force w"
    and "io_catch (io_then work (io_then (pp_client_query (pg exec) Commit) (io_do (pp_release (pg exec) None))))
      (clean_up exec c) b = (r, w')"
  shows "committed work w w' \<or> unchanged w w' \<and> r \<noteq> Inr ()"
proof -
  obtain q b' where work: "work b = (q, b')" by fastforce
  then have b': "inside w b'" using assms(1,2) by (auto simp: stays_inside_def inside_def) (metis snd_conv)+
  note clean = clean_up_inside [OF b', of exec c]
  show ?thesis
  proof (cases q)
    case (Inl e)
    then show ?thesis using assms(6) work clean [of e] by (auto simp: io_catch_app io_then_app)
  next
    case (Inr u)
    have "work b = (Inr (), b')" using work Inr by simp
    then have reached: "\<exists>b b''. pw_data b = pw_data w \<and> pw_tracked b = pw_tracked w \<and> pw_force b = pw_force w \<and>
        work b = (Inr (), b'') \<and> pw_data b' = pw_data b'' \<and> pw_tracked b' = pw_tracked b''"
      using assms(3-5) by blast
    have ends: "committed work w (counted (counted (b'\<lparr>pw_force := False, pw_snapshot := None\<rparr>))\<lparr>pw_clients := pw_clients b' - 1\<rparr>)"
      "committed work w (counted (b'\<lparr>pw_force := False, pw_snapshot := None\<rparr>)\<lparr>pw_clients := pw_clients b' - 1\<rparr>)"
      unfolding committed_def using reached b' by (simp_all add: idle_def inside_def)
    show ?thesis
    proof (cases "pw_fate b' (pw_calls b')")
      case Done
      then show ?thesis using assms(6) work Inr ends(2)
        by (simp add: io_catch_app io_then_app client_query_cases release_pg)
    next
      case (Failed e)
      have "inside w (counted b')" using b' by (simp add: inside_def)
      from clean_up_inside [OF this, of exec c e] show ?thesis
        using assms(6) work Inr Failed by (auto simp: io_catch_app io_then_app client_query_cases)
    next
      case (Lost e)
      let ?v = "counted (b'\<lparr>pw_force := False, pw_snapshot := None\<rparr>)"
      have "\<exists>e'. clean_up exec c e ?v = (Inl e', counted ?v\<lparr>pw_clients := pw_clients ?v - 1\<rparr>)"
        by (rule clean_up_outside) simp
      then show ?thesis
        using assms(6) work Inr Lost ends(1) by (auto simp: io_catch_app io_then_app client_query_cases)
    qed
  qed
qed

lemma io_catch_then: "m s = (Inr a, s') \<Longrightarrow> io_catch (io_then m n) h s = io_catch n h s'"
  by (simp add: io_catch_app split: sum.split)

lemma transaction_atomic:
  assumes "idle w" and "stays_inside work" and "run_in_transaction (pg exec) work c w = (r, w')"
  shows "committed work w w' \<or> unchanged w w' \<and> r \<noteq> Inr ()"
proof (cases "pw_fate w (pw_calls w)")
  case Done
  let ?w1 = "counted (w\<lparr>pw_clients := Suc (pw_clients w)\<rparr>)"
  show ?thesis
  proof (cases "pw_fate ?w1 (pw_calls ?w1)")
    case started: Done
    let ?b = "counted (?w1\<lparr>pw_snapshot := Some (pw_data w, pw_tracked w)\<rparr>)"
    have "io_catch (io_then work (io_then (pp_client_query (pg exec) Commit) (io_do (pp_release (pg exec) None))))
        (clean_up exec c) ?b = (r, w')"
    proof -
      have "pp_client_query (pg exec) Begin ?w1 = (Inr (), ?b)" using started by (simp add: client_query_cases)
      then show ?thesis using assms(3) Done by (simp add: transaction_app io_catch_then)
    qed
    then show ?thesis by (intro begun_transaction [OF _ assms(2), of w ?b]) (simp_all add: inside_def)
  next
    case (Failed e)
    have "\<exists>e'. clean_up exec c e (counted ?w1) = (Inl e', counted (counted ?w1)\<lparr>pw_clients := pw_clients (counted ?w1) - 1\<rparr>)"
      using assms(1) by (intro clean_up_outside) (simp add: idle_def)
    then show ?thesis
      using assms(1,3) Done Failed by (auto simp: transaction_app io_catch_app io_then_app client_query_cases
          unchanged_def idle_def)
  next
    case (Lost e)
    have "inside w (counted (?w1\<lparr>pw_snapshot := Some (pw_data w, pw_tracked w)\<rparr>))" by (simp add: inside_def)
    from clean_up_inside [OF this, of exec c e] show ?thesis
      using assms(3) Done Lost by (auto simp: transaction_app io_catch_app io_then_app client_query_cases)
  qed
qed (use assms(1,3) in \<open>auto simp: transaction_app unchanged_def idle_def\<close>)

section \<open>Schema and tracking table agree\<close>

text \<open>The database that a list of migrations makes out of another one.\<close>

fun migrated :: "'d script_semantics \<Rightarrow> (jsstr \<times> jsstr) list \<Rightarrow> 'd \<Rightarrow> 'd option" where
  "migrated exec [] d = Some d"
| "migrated exec ((f, content) # ms) d =
     (case exec False content d of Inl e \<Rightarrow> None | Inr d' \<Rightarrow> migrated exec ms d')"

lemma migrated_append:
  "migrated exec (ms @ [(f, content)]) d =
     (case migrated exec ms d of None \<Rightarrow> None
      | Some d' \<Rightarrow> (case exec False content d' of Inl e \<Rightarrow> None | Inr d'' \<Rightarrow> Some d''))"
  by (induction exec ms d rule: migrated.induct) (auto split: sum.split)

text \<open>Every tracked migration has run on \<open>d0\<close>, once and in the order of the table, and nothing else has.\<close>

definition agrees :: "'d script_semantics \<Rightarrow> (jsstr \<Rightarrow> jsstr) \<Rightarrow> 'd \<Rightarrow> 'd pg_world \<Rightarrow> bool" where
  "agrees exec checksum_of d0 w \<longleftrightarrow> idle w \<and>
     (\<exists>ms. pw_tracked w = map (\<lambda>(f, content). (f, checksum_of content)) ms \<and> distinct (map fst ms) \<and>
        migrated exec ms d0 = Some (pw_data w))"

lemma agrees_unchanged: "agrees exec checksum_of d0 w \<Longrightarrow> unchanged w w' \<Longrightarrow> agrees exec checksum_of d0 w'"
  by (simp add: agrees_def unchanged_def)

lemma agrees_counted [simp]: "agrees exec checksum_of d0 (counted w) = agrees exec checksum_of d0 w"
  by (simp add: agrees_def idle_def)

lemma query_Inr:
  "pp_client_query (pg exec) cmd w = (Inr (), w') \<Longrightarrow> \<exists>v. effect exec cmd w = Inr v \<and> w' = counted v"
  by (auto simp: client_query_cases split: fate.splits sum.splits)

lemma io_then_Inr:
  fixes m :: "('s, unit) io"
  assumes "io_then m n s = (Inr a, s')"
  shows "\<exists>s1. m s = (Inr (), s1) \<and> n s1 = (Inr a, s')"
proof -
  obtain r s1 where "m s = (r, s1)" by fastforce
  then show ?thesis using assms by (cases r) auto
qed

lemma apply_migration_result:
  assumes "idle w" and "apply_migration (pg exec) f content c w = (r, w')"
  shows "unchanged w w' \<and> r \<noteq> Inr () \<or>
    idle w' \<and> pw_clients w' = pw_clients w \<and> exec False content (pw_data w) = Inr (pw_data w') \<and>
    f \<notin> fst ` set (pw_tracked w) \<and> pw_tracked w' = pw_tracked w @ [(f, c)]"
proof -
  let ?work = "io_then (pp_client_query (pg exec) (Run_script content)) (pp_client_query (pg exec) (Track f c))"
  have "stays_inside ?work"
    by (intro stays_inside_then stays_inside_query) (simp_all add: inner_command_def)
  from transaction_atomic [OF assms(1) this] assms(2)
  consider "unchanged w w' \<and> r \<noteq> Inr ()" | "committed ?work w w'"
    unfolding apply_migration_def by blast
  then show ?thesis
  proof cases
    case 2
    then obtain b b2 where b: "pw_data b = pw_data w" "pw_tracked b = pw_tracked w" "pw_force b = pw_force w"
      and work: "?work b = (Inr (), b2)" and w': "pw_data w' = pw_data b2" "pw_tracked w' = pw_tracked b2"
      "idle w'" "pw_clients w' = pw_clients w"
      unfolding committed_def by blast
    obtain b1 where b1: "pp_client_query (pg exec) (Run_script content) b = (Inr (), b1)"
      "pp_client_query (pg exec) (Track f c) b1 = (Inr (), b2)"
      using io_then_Inr [OF work] by blast
    have "pw_force b = False" using b(3) assms(1) by (simp add: idle_def)
    then show ?thesis
      using query_Inr [OF b1(1)] query_Inr [OF b1(2)] b w' by (auto split: sum.splits if_splits)
  qed simp
qed

lemma agrees_apply:
  assumes "agrees exec checksum_of d0 w" and "apply_migration (pg exec) f content (checksum_of content) w = (r, w')"
  shows "agrees exec checksum_of d0 w' \<and> pw_clients w' = pw_clients w \<and> (\<exists>more. pw_tracked w' = pw_tracked w @ more) \<and>
    (r = Inr () \<longrightarrow> map_of (pw_tracked w') f = Some (checksum_of content))"
proof -
  have "idle w" using assms(1) by (simp add: agrees_def)
  from apply_migration_result [OF this assms(2)] show ?thesis
  proof
    assume u: "unchanged w w' \<and> r \<noteq> Inr ()"
    then show ?thesis using agrees_unchanged [OF assms(1)] by (auto simp: unchanged_def)
  next
    assume a: "idle w' \<and> pw_clients w' = pw_clients w \<and> exec False content (pw_data w) = Inr (pw_data w') \<and>
      f \<notin> fst ` set (pw_tracked w) \<and> pw_tracked w' = pw_tracked w @ [(f, checksum_of content)]"
    from assms(1) obtain ms where ms: "pw_tracked w = map (\<lambda>(f, content). (f, checksum_of content)) ms"
      "distinct (map fst ms)" "migrated exec ms d0 = Some (pw_data w)" by (auto simp: agrees_def)
    have "fst ` set (pw_tracked w) = fst ` set ms" unfolding ms(1) by force
    then have "agrees exec checksum_of d0 w'"
      using a ms by (auto simp: agrees_def migrated_append intro!: exI [of _ "ms @ [(f, content)]"])
    moreover have "map_of (pw_tracked w) f = None" using a by (simp add: map_of_eq_None_iff)
    ultimately show ?thesis using a by (simp add: map_add_def)
  qed
qed

lemma migrate_files_step:
  assumes "read_migration_file dir f = Inr content" and "pp_applied_checksum pool f w = (Inr row, w1)"
  shows "migrate_files pool checksum_of dir (f # files) w =
    (case row of
       Some applied \<Rightarrow>
         if applied \<noteq> checksum_of content then (Inl (checksum_mismatch f), w1)
         else migrate_files pool checksum_of dir files w1
     | None \<Rightarrow>
         io_then (apply_migration pool f content (checksum_of content)) (migrate_files pool checksum_of dir files) w1)"
  using assms by (cases row) (simp_all add: Let_def)

lemma migrate_files_fails:
  "read_migration_file dir f = Inl e \<Longrightarrow> migrate_files pool checksum_of dir (f # files) w = (Inl e, w)"
  "read_migration_file dir f = Inr content \<Longrightarrow> pp_applied_checksum pool f w = (Inl e, w1) \<Longrightarrow>
   migrate_files pool checksum_of dir (f # files) w = (Inl e, w1)"
  by (simp_all add: Let_def)

declare migrate_files.simps(2) [simp del]

lemma migrate_files_result:
  assumes "agrees exec checksum_of d0 w" and "migrate_files (pg exec) checksum_of dir files w = (r, w')"
  shows "agrees exec checksum_of d0 w' \<and> pw_clients w' = pw_clients w \<and> (\<exists>more. pw_tracked w' = pw_tracked w @ more) \<and>
    (r = Inr () \<longrightarrow> (\<forall>f \<in> set files. \<exists>content. md_read dir f = Inr content \<and>
       map_of (pw_tracked w') f = Some (checksum_of content)))"
  using assms
proof (induction files arbitrary: w)
  case (Cons f files)
  show ?case
  proof (cases "read_migration_file dir f")
    case (Inl e)
    then show ?thesis using Cons.prems by (auto simp: migrate_files_fails)
  next
    case (Inr content)
    then have content: "md_read dir f = Inr content" by (auto simp: read_migration_file_def split: sum.splits)
    let ?sum = "checksum_of content"
    show ?thesis
    proof (cases "pw_fate w (pw_calls w)")
      case Done
      have look: "pp_applied_checksum (pg exec) f w = (Inr (map_of (pw_tracked w) f), counted w)"
        using Done by (simp add: pg_def)
      show ?thesis
      proof (cases "map_of (pw_tracked w) f")
        case (Some applied)
        show ?thesis
        proof (cases "applied = ?sum")
          case True
          then have "migrate_files (pg exec) checksum_of dir files (counted w) = (r, w')"
            using Cons.prems(2) Some by (simp add: migrate_files_step [OF Inr look])
          from Cons.IH [OF _ this] Cons.prems(1) obtain more where
            "agrees exec checksum_of d0 w'" "pw_clients w' = pw_clients w" "pw_tracked w' = pw_tracked w @ more"
            "r = Inr () \<longrightarrow> (\<forall>f \<in> set files. \<exists>content. md_read dir f = Inr content \<and>
               map_of (pw_tracked w') f = Some (checksum_of content))" by auto
          then show ?thesis using Some True content by (auto simp: map_add_Some_iff)
        next
          case False
          then show ?thesis using Cons.prems Some by (auto simp: migrate_files_step [OF Inr look])
        qed
      next
        case None
        obtain q v where a: "apply_migration (pg exec) f content ?sum (counted w) = (q, v)" by fastforce
        note applied = agrees_apply [of exec checksum_of d0 "counted w" f content q v, unfolded agrees_counted counted_simps, OF Cons.prems(1) a]
        show ?thesis
        proof (cases q)
          case (Inl e)
          then show ?thesis using Cons.prems None a applied by (auto simp: migrate_files_step [OF Inr look])
        next
          case ok: (Inr u)
          then have "migrate_files (pg exec) checksum_of dir files v = (r, w')"
            using Cons.prems(2) None a by (simp add: migrate_files_step [OF Inr look])
          from Cons.IH [OF _ this] applied ok obtain more more' where
            "agrees exec checksum_of d0 w'" "pw_clients w' = pw_clients w" "pw_tracked v = pw_tracked w @ more"
            "pw_tracked w' = pw_tracked v @ more'" "map_of (pw_tracked v) f = Some ?sum"
            "r = Inr () \<longrightarrow> (\<forall>f \<in> set files. \<exists>content. md_read dir f = Inr content \<and>
               map_of (pw_tracked w') f = Some (checksum_of content))" by auto
          then show ?thesis using content by (auto simp: map_add_Some_iff)
        qed
      qed
    next
      case (Failed e)
      then have "pp_applied_checksum (pg exec) f w = (Inl e, counted w)" by (simp add: pg_def)
      then show ?thesis using Cons.prems Inr by (auto simp: migrate_files_fails)
    next
      case (Lost e)
      then have "pp_applied_checksum (pg exec) f w = (Inl e, counted w)" by (simp add: pg_def)
      then show ?thesis using Cons.prems Inr by (auto simp: migrate_files_fails)
    qed
  qed
qed auto

lemma list_migration_files_Inr:
  "list_migration_files dir = Inr files \<longleftrightarrow> (\<exists>names. md_list dir = Inr names \<and>
     files = sort (filter (\<lambda>name. ends_with name (js ''.sql'') \<and> \<not> ends_with name (js ''.down.sql'')) names))"
  by (cases "md_list dir") (auto simp: list_migration_files_def)

lemma rerun_files:
  assumes "\<forall>n. pw_fate w n = Done"
    and "\<forall>f \<in> set files. \<exists>content. md_read dir f = Inr content \<and> map_of (pw_tracked w) f = Some (checksum_of content)"
  shows "\<exists>w'. migrate_files (pg exec) checksum_of dir files w = (Inr (), w') \<and>
    pw_data w' = pw_data w \<and> pw_tracked w' = pw_tracked w"
  using assms
proof (induction files arbitrary: w)
  case (Cons f files)
  then obtain content where c: "md_read dir f = Inr content" "map_of (pw_tracked w) f = Some (checksum_of content)" by auto
  have "read_migration_file dir f = Inr content" by (simp add: read_migration_file_def c(1))
  moreover have "pp_applied_checksum (pg exec) f w = (Inr (Some (checksum_of content)), counted w)"
    using Cons.prems(1) c(2) by (simp add: pg_def)
  ultimately show ?case using Cons.IH [of "counted w"] Cons.prems by (simp add: migrate_files_step)
qed simp

section \<open>Properties\<close>

text \<open>
  C30: whatever calls fail or lose their reply, a run of the migrations leaves the schema and the tracking table in
  agreement: every tracked migration has run exactly once, in the order of the table, and nothing else has; the table only
  grows, no transaction stays open and no client is kept; and when the run resolves, every migration file of the directory
  has been applied with its present checksum.
\<close>

theorem migrations_keep_schema_and_table_together:
  assumes "agrees exec checksum_of d0 w" and "run_sql_migrations (pg exec) checksum_of dir w = (r, w')"
  shows "agrees exec checksum_of d0 w' \<and> pw_clients w' = pw_clients w \<and> (\<exists>more. pw_tracked w' = pw_tracked w @ more) \<and>
    (r = Inr () \<longrightarrow> (\<exists>names. md_list dir = Inr names \<and>
       (\<forall>f \<in> set names. ends_with f (js ''.sql'') \<longrightarrow> \<not> ends_with f (js ''.down.sql'') \<longrightarrow>
          (\<exists>content. md_read dir f = Inr content \<and> map_of (pw_tracked w') f = Some (checksum_of content)))))"
proof -
  have created: "pp_query (pg exec) Create_tracking_table w =
      ((case pw_fate w (pw_calls w) of Done \<Rightarrow> Inr () | Failed e \<Rightarrow> Inl e | Lost e \<Rightarrow> Inl e), counted w)"
    by (simp add: pg_def pg_call_def split: fate.split)
  show ?thesis
  proof (cases "pw_fate w (pw_calls w)")
    case Done
    show ?thesis
    proof (cases "list_migration_files dir")
      case (Inl e)
      then show ?thesis
        using assms Done by (auto simp: run_sql_migrations_def ensure_tracking_table_def io_then_app io_bind_app created)
    next
      case (Inr files)
      then have "migrate_files (pg exec) checksum_of dir files (counted w) = (r, w')"
        using assms(2) Done by (simp add: run_sql_migrations_def ensure_tracking_table_def io_then_app io_bind_app created)
      with assms(1) have "agrees exec checksum_of d0 (counted w)"
        and "migrate_files (pg exec) checksum_of dir files (counted w) = (r, w')" by simp_all
      from migrate_files_result [OF this] show ?thesis
        using Inr [unfolded list_migration_files_Inr] by auto
    qed
  qed (use assms in \<open>auto simp: run_sql_migrations_def ensure_tracking_table_def io_then_app created\<close>)
qed

text \<open>
  running the migrations again is a no-op: after a run that resolved, and while nothing fails, the next run resolves
  and leaves schema and tracking table as they are.
\<close>

theorem second_run_changes_nothing:
  assumes "agrees exec checksum_of d0 w" and "run_sql_migrations (pg exec) checksum_of dir w = (Inr (), w')"
    and "\<forall>n. pw_fate w' n = Done"
  shows "\<exists>w''. run_sql_migrations (pg exec) checksum_of dir w' = (Inr (), w'') \<and>
    pw_data w'' = pw_data w' \<and> pw_tracked w'' = pw_tracked w'"
proof -
  obtain files where files: "list_migration_files dir = Inr files"
    using assms(2) by (cases "list_migration_files dir")
      (auto simp: run_sql_migrations_def io_then_app io_bind_app split: sum.splits)
  obtain v where v: "pp_query (pg exec) Create_tracking_table w = (Inr (), v)" "agrees exec checksum_of d0 v"
    "migrate_files (pg exec) checksum_of dir files v = (Inr (), w')"
    using assms(1,2) files
    by (cases "pw_fate w (pw_calls w)")
      (auto simp: run_sql_migrations_def ensure_tracking_table_def io_then_app io_bind_app pg_def pg_call_def)
  from migrate_files_result [OF v(2,3)] have "\<forall>f \<in> set files. \<exists>content. md_read dir f = Inr content \<and>
      map_of (pw_tracked (counted w')) f = Some (checksum_of content)" by simp
  from rerun_files [OF _ this, of exec] assms(3) obtain w'' where
    "migrate_files (pg exec) checksum_of dir files (counted w') = (Inr (), w'')"
    "pw_data w'' = pw_data w'" "pw_tracked w'' = pw_tracked w'" by auto
  moreover have "pp_query (pg exec) Create_tracking_table w' = (Inr (), counted w')"
    using assms(3) by (simp add: pg_def pg_call_def)
  ultimately show ?thesis
    by (simp add: run_sql_migrations_def ensure_tracking_table_def files)
qed

text \<open>
  a roll-back of a migration is atomic: either its script has run and its row is gone, or schema and tracking table
  are as before and the call was rejected; in both cases no transaction is open and no client is kept.
\<close>

theorem migration_down_is_atomic:
  assumes "idle w" and "down_sql_migration (pg exec) dir force f w = (r, w')"
  shows "idle w' \<and> pw_clients w' = pw_clients w \<and>
    (pw_data w' = pw_data w \<and> pw_tracked w' = pw_tracked w \<and> r \<noteq> Inr () \<or>
     (\<exists>content. md_read dir (down_filename_for f) = Inr content \<and> matches MIGRATION_FILENAME_PATTERN f \<and>
        exec (force = Some True) content (pw_data w) = Inr (pw_data w') \<and>
        pw_tracked w' = filter (\<lambda>p. fst p \<noteq> f) (pw_tracked w)))"
proof (cases "assert_safe_migration_filename f")
  case (Inl e)
  then show ?thesis using assms by (auto simp: down_sql_migration_def io_then_app)
next
  case safe: (Inr u)
  then have pattern: "matches MIGRATION_FILENAME_PATTERN f"
    by (auto simp: assert_safe_migration_filename_def split: if_splits)
  show ?thesis
  proof (cases "read_migration_file dir (down_filename_for f)")
    case (Inl e)
    then show ?thesis using assms safe by (auto simp: down_sql_migration_def io_then_app io_bind_app)
  next
    case (Inr content)
    then have content: "md_read dir (down_filename_for f) = Inr content"
      by (auto simp: read_migration_file_def split: sum.splits)
    let ?q = "pp_client_query (pg exec)"
    let ?work = "io_then (?q (Set_force (force = Some True))) (io_then (?q (Run_script content)) (?q (Untrack f)))"
    have "run_in_transaction (pg exec) ?work (js ''Failed to roll back migration \"'' @ f @ js ''\"'') w = (r, w')"
      using assms(2) safe Inr by (simp add: down_sql_migration_def io_then_app io_bind_app)
    moreover have "stays_inside ?work"
      by (intro stays_inside_then stays_inside_query) (simp_all add: inner_command_def)
    ultimately consider "unchanged w w' \<and> r \<noteq> Inr ()" | "committed ?work w w'"
      using transaction_atomic [OF assms(1)] by blast
    then show ?thesis
    proof cases
      case 1
      then show ?thesis by (simp add: unchanged_def)
    next
      case 2
      then obtain b b3 where b: "pw_data b = pw_data w" "pw_tracked b = pw_tracked w" and work: "?work b = (Inr (), b3)"
        and w': "pw_data w' = pw_data b3" "pw_tracked w' = pw_tracked b3" "idle w'" "pw_clients w' = pw_clients w"
        unfolding committed_def by blast
      obtain b1 where q1: "?q (Set_force (force = Some True)) b = (Inr (), b1)"
        and rest: "io_then (?q (Run_script content)) (?q (Untrack f)) b1 = (Inr (), b3)"
        using io_then_Inr [OF work] by blast
      obtain b2 where q2: "?q (Run_script content) b1 = (Inr (), b2)" and q3: "?q (Untrack f) b2 = (Inr (), b3)"
        using io_then_Inr [OF rest] by blast
      have "pw_data b1 = pw_data b" "pw_tracked b1 = pw_tracked b" "pw_force b1 = (force = Some True)"
        using query_Inr [OF q1] by auto
      moreover have "exec (pw_force b1) content (pw_data b1) = Inr (pw_data b2)" "pw_tracked b2 = pw_tracked b1"
        using query_Inr [OF q2] by (auto split: sum.splits)
      moreover have "pw_data b3 = pw_data b2" "pw_tracked b3 = filter (\<lambda>p. fst p \<noteq> f) (pw_tracked b2)"
        using query_Inr [OF q3] by auto
      ultimately show ?thesis using b w' content pattern by simp
    qed
  qed
qed

text \<open>An example: a schema is the list of its tables, a script names the table it adds.\<close>

definition example_exec :: "jsstr list script_semantics" where
  "example_exec force script tables =
     (if script = [] then Inl (new_error (js ''syntax error'')) else Inr (tables @ [script]))"

definition example_dir :: migrations_dir where
  "example_dir =
     \<lparr> md_list = Inr [js ''002_b.sql'', js ''001_a.sql'', js ''001_a.down.sql''],
       md_read = (\<lambda>n. if n = js ''001_a.sql'' then Inr (js ''a'') else if n = js ''002_b.sql'' then Inr (js ''b'')
         else if n = js ''002_b.down.sql'' then Inr (js ''drop b'') else Inl (new_error (js ''ENOENT''))),
       md_exists = (\<lambda>n. True) \<rparr>"

definition example_pg :: "jsstr list pg_world" where
  "example_pg = \<lparr> pw_data = [], pw_tracked = [], pw_force = False, pw_snapshot = None, pw_clients = 0, pw_calls = 0,
     pw_fate = (\<lambda>_. Done) \<rparr>"

lemma example_pg_agrees: "agrees example_exec rev [] example_pg"
  by (simp add: agrees_def idle_def example_pg_def)

text \<open>With a second connection that loses the reply of its COMMIT: the migration counts, the run is rejected.\<close>

theorem migrations_keep_schema_and_table_together_witness:
  "agrees example_exec rev [] (snd (run_sql_migrations (pg example_exec) rev example_dir
     (example_pg\<lparr>pw_fate := (\<lambda>n. if n = 6 then Lost (new_error (js ''gone'')) else Done)\<rparr>)))"
proof -
  let ?w = "example_pg\<lparr>pw_fate := (\<lambda>n. if n = 6 then Lost (new_error (js ''gone'')) else Done)\<rparr>"
  have "agrees example_exec rev [] ?w" by (simp add: agrees_def idle_def example_pg_def)
  from migrations_keep_schema_and_table_together [OF this prod.collapse [symmetric]] show ?thesis by blast
qed

lemma example_files: "list_migration_files example_dir = Inr [js ''001_a.sql'', js ''002_b.sql'']"
  by (simp add: list_migration_files_def example_dir_def ends_with_def js_def)

lemma example_reads:
  "read_migration_file example_dir (js ''001_a.sql'') = Inr (js ''a'')"
  "read_migration_file example_dir (js ''002_b.sql'') = Inr (js ''b'')"
  "rev (js ''a'') = js ''a''" "rev (js ''b'') = js ''b''"
  by (simp_all add: read_migration_file_def example_dir_def js_def)

lemma example_run:
  "fst (run_sql_migrations (pg example_exec) rev example_dir example_pg) = Inr ()"
  "pw_tracked (snd (run_sql_migrations (pg example_exec) rev example_dir example_pg)) =
     [(js ''001_a.sql'', js ''a''), (js ''002_b.sql'', js ''b'')]"
  "pw_fate (snd (run_sql_migrations (pg example_exec) rev example_dir example_pg)) n = Done"
  by (simp_all add: run_sql_migrations_def ensure_tracking_table_def example_files migrate_files.simps(2)
      example_reads pg_def pg_call_def example_pg_def apply_migration_def
      run_in_transaction_def io_apps example_exec_def counted_def Let_def)

theorem second_run_changes_nothing_witness:
  "\<exists>w' w''. run_sql_migrations (pg example_exec) rev example_dir example_pg = (Inr (), w') \<and>
     pw_tracked w' = [(js ''001_a.sql'', js ''a''), (js ''002_b.sql'', js ''b'')] \<and>
     run_sql_migrations (pg example_exec) rev example_dir w' = (Inr (), w'') \<and> pw_tracked w'' = pw_tracked w'"
proof -
  obtain w' where w': "run_sql_migrations (pg example_exec) rev example_dir example_pg = (Inr (), w')"
    using example_run(1) by (metis prod.collapse)
  then have "\<forall>n. pw_fate w' n = Done" "pw_tracked w' = [(js ''001_a.sql'', js ''a''), (js ''002_b.sql'', js ''b'')]"
    using example_run(2,3) by simp_all
  then show ?thesis using second_run_changes_nothing [OF example_pg_agrees w'] w' by blast
qed

theorem migration_down_is_atomic_witness:
  "\<exists>r w'. down_sql_migration (pg example_exec) example_dir None (js ''002_b.sql'') example_pg = (r, w') \<and>
     idle w' \<and> pw_clients w' = 0"
proof -
  obtain r w' where r: "down_sql_migration (pg example_exec) example_dir None (js ''002_b.sql'') example_pg = (r, w')"
    by fastforce
  have "idle example_pg" "pw_clients example_pg = 0" by (simp_all add: idle_def example_pg_def)
  with migration_down_is_atomic [OF _ r] r show ?thesis by auto
qed

end
