(* ===== verification/Js_Float.thy ===== *)
theory Js_Float
  imports Js_Number Js_Date
begin

text \<open>
  Arithmetic on doubles, each operation rounded as IEEE 754 does, the order of doubles, and the text of a number
  (\<open>String(x)\<close>): the shortest decimal that reads back as the same double. The sign of a zero is not kept.
\<close>

section \<open>Operations\<close>

fun d_neg :: "double \<Rightarrow> double" where
  "d_neg Not_a_number = Not_a_number"
| "d_neg (Infinite negative) = Infinite (\<not> negative)"
| "d_neg (Finite x) = Finite (- x)"

fun d_add :: "double \<Rightarrow> double \<Rightarrow> double" where
  "d_add (Finite x) (Finite y) = to_double (x + y)"
| "d_add (Infinite a) (Infinite b) = (if a = b then Infinite a else Not_a_number)"
| "d_add (Infinite a) (Finite _) = Infinite a"
| "d_add (Finite _) (Infinite b) = Infinite b"
| "d_add _ _ = Not_a_number"

definition d_sub :: "double \<Rightarrow> double \<Rightarrow> double" where
  "d_sub x y = d_add x (d_neg y)"

fun d_mul :: "double \<Rightarrow> double \<Rightarrow> double" where
  "d_mul (Finite x) (Finite y) = to_double (x * y)"
| "d_mul (Infinite a) (Infinite b) = Infinite (a \<noteq> b)"
| "d_mul (Infinite a) (Finite y) = (if y = 0 then Not_a_number else Infinite (a \<noteq> (y < 0)))"
| "d_mul (Finite x) (Infinite b) = (if x = 0 then Not_a_number else Infinite ((x < 0) \<noteq> b))"
| "d_mul _ _ = Not_a_number"

text \<open>A zero divisor counts as positive zero.\<close>

fun d_div :: "double \<Rightarrow> double \<Rightarrow> double" where
  "d_div (Finite x) (Finite y) =
     (if y = 0 then (if x = 0 then Not_a_number else Infinite (x < 0)) else to_double (x / y))"
| "d_div (Infinite a) (Finite y) = Infinite (a \<noteq> (y < 0))"
| "d_div (Finite _) (Infinite _) = Finite 0"
| "d_div _ _ = Not_a_number"

fun d_less :: "double \<Rightarrow> double \<Rightarrow> bool" where
  "d_less (Finite x) (Finite y) = (x < y)"
| "d_less (Infinite a) (Finite _) = a"
| "d_less (Finite _) (Infinite b) = (\<not> b)"
| "d_less (Infinite a) (Infinite b) = (a \<and> \<not> b)"
| "d_less _ _ = False"

fun d_le :: "double \<Rightarrow> double \<Rightarrow> bool" where
  "d_le (Finite x) (Finite y) = (x \<le> y)"
| "d_le (Infinite a) (Finite _) = a"
| "d_le (Finite _) (Infinite b) = (\<not> b)"
| "d_le (Infinite a) (Infinite b) = (a \<or> \<not> b)"
| "d_le _ _ = False"

definition d_is_finite :: "double \<Rightarrow> bool" where
  "d_is_finite x = (case x of Finite _ \<Rightarrow> True | _ \<Rightarrow> False)"

text \<open>\<open>Math.round\<close>: the nearest integer, halves upwards.\<close>

fun math_round :: "double \<Rightarrow> double" where
  "math_round (Finite x) = Finite (of_int \<lfloor>x + 1 / 2\<rfloor>)"
| "math_round x = x"

section \<open>The text of a number\<close>

definition power_of_ten :: "int \<Rightarrow> rat" where
  "power_of_ten e = (if 0 \<le> e then 10 ^ nat e else 1 / 10 ^ nat (- e))"

text \<open>For a positive \<open>x\<close> the \<open>n\<close> with \<open>10 ^ (n - 1) \<le> x < 10 ^ n\<close>.\<close>

definition decimal_exponent :: "rat \<Rightarrow> int" where
  "decimal_exponent x =
     (let (a, b) = quotient_of x; j = int (length (dec (nat a))) - int (length (dec (nat b))) in
      if power_of_ten j \<le> x then j + 1 else j)"

text \<open>The digits and the exponent of the shortest decimal that reads back as \<open>x\<close>; 17 digits always do.\<close>

definition shortest_decimal :: "rat \<Rightarrow> nat \<times> int" where
  "shortest_decimal x =
     (let n = decimal_exponent x; digits = (\<lambda>k. nat (nearest_even (x / power_of_ten (n - int k))));
          reads_back = (\<lambda>k. to_double (of_nat (digits k) * power_of_ten (n - int k)) = Finite x);
          k = (case find reads_back [1..<17] of Some k \<Rightarrow> k | None \<Rightarrow> 17)
      in if digits k = 10 ^ k then (1, n + 1) else (digits k, n))"

definition positive_text :: "rat \<Rightarrow> jsstr" where
  "positive_text x =
     (let (s, n) = shortest_decimal x; ds = dec s; k = int (length ds); e = n - 1;
          exponent = js ''e'' @ (if 0 \<le> e then js ''+'' else js ''-'') @ dec (nat \<bar>e\<bar>)
      in if k \<le> n \<and> n \<le> 21 then ds @ replicate (nat (n - k)) 48
         else if 0 < n \<and> n \<le> 21 then take (nat n) ds @ js ''.'' @ drop (nat n) ds
         else if - 6 < n \<and> n \<le> 0 then js ''0.'' @ replicate (nat (- n)) 48 @ ds
         else if k = 1 then ds @ exponent
         else take 1 ds @ js ''.'' @ drop 1 ds @ exponent)"

definition number_text :: "double \<Rightarrow> jsstr" where
  "number_text x =
     (case x of
        Not_a_number \<Rightarrow> js ''NaN''
      | Infinite negative \<Rightarrow> (if negative then js ''-Infinity'' else js ''Infinity'')
      | Finite q \<Rightarrow> if q = 0 then js ''0'' else if q < 0 then js ''-'' @ positive_text (- q) else positive_text q)"

section \<open>The error of a rounding\<close>

lemma power_of_two_not_0 [simp]: "power_of_two e \<noteq> 0"
  by (metis power_of_two_pos less_irrefl)

lemma binary_exponent_le:
  assumes "0 < q"
  shows "power_of_two (binary_exponent q) \<le> q"
proof -
  obtain a b where ab: "quotient_of q = (a, b)" by (cases "quotient_of q")
  have b: "0 < b" using quotient_of_denom_pos [OF ab] .
  have q: "q = of_int a / of_int b" using quotient_of_div [OF ab] .
  have a: "0 < a" using assms b unfolding q by (simp add: zero_less_divide_iff)
  define x y where "x = nat a" and "y = nat b"
  have xy: "0 < x" "0 < y" "a = int x" "b = int y" using a b by (simp_all add: x_def y_def)
  let ?l = "bit_length x" and ?m = "bit_length y"
  have X: "2 ^ (?l - 1) \<le> x" "0 < ?l" and Y: "y < 2 ^ ?m" using bit_length_bounds [OF xy(1)] bit_length_bounds [OF xy(2)] by auto
  let ?k = "int ?l - int ?m"
  have split: "power_of_two (?k - 1) * 2 ^ ?m = 2 ^ (?l - 1)"
  proof (cases "0 \<le> ?k - 1")
    case True
    then have "nat (?k - 1) + ?m = ?l - 1" by linarith
    then have "(2::rat) ^ nat (?k - 1) * 2 ^ ?m = 2 ^ (?l - 1)" by (simp flip: power_add)
    with True show ?thesis by (simp add: power_of_two_def)
  next
    case False
    then have "?l - 1 + nat (- (?k - 1)) = ?m" using X(2) by linarith
    then have "(2::rat) ^ ?m = 2 ^ (?l - 1) * 2 ^ nat (- (?k - 1))" by (simp flip: power_add)
    with False show ?thesis by (simp add: power_of_two_def)
  qed
  have "power_of_two (?k - 1) * of_nat y \<le> power_of_two (?k - 1) * 2 ^ ?m"
  proof -
    have "(of_nat y :: rat) \<le> of_nat (2 ^ ?m)" using Y by (simp only: of_nat_le_iff less_imp_le)
    then show ?thesis using power_of_two_pos [of "?k - 1"] by simp
  qed
  also have "\<dots> \<le> of_nat x"
  proof -
    have "(of_nat (2 ^ (?l - 1)) :: rat) \<le> of_nat x" using X(1) by (simp only: of_nat_le_iff)
    then show ?thesis by (simp add: split)
  qed
  finally have "power_of_two (?k - 1) \<le> q" using xy(2) by (simp add: q xy(3,4) field_simps)
  then show ?thesis by (simp add: binary_exponent_def ab Let_def x_def y_def)
qed

lemma nearest_even_error: "\<bar>of_int (nearest_even q) - q\<bar> \<le> 1 / 2"
proof -
  define d where "d = q - of_int \<lfloor>q\<rfloor>"
  have "of_int \<lfloor>q\<rfloor> \<le> q" "q < of_int \<lfloor>q\<rfloor> + 1" by linarith+
  then have d: "0 \<le> d" "d < 1" unfolding d_def by linarith+
  have "nearest_even q = \<lfloor>q\<rfloor> \<and> d \<le> 1 / 2 \<or> nearest_even q = \<lfloor>q\<rfloor> + 1 \<and> 1 / 2 \<le> d"
    unfolding nearest_even_def Let_def d_def [symmetric] by auto
  moreover have "\<bar>of_int \<lfloor>q\<rfloor> - q\<bar> = d" "\<bar>of_int (\<lfloor>q\<rfloor> + 1) - q\<bar> = 1 - d" using d unfolding d_def by linarith+
  ultimately show ?thesis by (elim disjE conjE) simp_all
qed

lemma nearest_even_nonneg: "0 \<le> q \<Longrightarrow> 0 \<le> nearest_even q"
  by (auto simp: nearest_even_def Let_def)

lemma power_of_two_pred: "power_of_two (e - 1) = power_of_two e / 2"
proof (cases "0 < e")
  case True
  then have "nat e = Suc (nat (e - 1))" by simp
  with True show ?thesis by (simp add: power_of_two_def)
next
  case False
  then have "nat (- (e - 1)) = Suc (nat (- e))" by simp
  with False show ?thesis by (simp add: power_of_two_def)
qed

lemma power_of_two_add: "power_of_two (e - int k) = power_of_two e / 2 ^ k"
proof (induction k)
  case (Suc k)
  have "e - int (Suc k) = e - int k - 1" by simp
  then show ?case by (simp only: power_of_two_pred Suc) simp
qed simp

text \<open>The value of a rounding that does not overflow.\<close>

definition fl :: "rat \<Rightarrow> rat" where
  "fl q = (case to_double q of Finite r \<Rightarrow> r | _ \<Rightarrow> 0)"

lemma to_double_error:
  assumes "\<bar>q\<bar> \<le> 2 ^ 1000"
  shows "to_double q = Finite (fl q) \<and> \<bar>fl q - q\<bar> \<le> \<bar>q\<bar> / 2 ^ 53 + 1 / 2 ^ 1074"
proof (cases "q = 0")
  case False
  define a where "a = \<bar>q\<bar>"
  have a: "0 < a" "a \<le> 2 ^ 1000" using False assms by (simp_all add: a_def)
  define b where "b = binary_exponent a"
  have b: "power_of_two b \<le> a" using binary_exponent_le [OF a(1)] by (simp add: b_def)
  define e where "e = max (- 1074) (b - 52)"
  define v where "v = of_int (nearest_even (a / power_of_two e)) * power_of_two e"
  have p: "0 < power_of_two e" by simp
  have "\<bar>of_int (nearest_even (a / power_of_two e)) - a / power_of_two e\<bar> \<le> 1 / 2" by (rule nearest_even_error)
  then have "\<bar>of_int (nearest_even (a / power_of_two e)) - a / power_of_two e\<bar> * power_of_two e \<le> 1 / 2 * power_of_two e"
    by (rule mult_right_mono [OF _ less_imp_le [OF p]])
  moreover have "\<bar>of_int (nearest_even (a / power_of_two e)) - a / power_of_two e\<bar> * power_of_two e = \<bar>v - a\<bar>"
    using p by (simp only: abs_mult_pos [OF less_imp_le [OF p]] left_diff_distrib v_def) simp
  ultimately have d: "\<bar>v - a\<bar> \<le> power_of_two e / 2" by simp
  have "power_of_two e / 2 \<le> a / 2 ^ 53 + 1 / 2 ^ 1074"
  proof (cases "e = - 1074")
    case True
    have "power_of_two e / 2 \<le> power_of_two e" using p by simp
    also have "\<dots> = 1 / 2 ^ 1074" by (simp add: True power_of_two_def)
    finally show ?thesis using a(1) by (meson add_increasing divide_nonneg_nonneg less_imp_le zero_le_numeral zero_le_power)
  next
    case False
    then have "e = b - int 52" by (simp add: e_def max_def split: if_splits)
    then have "power_of_two e / 2 = power_of_two b / 2 ^ 53" by (simp only: power_of_two_add) simp
    also have "\<dots> \<le> a / 2 ^ 53" using b by (intro divide_right_mono) auto
    finally show ?thesis by (meson add_increasing2 divide_nonneg_nonneg zero_le_numeral zero_le_one zero_le_power)
  qed
  with d have err: "\<bar>v - a\<bar> \<le> a / 2 ^ 53 + 1 / 2 ^ 1074" by linarith
  have "a / 2 ^ 53 \<le> a" using a(1) by simp
  moreover have "(1::rat) / 2 ^ 1074 \<le> 1" by simp
  moreover have "(1::rat) \<le> 2 ^ 1000" by simp
  ultimately have "v \<le> 3 * 2 ^ 1000" using err a(2) by linarith
  also have "\<dots> < (2::rat) ^ 2 * 2 ^ 1000" by (intro mult_strict_right_mono) auto
  also have "\<dots> = 2 ^ 1002" by (simp only: flip: power_add) simp
  also have "\<dots> \<le> (2::rat) ^ 1024" by (rule power_increasing) auto
  also have "\<dots> = power_of_two 1024" by (simp add: power_of_two_def)
  finally have "\<not> power_of_two 1024 \<le> v" by simp
  then have t: "to_double q = Finite (sgn q * v)"
    using False by (simp add: to_double_def Let_def flip: a_def b_def e_def v_def)
  have "\<bar>sgn q * v - q\<bar> = \<bar>v - a\<bar>"
  proof (cases "0 < q")
    case True
    then show ?thesis by (simp add: a_def)
  next
    case neg: False
    with \<open>q \<noteq> 0\<close> have "q < 0" by simp
    then have "sgn q * v - q = - (v - a)" by (simp add: a_def)
    then show ?thesis by (simp only: abs_minus_cancel)
  qed
  then show ?thesis using t err by (simp add: fl_def a_def)
qed (simp add: to_double_def fl_def)

lemma fl_0 [simp]: "fl 0 = 0"
  by (simp add: fl_def to_double_def)

text \<open>A bound for the rounding of the small numbers that percentages are.\<close>

lemma to_double_small:
  assumes "\<bar>q\<bar> \<le> 1000"
  shows "to_double q = Finite (fl q)" and "\<bar>fl q - q\<bar> \<le> 1 / 1000000000000"
proof -
  have "(1000::rat) \<le> 2 ^ 10" by simp
  also have "(2::rat) ^ 10 \<le> 2 ^ 1000" by (rule power_increasing) auto
  finally have "\<bar>q\<bar> \<le> 2 ^ 1000" using assms by linarith
  note e = to_double_error [OF this]
  show "to_double q = Finite (fl q)" using e by blast
  have "\<bar>q\<bar> / 2 ^ 53 \<le> 1000 / 2 ^ 53" using assms by (intro divide_right_mono) auto
  moreover have "(1::rat) / 2 ^ 1074 \<le> 1 / 2 ^ 53"
    by (intro divide_left_mono power_increasing) auto
  moreover have "(1000::rat) / 2 ^ 53 + 1 / 2 ^ 53 \<le> 1 / 1000000000000" by simp
  ultimately show "\<bar>fl q - q\<bar> \<le> 1 / 1000000000000" using e by linarith
qed

end
