(* ===== verification/Core_MigrateStatus.thy ===== *)
theory Core_MigrateStatus
  imports Core_Migrate Js_Float
begin

text \<open>
  The report on both kinds of migrations (\<open>packages/core/src/db/migrate-status.ts\<close>): the journal that drizzle writes, its
  tracking table by time, the tracking table of the SQL files by name. The queries and the files are parameters.
\<close>

section \<open>Values of a JSON text\<close>

text \<open>
  \<open>String(v)\<close>, as a template literal does it. An object prints as \<open>[object Object]\<close>; a journal whose value has a member
  \<open>toString\<close> of its own is not considered.
\<close>

fun string_of_json :: "json \<Rightarrow> jsstr" where
  "string_of_json JNull = js ''null''"
| "string_of_json (JBool b) = (if b then js ''true'' else js ''false'')"
| "string_of_json (JInt i) = number_text (to_double (of_int i))"
| "string_of_json (JNum t) = number_text (to_number t)"
| "string_of_json (JStr s) = s"
| "string_of_json (JArr vs) = join_with (js '','') (map (\<lambda>v. if v = JNull then [] else string_of_json v) vs)"
| "string_of_json (JObj ms) = js ''[object Object]''"

definition json_to_number :: "json \<Rightarrow> rat option" where
  "json_to_number v =
     (case (case v of JInt i \<Rightarrow> to_double (of_int i) | JNum t \<Rightarrow> to_number t | _ \<Rightarrow> Not_a_number) of
        Finite q \<Rightarrow> Some q
      | _ \<Rightarrow> None)"

text \<open>A member of a value: reading it from \<open>null\<close> throws, a value that is no object has none of these members.\<close>

definition json_member :: "thrown \<Rightarrow> json \<Rightarrow> string \<Rightarrow> json option outcome" where
  "json_member type_error v key =
     (case v of JNull \<Rightarrow> Inl type_error | JObj ms \<Rightarrow> Inr (map_get ms (js key)) | _ \<Rightarrow> Inr None)"

text \<open>\<open>new Date(ms).toISOString()\<close>: the time is cut to whole milliseconds; a \<open>RangeError\<close> beyond 100 million days.\<close>

definition date_iso :: "thrown \<Rightarrow> rat \<Rightarrow> jsstr outcome" where
  "date_iso range_error ms =
     (if \<bar>ms\<bar> \<le> 8640000000000000 then Inr (iso_string (if 0 \<le> ms then \<lfloor>ms\<rfloor> else \<lceil>ms\<rceil>)) else Inl range_error)"

section \<open>The journal\<close>

datatype migration_flavor = Drizzle | Sql

record migration_status_row =
  ms_filename :: jsstr
  ms_flavor :: migration_flavor
  ms_applied_at :: jsstr

definition PENDING :: jsstr where
  "PENDING = js ''PENDING''"

text \<open>The errors that the language throws, and the services of the report.\<close>

record js_errors =
  je_syntax_error :: "jsstr \<Rightarrow> thrown"
  je_type_error :: thrown
  je_range_error :: thrown

record 's status_pool =
  sp_drizzle_table :: "('s, bool option) io"
  sp_drizzle_rows :: "('s, jsstr list) io"
  sp_sql_table :: "('s, bool option) io"
  sp_sql_rows :: "('s, (jsstr \<times> jsstr) list) io"

definition load_drizzle_journal :: "js_errors \<Rightarrow> jsstr \<Rightarrow> jsstr outcome \<Rightarrow> json list outcome" where
  "load_drizzle_journal errors journal_path file =
     (case file of
        Inl e \<Rightarrow> Inl (new_error (js ''migrate:status: failed to read the drizzle journal at '' @ journal_path @ js '': '' @ error_message e))
      | Inr raw \<Rightarrow>
          (case json_parse raw of
             None \<Rightarrow> Inl (new_error (js ''migrate:status: '' @ journal_path @ js '' is not valid JSON: '' @
               error_message (je_syntax_error errors raw)))
           | Some parsed \<Rightarrow>
               (case (case parsed of JObj ms \<Rightarrow> map_get ms (js ''entries'') | _ \<Rightarrow> None) of
                  Some (JArr entries) \<Rightarrow> Inr entries
                | _ \<Rightarrow> Inl (new_error (js ''migrate:status: '' @ journal_path @ js '' does not have the expected {\"entries\": [...]} shape'')))))"

definition parse_created_at_ms :: "jsstr \<Rightarrow> rat outcome" where
  "parse_created_at_ms raw_created_at =
     (case to_number raw_created_at of
        Finite ms \<Rightarrow> Inr ms
      | _ \<Rightarrow> Inl (new_error (js ''migrate:status: drizzle.__drizzle_migrations.created_at was not a numeric epoch-ms value (got \"'' @
          raw_created_at @ js ''\") '' @ [8212] @ js '' expected a bigint column.'')))"

fun collect_applied_at :: "js_errors \<Rightarrow> jsstr list \<Rightarrow> (rat, jsstr) js_map \<Rightarrow> (rat, jsstr) js_map outcome" where
  "collect_applied_at errors [] m = Inr m"
| "collect_applied_at errors (raw # rows) m =
     (case parse_created_at_ms raw of
        Inl e \<Rightarrow> Inl e
      | Inr ms \<Rightarrow>
          (case date_iso (je_range_error errors) ms of
             Inl e \<Rightarrow> Inl e
           | Inr applied \<Rightarrow> collect_applied_at errors rows (map_set ms applied m)))"

definition drizzle_row :: "js_errors \<Rightarrow> (rat, jsstr) js_map \<Rightarrow> json \<Rightarrow> migration_status_row outcome" where
  "drizzle_row errors applied_at_by_when entry =
     (case json_member (je_type_error errors) entry ''tag'' of
        Inl e \<Rightarrow> Inl e
      | Inr tag \<Rightarrow>
          (case json_member (je_type_error errors) entry ''when'' of
             Inl e \<Rightarrow> Inl e
           | Inr time \<Rightarrow> Inr
               \<lparr> ms_filename = (case tag of None \<Rightarrow> js ''undefined'' | Some v \<Rightarrow> string_of_json v) @ js ''.sql'',
                 ms_flavor = Drizzle,
                 ms_applied_at =
                   (case Option.bind (Option.bind time json_to_number) (map_get applied_at_by_when) of
                      None \<Rightarrow> PENDING | Some applied \<Rightarrow> applied) \<rparr>))"

fun drizzle_rows :: "js_errors \<Rightarrow> (rat, jsstr) js_map \<Rightarrow> json list \<Rightarrow> migration_status_row list outcome" where
  "drizzle_rows errors m [] = Inr []"
| "drizzle_rows errors m (entry # entries) =
     (case drizzle_row errors m entry of
        Inl e \<Rightarrow> Inl e
      | Inr row \<Rightarrow> map_sum id ((#) row) (drizzle_rows errors m entries))"

definition drizzle_flavor_rows ::
  "js_errors \<Rightarrow> 's status_pool \<Rightarrow> jsstr \<Rightarrow> jsstr outcome \<Rightarrow> ('s, migration_status_row list) io" where
  "drizzle_flavor_rows errors pool journal_path file =
     io_bind (io_of (load_drizzle_journal errors journal_path file)) (\<lambda>entries.
       io_bind (sp_drizzle_table pool) (\<lambda>exists.
         io_bind (if exists = Some True
                  then io_bind (sp_drizzle_rows pool) (\<lambda>rows. io_of (collect_applied_at errors rows []))
                  else io_return [])
           (\<lambda>applied_at_by_when. io_of (drizzle_rows errors applied_at_by_when entries))))"

definition sql_flavor_rows :: "'s status_pool \<Rightarrow> migrations_dir \<Rightarrow> ('s, migration_status_row list) io" where
  "sql_flavor_rows pool dir =
     io_bind (io_of (list_migration_files dir)) (\<lambda>files.
       io_bind (sp_sql_table pool) (\<lambda>exists.
         io_bind (if exists = Some True
                  then io_bind (sp_sql_rows pool) (\<lambda>rows. io_return (foldl (\<lambda>m (f, t). map_set f t m) [] rows))
                  else io_return [])
           (\<lambda>applied_at_by_filename. io_return (map (\<lambda>f.
              \<lparr> ms_filename = f, ms_flavor = Sql,
                ms_applied_at = (case map_get applied_at_by_filename f of None \<Rightarrow> PENDING | Some t \<Rightarrow> t) \<rparr>) files))))"

definition get_migration_status ::
  "js_errors \<Rightarrow> 's status_pool \<Rightarrow> jsstr \<Rightarrow> jsstr outcome \<Rightarrow> migrations_dir \<Rightarrow> ('s, migration_status_row list) io" where
  "get_migration_status errors pool journal_path journal dir =
     io_bind (drizzle_flavor_rows errors pool journal_path journal) (\<lambda>d.
       io_bind (sql_flavor_rows pool dir) (\<lambda>s. io_return (d @ s)))"

definition has_pending_migrations :: "migration_status_row list \<Rightarrow> bool" where
  "has_pending_migrations rows = list_ex (\<lambda>row. ms_applied_at row = PENDING) rows"

text \<open>The command: its result is the exit code, unless it throws. The table it prints is left out.\<close>

definition migrate_status_main ::
  "js_errors \<Rightarrow> 's status_pool \<Rightarrow> jsstr \<Rightarrow> jsstr outcome \<Rightarrow> migrations_dir \<Rightarrow> ('s, unit) io \<Rightarrow> ('s, nat) io" where
  "migrate_status_main errors pool journal_path journal dir close_db =
     run_and_close (js ''migrate:status'') (js ''the db pool'')
       (io_bind (get_migration_status errors pool journal_path journal dir) (\<lambda>rows.
          io_return (if has_pending_migrations rows then 1 else 0)))
       close_db"

section \<open>What the report says\<close>

lemma iso_string_not_PENDING [simp]: "iso_string t \<noteq> PENDING"
proof -
  have "45 \<in> set (iso_string t)" by (simp add: iso_string_def js_def)
  moreover have "45 \<notin> set PENDING" by (simp add: PENDING_def js_def)
  ultimately show ?thesis by metis
qed

text \<open>The journal and the table as drizzle writes them, with times as whole milliseconds.\<close>

definition journal_entry :: "jsstr \<times> nat \<Rightarrow> json" where
  "journal_entry = (\<lambda>(tag, time). JObj [(js ''tag'', JStr tag), (js ''when'', JInt (int time))])"

definition applied_map :: "nat list \<Rightarrow> (rat, jsstr) js_map \<Rightarrow> (rat, jsstr) js_map" where
  "applied_map = fold (\<lambda>t. map_set (of_nat t) (iso_string (int t)))"

lemma date_iso_nat: "t \<le> 8640000000000000 \<Longrightarrow> date_iso e (of_nat t) = Inr (iso_string (int t))"
proof -
  assume "t \<le> 8640000000000000"
  then have "(of_nat t :: rat) \<le> of_nat 8640000000000000" by (simp only: of_nat_le_iff)
  then show ?thesis by (simp add: date_iso_def)
qed

lemma collect_applied_at_decimal:
  assumes "list_all (\<lambda>t. t \<le> 8640000000000000) ts"
  shows "collect_applied_at errors (map dec ts) m = Inr (applied_map ts m)"
  using assms
proof (induction ts arbitrary: m)
  case (Cons t ts)
  then have t: "t \<le> 8640000000000000" by simp
  then have "to_number (dec t) = Finite (of_nat t)" by (intro to_number_dec) simp
  then show ?case using Cons date_iso_nat [OF t] by (simp add: parse_created_at_ms_def applied_map_def)
qed (simp add: applied_map_def)

lemma applied_map_get:
  "map_get (applied_map ts m) (of_nat t) = (if t \<in> set ts then Some (iso_string (int t)) else map_get m (of_nat t))"
  by (induction ts arbitrary: m) (auto simp: applied_map_def)

lemma drizzle_row_entry:
  assumes "time < 2 ^ 53"
  shows "drizzle_row errors (applied_map ts []) (journal_entry (tag, time)) =
    Inr \<lparr> ms_filename = tag @ js ''.sql'', ms_flavor = Drizzle,
          ms_applied_at = (if time \<in> set ts then iso_string (int time) else PENDING) \<rparr>"
proof -
  have n: "json_to_number (JInt (int time)) = Some (of_nat time)"
    using to_double_nat [OF assms] by (simp add: json_to_number_def)
  have "js ''when'' \<noteq> js ''tag''" by simp
  then show ?thesis
    by (simp add: drizzle_row_def journal_entry_def json_member_def n applied_map_get del: js_inject)
qed

definition drizzle_status :: "nat list \<Rightarrow> jsstr \<times> nat \<Rightarrow> migration_status_row" where
  "drizzle_status ts = (\<lambda>(tag, time).
     \<lparr> ms_filename = tag @ js ''.sql'', ms_flavor = Drizzle,
       ms_applied_at = (if time \<in> set ts then iso_string (int time) else PENDING) \<rparr>)"

lemma drizzle_rows_entries:
  assumes "list_all (\<lambda>(_, time). time < 2 ^ 53) entries"
  shows "drizzle_rows errors (applied_map ts []) (map journal_entry entries) = Inr (map (drizzle_status ts) entries)"
  using assms by (induction entries) (auto simp: drizzle_row_entry drizzle_status_def)

definition sql_status :: "(jsstr \<times> jsstr) list \<Rightarrow> jsstr \<Rightarrow> migration_status_row" where
  "sql_status rows f =
     \<lparr> ms_filename = f, ms_flavor = Sql,
       ms_applied_at = (case map_of (rev rows) f of None \<Rightarrow> PENDING | Some t \<Rightarrow> t) \<rparr>"

lemma foldl_map_set: "map_get (foldl (\<lambda>m (f, t). map_set f t m) m rows) k =
    (case map_of (rev rows) k of None \<Rightarrow> map_get m k | Some t \<Rightarrow> Some t)"
  by (induction rows arbitrary: m) (auto simp: map_of_append map_add_def split: option.split)

lemma foldl_map_set_empty: "map_get (foldl (\<lambda>m (f, t). map_set f t m) [] rows) k = map_of (rev rows) k"
  by (simp add: foldl_map_set split: option.split)

text \<open>Both tables answer with their rows, and the files are those of the journal and of the directory.\<close>

definition status_world :: "'s status_pool \<Rightarrow> nat list \<Rightarrow> (jsstr \<times> jsstr) list \<Rightarrow> bool" where
  "status_world pool ts rows \<longleftrightarrow>
     sp_drizzle_table pool = io_return (Some True) \<and> sp_drizzle_rows pool = io_return (map dec ts) \<and>
     sp_sql_table pool = io_return (Some True) \<and> sp_sql_rows pool = io_return rows"

text \<open>C0: When the journal, the tables and the directory can be read, the report lists the drizzle migrations of the journal and then the sorted SQL files, each with the time its table holds for it or as pending, and the command exits with 0 exactly when none is pending.\<close>

theorem status_report_is_exact:
  assumes "status_world pool ts rows" and "list_all (\<lambda>t. t \<le> 8640000000000000) ts"
    and "load_drizzle_journal errors path journal = Inr (map journal_entry entries)"
    and "list_all (\<lambda>(_, time). time < 2 ^ 53) entries"
    and "list_migration_files dir = Inr files" and "PENDING \<notin> snd ` set rows"
  shows "get_migration_status errors pool path journal dir s =
      (Inr (map (drizzle_status ts) entries @ map (sql_status rows) files), s) \<and>
    migrate_status_main errors pool path journal dir (io_return ()) s =
      (Inr (if snd ` set entries \<subseteq> set ts \<and> set files \<subseteq> fst ` set rows then 0 else 1), s)"
proof -
  have d: "drizzle_flavor_rows errors pool path journal s = (Inr (map (drizzle_status ts) entries), s)"
    using assms(1-4)
    by (simp add: drizzle_flavor_rows_def status_world_def collect_applied_at_decimal drizzle_rows_entries)
  have q: "sql_flavor_rows pool dir s = (Inr (map (sql_status rows) files), s)"
    using assms(1,5) by (simp add: sql_flavor_rows_def status_world_def foldl_map_set_empty sql_status_def)
  have g: "get_migration_status errors pool path journal dir s =
      (Inr (map (drizzle_status ts) entries @ map (sql_status rows) files), s)"
    using d q by (simp add: get_migration_status_def)
  have a: "list_ex (\<lambda>row. ms_applied_at row = PENDING) (map (drizzle_status ts) entries) \<longleftrightarrow> \<not> snd ` set entries \<subseteq> set ts"
  proof -
    have "ms_applied_at (drizzle_status ts e) = PENDING \<longleftrightarrow> snd e \<notin> set ts" for e by (cases e) (simp add: drizzle_status_def)
    then show ?thesis by (auto simp: list_ex_iff)
  qed
  have "ms_applied_at (sql_status rows f) = PENDING \<longleftrightarrow> f \<notin> fst ` set rows" for f
  proof (cases "map_of (rev rows) f")
    case None
    moreover from None have "f \<notin> fst ` set rows" by (simp add: map_of_eq_None_iff)
    ultimately show ?thesis by (simp add: sql_status_def)
  next
    case (Some t)
    then have "(f, t) \<in> set rows" using map_of_SomeD by fastforce
    then show ?thesis using Some assms(6) by (force simp: sql_status_def)
  qed
  then have b: "list_ex (\<lambda>row. ms_applied_at row = PENDING) (map (sql_status rows) files) \<longleftrightarrow> \<not> set files \<subseteq> fst ` set rows"
    by (auto simp: list_ex_iff)
  have "has_pending_migrations (map (drizzle_status ts) entries @ map (sql_status rows) files) \<longleftrightarrow>
      \<not> (snd ` set entries \<subseteq> set ts \<and> set files \<subseteq> fst ` set rows)"
    unfolding has_pending_migrations_def list_ex_append a b by blast
  then show ?thesis using g by (simp add: migrate_status_main_def run_and_close_def io_settle_app)
qed

lemma includes_middle: "str_includes (s @ p @ t) p"
proof (induction s)
  case Nil
  have "starts_with (p @ t) p" by simp
  then show ?case by (cases "p @ t") (simp_all del: starts_with_append)
qed simp

lemma journal_error_names_path: "load_drizzle_journal errors path journal = Inl e \<Longrightarrow> str_includes (error_message e) path"
  by (auto simp: load_drizzle_journal_def includes_middle split: sum.splits option.splits json.splits)

definition example_status_pool :: "unit status_pool" where
  "example_status_pool =
     \<lparr> sp_drizzle_table = io_return (Some True), sp_drizzle_rows = io_return (map dec [1700000000000]),
       sp_sql_table = io_return (Some True), sp_sql_rows = io_return [(js ''001_roles.sql'', js ''2026-01-01'')] \<rparr>"

definition example_js_errors :: js_errors where
  "example_js_errors = \<lparr> je_syntax_error = new_error, je_type_error = new_error [], je_range_error = new_error [] \<rparr>"

definition example_migrations :: migrations_dir where
  "example_migrations = \<lparr> md_list = Inr [js ''001_roles.sql''], md_read = Inr, md_exists = (\<lambda>_. True) \<rparr>"

definition example_journal :: json where
  "example_journal = JObj [(js ''entries'', JArr [journal_entry (js ''0000_init'', 1700000000000)])]"

theorem status_report_is_exact_witness:
  "get_migration_status example_js_errors example_status_pool [] (Inr (stringify example_journal))
      example_migrations () =
      (Inr (map (drizzle_status [1700000000000]) [(js ''0000_init'', 1700000000000)] @
        map (sql_status [(js ''001_roles.sql'', js ''2026-01-01'')]) [js ''001_roles.sql'']), ()) \<and>
    migrate_status_main example_js_errors example_status_pool []
      (Inr (stringify example_journal)) example_migrations (io_return ()) () =
      (Inr (if snd ` set [(js ''0000_init'', 1700000000000::nat)] \<subseteq> set [1700000000000] \<and>
          set [js ''001_roles.sql''] \<subseteq> fst ` set [(js ''001_roles.sql'', js ''2026-01-01'')] then 0 else 1), ())"
proof (rule status_report_is_exact)
  show "status_world example_status_pool [1700000000000] [(js ''001_roles.sql'', js ''2026-01-01'')]"
    by (simp add: status_world_def example_status_pool_def)
  show "list_migration_files example_migrations = Inr [js ''001_roles.sql'']"
    by (simp add: list_migration_files_def example_migrations_def ends_with_def js_def)
  show "load_drizzle_journal example_js_errors [] (Inr (stringify example_journal)) =
      Inr (map journal_entry [(js ''0000_init'', 1700000000000)])"
  proof -
    have "json_parse (stringify example_journal) = Some example_journal"
      by (rule json_parse_stringify) (simp add: example_journal_def journal_entry_def js_def)
    then show ?thesis by (simp add: load_drizzle_journal_def example_journal_def)
  qed
qed (simp_all add: PENDING_def)

text \<open>C0: A journal that cannot be read, is no JSON or has no list of entries, and a tracked time that is no number, stop the report with an error that names the file or the value; the pool is closed all the same.\<close>

theorem unreadable_status_is_reported:
  "(case load_drizzle_journal errors path journal of
      Inr _ \<Rightarrow> True
    | Inl e \<Rightarrow> str_includes (error_message e) path \<and>
        migrate_status_main errors pool path journal dir close_db s =
          (case fst (close_db s) of
             Inr _ \<Rightarrow> (Inl e, snd (close_db s))
           | Inl ce \<Rightarrow> (Inl (new_error (js ''migrate:status'' @ js '': failed with \"'' @ error_message e @ js ''\", then closing '' @ js ''the db pool'' @
               js '' also failed with \"'' @ error_message ce @ js ''\".'')), snd (close_db s)))) \<and>
   (case to_number raw of
      Finite ms \<Rightarrow> parse_created_at_ms raw = Inr ms
    | _ \<Rightarrow> (case parse_created_at_ms raw of Inl e \<Rightarrow> str_includes (error_message e) raw | Inr _ \<Rightarrow> False))"
proof -
  have m: "migrate_status_main errors pool path journal dir close_db s =
      run_and_close (js ''migrate:status'') (js ''the db pool'') (io_throw e) close_db s"
    if "load_drizzle_journal errors path journal = Inl e" for e
    using that
    by (simp add: migrate_status_main_def get_migration_status_def drizzle_flavor_rows_def run_and_close_def io_settle_app io_bind_app)
  have "str_includes (error_message e) path \<and> migrate_status_main errors pool path journal dir close_db s =
      (case fst (close_db s) of
         Inr _ \<Rightarrow> (Inl e, snd (close_db s))
       | Inl ce \<Rightarrow> (Inl (new_error (js ''migrate:status'' @ js '': failed with \"'' @ error_message e @ js ''\", then closing '' @ js ''the db pool'' @
           js '' also failed with \"'' @ error_message ce @ js ''\".'')), snd (close_db s)))"
    if "load_drizzle_journal errors path journal = Inl e" for e
    using journal_error_names_path [OF that] m [OF that]
    by (simp add: run_and_close_def io_settle_app split: sum.split)
  moreover have "case to_number raw of
      Finite ms \<Rightarrow> parse_created_at_ms raw = Inr ms
    | _ \<Rightarrow> (case parse_created_at_ms raw of Inl e \<Rightarrow> str_includes (error_message e) raw | Inr _ \<Rightarrow> False)"
    by (cases "to_number raw") (simp_all add: parse_created_at_ms_def includes_middle)
  ultimately show ?thesis by (simp split: sum.split)
qed

end
