(* ===== verification/Api_Resolve.thy ===== *)
theory Api_Resolve
  imports Core_Redis Core_Db Contracts_Redact Contracts_Links
begin

text \<open>
  Resolving a handle to a tenant and a slug to a link, with their caches:
  \<open>packages/contracts/src/cache.ts\<close> and, in \<open>apps/api/src/redirect\<close>, \<open>resolve-redis.ts\<close>,
  \<open>resolve-tenant.ts\<close> and \<open>resolve-link.ts\<close>.

  Redis, Postgres, the clock, the logger and the two parsers of third parties (\<open>new URL\<close>, the
  URL check of zod) are parameters. A Redis GET races against a timer (\<open>withRedisTimeout\<close>):
  \<open>slow\<close> says that the timer fires first. The cache writes after a Postgres lookup are started
  and not awaited: \<open>spawn\<close> runs them and drops their outcome, which their own handlers make a
  fulfilment anyway.
\<close>

section \<open>Cached links\<close>

definition cached_link_schema :: "(jsstr \<Rightarrow> (jsstr \<times> jsstr) option) \<Rightarrow> json \<Rightarrow> cached_link option" where
  "cached_link_schema z_url v =
     (case v of
        JObj ms \<Rightarrow>
          if set (map fst ms) \<subseteq> {js ''link_id'', js ''tenant_id'', js ''destination''} then
            (case (z_string (\<lambda>s. s \<noteq> []) (map_of ms (js ''link_id'')),
                   z_string (\<lambda>s. s \<noteq> []) (map_of ms (js ''tenant_id'')),
                   z_string (\<lambda>_. True) (map_of ms (js ''destination''))) of
               (Some l, Some t, Some s) \<Rightarrow>
                 map_option (\<lambda>d. \<lparr> cl_link_id = l, cl_tenant_id = t, cl_destination = d \<rparr>) (z_destination z_url s)
             | _ \<Rightarrow> None)
          else None
      | _ \<Rightarrow> None)"

definition parse_cached_link :: "(jsstr \<Rightarrow> (jsstr \<times> jsstr) option) \<Rightarrow> jsstr option \<Rightarrow> cached_link option" where
  "parse_cached_link z_url raw =
     (case raw of
        None \<Rightarrow> None
      | Some text \<Rightarrow>
          (case json_parse text of
             None \<Rightarrow> None
           | Some candidate \<Rightarrow> cached_link_schema z_url candidate))"

definition cached_link_json :: "cached_link \<Rightarrow> json" where
  "cached_link_json l =
     JObj [(js ''link_id'', JStr (cl_link_id l)), (js ''tenant_id'', JStr (cl_tenant_id l)),
       (js ''destination'', JStr (cl_destination l))]"

section \<open>Redis on the redirect path\<close>

definition describe_error :: "(jsstr \<Rightarrow> url_parts option) \<Rightarrow> thrown \<Rightarrow> jsstr" where
  "describe_error parse_url error = redact_credentials_from_message parse_url (error_message error)"

text \<open>
  \<open>slow timeout s\<close>: the timer fires before the operation settles. A late rejection is swallowed, so
  only the effects of the operation remain.
\<close>

definition with_redis_timeout :: "(nat \<Rightarrow> 's \<Rightarrow> bool) \<Rightarrow> ('s, 'a) io \<Rightarrow> nat \<Rightarrow> 's \<Rightarrow> 'a raced \<times> 's" where
  "with_redis_timeout slow operation timeout_ms s =
     (let (r, s') = operation s in (if slow timeout_ms s then Timed_out else Settled r, s'))"

definition spawn :: "('s, unit) io \<Rightarrow> 's \<Rightarrow> 's" where
  "spawn m s = snd (m s)"

record 's resolve_deps =
  rs_get :: "jsstr \<Rightarrow> ('s, jsstr option) io"
  rs_setex :: "jsstr \<Rightarrow> nat \<Rightarrow> jsstr \<Rightarrow> ('s, unit) io"
  rs_slow :: "nat \<Rightarrow> 's \<Rightarrow> bool"
  rs_timeout_ms :: nat
  rs_pages :: "('s, bio_page_row list) io"
  rs_links :: "('s, link_row list) io"
  rs_warn :: "jsstr \<Rightarrow> log_meta \<Rightarrow> 's \<Rightarrow> 's"
  rs_now :: "'s \<Rightarrow> int"
  rs_parse_url :: "jsstr \<Rightarrow> url_parts option"
  rs_z_url :: "jsstr \<Rightarrow> (jsstr \<times> jsstr) option"
  rs_zod_error :: "cached_link \<Rightarrow> thrown"

definition error_meta :: "'s resolve_deps \<Rightarrow> thrown \<Rightarrow> log_meta" where
  "error_meta deps error = [(js ''error'', JStr (describe_error (rs_parse_url deps) error))]"

section \<open>Handles\<close>

definition MEMO_TTL_MS :: int where "MEMO_TTL_MS = 60000"
definition MEMO_MAX_ENTRIES :: nat where "MEMO_MAX_ENTRIES = 10000"
definition HANDLE_CACHE_TTL_SECONDS :: nat where "HANDLE_CACHE_TTL_SECONDS = 3600"
definition NEGATIVE_CACHE_TTL_SECONDS :: nat where "NEGATIVE_CACHE_TTL_SECONDS = 60"
definition ABSENT_TENANT_TOMBSTONE :: jsstr where "ABSENT_TENANT_TOMBSTONE = [0]"

record memo_entry =
  me_tenant_id :: "jsstr option"
  me_expires_at :: int

type_synonym tenant_memo = "(jsstr, memo_entry) js_map"

definition is_expired :: "int \<Rightarrow> memo_entry \<Rightarrow> bool" where
  "is_expired now entry \<longleftrightarrow> me_expires_at entry \<le> now"

definition remember_in_memo :: "nat \<Rightarrow> int \<Rightarrow> jsstr \<Rightarrow> jsstr option \<Rightarrow> tenant_memo \<Rightarrow> tenant_memo" where
  "remember_in_memo max_entries now handle tenant_id memo =
     evict_and_set max_entries handle \<lparr> me_tenant_id = tenant_id, me_expires_at = now + MEMO_TTL_MS \<rparr> memo"

definition backfill_handle_cache :: "'s resolve_deps \<Rightarrow> jsstr \<Rightarrow> jsstr \<Rightarrow> jsstr option \<Rightarrow> ('s, unit) io" where
  "backfill_handle_cache deps key handle tenant_id =
     (let (ttl_seconds, value) =
            (case tenant_id of
               Some t \<Rightarrow> (HANDLE_CACHE_TTL_SECONDS, t)
             | None \<Rightarrow> (NEGATIVE_CACHE_TTL_SECONDS, ABSENT_TENANT_TOMBSTONE))
      in io_catch (rs_setex deps key ttl_seconds value)
           (\<lambda>error. io_do (rs_warn deps (js ''Redis SETEX failed while backfilling a resolved handle.'')
             ((js ''handle'', JStr handle) # error_meta deps error))))"

text \<open>The memo is the \<open>Map\<close> the closure of \<open>createResolveTenant\<close> holds, here the lens \<open>memo\<close>.\<close>

record 's memo_lens =
  ml_get :: "'s \<Rightarrow> tenant_memo"
  ml_set :: "tenant_memo \<Rightarrow> 's \<Rightarrow> 's"

definition remember :: "'s resolve_deps \<Rightarrow> 's memo_lens \<Rightarrow> jsstr \<Rightarrow> jsstr option \<Rightarrow> 's \<Rightarrow> 's" where
  "remember deps memo handle tenant_id s =
     ml_set memo (remember_in_memo MEMO_MAX_ENTRIES (rs_now deps s) handle tenant_id (ml_get memo s)) s"

definition cached_handle :: "'s resolve_deps \<Rightarrow> jsstr \<Rightarrow> 's \<Rightarrow> jsstr option \<times> 's" where
  "cached_handle deps handle s =
     (case with_redis_timeout (rs_slow deps) (rs_get deps (handle_key handle)) (rs_timeout_ms deps) s of
        (Timed_out, s') \<Rightarrow>
          (None, rs_warn deps (js ''Redis GET timed out while resolving a handle; falling through to Postgres.'')
             [(js ''handle'', JStr handle), (js ''timeoutMs'', json_nat (rs_timeout_ms deps))] s')
      | (Settled (Inr cached), s') \<Rightarrow> (cached, s')
      | (Settled (Inl error), s') \<Rightarrow>
          (None, rs_warn deps (js ''Redis GET failed while resolving a handle; falling through to Postgres.'')
             ((js ''handle'', JStr handle) # error_meta deps error) s'))"

definition resolve_tenant_from_db :: "'s resolve_deps \<Rightarrow> jsstr \<Rightarrow> ('s, jsstr option) io" where
  "resolve_tenant_from_db deps handle =
     io_bind (rs_pages deps) (\<lambda>rows. io_return (resolve_tenant_by_handle rows handle))"

definition resolve_unmemoized :: "'s resolve_deps \<Rightarrow> 's memo_lens \<Rightarrow> jsstr \<Rightarrow> ('s, jsstr option) io" where
  "resolve_unmemoized deps memo handle s =
     (let (cached, s1) = cached_handle deps handle s in
      if cached = Some ABSENT_TENANT_TOMBSTONE then (Inr None, remember deps memo handle None s1)
      else if cached \<noteq> None then (Inr cached, remember deps memo handle cached s1)
      else io_bind (resolve_tenant_from_db deps handle)
             (\<lambda>tenant_id s2.
                (Inr tenant_id,
                 remember deps memo handle tenant_id
                   (spawn (backfill_handle_cache deps (handle_key handle) handle tenant_id) s2))) s1)"

definition resolve_tenant :: "'s resolve_deps \<Rightarrow> 's memo_lens \<Rightarrow> jsstr \<Rightarrow> ('s, jsstr option) io" where
  "resolve_tenant deps memo handle s =
     (case map_get (ml_get memo s) handle of
        Some entry \<Rightarrow>
          if \<not> is_expired (rs_now deps s) entry then (Inr (me_tenant_id entry), s)
          else resolve_unmemoized deps memo handle s
      | None \<Rightarrow> resolve_unmemoized deps memo handle s)"

section \<open>Slugs\<close>

datatype link_lookup_result = Hit cached_link | Miss | Known_absent

definition LINK_TOMBSTONE_TTL_SECONDS :: nat where "LINK_TOMBSTONE_TTL_SECONDS = 60"
definition LINK_TOMBSTONE :: jsstr where "LINK_TOMBSTONE = [0]"

definition link_meta :: "jsstr \<Rightarrow> jsstr \<Rightarrow> log_meta" where
  "link_meta tenant slug = [(js ''tenant'', JStr tenant), (js ''slug'', JStr slug)]"

definition lookup_cached_link :: "'s resolve_deps \<Rightarrow> jsstr \<Rightarrow> jsstr \<Rightarrow> 's \<Rightarrow> link_lookup_result \<times> 's" where
  "lookup_cached_link deps tenant slug s =
     (case with_redis_timeout (rs_slow deps) (rs_get deps (link_key tenant slug)) (rs_timeout_ms deps) s of
        (Timed_out, s') \<Rightarrow>
          (Miss, rs_warn deps (js ''Redis GET timed out while looking up a cached link; treating as a miss.'')
             (link_meta tenant slug @ [(js ''timeoutMs'', json_nat (rs_timeout_ms deps))]) s')
      | (Settled (Inl error), s') \<Rightarrow>
          (Miss, rs_warn deps (js ''Redis GET failed while looking up a cached link; treating as a miss.'')
             (link_meta tenant slug @ error_meta deps error) s')
      | (Settled (Inr raw), s') \<Rightarrow>
          if raw = Some LINK_TOMBSTONE then (Known_absent, s')
          else
            (case parse_cached_link (rs_z_url deps) raw of
               Some link \<Rightarrow> (Hit link, s')
             | None \<Rightarrow>
                 (Miss,
                  if raw \<noteq> None then
                    rs_warn deps (js ''Cached link payload failed to parse; treating as a miss.'')
                      (link_meta tenant slug) s'
                  else s')))"

definition resolve_link_from_db :: "'s resolve_deps \<Rightarrow> jsstr \<Rightarrow> jsstr \<Rightarrow> ('s, cached_link option) io" where
  "resolve_link_from_db deps tenant slug =
     io_bind (rs_links deps) (\<lambda>rows. io_return (resolve_link_by_slug rows tenant slug))"

definition backfill_link_cache ::
  "'s resolve_deps \<Rightarrow> nat \<Rightarrow> jsstr \<Rightarrow> jsstr \<Rightarrow> cached_link \<Rightarrow> ('s, unit) io" where
  "backfill_link_cache deps cache_ttl_seconds tenant slug link =
     (case cached_link_schema (rs_z_url deps) (cached_link_json link) of
        None \<Rightarrow>
          io_do (rs_warn deps (js ''Resolved link failed CachedLinkSchema validation; skipping the cache backfill.'')
            (link_meta tenant slug @ error_meta deps (rs_zod_error deps link)))
      | Some parsed \<Rightarrow>
          io_catch (rs_setex deps (link_key tenant slug) cache_ttl_seconds (stringify (cached_link_json parsed)))
            (\<lambda>error. io_do (rs_warn deps
               (js ''Redis SETEX failed while backfilling the link cache; the next request will re-query Postgres.'')
               (link_meta tenant slug @ error_meta deps error))))"

definition write_link_tombstone :: "'s resolve_deps \<Rightarrow> jsstr \<Rightarrow> jsstr \<Rightarrow> ('s, unit) io" where
  "write_link_tombstone deps tenant slug =
     io_catch (rs_setex deps (link_key tenant slug) LINK_TOMBSTONE_TTL_SECONDS LINK_TOMBSTONE)
       (\<lambda>error. io_do (rs_warn deps
          (js ''Redis SETEX failed while writing the negative-cache tombstone; the next probe of this slug will re-query Postgres.'')
          (link_meta tenant slug @ error_meta deps error)))"

definition resolve_link ::
  "'s resolve_deps \<Rightarrow> nat \<Rightarrow> jsstr \<Rightarrow> jsstr \<Rightarrow> ('s, cached_link option) io" where
  "resolve_link deps cache_ttl_seconds tenant slug s =
     (case lookup_cached_link deps tenant slug s of
        (Hit link, s1) \<Rightarrow> (Inr (Some link), s1)
      | (Known_absent, s1) \<Rightarrow> (Inr None, s1)
      | (Miss, s1) \<Rightarrow>
          io_bind (resolve_link_from_db deps tenant slug)
            (\<lambda>link s2.
               case link of
                 None \<Rightarrow> (Inr None, spawn (write_link_tombstone deps tenant slug) s2)
               | Some l \<Rightarrow> (Inr (Some l), spawn (backfill_link_cache deps cache_ttl_seconds tenant slug l) s2)) s1)"

end
