(* ===== verification/Api_Caches.thy ===== *)
theory Api_Caches
  imports Api_Resolve
begin

text \<open>
  How old the answers of the caches can be. Several API processes, each with its memo, share
  one Redis in front of one Postgres whose tables change over time. Redis may answer, answer too
  late or refuse, call by call, and Postgres may refuse; a script decides. Every answer is
  the one Postgres had within the lifetimes that the code gives to its cache entries. A command takes
  no time in the model: the clock moves between operations.
\<close>

section \<open>The world\<close>

datatype redis_mode = Answers | Too_late | Refuses thrown

record cache_world =
  cw_now :: int
  cw_pages :: "int \<Rightarrow> bio_page_row list"
  cw_links :: "int \<Rightarrow> link_row list"
  cw_redis :: "jsstr \<Rightarrow> (jsstr \<times> int) option"
  cw_memos :: "nat \<Rightarrow> tenant_memo"
  cw_calls :: nat
  cw_mode :: "nat \<Rightarrow> redis_mode"
  cw_postgres :: "nat \<Rightarrow> thrown option"

definition live :: "cache_world \<Rightarrow> jsstr \<Rightarrow> jsstr option" where
  "live w key =
     (case cw_redis w key of
        Some (value, expires) \<Rightarrow> if cw_now w < expires then Some value else None
      | None \<Rightarrow> None)"

definition called :: "cache_world \<Rightarrow> cache_world" where
  "called w = w\<lparr>cw_calls := Suc (cw_calls w)\<rparr>"

definition redis_call :: "(cache_world \<Rightarrow> 'a \<times> cache_world) \<Rightarrow> (cache_world, 'a) io" where
  "redis_call f w =
     (case cw_mode w (cw_calls w) of
        Refuses e \<Rightarrow> (Inl e, called w)
      | _ \<Rightarrow> (let (a, w') = f w in (Inr a, called w')))"

definition postgres_read :: "(cache_world \<Rightarrow> 'a) \<Rightarrow> (cache_world, 'a) io" where
  "postgres_read f w =
     (case cw_postgres w (cw_calls w) of
        Some e \<Rightarrow> (Inl e, called w)
      | None \<Rightarrow> (Inr (f w), called w))"

definition stored :: "jsstr \<Rightarrow> nat \<Rightarrow> jsstr \<Rightarrow> cache_world \<Rightarrow> cache_world" where
  "stored key ttl value w =
     w\<lparr>cw_redis := (cw_redis w)(key \<mapsto> (value, cw_now w + 1000 * int ttl))\<rparr>"

text \<open>The parsers of third parties and what a schema error says stay parameters.\<close>

record parsers =
  pa_url :: "jsstr \<Rightarrow> url_parts option"
  pa_z_url :: "jsstr \<Rightarrow> (jsstr \<times> jsstr) option"
  pa_zod_error :: "cached_link \<Rightarrow> thrown"

definition cache_deps :: "parsers \<Rightarrow> nat \<Rightarrow> cache_world resolve_deps" where
  "cache_deps p timeout =
     \<lparr> rs_get = (\<lambda>key. redis_call (\<lambda>w. (live w key, w))),
       rs_setex = (\<lambda>key ttl value. redis_call (\<lambda>w. ((), stored key ttl value w))),
       rs_slow = (\<lambda>_ w. cw_mode w (cw_calls w) = Too_late),
       rs_timeout_ms = timeout,
       rs_pages = postgres_read (\<lambda>w. cw_pages w (cw_now w)),
       rs_links = postgres_read (\<lambda>w. cw_links w (cw_now w)),
       rs_warn = (\<lambda>_ _ w. w), rs_now = cw_now,
       rs_parse_url = pa_url p, rs_z_url = pa_z_url p, rs_zod_error = pa_zod_error p \<rparr>"

definition memo_of :: "nat \<Rightarrow> cache_world memo_lens" where
  "memo_of i = \<lparr> ml_get = (\<lambda>w. cw_memos w i), ml_set = (\<lambda>m w. w\<lparr>cw_memos := (cw_memos w)(i := m)\<rparr>) \<rparr>"

definition redis_del :: "jsstr \<Rightarrow> (cache_world, nat) io" where
  "redis_del key =
     redis_call (\<lambda>w. (if cw_redis w key = None then 0 else 1, w\<lparr>cw_redis := (cw_redis w)(key := None)\<rparr>))"

text \<open>
  The operations of the deployment, in any order: processes resolve handles and slugs (slugs that
  passed the parser of the request, so without a colon), entries are invalidated, processes restart and time passes.
\<close>

inductive cache_step :: "parsers \<Rightarrow> nat \<Rightarrow> nat \<Rightarrow> cache_world \<Rightarrow> cache_world \<Rightarrow> bool"
  for p timeout ttl where
  wait: "0 \<le> d \<Longrightarrow> cache_step p timeout ttl w (w\<lparr>cw_now := cw_now w + d\<rparr>)"
| restart: "cache_step p timeout ttl w (w\<lparr>cw_memos := (cw_memos w)(i := [])\<rparr>)"
| tenant: "cache_step p timeout ttl w (snd (resolve_tenant (cache_deps p timeout) (memo_of i) handle w))"
| link: "58 \<notin> set slug \<Longrightarrow>
    cache_step p timeout ttl w (snd (resolve_link (cache_deps p timeout) ttl tenant_id slug w))"
| drop_handle: "cache_step p timeout ttl w (snd (invalidate_handle redis_del handle w))"
| drop_link: "cache_step p timeout ttl w (snd (invalidate_link redis_del tenant_id slug w))"

inductive_cases cache_stepE: "cache_step p timeout ttl w w'"

definition cold :: "cache_world \<Rightarrow> bool" where
  "cold w \<longleftrightarrow> cw_redis w = (\<lambda>_. None) \<and> (\<forall>i. cw_memos w i = [])"

section \<open>What the entries of the caches are worth\<close>

definition handle_truth :: "cache_world \<Rightarrow> int \<Rightarrow> jsstr \<Rightarrow> jsstr option" where
  "handle_truth w t handle = resolve_tenant_by_handle (cw_pages w t) handle"

definition link_truth :: "cache_world \<Rightarrow> int \<Rightarrow> jsstr \<Rightarrow> jsstr \<Rightarrow> cached_link option" where
  "link_truth w t tenant_id slug = resolve_link_by_slug (cw_links w t) tenant_id slug"

definition handle_ttl :: "jsstr option \<Rightarrow> int" where
  "handle_ttl a = (if a = None then 60000 else 3600000)"

definition handle_value :: "jsstr option \<Rightarrow> jsstr" where
  "handle_value a = (case a of None \<Rightarrow> ABSENT_TENANT_TOMBSTONE | Some t \<Rightarrow> t)"

definition memo_fresh :: "cache_world \<Rightarrow> bool" where
  "memo_fresh w \<longleftrightarrow> (\<forall>i. wf_map (cw_memos w i) \<and> length (cw_memos w i) \<le> MEMO_MAX_ENTRIES \<and>
     (\<forall>h e. map_get (cw_memos w i) h = Some e \<longrightarrow>
        (\<exists>t \<le> cw_now w. me_tenant_id e = handle_truth w t h \<and>
           me_expires_at e \<le> t + handle_ttl (me_tenant_id e) + MEMO_TTL_MS)))"

definition handles_fresh :: "cache_world \<Rightarrow> bool" where
  "handles_fresh w \<longleftrightarrow> (\<forall>h value expires. cw_redis w (handle_key h) = Some (value, expires) \<longrightarrow>
     (\<exists>t \<le> cw_now w. value = handle_value (handle_truth w t h) \<and>
        expires \<le> t + handle_ttl (handle_truth w t h)))"

text \<open>What a link entry holds: the tombstone, or the link in the form the schema gives it.\<close>

definition link_value :: "parsers \<Rightarrow> cached_link option \<Rightarrow> jsstr \<Rightarrow> bool" where
  "link_value p a value \<longleftrightarrow>
     (case a of
        None \<Rightarrow> value = LINK_TOMBSTONE
      | Some l \<Rightarrow> (\<exists>l'. cached_link_schema (pa_z_url p) (cached_link_json l) = Some l' \<and>
                     value = stringify (cached_link_json l')))"

definition link_ttl :: "nat \<Rightarrow> cached_link option \<Rightarrow> int" where
  "link_ttl ttl a = (if a = None then 60000 else 1000 * int ttl)"

definition links_fresh :: "parsers \<Rightarrow> nat \<Rightarrow> cache_world \<Rightarrow> bool" where
  "links_fresh p ttl w \<longleftrightarrow> (\<forall>u s value expires. 58 \<notin> set s \<longrightarrow>
     cw_redis w (link_key u s) = Some (value, expires) \<longrightarrow>
     (\<exists>t \<le> cw_now w. link_value p (link_truth w t u s) value \<and> expires \<le> t + link_ttl ttl (link_truth w t u s)))"

definition no_nul_tenant :: "cache_world \<Rightarrow> bool" where
  "no_nul_tenant w \<longleftrightarrow> (\<forall>t. \<forall>r \<in> set (cw_pages w t). bp_tenant_id r \<noteq> [0])"

definition fresh :: "parsers \<Rightarrow> nat \<Rightarrow> cache_world \<Rightarrow> bool" where
  "fresh p ttl w \<longleftrightarrow> memo_fresh w \<and> handles_fresh w \<and> links_fresh p ttl w \<and> no_nul_tenant w"

section \<open>Keys\<close>

lemma handle_key_inject [simp]: "handle_key h = handle_key h' \<longleftrightarrow> h = h'"
  by (simp add: handle_key_def)

lemma handle_key_not_link [simp]: "handle_key h \<noteq> link_key u s"
  by (simp add: handle_key_def link_key_def js_def)

lemma append_sep_inject: "c \<notin> set s \<Longrightarrow> c \<notin> set s' \<Longrightarrow> u @ c # s = u' @ c # s' \<longleftrightarrow> u = u' \<and> s = s'"
  by (auto simp: append_eq_append_conv2 Cons_eq_append_conv append_eq_Cons_conv)

lemma link_key_inject: "58 \<notin> set s \<Longrightarrow> 58 \<notin> set s' \<Longrightarrow> link_key u s = link_key u' s' \<longleftrightarrow> u = u' \<and> s = s'"
  by (simp add: link_key_def js_def append_sep_inject)

section \<open>The operations in this world\<close>

lemma called_simps [simp]:
  "cw_now (called w) = cw_now w" "cw_redis (called w) = cw_redis w" "cw_memos (called w) = cw_memos w"
  "cw_pages (called w) = cw_pages w" "cw_links (called w) = cw_links w"
  "handle_truth (called w) = handle_truth w" "link_truth (called w) = link_truth w"
  "live (called w) = live w" "cw_calls (called w) = Suc (cw_calls w)" "cw_postgres (called w) = cw_postgres w"
  "cw_mode (called w) = cw_mode w"
  by (simp_all add: called_def handle_truth_def link_truth_def live_def fun_eq_iff split: option.split)

lemma stored_simps [simp]:
  "cw_now (stored k n v w) = cw_now w" "cw_memos (stored k n v w) = cw_memos w"
  "cw_redis (stored k n v w) = (cw_redis w)(k \<mapsto> (v, cw_now w + 1000 * int n))"
  "cw_pages (stored k n v w) = cw_pages w" "cw_links (stored k n v w) = cw_links w"
  "cw_mode (stored k n v w) = cw_mode w" "cw_calls (stored k n v w) = cw_calls w"
  "cw_postgres (stored k n v w) = cw_postgres w"
  "handle_truth (stored k n v w) = handle_truth w" "link_truth (stored k n v w) = link_truth w"
  by (simp_all add: stored_def handle_truth_def link_truth_def fun_eq_iff)

lemma deps_simps [simp]:
  "rs_now (cache_deps p timeout) w = cw_now w" "ml_get (memo_of i) w = cw_memos w i"
  "ml_set (memo_of i) m w = w\<lparr>cw_memos := (cw_memos w)(i := m)\<rparr>"
  by (simp_all add: cache_deps_def memo_of_def)

definition redis_answer :: "cache_world \<Rightarrow> jsstr \<Rightarrow> jsstr option" where
  "redis_answer w key = (case cw_mode w (cw_calls w) of Answers \<Rightarrow> live w key | _ \<Rightarrow> None)"

lemma cached_handle_world:
  "cached_handle (cache_deps p timeout) h w = (redis_answer w (handle_key h), called w)"
  by (simp add: cached_handle_def with_redis_timeout_def cache_deps_def redis_call_def redis_answer_def
      split: redis_mode.split)

lemma lookup_link_world:
  "lookup_cached_link (cache_deps p timeout) u s w =
     ((let raw = redis_answer w (link_key u s) in
       if raw = Some LINK_TOMBSTONE then Known_absent
       else case parse_cached_link (pa_z_url p) raw of Some l \<Rightarrow> Hit l | None \<Rightarrow> Miss), called w)"
  by (simp add: lookup_cached_link_def with_redis_timeout_def cache_deps_def redis_call_def redis_answer_def
      Let_def parse_cached_link_def split: redis_mode.split option.split)

text \<open>A write that is started: either it is refused, or the entry is stored.\<close>

lemma spawn_backfill_handle:
  "spawn (backfill_handle_cache (cache_deps p timeout) k h a) w =
     (case cw_mode w (cw_calls w) of
        Refuses e \<Rightarrow> called w
      | _ \<Rightarrow> called (stored k (if a = None then 60 else 3600) (handle_value a) w))"
  by (cases a)
    (simp_all add: spawn_def backfill_handle_cache_def cache_deps_def redis_call_def io_apps handle_value_def
      HANDLE_CACHE_TTL_SECONDS_def NEGATIVE_CACHE_TTL_SECONDS_def split: redis_mode.split)

lemma spawn_tombstone:
  "spawn (write_link_tombstone (cache_deps p timeout) u s) w =
     (case cw_mode w (cw_calls w) of
        Refuses e \<Rightarrow> called w | _ \<Rightarrow> called (stored (link_key u s) 60 LINK_TOMBSTONE w))"
  by (simp add: spawn_def write_link_tombstone_def cache_deps_def redis_call_def io_apps
      LINK_TOMBSTONE_TTL_SECONDS_def split: redis_mode.split)

lemma spawn_backfill_link:
  "spawn (backfill_link_cache (cache_deps p timeout) ttl u s l) w =
     (case cached_link_schema (pa_z_url p) (cached_link_json l) of
        None \<Rightarrow> w
      | Some l' \<Rightarrow>
          (case cw_mode w (cw_calls w) of
             Refuses e \<Rightarrow> called w
           | _ \<Rightarrow> called (stored (link_key u s) ttl (stringify (cached_link_json l')) w)))"
  by (simp add: spawn_def backfill_link_cache_def cache_deps_def redis_call_def io_apps
      split: redis_mode.split option.split)

section \<open>The invariant is kept\<close>

lemma fresh_called [simp]: "fresh p ttl (called w) = fresh p ttl w"
  by (simp add: fresh_def memo_fresh_def handles_fresh_def links_fresh_def no_nul_tenant_def)

lemma fresh_remember:
  assumes "fresh p ttl w" and "t \<le> cw_now w" and "a = handle_truth w t h" and "cw_now w \<le> t + handle_ttl a"
  shows "fresh p ttl (remember (cache_deps q timeout) (memo_of i) h a w)"
proof -
  let ?e = "\<lparr> me_tenant_id = a, me_expires_at = cw_now w + MEMO_TTL_MS \<rparr>"
  let ?m = "evict_and_set MEMO_MAX_ENTRIES h ?e (cw_memos w i)"
  let ?w = "w\<lparr>cw_memos := (cw_memos w)(i := ?m)\<rparr>"
  let ?P = "\<lambda>h e. \<exists>t \<le> cw_now w. me_tenant_id e = handle_truth w t h \<and>
    me_expires_at e \<le> t + handle_ttl (me_tenant_id e) + MEMO_TTL_MS"
  have wf: "wf_map (cw_memos w i)" "length (cw_memos w i) \<le> MEMO_MAX_ENTRIES"
    and old: "\<And>h e. map_get (cw_memos w i) h = Some e \<Longrightarrow> ?P h e"
    using assms(1) by (auto simp: fresh_def memo_fresh_def)
  have "wf_map ?m" using wf(1) by (rule memo.remember_wf)
  moreover have "length ?m \<le> MEMO_MAX_ENTRIES"
    using wf by (intro memo.remember_bound) (simp_all add: MEMO_MAX_ENTRIES_def)
  moreover have "?P h' e" if "map_get ?m h' = Some e" for h' e
    using wf(1) _ old that
  proof (rule memo.remember_entries)
    show "?P h ?e" using assms(2-4) by (intro exI [of _ t]) simp
  qed
  ultimately have "memo_fresh ?w"
    using assms(1) by (simp add: fresh_def memo_fresh_def handle_truth_def)
  then have "fresh p ttl ?w"
    using assms(1)
    by (simp add: fresh_def handles_fresh_def links_fresh_def no_nul_tenant_def handle_truth_def link_truth_def)
  then show ?thesis by (simp add: remember_def memo_of_def remember_in_memo_def cache_deps_def)
qed

lemma fresh_store_handle:
  assumes "fresh p ttl w" and "a = handle_truth w (cw_now w) h"
  shows "fresh p ttl (stored (handle_key h) (if a = None then 60 else 3600) (handle_value a) w)"
proof -
  have "\<exists>t \<le> cw_now w. handle_value a = handle_value (handle_truth w t h) \<and>
      cw_now w + 1000 * int (if a = None then 60 else 3600) \<le> t + handle_ttl (handle_truth w t h)"
    using assms(2) by (intro exI [of _ "cw_now w"]) (simp add: handle_ttl_def)
  then show ?thesis
    using assms(1) by (auto simp: fresh_def memo_fresh_def handles_fresh_def links_fresh_def no_nul_tenant_def
        handle_key_not_link [symmetric])
qed

lemma fresh_store_link:
  assumes "fresh p ttl w" and "58 \<notin> set s"
    and "link_value p (link_truth w (cw_now w) u s) v" and "1000 * int n = link_ttl ttl (link_truth w (cw_now w) u s)"
  shows "fresh p ttl (stored (link_key u s) n v w)"
proof -
  have "\<exists>t \<le> cw_now w. link_value p (link_truth w t u s) v \<and>
      cw_now w + 1000 * int n \<le> t + link_ttl ttl (link_truth w t u s)"
    using assms(3,4) by (intro exI [of _ "cw_now w"]) simp
  then show ?thesis
    using assms(1,2) by (auto simp: fresh_def memo_fresh_def handles_fresh_def links_fresh_def no_nul_tenant_def
        link_key_inject)
qed

section \<open>The answers\<close>

lemma fresh_memoD:
  assumes "fresh p ttl w" and "map_get (cw_memos w i) h = Some e"
  obtains t where "t \<le> cw_now w" "me_tenant_id e = handle_truth w t h"
    "me_expires_at e \<le> t + handle_ttl (me_tenant_id e) + MEMO_TTL_MS"
  using assms unfolding fresh_def memo_fresh_def by blast

lemma fresh_handleD:
  assumes "fresh p ttl w" and "cw_redis w (handle_key h) = Some (v, expires)"
  obtains t where "t \<le> cw_now w" "v = handle_value (handle_truth w t h)"
    "expires \<le> t + handle_ttl (handle_truth w t h)"
  using assms unfolding fresh_def handles_fresh_def by blast

lemma tenant_db_world:
  "resolve_tenant_from_db (cache_deps p timeout) h w =
     (case cw_postgres w (cw_calls w) of
        Some e \<Rightarrow> (Inl e, called w) | None \<Rightarrow> (Inr (handle_truth w (cw_now w) h), called w))"
  by (simp add: resolve_tenant_from_db_def io_apps cache_deps_def postgres_read_def handle_truth_def
      split: option.split)

lemma link_db_world:
  "resolve_link_from_db (cache_deps p timeout) u s w =
     (case cw_postgres w (cw_calls w) of
        Some e \<Rightarrow> (Inl e, called w) | None \<Rightarrow> (Inr (link_truth w (cw_now w) u s), called w))"
  by (simp add: resolve_link_from_db_def io_apps cache_deps_def postgres_read_def link_truth_def
      split: option.split)

lemma handle_truth_not_nul: "no_nul_tenant w \<Longrightarrow> handle_truth w t h \<noteq> Some [0]"
proof
  assume "no_nul_tenant w" and "handle_truth w t h = Some [0]"
  then obtain r rs where "filter (\<lambda>r. bp_handle r = h) (cw_pages w t) = r # rs" "bp_tenant_id r = [0]"
    by (auto simp: handle_truth_def resolve_tenant_by_handle_def split: list.splits)
  then have "r \<in> set (cw_pages w t)" by (metis filter_is_subset list.set_intros(1) subsetD)
  then show False using \<open>no_nul_tenant w\<close> \<open>bp_tenant_id r = [0]\<close> by (auto simp: no_nul_tenant_def)
qed

lemma live_Some: "live w k = Some v \<longleftrightarrow> (\<exists>expires. cw_redis w k = Some (v, expires) \<and> cw_now w < expires)"
  by (auto simp: live_def split: option.splits if_splits)

lemma redis_answer_live: "redis_answer w k = Some v \<Longrightarrow> live w k = Some v"
  by (simp add: redis_answer_def split: redis_mode.splits)

lemma handle_value_eqs:
  assumes "no_nul_tenant w" and "a = handle_truth w t h"
  shows "handle_value a = ABSENT_TENANT_TOMBSTONE \<longleftrightarrow> a = None"
    and "handle_value a \<noteq> ABSENT_TENANT_TOMBSTONE \<Longrightarrow> a = Some (handle_value a)"
  using handle_truth_not_nul [OF assms(1), of t h] assms(2)
  by (auto simp: handle_value_def ABSENT_TENANT_TOMBSTONE_def split: option.splits)

lemma cached_handle_fresh:
  assumes "fresh p ttl w" and "redis_answer w (handle_key h) = Some v"
  obtains t where "t \<le> cw_now w" "(if v = ABSENT_TENANT_TOMBSTONE then None else Some v) = handle_truth w t h"
    "cw_now w < t + handle_ttl (handle_truth w t h)"
proof -
  from redis_answer_live [OF assms(2)] obtain expires where
    e: "cw_redis w (handle_key h) = Some (v, expires)" "cw_now w < expires" by (auto simp: live_Some)
  obtain t where t: "t \<le> cw_now w" "v = handle_value (handle_truth w t h)"
    "expires \<le> t + handle_ttl (handle_truth w t h)" using assms(1) e(1) by (rule fresh_handleD)
  have n: "no_nul_tenant w" using assms(1) by (simp add: fresh_def)
  show thesis
  proof (rule that [OF t(1)])
    show "(if v = ABSENT_TENANT_TOMBSTONE then None else Some v) = handle_truth w t h"
      using handle_value_eqs [OF n refl, of t h] t(2) by auto
  qed (use t(3) e(2) in linarith)
qed

text \<open>What an answer about a handle is worth, and why it can be an error.\<close>

definition recent_handle :: "cache_world \<Rightarrow> jsstr \<Rightarrow> jsstr option outcome \<Rightarrow> bool" where
  "recent_handle w h r \<longleftrightarrow>
     (case r of
        Inr a \<Rightarrow> \<exists>t \<le> cw_now w. a = handle_truth w t h \<and> cw_now w < t + handle_ttl a + MEMO_TTL_MS
      | Inl e \<Rightarrow> \<exists>n. cw_postgres w n = Some e)"

lemma unmemoized_answer:
  assumes "fresh p ttl w" and "resolve_unmemoized (cache_deps p timeout) (memo_of i) h w = (r, w')"
  shows "fresh p ttl w' \<and> recent_handle w h r"
proof (cases "redis_answer w (handle_key h)")
  case (Some v)
  let ?a = "if v = ABSENT_TENANT_TOMBSTONE then None else Some v"
  have r: "r = Inr ?a" "w' = remember (cache_deps p timeout) (memo_of i) h ?a (called w)"
    using assms(2) Some by (auto simp: resolve_unmemoized_def cached_handle_world split: if_splits)
  from cached_handle_fresh [OF assms(1) Some] obtain t where
    t: "t \<le> cw_now w" "?a = handle_truth w t h" "cw_now w < t + handle_ttl ?a" by metis
  have "fresh p ttl w'"
    unfolding r(2) by (rule fresh_remember [where t = t]) (use assms(1) t in simp_all)
  moreover have "recent_handle w h r"
    using t by (auto simp: recent_handle_def r(1) MEMO_TTL_MS_def intro!: exI [of _ t])
  ultimately show ?thesis by blast
next
  case None
  let ?a = "handle_truth w (cw_now w) h"
  let ?w = "spawn (backfill_handle_cache (cache_deps p timeout) (handle_key h) h ?a) (called (called w))"
  show ?thesis
  proof (cases "cw_postgres w (Suc (cw_calls w))")
    case (Some e)
    then have "r = Inl e" "w' = called (called w)"
      using assms(2) None by (simp_all add: resolve_unmemoized_def cached_handle_world tenant_db_world io_apps)
    then show ?thesis using Some assms(1) by (auto simp: recent_handle_def)
  next
    case no_error: None
    have r: "r = Inr ?a" "w' = remember (cache_deps p timeout) (memo_of i) h ?a ?w"
      using assms(2) None no_error
      by (simp_all add: resolve_unmemoized_def cached_handle_world tenant_db_world io_apps)
    have now: "cw_now ?w = cw_now w" "handle_truth ?w = handle_truth w"
      by (simp_all add: spawn_backfill_handle split: redis_mode.split)
    have "fresh p ttl (stored (handle_key h) (if ?a = None then 60 else 3600) (handle_value ?a) (called (called w)))"
      by (rule fresh_store_handle) (simp_all add: assms(1))
    then have "fresh p ttl ?w"
      using assms(1) by (cases "cw_mode (called (called w)) (cw_calls (called (called w)))")
        (simp_all only: spawn_backfill_handle redis_mode.case fresh_called)
    then have "fresh p ttl w'"
      unfolding r(2) by (rule fresh_remember [where t = "cw_now w"]) (simp_all add: now handle_ttl_def)
    moreover have "recent_handle w h r"
      by (auto simp: recent_handle_def r(1) MEMO_TTL_MS_def handle_ttl_def)
    ultimately show ?thesis by blast
  qed
qed

lemma tenant_answer:
  assumes "fresh p ttl w" and "resolve_tenant (cache_deps p timeout) (memo_of i) h w = (r, w')"
  shows "fresh p ttl w' \<and> recent_handle w h r"
proof (cases "\<exists>e. map_get (cw_memos w i) h = Some e \<and> cw_now w < me_expires_at e")
  case True
  then obtain e where e: "map_get (cw_memos w i) h = Some e" "cw_now w < me_expires_at e" by blast
  then have r: "r = Inr (me_tenant_id e)" "w' = w"
    using assms(2) by (auto simp: resolve_tenant_def memo_of_def is_expired_def cache_deps_def)
  obtain t where "t \<le> cw_now w" "me_tenant_id e = handle_truth w t h"
    "me_expires_at e \<le> t + handle_ttl (me_tenant_id e) + MEMO_TTL_MS" using assms(1) e(1) by (rule fresh_memoD)
  then show ?thesis using e(2) assms(1) by (auto simp: recent_handle_def r intro!: exI [of _ t])
next
  case False
  then have "resolve_unmemoized (cache_deps p timeout) (memo_of i) h w = (r, w')"
    using assms(2) by (auto simp: resolve_tenant_def memo_of_def is_expired_def cache_deps_def split: option.splits)
  then show ?thesis using unmemoized_answer [OF assms(1)] by blast
qed

text \<open>The same for links. \<open>same_link\<close>: the link itself, or its form after the schema.\<close>

definition same_link :: "parsers \<Rightarrow> cached_link option \<Rightarrow> cached_link option \<Rightarrow> bool" where
  "same_link p a b \<longleftrightarrow> a = b \<or>
     (\<exists>l. b = Some l \<and> a \<noteq> None \<and> a = cached_link_schema (pa_z_url p) (cached_link_json l))"

definition recent_link :: "parsers \<Rightarrow> nat \<Rightarrow> cache_world \<Rightarrow> jsstr \<Rightarrow> jsstr \<Rightarrow> cached_link option outcome \<Rightarrow> bool" where
  "recent_link p ttl w u s r \<longleftrightarrow>
     (case r of
        Inr a \<Rightarrow> \<exists>t \<le> cw_now w. same_link p a (link_truth w t u s) \<and> cw_now w \<le> t + link_ttl ttl a
      | Inl e \<Rightarrow> \<exists>n. cw_postgres w n = Some e)"

text \<open>The URL check of zod returns the trimmed text, so it accepts its own output unchanged.\<close>

definition url_check_stable :: "parsers \<Rightarrow> bool" where
  "url_check_stable p \<longleftrightarrow> (\<forall>s scheme v. pa_z_url p s = Some (scheme, v) \<longrightarrow> pa_z_url p v = Some (scheme, v))"

lemma schema_keys [simp]:
  "js ''link_id'' \<noteq> js ''tenant_id''" "js ''link_id'' \<noteq> js ''destination''"
  "js ''tenant_id'' \<noteq> js ''destination''" "js ''tenant_id'' \<noteq> js ''link_id''"
  "js ''destination'' \<noteq> js ''link_id''" "js ''destination'' \<noteq> js ''tenant_id''"
  by simp_all

lemma schema_of_link:
  "cached_link_schema z (cached_link_json l) =
     (if cl_link_id l \<noteq> [] \<and> cl_tenant_id l \<noteq> [] then
        map_option (\<lambda>d. \<lparr> cl_link_id = cl_link_id l, cl_tenant_id = cl_tenant_id l, cl_destination = d \<rparr>)
          (z_destination z (cl_destination l))
      else None)"
  by (simp add: cached_link_schema_def cached_link_json_def z_string_def)

lemma schema_stable:
  assumes "url_check_stable p" and "cached_link_schema (pa_z_url p) (cached_link_json l) = Some l'"
  shows "cached_link_schema (pa_z_url p) (cached_link_json l') = Some l'"
proof -
  from assms(2) obtain d where d: "z_destination (pa_z_url p) (cl_destination l) = Some d"
    and l': "l' = \<lparr> cl_link_id = cl_link_id l, cl_tenant_id = cl_tenant_id l, cl_destination = d \<rparr>"
    and ids: "cl_link_id l \<noteq> []" "cl_tenant_id l \<noteq> []"
    by (auto simp: schema_of_link split: if_splits)
  have "z_destination (pa_z_url p) d = Some d"
    using d assms(1) unfolding z_destination_Some url_check_stable_def by blast
  then show ?thesis using ids by (simp add: schema_of_link l')
qed

lemma wf_cached_link_json [simp]: "wf_json (cached_link_json l)"
  by (simp add: cached_link_json_def)

lemma parse_written_link:
  assumes "url_check_stable p" and "cached_link_schema (pa_z_url p) (cached_link_json l) = Some l'"
  shows "parse_cached_link (pa_z_url p) (Some (stringify (cached_link_json l'))) = Some l'"
  using schema_stable [OF assms] by (simp add: parse_cached_link_def json_parse_stringify)

lemma written_link_no_tombstone: "stringify (cached_link_json l) \<noteq> LINK_TOMBSTONE"
  by (simp add: cached_link_json_def LINK_TOMBSTONE_def js_def)

lemma cached_link_fresh:
  assumes "fresh p ttl w" and "58 \<notin> set s" and "url_check_stable p"
    and "redis_answer w (link_key u s) = Some v"
  obtains t a where "t \<le> cw_now w" "same_link p a (link_truth w t u s)" "cw_now w \<le> t + link_ttl ttl a"
    "(if v = LINK_TOMBSTONE then None else parse_cached_link (pa_z_url p) (Some v)) = a"
    "a = None \<Longrightarrow> v = LINK_TOMBSTONE"
proof -
  from redis_answer_live [OF assms(4)] obtain expires where
    e: "cw_redis w (link_key u s) = Some (v, expires)" "cw_now w < expires" by (auto simp: live_Some)
  have "links_fresh p ttl w" using assms(1) by (simp add: fresh_def)
  then obtain t where t: "t \<le> cw_now w" "link_value p (link_truth w t u s) v"
    "expires \<le> t + link_ttl ttl (link_truth w t u s)"
    using e(1) assms(2) unfolding links_fresh_def by blast
  show thesis
  proof (cases "link_truth w t u s")
    case None
    then show ?thesis using t e(2) by (intro that [of t None]) (auto simp: same_link_def link_value_def)
  next
    case (Some l)
    with t(2) obtain l' where l': "cached_link_schema (pa_z_url p) (cached_link_json l) = Some l'"
      "v = stringify (cached_link_json l')" by (auto simp: link_value_def)
    show ?thesis
    proof (rule that [of t "Some l'"])
      show "same_link p (Some l') (link_truth w t u s)" using Some l' by (simp add: same_link_def)
      show "cw_now w \<le> t + link_ttl ttl (Some l')" using t(3) e(2) Some by (simp add: link_ttl_def)
      show "(if v = LINK_TOMBSTONE then None else parse_cached_link (pa_z_url p) (Some v)) = Some l'"
        using parse_written_link [OF assms(3) l'(1)] by (simp add: l'(2) written_link_no_tombstone)
    qed (use t(1) in simp_all)
  qed
qed

lemma fresh_after_link_db:
  assumes "fresh p ttl w" and "58 \<notin> set s" and "a = link_truth w (cw_now w) u s"
  shows "fresh p ttl (case a of
      None \<Rightarrow> spawn (write_link_tombstone (cache_deps p timeout) u s) w
    | Some l \<Rightarrow> spawn (backfill_link_cache (cache_deps p timeout) ttl u s l) w)"
  using assms fresh_store_link [OF assms(1,2), of u LINK_TOMBSTONE 60]
    fresh_store_link [OF assms(1,2), of u _ ttl]
  by (auto simp: spawn_tombstone spawn_backfill_link link_value_def link_ttl_def split: option.splits redis_mode.split)

lemma link_answer:
  assumes "fresh p ttl w" and "58 \<notin> set s" and "url_check_stable p"
    and "resolve_link (cache_deps p timeout) ttl u s w = (r, w')"
  shows "fresh p ttl w' \<and> recent_link p ttl w u s r"
proof (cases "fst (lookup_cached_link (cache_deps p timeout) u s w)")
  case Miss
  have look: "lookup_cached_link (cache_deps p timeout) u s w = (Miss, called w)"
    using Miss by (simp add: lookup_link_world)
  let ?a = "link_truth w (cw_now w) u s"
  show ?thesis
  proof (cases "cw_postgres w (Suc (cw_calls w))")
    case (Some e)
    then have "r = Inl e" "w' = called (called w)"
      using assms(4) by (simp_all add: resolve_link_def look link_db_world io_apps)
    then show ?thesis using Some assms(1) by (auto simp: recent_link_def)
  next
    case None
    have "r = Inr ?a" "w' = (case ?a of
        None \<Rightarrow> spawn (write_link_tombstone (cache_deps p timeout) u s) (called (called w))
      | Some l \<Rightarrow> spawn (backfill_link_cache (cache_deps p timeout) ttl u s l) (called (called w)))"
      using assms(4) None by (auto simp: resolve_link_def look link_db_world io_apps split: option.splits)
    moreover have "recent_link p ttl w u s (Inr ?a)"
      by (auto simp: recent_link_def same_link_def link_ttl_def intro!: exI [of _ "cw_now w"])
    ultimately show ?thesis
      using fresh_after_link_db [of p ttl "called (called w)" s ?a u timeout] assms(1,2) by simp
  qed
next
  case (Hit l)
  then obtain v where v: "redis_answer w (link_key u s) = Some v" "v \<noteq> LINK_TOMBSTONE"
    "parse_cached_link (pa_z_url p) (Some v) = Some l"
    by (cases "redis_answer w (link_key u s)")
      (auto simp: lookup_link_world Let_def parse_cached_link_def [of _ None] split: if_splits option.splits)
  have r: "r = Inr (Some l)" "w' = called w"
    using assms(4) Hit by (auto simp: resolve_link_def lookup_link_world)
  obtain t a where "t \<le> cw_now w" "same_link p a (link_truth w t u s)" "cw_now w \<le> t + link_ttl ttl a" "a = Some l"
    using cached_link_fresh [OF assms(1-3) v(1)] v(2,3) by metis
  then show ?thesis using assms(1) by (auto simp: recent_link_def r)
next
  case Known_absent
  then have v: "redis_answer w (link_key u s) = Some LINK_TOMBSTONE"
    by (auto simp: lookup_link_world Let_def split: if_splits option.splits)
  have r: "r = Inr None" "w' = called w"
    using assms(4) Known_absent by (auto simp: resolve_link_def lookup_link_world)
  obtain t a where "t \<le> cw_now w" "same_link p a (link_truth w t u s)" "cw_now w \<le> t + link_ttl ttl a" "a = None"
    using cached_link_fresh [OF assms(1-3) v] by metis
  then show ?thesis using assms(1) by (auto simp: recent_link_def r)
qed

section \<open>Every reachable state is fresh\<close>

lemma fresh_cold: "cold w \<Longrightarrow> no_nul_tenant w \<Longrightarrow> fresh p ttl w"
  by (simp add: cold_def fresh_def memo_fresh_def handles_fresh_def links_fresh_def)

lemma fresh_wait:
  assumes "fresh p ttl w" and "0 \<le> d"
  shows "fresh p ttl (w\<lparr>cw_now := cw_now w + d\<rparr>)"
  using assms
  by (simp add: fresh_def memo_fresh_def handles_fresh_def links_fresh_def no_nul_tenant_def
      handle_truth_def link_truth_def) (metis add_increasing2)

lemma fresh_drop:
  assumes "fresh p ttl w"
  shows "fresh p ttl (snd (redis_del key w))"
proof -
  have "fresh p ttl (w\<lparr>cw_redis := (cw_redis w)(key := None)\<rparr>)"
    using assms
    by (auto simp: fresh_def memo_fresh_def handles_fresh_def links_fresh_def no_nul_tenant_def
        handle_truth_def link_truth_def)
  then show ?thesis using assms by (simp add: redis_del_def redis_call_def split: redis_mode.split)
qed

lemma fresh_step:
  assumes "cache_step p timeout ttl w w'" and "fresh p ttl w" and "url_check_stable p"
  shows "fresh p ttl w'"
  using assms(1)
proof (cases rule: cache_step.cases)
  case (restart i)
  then show ?thesis
    using assms(2) by (simp add: fresh_def memo_fresh_def handles_fresh_def links_fresh_def no_nul_tenant_def
        handle_truth_def link_truth_def)
next
  case (tenant i handle)
  then show ?thesis using tenant_answer [OF assms(2)] by (metis prod.collapse)
next
  case (link slug tenant_id)
  then show ?thesis using link_answer [OF assms(2) _ assms(3)] by (metis prod.collapse)
qed (use assms(2) in \<open>simp_all add: fresh_wait fresh_drop invalidate_handle_def invalidate_link_def\<close>)

lemma fresh_reachable:
  assumes "(cache_step p timeout ttl)\<^sup>*\<^sup>* w w'" and "cold w" and "no_nul_tenant w" and "url_check_stable p"
  shows "fresh p ttl w'"
  using assms(1) by (induction rule: rtranclp_induct) (simp_all add: fresh_cold fresh_step assms)

section \<open>Properties\<close>

text \<open>
  C21: However processes, restarts, invalidations, Redis failures and the passing of time follow each
  other, the answer about a handle is the one Postgres had at most a memo lifetime (60 s) plus a
  cache lifetime (3600 s for a tenant, 60 s for an absence) before; Redis failures never surface:
  the only rejection is one of Postgres. And the memos of all processes stay within their bound.
\<close>

theorem handle_answers_are_recent:
  assumes "(cache_step p timeout ttl)\<^sup>*\<^sup>* w0 w" and "cold w0" and "no_nul_tenant w0" and "url_check_stable p"
    and "resolve_tenant (cache_deps p timeout) (memo_of i) handle w = (r, w')"
  shows "(case r of
      Inr a \<Rightarrow> \<exists>t \<le> cw_now w. a = resolve_tenant_by_handle (cw_pages w t) handle \<and>
        cw_now w < t + (if a = None then 60000 else 3600000) + 60000
    | Inl e \<Rightarrow> \<exists>n. cw_postgres w n = Some e) \<and>
    length (cw_memos w' j) \<le> 10000"
proof -
  have "fresh p ttl w' \<and> recent_handle w handle r"
    using fresh_reachable [OF assms(1-4)] assms(5) by (rule tenant_answer)
  moreover from this have "length (cw_memos w' j) \<le> 10000"
    by (simp add: fresh_def memo_fresh_def MEMO_MAX_ENTRIES_def)
  ultimately show ?thesis
    unfolding recent_handle_def handle_truth_def handle_ttl_def MEMO_TTL_MS_def by blast
qed

text \<open>
  A page that existed for a minute: a second process still answers its tenant 50 minutes later, from Redis.
\<close>

definition example_parsers :: parsers where
  "example_parsers = \<lparr> pa_url = (\<lambda>_. None), pa_z_url = (\<lambda>s. if s = js ''https://x.test'' then Some (js ''https'', s) else None),
     pa_zod_error = (\<lambda>_. new_error []) \<rparr>"

definition example_page :: bio_page_row where
  "example_page = \<lparr> bp_id = [49], bp_tenant_id = [50], bp_handle = [97], bp_display_name = None,
     bp_bio = None, bp_avatar_url = None, bp_theme_id = [], bp_created_at = 0, bp_updated_at = 0 \<rparr>"

definition example_world :: cache_world where
  "example_world = \<lparr> cw_now = 0, cw_pages = (\<lambda>t. if t < 60000 then [example_page] else []),
     cw_links = (\<lambda>t. if t < 60000 then [example_link [49] [50]] else []), cw_redis = (\<lambda>_. None),
     cw_memos = (\<lambda>_. []), cw_calls = 0, cw_mode = (\<lambda>_. Answers), cw_postgres = (\<lambda>_. None) \<rparr>"

lemma example_world_ok: "cold example_world" "no_nul_tenant example_world" "url_check_stable example_parsers"
  by (simp_all add: cold_def example_world_def no_nul_tenant_def example_page_def url_check_stable_def
      example_parsers_def split: if_splits)

definition later_world :: cache_world where
  "later_world = (let w = snd (resolve_tenant (cache_deps example_parsers 50) (memo_of 0) [97]
       (snd (resolve_link (cache_deps example_parsers 50) 3600 [50] (js ''promo'') example_world)))
     in w\<lparr>cw_now := cw_now w + 3000000\<rparr>)"

lemma later_world_reachable: "(cache_step example_parsers 50 3600)\<^sup>*\<^sup>* example_world later_world"
proof -
  let ?step = "cache_step example_parsers 50 3600"
  let ?w1 = "snd (resolve_link (cache_deps example_parsers 50) 3600 [50] (js ''promo'') example_world)"
  let ?w2 = "snd (resolve_tenant (cache_deps example_parsers 50) (memo_of 0) [97] ?w1)"
  have "?step example_world ?w1" by (rule link) (simp add: js_def)
  then have "?step\<^sup>*\<^sup>* example_world ?w1" by (rule r_into_rtranclp)
  moreover have "?step ?w1 ?w2" by (rule tenant)
  ultimately have "?step\<^sup>*\<^sup>* example_world ?w2" by (rule rtranclp.rtrancl_into_rtrancl)
  moreover have "?step ?w2 later_world" unfolding later_world_def Let_def by (rule wait) simp
  ultimately show ?thesis by (rule rtranclp.rtrancl_into_rtrancl)
qed

lemma example_world_simps [simp]:
  "cw_now example_world = 0" "cw_redis example_world = (\<lambda>_. None)" "cw_memos example_world = (\<lambda>_. [])"
  "cw_mode example_world = (\<lambda>_. Answers)" "cw_postgres example_world = (\<lambda>_. None)" "cw_calls example_world = 0"
  "cw_pages example_world = (\<lambda>t. if t < 60000 then [example_page] else [])"
  "cw_links example_world = (\<lambda>t. if t < 60000 then [example_link [49] [50]] else [])"
  by (simp_all add: example_world_def)

definition example_answer :: cached_link where
  "example_answer = \<lparr> cl_link_id = [49], cl_tenant_id = [50], cl_destination = js ''https://x.test'' \<rparr>"

lemma example_tables:
  "resolve_link_by_slug [example_link [49] [50]] [50] (js ''promo'') = Some example_answer"
  "resolve_tenant_by_handle [example_page] [97] = Some [50]"
  "cached_link_schema (pa_z_url example_parsers) (cached_link_json example_answer) = Some example_answer"
  by (simp_all add: resolve_link_by_slug_def for_tenant_def scoped_links_def scoped_table_def tenant_scope_def
      sql_and_def example_link_def example_answer_def resolve_tenant_by_handle_def example_page_def
      schema_of_link z_destination_Some example_parsers_def DESTINATION_MAX_LENGTH_def)

text \<open>The two first operations found Postgres, so Redis holds a link and a tenant since the time 0.\<close>

lemma later_world_redis:
  "cw_redis later_world (handle_key [97]) = Some ([50], 3600000)"
  "cw_redis later_world (link_key [50] (js ''promo'')) = Some (stringify (cached_link_json example_answer), 3600000)"
  "cw_now later_world = 3000000" "cw_memos later_world (Suc 0) = []" "cw_mode later_world = (\<lambda>_. Answers)"
  by (simp_all add: later_world_def Let_def resolve_tenant_def resolve_unmemoized_def cached_handle_world
      tenant_db_world io_apps remember_def spawn_backfill_handle resolve_link_def lookup_link_world
      link_db_world parse_cached_link_def redis_answer_def live_def link_truth_def handle_truth_def
      example_tables spawn_backfill_link handle_value_def handle_key_not_link [symmetric])

lemma later_tenant_step:
  "resolve_tenant (cache_deps example_parsers 50) (memo_of 1) [97] later_world =
     (Inr (Some [50]), remember (cache_deps example_parsers 50) (memo_of 1) [97] (Some [50]) (called later_world))"
  by (simp add: resolve_tenant_def resolve_unmemoized_def cached_handle_world redis_answer_def live_def
      later_world_redis ABSENT_TENANT_TOMBSTONE_def)

lemma later_tenant:
  "fst (resolve_tenant (cache_deps example_parsers 50) (memo_of 1) [97] later_world) = Inr (Some [50])"
  by (simp only: later_tenant_step fst_conv)

lemma later_link:
  assumes "cw_redis w = cw_redis later_world" and "cw_now w = 3000000" and "cw_mode w = (\<lambda>_. Answers)"
  shows "fst (resolve_link (cache_deps example_parsers 50) 3600 [50] (js ''promo'') w) = Inr (Some example_answer)"
  using parse_written_link [OF example_world_ok(3) example_tables(3)] assms
  by (simp add: resolve_link_def lookup_link_world redis_answer_def live_def later_world_redis written_link_no_tombstone)

theorem handle_answers_are_recent_witness:
  "\<exists>t \<le> cw_now later_world. Some [50] = resolve_tenant_by_handle (cw_pages later_world t) [97] \<and>
     cw_now later_world < t + 3600000 + 60000"
proof -
  obtain w' where "resolve_tenant (cache_deps example_parsers 50) (memo_of 1) [97] later_world = (Inr (Some [50]), w')"
    using later_tenant by (metis prod.collapse)
  from handle_answers_are_recent [OF later_world_reachable example_world_ok this] show ?thesis by simp
qed

text \<open>
  C22: The answer about a slug is, up to the form the schema gives a destination, the link that Postgres
  had at most the lifetime of a cache entry before, and an absence at most 60 s before; so a
  link that is archived stops being served after the lifetime of its entry even if its invalidation is lost.
\<close>

theorem link_answers_are_recent:
  assumes "(cache_step p timeout ttl)\<^sup>*\<^sup>* w0 w" and "cold w0" and "no_nul_tenant w0" and "url_check_stable p"
    and "58 \<notin> set slug" and "resolve_link (cache_deps p timeout) ttl tenant_id slug w = (r, w')"
  shows "case r of
      Inr a \<Rightarrow> \<exists>t \<le> cw_now w. same_link p a (resolve_link_by_slug (cw_links w t) tenant_id slug) \<and>
        cw_now w \<le> t + (if a = None then 60000 else 1000 * int ttl)
    | Inl e \<Rightarrow> \<exists>n. cw_postgres w n = Some e"
proof -
  have "recent_link p ttl w tenant_id slug r"
    using link_answer [OF fresh_reachable [OF assms(1-4)] assms(5,4,6)] by blast
  then show ?thesis unfolding recent_link_def link_truth_def link_ttl_def .
qed

theorem link_answers_are_recent_witness:
  "\<exists>t \<le> cw_now later_world.
     same_link example_parsers (Some example_answer) (resolve_link_by_slug (cw_links later_world t) [50] (js ''promo'')) \<and>
     cw_now later_world \<le> t + 3600000"
proof -
  obtain w' where r: "resolve_link (cache_deps example_parsers 50) 3600 [50] (js ''promo'') later_world =
      (Inr (Some example_answer), w')"
    using later_link [OF refl later_world_redis(3,5)] by (metis prod.collapse)
  have "58 \<notin> set (js ''promo'')" by (simp add: js_def)
  from link_answers_are_recent [OF later_world_reachable example_world_ok this r] show ?thesis by simp
qed

end
