(* ===== verification/Api_Pages.thy ===== *)
theory Api_Pages
  imports Contracts_Domain Js_Async Js_Unicode
begin

text \<open>
  What the redirect path reads from a request target and what it writes into a response
  (\<open>apps/api/src/redirect\<close>): \<open>host.ts\<close> classifies host and path, \<open>escape-html.ts\<close> and
  \<open>not-found.ts\<close> render the 404 page, \<open>redirect-response.ts\<close> writes the 307. The response of Node is
  modelled as far as the code uses it, with its documented refusals: a header cannot be set after
  the response has been sent, nor to a value with a character that Node's header check refuses.
\<close>

section \<open>Request targets\<close>

datatype request_target =
    Target_link jsstr jsstr
  | Handle_root jsstr
  | Reserved_path
  | Reserved_handle jsstr
  | Invalid_path
  | Not_ours

definition MAX_ENCODED_SLUG_LENGTH :: nat where
  "MAX_ENCODED_SLUG_LENGTH = SLUG_MAX_LENGTH * 3"

definition ONLY_SLASHES :: regex where
  "ONLY_SLASHES = Plus (Cls (\<lambda>c. c = 47))"

definition extract_slug :: "jsstr \<Rightarrow> jsstr option" where
  "extract_slug path =
     (if \<not> starts_with path (js ''/'') then None
      else
        let encoded = drop 1 path in
        if length encoded = 0 then None
        else if MAX_ENCODED_SLUG_LENGTH < length encoded then None
        else if str_includes encoded (js ''/'') then None
        else
          (case decode_uri_component encoded of
             None \<Rightarrow> None
           | Some decoded \<Rightarrow> if str_includes decoded (js ''/'') then None else Some decoded))"

definition parse_request_target :: "domain_config \<Rightarrow> jsstr list \<Rightarrow> jsstr \<Rightarrow> jsstr \<Rightarrow> request_target" where
  "parse_request_target urls reserved_handles host path =
     (case parse_handle_from_host urls host of
        None \<Rightarrow> Not_ours
      | Some handle \<Rightarrow>
          if is_reserved_handle handle reserved_handles then Reserved_handle handle
          else if path = [] \<or> path = js ''/'' then Handle_root handle
          else if matches ONLY_SLASHES path then Invalid_path
          else if is_reserved_path path then Reserved_path
          else
            (case extract_slug path of
               None \<Rightarrow> Invalid_path
             | Some slug \<Rightarrow> if \<not> is_valid_slug slug then Invalid_path else Target_link handle slug))"

section \<open>Escaping\<close>

definition ESCAPE_ENTITIES :: "(nat \<times> jsstr) list" where
  "ESCAPE_ENTITIES =
     [(38, js ''&amp;''), (60, js ''&lt;''), (62, js ''&gt;''), (34, js ''&quot;''), (39, js ''&#x27;''),
      (47, js ''&#x2F;'')]"

definition MAX_INPUT_LENGTH :: nat where "MAX_INPUT_LENGTH = SLUG_MAX_LENGTH * 2"
definition MAX_ESCAPED_HTML_LENGTH :: nat where "MAX_ESCAPED_HTML_LENGTH = SLUG_MAX_LENGTH * 6"

text \<open>The loop of \<open>truncateAtCodePointBoundary\<close>, over the code points that \<open>for...of\<close> yields.\<close>

fun take_chars :: "nat \<Rightarrow> nat \<Rightarrow> jsstr list \<Rightarrow> jsstr" where
  "take_chars max_length n [] = []"
| "take_chars max_length n (w # ws) =
     (if max_length < n + length w then [] else w @ take_chars max_length (n + length w) ws)"

definition truncate_at_code_point_boundary :: "jsstr \<Rightarrow> nat \<Rightarrow> jsstr" where
  "truncate_at_code_point_boundary s max_length =
     (if length s \<le> max_length then s else take_chars max_length 0 (chars s))"

definition escape_unit :: "nat \<Rightarrow> jsstr" where
  "escape_unit c = (case map_of ESCAPE_ENTITIES c of Some entity \<Rightarrow> entity | None \<Rightarrow> [c])"

definition escape_html :: "jsstr \<Rightarrow> jsstr" where
  "escape_html s =
     (let bounded_input = truncate_at_code_point_boundary s MAX_INPUT_LENGTH;
          escaped = concat (map escape_unit bounded_input)
      in truncate_at_code_point_boundary escaped MAX_ESCAPED_HTML_LENGTH)"

section \<open>The 404 page\<close>

definition PAGE_TITLE :: jsstr where "PAGE_TITLE = js ''404 '' @ [183] @ js '' Posta''"
definition ERROR_LINE :: jsstr where "ERROR_LINE = js ''error: no existe ese link''"
definition HOME_LINK_TEXT :: jsstr where "HOME_LINK_TEXT = js ''volver a posta''"

definition PAGE_HEAD :: "jsstr list" where
  "PAGE_HEAD =
     [js ''<!doctype html>'',
      js ''<html lang=\"es\">'',
      js ''<head>'',
      js ''<meta charset=\"utf-8\">'',
      js ''<meta name=\"viewport\" content=\"width=device-width,initial-scale=1\">'',
      js ''<title>'' @ PAGE_TITLE @ js ''</title>'',
      js ''<style>'',
      js '':root{color-scheme:dark}'',
      js ''*{margin:0;padding:0;box-sizing:border-box}'',
      js ''body{min-height:100vh;display:flex;align-items:center;justify-content:center;background:#0D1117;color:#E6EDF3;font-family:ui-monospace,SFMono-Regular,Menlo,Consolas,monospace;font-size:15px;line-height:1.7;padding:24px}'',
      js ''main{width:100%;max-width:440px;background:#161B22;border:1px solid #30363D;border-radius:8px;padding:24px}'',
      js ''p{white-space:pre-wrap;word-break:break-word}'',
      js ''.prompt{color:#8B949E}'',
      js ''.err{color:#F85149;margin-top:8px}'',
      js ''.cursor{display:inline-block;width:.5em;height:1.05em;background:#B4FF39;vertical-align:text-bottom;animation:blink 1.1s steps(1,end) infinite}'',
      js ''@keyframes blink{0%,49%{opacity:1}50%,100%{opacity:0}}'',
      js ''a{color:#8B949E;text-decoration:none;font-size:13px}'',
      js ''a:hover{color:#B4FF39;text-decoration:underline}'',
      js ''.home{display:block;margin-top:20px}'',
      js ''@media (prefers-reduced-motion:reduce){.cursor{animation:none;opacity:1}}'',
      js ''</style>'',
      js ''</head>'',
      js ''<body>'',
      js ''<main>'']"

definition PROMPT :: jsstr where
  "PROMPT = js ''<p><span class=\"prompt\">~/posta $</span> ''"

definition render_not_found :: "domain_config \<Rightarrow> jsstr \<Rightarrow> jsstr" where
  "render_not_found urls slug =
     (let home_url = build_app_url urls []; safe_slug = escape_html slug in
      join_with [10]
        (PAGE_HEAD @
         [PROMPT @ js ''cd /'' @ safe_slug @ js ''</p>'',
          js ''<p class=\"err\">'' @ ERROR_LINE @ js ''</p>'',
          PROMPT @ js ''<span class=\"cursor\"></span></p>'',
          js ''<a class=\"home\" href=\"'' @ home_url @ js ''\">'' @ HOME_LINK_TEXT @ js ''</a>'',
          js ''</main>'', js ''</body>'', js ''</html>'']))"

section \<open>Responses\<close>

text \<open>
  \<open>rp_ended\<close> lists the \<open>end(body)\<close> calls with the status each had. Node refuses a header once
  the response is sent and a value its header check refuses.
\<close>

record response =
  rp_headers :: "(jsstr, jsstr) js_map"
  rp_status :: nat
  rp_ended :: "(nat \<times> jsstr) list"

definition fresh_response :: response where
  "fresh_response = \<lparr> rp_headers = [], rp_status = 200, rp_ended = [] \<rparr>"

definition header_unit :: "nat \<Rightarrow> bool" where
  "header_unit c \<longleftrightarrow> c = 9 \<or> 32 \<le> c \<and> c \<le> 126 \<or> 128 \<le> c \<and> c \<le> 255"

definition set_header :: "jsstr \<Rightarrow> jsstr \<Rightarrow> (response, unit) io" where
  "set_header name value r =
     (if rp_ended r \<noteq> [] then (Inl (new_error (js ''Cannot set headers after they are sent to the client'')), r)
      else if \<not> list_all header_unit value then
        (Inl (new_error (js ''Invalid character in header content'')), r)
      else (Inr (), r\<lparr>rp_headers := map_set name value (rp_headers r)\<rparr>))"

definition end_with :: "nat \<Rightarrow> jsstr \<Rightarrow> (response, unit) io" where
  "end_with status body r = (Inr (), r\<lparr>rp_status := status, rp_ended := rp_ended r @ [(status, body)]\<rparr>)"

section \<open>The redirect\<close>

definition is_header_safe_code_point :: "nat \<Rightarrow> bool" where
  "is_header_safe_code_point p =
     (if p = 9 then True
      else if 32 \<le> p \<and> p \<le> 126 then True
      else if 128 \<le> p \<and> p \<le> 255 then True
      else False)"

definition HEADER_SAFE_DESTINATION_PATTERN :: regex where
  "HEADER_SAFE_DESTINATION_PATTERN =
     Star (Cls (\<lambda>c. c = 9 \<or> 32 \<le> c \<and> c \<le> 126 \<or> 128 \<le> c \<and> c \<le> 255))"

fun encode_chars :: "jsstr list \<Rightarrow> jsstr option" where
  "encode_chars [] = Some []"
| "encode_chars (w # ws) =
     (case (case code_point w of
              Some p \<Rightarrow> if is_header_safe_code_point p then Some w else encode_uri_char w
            | None \<Rightarrow> encode_uri_char w) of
        None \<Rightarrow> None
      | Some part \<Rightarrow> map_option ((@) part) (encode_chars ws))"

definition encode_destination_for_header :: "jsstr \<Rightarrow> jsstr option" where
  "encode_destination_for_header destination =
     (if matches HEADER_SAFE_DESTINATION_PATTERN destination then Some destination
      else encode_chars (chars destination))"

definition send_link_redirect :: "jsstr \<Rightarrow> (response, bool) io" where
  "send_link_redirect destination =
     (case encode_destination_for_header destination of
        None \<Rightarrow> io_return False
      | Some encoded \<Rightarrow>
          io_then (set_header (js ''Cache-Control'') (js ''no-store''))
            (io_then (set_header (js ''Location'') encoded)
              (io_then (end_with 307 []) (io_return True))))"

section \<open>Facts about request targets\<close>

lemma valid_slug_path:
  assumes "is_valid_slug slug"
  shows "normalize_reserved_path (js ''/'' @ slug) = js ''/'' @ slug" and "\<not> is_reserved_path (js ''/'' @ slug)"
    and "extract_slug (js ''/'' @ slug) = Some slug"
proof -
  have inner: "slug_inner c" if "c \<in> set slug" for c using valid_slug_chars [OF assms that] .
  have ne: "slug \<noteq> []" "length slug \<le> 64" using valid_slug_length [OF assms] by auto
  have path: "js ''/'' @ slug = 47 # slug" by (simp add: js_def)
  have units: "\<forall>c \<in> set (47 # slug). \<not> js_space c \<and> (c < 65 \<or> 90 < c \<and> c < 128)"
    using inner slug_inner_lower slug_inner_not_space by (auto simp: js_space_def)
  then have "trim (47 # slug) = 47 # slug" by (intro trim_no_space) auto
  moreover have "to_lower (47 # slug) = 47 # slug" using units by (intro to_lower_id) auto
  moreover have "\<not> ends_with (47 # slug) (js ''/'')"
    using inner [of "last slug"] ne(1) by (auto simp: ends_with_iff js_def dest: arg_cong [where f = last])
  ultimately show norm: "normalize_reserved_path (js ''/'' @ slug) = js ''/'' @ slug"
    by (simp add: normalize_reserved_path_def path)
  have "js ''/'' @ slug \<notin> set RESERVED_PATHS" using assms slug_pattern_not_reserved is_valid_slug_pattern by blast
  moreover have "46 \<notin> set slug" using inner [of 46] by auto
  then have "js ''/'' @ slug \<noteq> js ''/.well-known''" "\<not> starts_with (js ''/'' @ slug) (js ''/.well-known/'')"
    by (auto simp: js_def starts_with_iff)
  ultimately show "\<not> is_reserved_path (js ''/'' @ slug)"
    by (simp add: is_reserved_path_def path norm [unfolded path] Let_def RESERVED_PATH_PREFIXES_def drop_last_def ends_with_def js_def)
  have "37 \<notin> set slug" "47 \<notin> set slug" using inner [of 37] inner [of 47] by auto
  then show "extract_slug (js ''/'' @ slug) = Some slug"
    using ne by (simp add: extract_slug_def path js_def MAX_ENCODED_SLUG_LENGTH_def SLUG_MAX_LENGTH_def
        decode_uri_plain Let_def)
qed

lemma target_link_iff:
  "parse_request_target urls reserved host path = Target_link handle slug \<longleftrightarrow>
     parse_handle_from_host urls host = Some handle \<and> \<not> is_reserved_handle handle reserved \<and>
     path \<notin> {[], js ''/''} \<and> \<not> matches ONLY_SLASHES path \<and> \<not> is_reserved_path path \<and>
     extract_slug path = Some slug \<and> is_valid_slug slug"
  by (auto simp: parse_request_target_def split: option.split)

lemma target_slug_no_colon:
  "parse_request_target urls reserved host path = Target_link handle slug \<Longrightarrow> 58 \<notin> set slug"
  using valid_slug_chars by (fastforce simp: target_link_iff)

section \<open>Facts about escaping\<close>

lemma take_chars_prefix: "\<exists>rest. concat ws = take_chars m n ws @ rest"
  by (induction m n ws rule: take_chars.induct) auto

lemma take_chars_length: "n \<le> m \<Longrightarrow> n + length (take_chars m n ws) \<le> m"
  by (induction m n ws rule: take_chars.induct) (auto simp: add.assoc)

lemma truncate_prefix: "\<exists>rest. s = truncate_at_code_point_boundary s m @ rest"
  using take_chars_prefix [of "chars s" m 0] by (simp add: truncate_at_code_point_boundary_def)

lemma truncate_length: "length (truncate_at_code_point_boundary s m) \<le> m"
  using take_chars_length [of 0 m "chars s"] by (auto simp: truncate_at_code_point_boundary_def)

lemma truncate_set: "set (truncate_at_code_point_boundary s m) \<subseteq> set s"
  using truncate_prefix [of s m] by (metis Un_upper1 set_append)

lemma truncate_short: "length s \<le> m \<Longrightarrow> truncate_at_code_point_boundary s m = s"
  by (simp add: truncate_at_code_point_boundary_def)

text \<open>No unit of a pair is left alone: \<open>whole s\<close> says that every surrogate of \<open>s\<close> is paired.\<close>

definition whole :: "jsstr \<Rightarrow> bool" where
  "whole s \<longleftrightarrow> (\<forall>w \<in> set (chars s). \<forall>c. w = [c] \<longrightarrow> \<not> is_surrogate c)"

lemma whole_simps [simp]: "whole []" "whole [c] \<longleftrightarrow> \<not> is_surrogate c"
  "whole (c # d # s) \<longleftrightarrow>
     (if is_high c \<and> is_low d then whole s else \<not> is_surrogate c \<and> whole (d # s))"
  by (auto simp: whole_def)

lemma whole_Cons: "\<not> is_surrogate c \<Longrightarrow> whole (c # s) \<longleftrightarrow> whole s"
  by (cases s) (auto simp: is_surrogate_def)

lemma whole_take_chars: "whole s \<Longrightarrow> whole (take_chars m n (chars s))"
proof (induction s arbitrary: n rule: chars.induct)
  case (3 c d s)
  then show ?case
    by (cases "is_high c \<and> is_low d") (auto simp: whole_Cons)
qed simp_all

lemma whole_truncate: "whole s \<Longrightarrow> whole (truncate_at_code_point_boundary s m)"
  by (simp add: truncate_at_code_point_boundary_def whole_take_chars)

lemma escape_unit_cases:
  "escape_unit c = [c] \<and> c \<notin> {38, 60, 62, 34, 39, 47} \<or>
   c \<in> {38, 60, 62, 34, 39, 47} \<and> (\<forall>d \<in> set (escape_unit c). d < 128 \<and> d \<notin> {60, 62, 34, 39, 47}) \<and>
   length (escape_unit c) \<le> 6"
  by (auto simp: escape_unit_def ESCAPE_ENTITIES_def js_def)

lemma escape_unit_surrogate: "is_surrogate c \<Longrightarrow> escape_unit c = [c]"
  by (auto simp: escape_unit_def ESCAPE_ENTITIES_def is_surrogate_def is_high_def is_low_def)

lemma whole_ascii_append: "\<forall>d \<in> set w. d < 128 \<Longrightarrow> whole (w @ s) \<longleftrightarrow> whole s"
  by (induction w) (auto simp: whole_Cons is_surrogate_def is_high_def is_low_def)

lemma whole_escape: "whole s \<Longrightarrow> whole (concat (map escape_unit s))"
proof (induction s rule: chars.induct)
  case (2 c)
  then show ?case using escape_unit_cases [of c] whole_ascii_append [of "escape_unit c" "[]"] by auto
next
  case (3 c d s)
  show ?case
  proof (cases "is_high c \<and> is_low d")
    case True
    then show ?thesis
      using 3 escape_unit_surrogate [of c] escape_unit_surrogate [of d] by (simp add: is_surrogate_def)
  next
    case False
    then have c: "\<not> is_surrogate c" "whole (concat (map escape_unit (d # s)))" using 3 by auto
    then show ?thesis
      using escape_unit_cases [of c] whole_ascii_append [of "escape_unit c"] whole_Cons [OF c(1)] by auto
  qed
qed simp

section \<open>Facts about the Location header\<close>

lemma header_unit_safe: "is_header_safe_code_point = header_unit"
  by (simp add: fun_eq_iff is_header_safe_code_point_def header_unit_def)

lemma safe_pattern_iff: "matches HEADER_SAFE_DESTINATION_PATTERN d \<longleftrightarrow> list_all header_unit d"
  by (simp add: HEADER_SAFE_DESTINATION_PATTERN_def matches_Star_Cls list_all_iff header_unit_def)

lemma percent_byte_safe: "b < 256 \<Longrightarrow> list_all header_unit (percent_byte b)"
  by (auto simp: percent_byte_def upper_hex_def header_unit_def)

lemma utf8_bytes: "p < 1114112 \<Longrightarrow> utf8 p = Some bs \<Longrightarrow> \<forall>b \<in> set bs. b < 256"
  by (auto simp: utf8_def less_mult_imp_div_less split: if_splits)

lemma pair_code_point:
  assumes "is_high c" and "is_low d"
  shows "code_point [c, d] = Some (65536 + (c - 55296) * 1024 + (d - 56320))"
    and "65536 \<le> 65536 + (c - 55296) * 1024 + (d - 56320)" and "65536 + (c - 55296) * 1024 + (d - 56320) < 1114112"
  using assms by (auto simp: is_high_def is_low_def)

definition units_ok :: "jsstr \<Rightarrow> bool" where
  "units_ok s \<longleftrightarrow> (\<forall>c \<in> set s. c < 65536)"

lemma encode_uri_char_safe:
  assumes "code_point w = Some p" and "p < 1114112" and "uri_unreserved p \<longrightarrow> w = [p]"
  shows "case encode_uri_char w of None \<Rightarrow> is_surrogate p | Some e \<Rightarrow> \<not> is_surrogate p \<and> list_all header_unit e"
proof (cases "uri_unreserved p")
  case True
  then have "p < 128" "header_unit p" by (auto simp: uri_unreserved_def is_upper_def is_lower_def is_digit_def header_unit_def)
  then show ?thesis using True assms by (auto simp: encode_uri_char_def is_surrogate_def is_high_def is_low_def)
next
  case False
  show ?thesis
  proof (cases "utf8 p")
    case None
    then show ?thesis using False assms by (auto simp: encode_uri_char_def utf8_def split: if_splits)
  next
    case (Some bs)
    then have "list_all header_unit (concat (map percent_byte bs))"
      using utf8_bytes [OF assms(2) Some] percent_byte_safe by (auto simp: list_all_iff)
    moreover have "\<not> is_surrogate p" using Some by (auto simp: utf8_def split: if_splits)
    ultimately show ?thesis using False Some assms by (simp add: encode_uri_char_def)
  qed
qed

lemma encode_chars_safe:
  assumes "units_ok s"
  shows "case encode_chars (chars s) of None \<Rightarrow> \<not> whole s | Some e \<Rightarrow> whole s \<and> list_all header_unit e"
  using assms
proof (induction s rule: chars.induct)
  case (2 c)
  have "c < 1114112" using 2 by (simp add: units_ok_def)
  then have "case encode_uri_char [c] of None \<Rightarrow> is_surrogate c | Some e \<Rightarrow> \<not> is_surrogate c \<and> list_all header_unit e"
    by (intro encode_uri_char_safe) simp_all
  then show ?case
    by (auto simp: header_unit_safe header_unit_def is_surrogate_def is_high_def is_low_def split: option.splits)
next
  case (3 c d s)
  show ?case
  proof (cases "is_high c \<and> is_low d")
    case True
    let ?p = "65536 + (c - 55296) * 1024 + (d - 56320)"
    have p: "code_point [c, d] = Some ?p" "?p < 1114112" "65536 \<le> ?p" using True pair_code_point by auto
    then have big: "\<not> uri_unreserved ?p" "\<not> is_surrogate ?p" "\<not> header_unit ?p"
      by (auto simp: uri_unreserved_def is_upper_def is_lower_def is_digit_def is_surrogate_def is_high_def
          is_low_def header_unit_def)
    have "case encode_uri_char [c, d] of None \<Rightarrow> is_surrogate ?p | Some e \<Rightarrow> \<not> is_surrogate ?p \<and> list_all header_unit e"
      by (rule encode_uri_char_safe) (use p big in simp_all)
    then obtain e where e: "encode_uri_char [c, d] = Some e" "list_all header_unit e"
      using big by (auto split: option.splits)
    have "units_ok s" using 3(3) by (simp add: units_ok_def)
    with 3(1) True e big p(1) show ?thesis
      by (auto simp: header_unit_safe split: option.splits)
  next
    case False
    have "c < 1114112" "units_ok (d # s)" using 3(3) by (auto simp: units_ok_def)
    then have "case encode_uri_char [c] of None \<Rightarrow> is_surrogate c | Some e \<Rightarrow> \<not> is_surrogate c \<and> list_all header_unit e"
      by (intro encode_uri_char_safe) simp_all
    moreover note 3(2) [OF False \<open>units_ok (d # s)\<close>]
    moreover have "header_unit c \<Longrightarrow> \<not> is_surrogate c"
      by (auto simp: header_unit_def is_surrogate_def is_high_def is_low_def)
    ultimately show ?thesis
      using False by (auto simp: header_unit_safe split: option.splits)
  qed
qed simp

lemma header_units_whole: "list_all header_unit s \<Longrightarrow> whole s"
  by (induction s) (auto simp: whole_Cons header_unit_def is_surrogate_def is_high_def is_low_def)

lemma link_recognised:
  assumes "plain_domain cfg" and "assert_claimable_handle cfg handle = Inr h" and "length h \<le> HANDLE_MAX_LENGTH"
    and "port_ok p" and "is_valid_slug slug" and "\<not> is_reserved_handle h reserved"
  shows "build_link_url cfg handle slug = Inr (origin_for cfg (host_for cfg h) @ js ''/'' @ slug) \<and>
    parse_request_target cfg reserved (host_for cfg h @ port_suffix p) (js ''/'' @ slug) = Target_link h slug"
proof -
  have slug: "slug \<noteq> []" "trim slug = slug"
    using valid_slug_length [OF assms(5)] valid_slug_chars [OF assms(5)]
    by (auto intro!: trim_no_space simp: slug_inner_not_space)
  have "parse_handle_from_host cfg (host_for cfg h @ port_suffix p) = Some h"
    using assms(1-4) by (intro parse_host_for) (auto simp: assert_claimable_Inr handle_ok_def)
  moreover have "\<not> matches ONLY_SLASHES (js ''/'' @ slug)"
    using hd_in_set [OF slug(1)] valid_slug_chars [OF assms(5), of 47]
    by (auto simp: ONLY_SLASHES_def matches_Plus_Cls js_def intro!: bexI [of _ "hd slug"])
  ultimately show ?thesis
    using assms slug valid_slug_path [OF assms(5)]
    by (auto simp: build_link_url_def target_link_iff Let_def js_def)
qed

section \<open>Properties\<close>



text \<open>
  C24: an escaped text is inert and bounded: none of the characters that open or close markup or an attribute
  value is left, it has at most 384 units, and it splits no surrogate pair; a text of up to 64 units is escaped
  unit by unit, without a cut.
\<close>

theorem escaped_text_is_inert:
  "set (escape_html s) \<inter> {60, 62, 34, 39, 47} = {} \<and> length (escape_html s) \<le> 384 \<and>
   (whole s \<longrightarrow> whole (escape_html s)) \<and>
   (length s \<le> 64 \<longrightarrow> escape_html s = concat (map escape_unit s))"
proof -
  have "set (escape_html s) \<subseteq> (\<Union>c. set (escape_unit c))"
    using truncate_set by (fastforce simp: escape_html_def Let_def)
  moreover have "set (escape_unit c) \<inter> {60, 62, 34, 39, 47} = {}" for c using escape_unit_cases [of c] by auto
  ultimately have "set (escape_html s) \<inter> {60, 62, 34, 39, 47} = {}" by blast
  moreover have "length (escape_html s) \<le> 384"
    by (simp add: escape_html_def Let_def truncate_length MAX_ESCAPED_HTML_LENGTH_def SLUG_MAX_LENGTH_def
        order_trans [OF truncate_length])
  moreover have "whole s \<Longrightarrow> whole (escape_html s)"
    by (simp add: escape_html_def Let_def whole_truncate whole_escape)
  moreover have "escape_html s = concat (map escape_unit s)" if "length s \<le> 64"
  proof -
    have "length (escape_unit c) \<le> 6" for c using escape_unit_cases [of c] by auto
    then have "length (concat (map escape_unit s)) \<le> 6 * length s" by (induction s) (auto intro: add_mono)
    then show ?thesis using that
      by (simp add: escape_html_def truncate_short MAX_INPUT_LENGTH_def MAX_ESCAPED_HTML_LENGTH_def SLUG_MAX_LENGTH_def)
  qed
  ultimately show ?thesis by blast
qed

theorem escaped_text_is_inert_witness:
  "escape_html (js ''<a/&'') = js ''&lt;a&#x2F;&amp;'' \<and> length (escape_html (js ''<a/&'')) \<le> 384 \<and>
   whole (escape_html (js ''<a/&''))"
proof -
  have "length (js ''<a/&'') \<le> 64" "whole (js ''<a/&'')"
    by (simp_all add: js_def whole_Cons is_surrogate_def is_high_def is_low_def)
  moreover have "concat (map escape_unit (js ''<a/&'')) = js ''&lt;a&#x2F;&amp;''"
    by (simp add: escape_unit_def ESCAPE_ENTITIES_def js_def)
  ultimately show ?thesis using escaped_text_is_inert [of "js ''<a/&''"] by metis
qed

text \<open>
  C23: the Location header cannot be refused by Node nor split by a line break: every encoded destination
  consists of header characters; a destination of such characters is sent unchanged; and the only
  destinations without an encoding are those with an unpaired surrogate.
\<close>

theorem location_is_header_safe:
  assumes "units_ok d"
  shows "(encode_destination_for_header d = None \<longleftrightarrow> \<not> whole d) \<and>
    (\<forall>e. encode_destination_for_header d = Some e \<longrightarrow> list_all header_unit e \<and> 10 \<notin> set e \<and> 13 \<notin> set e) \<and>
    (list_all header_unit d \<longrightarrow> encode_destination_for_header d = Some d)"
proof -
  have "10 \<notin> set e \<and> 13 \<notin> set e" if "list_all header_unit e" for e
    using that by (auto simp: list_all_iff header_unit_def)
  then show ?thesis
    using encode_chars_safe [OF assms] header_units_whole
    by (auto simp: encode_destination_for_header_def safe_pattern_iff split: option.splits)
qed

theorem location_is_header_safe_witness:
  "encode_destination_for_header (js ''https://x.test/'' @ [26085]) = Some (js ''https://x.test/%E6%97%A5'') \<and>
   10 \<notin> set (js ''https://x.test/%E6%97%A5'')"
proof -
  have e: "encode_destination_for_header (js ''https://x.test/'' @ [26085]) = Some (js ''https://x.test/%E6%97%A5'')"
    by (simp add: encode_destination_for_header_def safe_pattern_iff header_unit_def is_header_safe_code_point_def
        str_eval)
  moreover have "units_ok (js ''https://x.test/'' @ [26085])" by (simp add: units_ok_def js_def)
  ultimately show ?thesis using location_is_header_safe by blast
qed

end
