(* ===== verification/Api_Capture.thy ===== *)
theory Api_Capture
  imports Api_Pages Contracts_Capture Contracts_Redact Worker_R2Retry
begin

text \<open>
  What the redirect captures and how it hands the event to the queue (\<open>apps/api/src/redirect/capture.ts\<close>
  and \<open>enqueue.ts\<close>), with the identifiers of \<open>packages/core/src/ulid.ts\<close>. SHA-256, the ULID
  generator of its package, the clock and the queue are parameters.
\<close>

section \<open>Headers\<close>

text \<open>\<open>IncomingHttpHeaders\<close>: a header is absent, a string or an array of strings.\<close>

datatype header_value = One jsstr | Many "jsstr list"

type_synonym http_headers = "(jsstr \<times> header_value) list"

record capture_request =
  rq_method :: "jsstr option"
  rq_headers :: http_headers

definition read_header :: "http_headers \<Rightarrow> jsstr \<Rightarrow> jsstr option" where
  "read_header headers name =
     (case map_of headers name of
        Some (Many values) \<Rightarrow> (case values of [] \<Rightarrow> None | v # _ \<Rightarrow> Some v)
      | Some (One v) \<Rightarrow> Some v
      | None \<Rightarrow> None)"

record prefetch_tells =
  pt_sec_purpose :: "jsstr option"
  pt_purpose :: "jsstr option"
  pt_x_purpose :: "jsstr option"
  pt_x_moz :: "jsstr option"

record header_signals = prefetch_tells +
  hs_http_method :: "jsstr option"
  hs_user_agent :: "jsstr option"
  hs_referer :: "jsstr option"
  hs_accept :: "jsstr option"
  hs_accept_language :: "jsstr option"
  hs_sec_fetch_site :: "jsstr option"
  hs_sec_fetch_mode :: "jsstr option"
  hs_sec_fetch_dest :: "jsstr option"
  hs_sec_fetch_user :: "jsstr option"
  hs_sec_ch_ua :: "jsstr option"
  hs_sec_ch_ua_mobile :: "jsstr option"
  hs_sec_ch_ua_platform :: "jsstr option"

definition read_prefetch_tells :: "http_headers \<Rightarrow> prefetch_tells" where
  "read_prefetch_tells headers =
     \<lparr> pt_sec_purpose = read_header headers (js ''sec-purpose''),
       pt_purpose = read_header headers (js ''purpose''),
       pt_x_purpose = read_header headers (js ''x-purpose''),
       pt_x_moz = read_header headers (js ''x-moz'') \<rparr>"

definition read_signals :: "capture_request \<Rightarrow> header_signals" where
  "read_signals req =
     (let headers = rq_headers req in
      prefetch_tells.extend (read_prefetch_tells headers)
        (header_signals.fields
          (rq_method req)
          (read_header headers (js ''user-agent''))
          (read_header headers (js ''referer''))
          (read_header headers (js ''accept''))
          (read_header headers (js ''accept-language''))
          (read_header headers (js ''sec-fetch-site''))
          (read_header headers (js ''sec-fetch-mode''))
          (read_header headers (js ''sec-fetch-dest''))
          (read_header headers (js ''sec-fetch-user''))
          (read_header headers (js ''sec-ch-ua''))
          (read_header headers (js ''sec-ch-ua-mobile''))
          (read_header headers (js ''sec-ch-ua-platform''))))"

definition leftmost_forwarded_for :: "jsstr \<Rightarrow> jsstr option" where
  "leftmost_forwarded_for value =
     (let leading = trim (hd (split_on 44 value)) in if 0 < length leading then Some leading else None)"

definition read_client_ip :: "http_headers \<Rightarrow> jsstr option" where
  "read_client_ip headers =
     (case read_header headers (js ''cf-connecting-ip'') of
        Some cf_connecting_ip \<Rightarrow>
          if 0 < length cf_connecting_ip then Some cf_connecting_ip
          else Option.bind (read_header headers (js ''x-forwarded-for'')) leftmost_forwarded_for
      | None \<Rightarrow> Option.bind (read_header headers (js ''x-forwarded-for'')) leftmost_forwarded_for)"

section \<open>The visitor hash\<close>

definition VISITOR_HASH_LENGTH :: nat where "VISITOR_HASH_LENGTH = 32"
definition VISITOR_HASH_DELIMITER :: jsstr where "VISITOR_HASH_DELIMITER = [0]"

definition assert_no_hash_delimiter :: "jsstr \<Rightarrow> jsstr \<Rightarrow> unit outcome" where
  "assert_no_hash_delimiter value field =
     (if \<not> str_includes value VISITOR_HASH_DELIMITER then Inr ()
      else Inl (new_error (js ''computeVisitorHash: '' @ field @
        js '' contains the hash delimiter byte; refusing to hash rather than silently colliding at a field boundary. (The offending value is deliberately not included in this message '' @
        [8212] @ js '' see capture.ts for why.)'')))"

definition hash_material :: "jsstr \<Rightarrow> jsstr option \<Rightarrow> jsstr \<Rightarrow> jsstr" where
  "hash_material ip user_agent salt =
     join_with VISITOR_HASH_DELIMITER [ip, case user_agent of None \<Rightarrow> [] | Some ua \<Rightarrow> ua, salt]"

definition compute_visitor_hash ::
  "(jsstr \<Rightarrow> jsstr) \<Rightarrow> jsstr \<Rightarrow> jsstr option \<Rightarrow> jsstr \<Rightarrow> jsstr outcome" where
  "compute_visitor_hash sha256_hex ip user_agent salt =
     (let effective_user_agent = (case user_agent of None \<Rightarrow> [] | Some ua \<Rightarrow> ua) in
      case assert_no_hash_delimiter ip (js ''ip'') of
        Inl e \<Rightarrow> Inl e
      | Inr _ \<Rightarrow>
          (case assert_no_hash_delimiter effective_user_agent (js ''userAgent'') of
             Inl e \<Rightarrow> Inl e
           | Inr _ \<Rightarrow>
               (case assert_no_hash_delimiter salt (js ''salt'') of
                  Inl e \<Rightarrow> Inl e
                | Inr _ \<Rightarrow> Inr (take VISITOR_HASH_LENGTH (sha256_hex (hash_material ip user_agent salt))))))"

section \<open>Identifiers and the payload\<close>

definition ULID_LENGTH :: nat where "ULID_LENGTH = 26"

definition is_ulid :: "(jsstr \<Rightarrow> bool) \<Rightarrow> jsstr \<Rightarrow> bool" where
  "is_ulid is_valid value \<longleftrightarrow> length value = ULID_LENGTH \<and> matches ULID_PATTERN value \<and> is_valid value"

record 's capture_env =
  ce_generate_ulid :: "'s \<Rightarrow> jsstr \<times> 's"
  ce_is_valid :: "jsstr \<Rightarrow> bool"
  ce_now :: "'s \<Rightarrow> int"
  ce_sha256_hex :: "jsstr \<Rightarrow> jsstr"

definition new_id :: "'s capture_env \<Rightarrow> ('s, jsstr) io" where
  "new_id env s =
     (let (generated, s') = ce_generate_ulid env s in
      if \<not> is_ulid (ce_is_valid env) generated then
        (Inl (new_error (js ''ulid's monotonicFactory() produced a malformed id: \"'' @ generated @ js ''\"'')), s')
      else (Inr generated, s'))"

record capture_payload_input =
  ci_tenant_id :: jsstr
  ci_link_id :: jsstr
  ci_slug :: jsstr
  ci_signals :: header_signals
  ci_visitor_hash :: "jsstr option"
  ci_asn :: "js_number option"
  ci_country :: "jsstr option"

definition build_capture_payload :: "'s capture_env \<Rightarrow> capture_payload_input \<Rightarrow> ('s, capture_event) io" where
  "build_capture_payload env i =
     io_bind (new_id env) (\<lambda>event_id s.
       (let h = ci_signals i in
        (Inr \<lparr> ev_event_id = event_id, ev_occurred_at = iso_string (ce_now env s),
           ev_tenant_id = ci_tenant_id i, ev_link_id = ci_link_id i, ev_slug = ci_slug i,
           ev_http_method = hs_http_method h, ev_user_agent = hs_user_agent h, ev_referer = hs_referer h,
           ev_accept = hs_accept h, ev_accept_language = hs_accept_language h,
           ev_sec_fetch_site = hs_sec_fetch_site h, ev_sec_fetch_mode = hs_sec_fetch_mode h,
           ev_sec_fetch_dest = hs_sec_fetch_dest h, ev_sec_fetch_user = hs_sec_fetch_user h,
           ev_sec_purpose = pt_sec_purpose h, ev_sec_ch_ua = hs_sec_ch_ua h,
           ev_sec_ch_ua_mobile = hs_sec_ch_ua_mobile h, ev_sec_ch_ua_platform = hs_sec_ch_ua_platform h,
           ev_purpose = pt_purpose h, ev_x_purpose = pt_x_purpose h, ev_x_moz = pt_x_moz h,
           ev_country = ci_country i, ev_asn = ci_asn i, ev_visitor_hash = ci_visitor_hash i \<rparr>, s)))"

section \<open>The enqueue with its bound\<close>

text \<open>
  The closure of \<open>createEnqueueCapture\<close> keeps \<open>inflight\<close>; the counter of dropped events is a metric.
  \<open>eq_pending\<close> are the \<open>queue.add\<close> calls that have not settled, each with a number. \<open>queue.add\<close> returns a
  promise; a synchronous throw of it is a branch of its own, which leaves \<open>inflight\<close> incremented.
\<close>

definition CAPTURE_JOB_NAME :: jsstr where "CAPTURE_JOB_NAME = js ''capture''"
definition DEFAULT_MAX_INFLIGHT_ENQUEUES :: nat where "DEFAULT_MAX_INFLIGHT_ENQUEUES = 1000"

record enqueue_state =
  eq_inflight :: int
  eq_dropped :: nat
  eq_pending :: "(nat \<times> jsstr \<times> capture_event) list"
  eq_calls :: nat
  eq_settled :: "(nat \<times> unit outcome) list"

definition enqueue_start :: enqueue_state where
  "enqueue_start = \<lparr> eq_inflight = 0, eq_dropped = 0, eq_pending = [], eq_calls = 0, eq_settled = [] \<rparr>"

datatype enqueue_result = Resolved_at_once | Promise_of nat | Thrown_at_once thrown

definition enqueue_capture ::
  "nat option \<Rightarrow> (capture_event \<Rightarrow> thrown option) \<Rightarrow> capture_event \<Rightarrow> enqueue_state \<Rightarrow> enqueue_result \<times> enqueue_state" where
  "enqueue_capture configured_max add_throws payload st =
     (let max_inflight = (case configured_max of Some m \<Rightarrow> m | None \<Rightarrow> DEFAULT_MAX_INFLIGHT_ENQUEUES) in
      if int max_inflight \<le> eq_inflight st then
        (Resolved_at_once, st\<lparr>eq_dropped := Suc (eq_dropped st)\<rparr>)
      else
        let st1 = st\<lparr>eq_inflight := eq_inflight st + 1\<rparr> in
        case add_throws payload of
          Some e \<Rightarrow> (Thrown_at_once e, st1)
        | None \<Rightarrow>
            (Promise_of (eq_calls st),
             st1\<lparr>eq_pending := eq_pending st @ [(eq_calls st, CAPTURE_JOB_NAME, payload)],
                 eq_calls := Suc (eq_calls st)\<rparr>))"

text \<open>The \<open>then\<close> and \<open>finally\<close> of a pending call: its promise settles with the outcome of the add.\<close>

definition add_settles :: "nat \<Rightarrow> unit outcome \<Rightarrow> enqueue_state \<Rightarrow> enqueue_state" where
  "add_settles n r st =
     (if n \<in> fst ` set (eq_pending st) then
        st\<lparr>eq_pending := filter (\<lambda>p. fst p \<noteq> n) (eq_pending st), eq_inflight := eq_inflight st - 1,
           eq_settled := eq_settled st @ [(n, r)]\<rparr>
      else st)"

inductive enqueue_step :: "nat option \<Rightarrow> enqueue_state \<Rightarrow> enqueue_state \<Rightarrow> bool" for limit where
  call: "enqueue_step limit st (snd (enqueue_capture limit (\<lambda>_. None) payload st))"
| settle: "enqueue_step limit st (add_settles n r st)"

inductive_cases enqueue_stepE: "enqueue_step limit st st'"

record enqueue_failure_context =
  fc_event_id :: jsstr
  fc_tenant_id :: jsstr
  fc_slug :: jsstr

definition error_name :: "thrown \<Rightarrow> jsstr" where
  "error_name e = (case e of Err _ n _ _ _ _ _ \<Rightarrow> n | NonErr t _ \<Rightarrow> t)"

definition log_enqueue_failure ::
  "(jsstr \<Rightarrow> url_parts option) \<Rightarrow> (jsstr \<Rightarrow> log_meta \<Rightarrow> 's \<Rightarrow> 's) \<Rightarrow> thrown \<Rightarrow> enqueue_failure_context \<Rightarrow> 's \<Rightarrow> 's" where
  "log_enqueue_failure parse_url logger error context =
     logger (js ''Enqueue failed; the redirect already succeeded, event dropped'')
       [(js ''eventId'', JStr (fc_event_id context)), (js ''tenantId'', JStr (fc_tenant_id context)),
        (js ''slug'', JStr (fc_slug context)), (js ''errorName'', JStr (error_name error)),
        (js ''errorMessage'', JStr (redact_credentials_from_message parse_url (error_message error)))]"

section \<open>Facts\<close>

lemma hash_inputs:
  assumes "compute_visitor_hash sha ip ua salt = Inr h"
  shows "0 \<notin> set ip" and "0 \<notin> set (case ua of None \<Rightarrow> [] | Some u \<Rightarrow> u)" and "0 \<notin> set salt"
    and "h = take 32 (sha (hash_material ip ua salt))"
  using assms
  by (auto simp: compute_visitor_hash_def assert_no_hash_delimiter_def VISITOR_HASH_DELIMITER_def
      VISITOR_HASH_LENGTH_def Let_def split: if_splits option.splits)

definition enqueue_ok :: "nat option \<Rightarrow> enqueue_state \<Rightarrow> bool" where
  "enqueue_ok limit st \<longleftrightarrow>
     eq_inflight st = int (length (eq_pending st)) \<and>
     eq_inflight st \<le> int (case limit of Some m \<Rightarrow> m | None \<Rightarrow> DEFAULT_MAX_INFLIGHT_ENQUEUES) \<and>
     distinct (map fst (eq_pending st) @ map fst (eq_settled st)) \<and>
     set (map fst (eq_pending st) @ map fst (eq_settled st)) = {0..<eq_calls st}"

lemma enqueue_call_ok: "enqueue_ok limit st \<Longrightarrow> enqueue_ok limit (snd (enqueue_capture limit (\<lambda>_. None) payload st))"
  by (auto simp: enqueue_ok_def enqueue_capture_def Let_def)

lemma length_filter_key:
  "distinct (map fst ps) \<Longrightarrow> n \<in> fst ` set ps \<Longrightarrow> Suc (length (filter (\<lambda>p. fst p \<noteq> n) ps)) = length ps"
proof (induction ps)
  case (Cons p ps)
  have "filter (\<lambda>q. fst q \<noteq> fst p) ps = ps" if "fst p \<notin> fst ` set ps"
    using that by (auto intro!: filter_True simp: image_iff)
  with Cons show ?case by auto
qed simp

lemma enqueue_settle_ok:
  assumes "enqueue_ok limit st"
  shows "enqueue_ok limit (add_settles n r st)"
proof (cases "n \<in> fst ` set (eq_pending st)")
  case True
  let ?rest = "filter (\<lambda>p. fst p \<noteq> n) (eq_pending st)"
  have d: "distinct (map fst (eq_pending st))" "distinct (map fst (eq_settled st))"
    "fst ` set (eq_pending st) \<inter> fst ` set (eq_settled st) = {}"
    and s: "fst ` set (eq_pending st) \<union> fst ` set (eq_settled st) = {0..<eq_calls st}"
    using assms by (auto simp: enqueue_ok_def)
  have "fst ` set ?rest = fst ` set (eq_pending st) - {n}" by auto
  moreover have "distinct (map fst ?rest)" using d(1) by (rule distinct_map_filter)
  moreover have "int (length (eq_pending st)) = int (length ?rest) + 1"
    using length_filter_key [OF d(1) True] by simp
  ultimately show ?thesis using True assms d(2,3) s by (auto simp: enqueue_ok_def add_settles_def)
qed (simp add: assms add_settles_def)

lemma enqueue_reachable_ok:
  assumes "(enqueue_step limit)\<^sup>*\<^sup>* enqueue_start st"
  shows "enqueue_ok limit st"
  using assms
proof (induction rule: rtranclp_induct)
  case base
  then show ?case by (simp add: enqueue_ok_def enqueue_start_def)
next
  case (step st st')
  from step.hyps(2) show ?case
    by (rule enqueue_stepE) (simp_all only: enqueue_call_ok [OF step.IH] enqueue_settle_ok [OF step.IH])
qed

section \<open>Properties\<close>

text \<open>
  the visitor hash is computed over a text that determines its ingredients: two computations over the same
  text had the same address, the same user agent (an absent one counts as empty) and the same salt.
\<close>

theorem visitor_hash_is_unambiguous:
  assumes "compute_visitor_hash sha ip ua salt = Inr h" and "compute_visitor_hash sha ip' ua' salt' = Inr h'"
    and "hash_material ip ua salt = hash_material ip' ua' salt'"
  shows "ip = ip' \<and> (case ua of None \<Rightarrow> [] | Some u \<Rightarrow> u) = (case ua' of None \<Rightarrow> [] | Some u \<Rightarrow> u) \<and>
    salt = salt' \<and> h = h'"
proof -
  have "split_on 0 (join_with [0] ws) = ws" if "\<forall>w \<in> set ws. 0 \<notin> set w" "ws \<noteq> []" for ws
    using that by (intro split_join) auto
  note parts = this
  have "[ip, case ua of None \<Rightarrow> [] | Some u \<Rightarrow> u, salt] = split_on 0 (hash_material ip ua salt)"
    unfolding hash_material_def VISITOR_HASH_DELIMITER_def
    using hash_inputs(1-3) [OF assms(1)] by (intro parts [symmetric]) auto
  also have "\<dots> = [ip', case ua' of None \<Rightarrow> [] | Some u \<Rightarrow> u, salt']"
    unfolding assms(3) unfolding hash_material_def VISITOR_HASH_DELIMITER_def
    using hash_inputs(1-3) [OF assms(2)] by (intro parts) auto
  finally show ?thesis using hash_inputs(4) [OF assms(1)] hash_inputs(4) [OF assms(2)] assms(3) by simp
qed

theorem visitor_hash_is_unambiguous_witness:
  "compute_visitor_hash rev [49] None [57] = Inr [57, 0, 0, 49] \<and>
   compute_visitor_hash rev [49] (Some []) [57] = Inr [57, 0, 0, 49] \<and> [57::nat] = [57]"
proof -
  have h: "compute_visitor_hash rev [49] None [57] = Inr [57, 0, 0, 49]"
    "compute_visitor_hash rev [49] (Some []) [57] = Inr [57, 0, 0, 49]"
    by (simp_all add: compute_visitor_hash_def assert_no_hash_delimiter_def VISITOR_HASH_DELIMITER_def
        hash_material_def VISITOR_HASH_LENGTH_def)
  moreover have "hash_material [49] None [57] = hash_material [49] (Some []) [57]" by (simp add: hash_material_def)
  ultimately show ?thesis using visitor_hash_is_unambiguous by blast
qed

lemma built_payload_is_valid:
  assumes "build_capture_payload env i s = (Inr e, s')" and "\<And>t. z_datetime (iso_string t)"
    and "ci_tenant_id i \<noteq> []" and "ci_link_id i \<noteq> []" and "ci_slug i \<noteq> []"
  shows "valid_capture z_datetime e"
proof -
  obtain g s2 where "ce_generate_ulid env s = (g, s2)" by fastforce
  then show ?thesis
    using assms by (auto simp: build_capture_payload_def new_id_def io_apps valid_capture_def is_ulid_def Let_def
        split: if_splits)
qed


definition example_capture_env :: "nat capture_env" where
  "example_capture_env =
     \<lparr> ce_generate_ulid = (\<lambda>n. (js ''01ARZ3NDEKTSV4RRFFQ69G5FAV'', n)), ce_is_valid = (\<lambda>_. True),
       ce_now = (\<lambda>_. 0), ce_sha256_hex = rev \<rparr>"

definition example_capture_input :: capture_payload_input where
  "example_capture_input =
     \<lparr> ci_tenant_id = [49], ci_link_id = [50], ci_slug = js ''promo'',
       ci_signals = read_signals \<lparr> rq_method = Some (js ''GET''),
         rq_headers = [(js ''user-agent'', One (js ''curl'')), (js ''referer'', Many [])] \<rparr>,
       ci_visitor_hash = None, ci_asn = Some (Whole 64500), ci_country = Some (js ''ES'') \<rparr>"


text \<open>
  C27: however calls and settlements of the queue interleave, \<open>inflight\<close> is the number of adds that have not
  settled and never exceeds its limit; every add that was started is pending or has settled, once; and when
  nothing is pending the next event is not dropped (with a positive limit).
\<close>

theorem enqueue_is_bounded:
  assumes "(enqueue_step limit)\<^sup>*\<^sup>* enqueue_start st"
  shows "eq_inflight st = int (length (eq_pending st)) \<and>
    length (eq_pending st) \<le> (case limit of Some m \<Rightarrow> m | None \<Rightarrow> 1000) \<and>
    distinct (map fst (eq_pending st) @ map fst (eq_settled st)) \<and>
    length (eq_pending st) + length (eq_settled st) = eq_calls st \<and>
    (eq_pending st = [] \<longrightarrow> limit \<noteq> Some 0 \<longrightarrow>
       fst (enqueue_capture limit (\<lambda>_. None) payload st) = Promise_of (eq_calls st))"
proof -
  note ok = enqueue_reachable_ok [OF assms]
  have "length (map fst (eq_pending st) @ map fst (eq_settled st)) = eq_calls st"
    using ok distinct_card [of "map fst (eq_pending st) @ map fst (eq_settled st)"] by (simp add: enqueue_ok_def)
  then show ?thesis
    using ok by (auto simp: enqueue_ok_def enqueue_capture_def DEFAULT_MAX_INFLIGHT_ENQUEUES_def Let_def
        split: option.splits)
qed

text \<open>With a limit of one, the second of two calls is dropped.\<close>

theorem enqueue_is_bounded_witness:
  "\<exists>st. (enqueue_step (Some 1))\<^sup>*\<^sup>* enqueue_start st \<and> eq_dropped st = 1 \<and> eq_inflight st = 1 \<and>
     length (eq_pending st) \<le> 1 \<and> length (eq_pending st) + length (eq_settled st) = eq_calls st"
proof -
  define st where "st = snd (enqueue_capture (Some 1) (\<lambda>_. None) undefined
    (snd (enqueue_capture (Some 1) (\<lambda>_. None) undefined enqueue_start)))"
  have r: "(enqueue_step (Some 1))\<^sup>*\<^sup>* enqueue_start st"
    unfolding st_def
    by (rule rtranclp.rtrancl_into_rtrancl, rule r_into_rtranclp, rule enqueue_step.call, rule enqueue_step.call)
  have "eq_dropped st = 1" "eq_inflight st = 1" by (simp_all add: st_def enqueue_capture_def enqueue_start_def)
  then show ?thesis using r enqueue_is_bounded [OF r] by (intro exI [of _ st]) auto
qed

end
