(* ===== verification/Api_Redirect.thy ===== *)
theory Api_Redirect
  imports Api_Capture Core_Db
begin

text \<open>
  The redirect middleware (\<open>apps/api/src/redirect/middleware.ts\<close>): classifying a request, resolving it,
  answering it, and only then capturing it. Its collaborators are the fields of a record, as in the
  code; they work on the world \<open>'w\<close> and never receive the response.
\<close>

section \<open>State and collaborators\<close>

record 'w http_state =
  ht_response :: response
  ht_world :: 'w

definition on_response :: "(response, 'a) io \<Rightarrow> ('w http_state, 'a) io" where
  "on_response m s = (let (r, p) = m (ht_response s) in (r, s\<lparr>ht_response := p\<rparr>))"

definition on_world :: "('w, 'a) io \<Rightarrow> ('w http_state, 'a) io" where
  "on_world m s = (let (r, w) = m (ht_world s) in (r, s\<lparr>ht_world := w\<rparr>))"

record http_request = capture_request +
  hr_host :: "jsstr option"
  hr_path :: jsstr

record network_lookup =
  nl_asn :: "js_number option"
  nl_country :: "jsstr option"

text \<open>
  \<open>rd_enqueue\<close>: the outer outcome is what the call does, the inner one how its promise settles.
\<close>

record 'w redirect_deps =
  rd_parse_request_target :: "jsstr \<Rightarrow> jsstr \<Rightarrow> request_target"
  rd_error :: "jsstr \<Rightarrow> log_meta \<Rightarrow> 'w \<Rightarrow> 'w"
  rd_handle_root_hit :: "'w \<Rightarrow> 'w"
  rd_resolve_tenant :: "jsstr \<Rightarrow> ('w, jsstr option) io"
  rd_resolve_link :: "jsstr \<Rightarrow> jsstr \<Rightarrow> ('w, cached_link option) io"
  rd_lookup_network :: "jsstr \<Rightarrow> jsstr option \<Rightarrow> ('w, network_lookup) io"
  rd_get_daily_salt :: "('w, jsstr) io"
  rd_enqueue_capture :: "capture_event \<Rightarrow> ('w, unit outcome) io"
  rd_open_redirect_rejected :: "'w \<Rightarrow> 'w"
  rd_render_not_found :: "jsstr \<Rightarrow> jsstr"
  rd_z_url :: "jsstr \<Rightarrow> (jsstr \<times> jsstr) option"
  rd_parse_url :: "jsstr \<Rightarrow> url_parts option"
  rd_capture_env :: "'w capture_env"

section \<open>Answers\<close>

definition NOT_FOUND_CSP :: jsstr where
  "NOT_FOUND_CSP = js ''default-src 'none'; style-src 'unsafe-inline'; frame-ancestors 'none'' @ [39]"

definition send_not_found :: "'w redirect_deps \<Rightarrow> jsstr \<Rightarrow> ('w http_state, unit) io" where
  "send_not_found deps slug =
     on_response
       (io_then (set_header (js ''Cache-Control'') (js ''no-store''))
         (io_then (set_header (js ''Content-Type'') (js ''text/html; charset=utf-8''))
           (io_then (set_header (js ''Content-Security-Policy'') NOT_FOUND_CSP)
             (io_then (set_header (js ''X-Content-Type-Options'') (js ''nosniff''))
               (end_with 404 (rd_render_not_found deps slug))))))"

definition describe_requested_path :: "jsstr \<Rightarrow> jsstr" where
  "describe_requested_path path = (if starts_with path (js ''/'') then drop 1 path else path)"

definition REJECTED_SCHEME_MAX_LENGTH :: nat where "REJECTED_SCHEME_MAX_LENGTH = 32"

text \<open>\<open>/^([a-zA-Z][a-zA-Z0-9+.-]*):/\<close>; the class has no colon, so the match is unique.\<close>

definition rejected_scheme_match :: "jsstr \<Rightarrow> jsstr option" where
  "rejected_scheme_match s =
     (case s of
        [] \<Rightarrow> None
      | c # _ \<Rightarrow>
          if is_alpha c \<and> starts_with (dropWhile scheme_char s) (js '':'') then Some (takeWhile scheme_char s)
          else None)"

definition describe_rejected_scheme :: "jsstr \<Rightarrow> jsstr" where
  "describe_rejected_scheme destination =
     (if starts_with destination (js ''//'') then js ''(protocol-relative)''
      else
        (case rejected_scheme_match destination of
           None \<Rightarrow> js ''(no scheme)''
         | Some scheme \<Rightarrow>
             if length scheme \<le> REJECTED_SCHEME_MAX_LENGTH then scheme
             else take REJECTED_SCHEME_MAX_LENGTH scheme @ [8230]))"

section \<open>A link\<close>

definition error_type_meta :: "thrown \<Rightarrow> log_meta" where
  "error_type_meta error = [(js ''errorType'', JStr (error_type error))]"

text \<open>The first \<open>try\<close>: \<open>None\<close> when the 404 has been sent.\<close>

definition resolve_target ::
  "'w redirect_deps \<Rightarrow> jsstr \<Rightarrow> jsstr \<Rightarrow> ('w http_state, (jsstr \<times> cached_link) option) io" where
  "resolve_target deps handle slug =
     io_catch
       (io_bind (on_world (rd_resolve_tenant deps handle)) (\<lambda>tenant_id.
          case tenant_id of
            None \<Rightarrow> io_then (send_not_found deps slug) (io_return None)
          | Some t \<Rightarrow>
              io_bind (on_world (rd_resolve_link deps t slug)) (\<lambda>link.
                case link of
                  None \<Rightarrow> io_then (send_not_found deps slug) (io_return None)
                | Some l \<Rightarrow> io_return (Some (t, l)))))
       (\<lambda>error.
          io_then (on_world (io_do (rd_error deps
              (js ''Link resolution failed; answering 404 rather than leaving the request hanging'')
              (error_type_meta error @ [(js ''handle'', JStr handle), (js ''slug'', JStr slug)]))))
            (io_then (send_not_found deps slug) (io_return None)))"

definition cf_country :: "http_headers \<Rightarrow> jsstr option" where
  "cf_country headers = (case map_of headers (js ''cf-ipcountry'') of Some (One v) \<Rightarrow> Some v | _ \<Rightarrow> None)"

text \<open>The second \<open>try\<close>, after the 307.\<close>

definition capture_click ::
  "'w redirect_deps \<Rightarrow> http_request \<Rightarrow> jsstr \<Rightarrow> jsstr \<Rightarrow> cached_link \<Rightarrow> ('w, unit) io" where
  "capture_click deps req tenant_id slug link =
     (let ip = read_client_ip (rq_headers req); signals = read_signals (capture_request.truncate req) in
      io_bind (rd_lookup_network deps (case ip of None \<Rightarrow> [] | Some a \<Rightarrow> a) (cf_country (rq_headers req))) (\<lambda>network.
        io_bind (rd_get_daily_salt deps) (\<lambda>salt.
          io_bind
            (case ip of
               Some a \<Rightarrow>
                 if a \<noteq> [] then
                   (case compute_visitor_hash (ce_sha256_hex (rd_capture_env deps)) a (hs_user_agent signals) salt of
                      Inl e \<Rightarrow> io_throw e
                    | Inr h \<Rightarrow> io_return (Some h))
                 else io_return None
             | None \<Rightarrow> io_return None) (\<lambda>visitor_hash.
            io_bind (build_capture_payload (rd_capture_env deps)
                \<lparr> ci_tenant_id = tenant_id, ci_link_id = cl_link_id link, ci_slug = slug, ci_signals = signals,
                  ci_visitor_hash = visitor_hash, ci_asn = nl_asn network, ci_country = nl_country network \<rparr>)
              (\<lambda>payload.
                io_bind (rd_enqueue_capture deps payload) (\<lambda>settled.
                  case settled of
                    Inr _ \<Rightarrow> io_return ()
                  | Inl error \<Rightarrow>
                      io_do (log_enqueue_failure (rd_parse_url deps) (rd_error deps) error
                        \<lparr> fc_event_id = ev_event_id payload, fc_tenant_id = tenant_id, fc_slug = slug \<rparr>)))))))"

definition handle_link_target ::
  "'w redirect_deps \<Rightarrow> jsstr \<Rightarrow> jsstr \<Rightarrow> http_request \<Rightarrow> ('w http_state, unit) io" where
  "handle_link_target deps handle slug req =
     io_bind (resolve_target deps handle slug) (\<lambda>target.
       case target of
         None \<Rightarrow> io_return ()
       | Some (tenant_id, link) \<Rightarrow>
           (case z_destination (rd_z_url deps) (cl_destination link) of
              None \<Rightarrow>
                io_then (on_world (io_do (rd_error deps
                    (js ''Resolved destination failed the read-time open-redirect guard; refusing to redirect. A destination this deployment itself validates at write time should never reach here '' @
                     [8212] @ js '' this means a Redis or Postgres value was written to directly, bypassing every application-level check.'')
                    [(js ''linkId'', JStr (cl_link_id link)),
                     (js ''rejectedScheme'', JStr (describe_rejected_scheme (cl_destination link)))])))
                  (io_then (on_world (io_do (rd_open_redirect_rejected deps))) (send_not_found deps slug))
            | Some destination \<Rightarrow>
                io_bind (on_response (send_link_redirect destination)) (\<lambda>redirected.
                  if \<not> redirected then send_not_found deps slug
                  else
                    io_catch (on_world (capture_click deps req tenant_id slug link)) (\<lambda>error.
                      on_world (io_do (rd_error deps
                        (js ''Capture failed; the redirect already succeeded, no analytics for this request'')
                        (error_type_meta error @
                         [(js ''tenantId'', JStr tenant_id), (js ''slug'', JStr slug)])))))))"

section \<open>The middleware\<close>

datatype express_result = Called_next | Answered

definition redirect_middleware :: "'w redirect_deps \<Rightarrow> http_request \<Rightarrow> ('w http_state, express_result) io" where
  "redirect_middleware deps req =
     (case rd_parse_request_target deps (case hr_host req of None \<Rightarrow> [] | Some h \<Rightarrow> h) (hr_path req) of
        Not_ours \<Rightarrow> io_return Called_next
      | Handle_root handle \<Rightarrow>
          io_then (on_world (io_do (rd_error deps
              (js ''Handle-root hit for \"'' @ handle @ js ''\" '' @ [8212] @
               js '' \"/\" on a tenant handle host reached the API. The Cloudflare Origin Rule (path == \"/\" -> Next) is supposed to route this request to the bio page before it ever gets here; a real visitor is seeing a 404 that should have been their bio page.'')
              [(js ''handle'', JStr handle)])))
            (io_then (on_world (io_do (rd_handle_root_hit deps)))
              (io_then (send_not_found deps []) (io_return Answered)))
      | Target_link handle slug \<Rightarrow>
          io_then
            (io_catch (handle_link_target deps handle slug req) (\<lambda>error.
               on_world (io_do (rd_error deps
                 (js ''handleLinkTarget rejected unexpectedly '' @ [8212] @
                  js '' this should be structurally impossible; its own two try/catch blocks are meant to cover every throw. See this case's own comment.'')
                 (error_type_meta error)))))
            (io_return Answered)
      | Reserved_path \<Rightarrow>
          io_then (send_not_found deps (describe_requested_path (hr_path req))) (io_return Answered)
      | Invalid_path \<Rightarrow>
          io_then (send_not_found deps (describe_requested_path (hr_path req))) (io_return Answered)
      | Reserved_handle handle \<Rightarrow> io_then (send_not_found deps []) (io_return Answered))"

section \<open>What each request is answered\<close>

definition page_response :: "'w redirect_deps \<Rightarrow> jsstr \<Rightarrow> response" where
  "page_response deps slug =
     \<lparr> rp_headers =
         [(js ''Cache-Control'', js ''no-store''), (js ''Content-Type'', js ''text/html; charset=utf-8''),
          (js ''Content-Security-Policy'', NOT_FOUND_CSP), (js ''X-Content-Type-Options'', js ''nosniff'')],
       rp_status = 404, rp_ended = [(404, rd_render_not_found deps slug)] \<rparr>"

definition redirect_response :: "jsstr \<Rightarrow> response" where
  "redirect_response location =
     \<lparr> rp_headers = [(js ''Cache-Control'', js ''no-store''), (js ''Location'', location)],
       rp_status = 307, rp_ended = [(307, [])] \<rparr>"

text \<open>The link that resolution finds, and the location that is sent for it.\<close>

definition resolved_link :: "'w redirect_deps \<Rightarrow> jsstr \<Rightarrow> jsstr \<Rightarrow> 'w \<Rightarrow> (jsstr \<times> cached_link) option" where
  "resolved_link deps handle slug w =
     (case rd_resolve_tenant deps handle w of
        (Inr (Some t), w1) \<Rightarrow>
          (case fst (rd_resolve_link deps t slug w1) of Inr (Some l) \<Rightarrow> Some (t, l) | _ \<Rightarrow> None)
      | _ \<Rightarrow> None)"

definition location_for :: "'w redirect_deps \<Rightarrow> jsstr \<Rightarrow> jsstr \<Rightarrow> 'w \<Rightarrow> jsstr option" where
  "location_for deps handle slug w =
     (case resolved_link deps handle slug w of
        None \<Rightarrow> None
      | Some (_, l) \<Rightarrow>
          Option.bind (z_destination (rd_z_url deps) (cl_destination l)) encode_destination_for_header)"

definition request_target_of :: "'w redirect_deps \<Rightarrow> http_request \<Rightarrow> request_target" where
  "request_target_of deps req =
     rd_parse_request_target deps (case hr_host req of None \<Rightarrow> [] | Some h \<Rightarrow> h) (hr_path req)"

definition expected_response :: "'w redirect_deps \<Rightarrow> http_request \<Rightarrow> 'w \<Rightarrow> response" where
  "expected_response deps req w =
     (case request_target_of deps req of
        Not_ours \<Rightarrow> fresh_response
      | Target_link handle slug \<Rightarrow>
          (case location_for deps handle slug w of
             Some location \<Rightarrow> redirect_response location
           | None \<Rightarrow> page_response deps slug)
      | Handle_root _ \<Rightarrow> page_response deps []
      | Reserved_handle _ \<Rightarrow> page_response deps []
      | _ \<Rightarrow> page_response deps (describe_requested_path (hr_path req)))"

lemma set_header_ok:
  "rp_ended r = [] \<Longrightarrow> list_all header_unit v \<Longrightarrow>
   set_header n v r = (Inr (), r\<lparr>rp_headers := map_set n v (rp_headers r)\<rparr>)"
  by (simp add: set_header_def)

lemma fixed_header_values:
  "list_all header_unit (js ''no-store'')" "list_all header_unit (js ''text/html; charset=utf-8'')"
  "list_all header_unit NOT_FOUND_CSP" "list_all header_unit (js ''nosniff'')"
  by (simp_all add: NOT_FOUND_CSP_def js_def header_unit_def)

lemma send_not_found_fresh:
  assumes "ht_response s = fresh_response"
  shows "send_not_found deps slug s = (Inr (), s\<lparr>ht_response := page_response deps slug\<rparr>)"
  by (simp add: send_not_found_def on_response_def assms io_then_app set_header_ok fixed_header_values
      fresh_response_def end_with_def page_response_def map_set_def)

lemma send_redirect_fresh:
  assumes "units_ok d"
  shows "send_link_redirect d fresh_response =
    (case encode_destination_for_header d of
       None \<Rightarrow> (Inr False, fresh_response) | Some e \<Rightarrow> (Inr True, redirect_response e))"
  using encode_chars_safe [OF assms]
  by (auto simp: send_link_redirect_def io_then_app set_header_ok fixed_header_values fresh_response_def end_with_def
      redirect_response_def map_set_def encode_destination_for_header_def safe_pattern_iff split: option.splits)

lemma on_world_response [simp]: "ht_response (snd (on_world m s)) = ht_response s"
  by (simp add: on_world_def case_prod_unfold Let_def)

lemma on_world_fst [simp]: "fst (on_world m s) = fst (m (ht_world s))"
  by (simp add: on_world_def case_prod_unfold Let_def)

lemma on_world_world [simp]: "ht_world (snd (on_world m s)) = snd (m (ht_world s))"
  by (simp add: on_world_def case_prod_unfold Let_def)

lemma on_world_do: "on_world (io_do f) s = (Inr (), s\<lparr>ht_world := f (ht_world s)\<rparr>)"
  by (simp add: on_world_def)

lemma resolve_target_fresh:
  assumes "ht_response s = fresh_response"
  shows "fst (resolve_target deps handle slug s) = Inr (resolved_link deps handle slug (ht_world s)) \<and>
    ht_response (snd (resolve_target deps handle slug s)) =
      (if resolved_link deps handle slug (ht_world s) = None then page_response deps slug else fresh_response)"
  using assms
  by (simp add: resolve_target_def io_apps send_not_found_fresh on_world_do resolved_link_def case_prod_unfold
      split: sum.split option.split)

text \<open>What the URL check returns is a JavaScript string: its units have 16 bits.\<close>

definition urls_are_text :: "'w redirect_deps \<Rightarrow> bool" where
  "urls_are_text deps \<longleftrightarrow> (\<forall>s scheme v. rd_z_url deps s = Some (scheme, v) \<longrightarrow> units_ok v)"

lemma on_response_app: "on_response m s = (fst (m (ht_response s)), s\<lparr>ht_response := snd (m (ht_response s))\<rparr>)"
  by (simp add: on_response_def case_prod_unfold Let_def)

lemma handle_link_target_fresh:
  assumes "ht_response s = fresh_response" and "urls_are_text deps"
  shows "fst (handle_link_target deps handle slug req s) = Inr () \<and>
    ht_response (snd (handle_link_target deps handle slug req s)) =
      (case location_for deps handle slug (ht_world s) of
         Some location \<Rightarrow> redirect_response location | None \<Rightarrow> page_response deps slug)"
proof -
  obtain s1 where r: "resolve_target deps handle slug s = (Inr (resolved_link deps handle slug (ht_world s)), s1)"
    "ht_response s1 =
      (if resolved_link deps handle slug (ht_world s) = None then page_response deps slug else fresh_response)"
    using resolve_target_fresh [OF assms(1)] by (metis prod.collapse)
  show ?thesis
  proof (cases "resolved_link deps handle slug (ht_world s)")
    case None
    then show ?thesis using r by (simp add: handle_link_target_def io_bind_app location_for_def)
  next
    case (Some p)
    obtain t l where p: "p = (t, l)" by fastforce
    show ?thesis
    proof (cases "z_destination (rd_z_url deps) (cl_destination l)")
      case None
      then show ?thesis using r Some p
        by (simp add: handle_link_target_def io_bind_app location_for_def io_then_app on_world_do send_not_found_fresh)
    next
      case (Some d)
      then have "units_ok d" using assms(2) by (auto simp: z_destination_Some urls_are_text_def)
      then show ?thesis
        using r Some \<open>resolved_link deps handle slug (ht_world s) = Some p\<close> p
        by (simp add: handle_link_target_def io_apps location_for_def send_redirect_fresh on_response_app
            send_not_found_fresh on_world_do split: option.split sum.split)
    qed
  qed
qed

lemma middleware_fresh:
  assumes "ht_response s = fresh_response" and "urls_are_text deps"
  shows "fst (redirect_middleware deps req s) = Inr (if request_target_of deps req = Not_ours then Called_next else Answered) \<and>
    ht_response (snd (redirect_middleware deps req s)) = expected_response deps req (ht_world s)"
proof (cases "request_target_of deps req")
  case (Target_link handle slug)
  then show ?thesis
    using handle_link_target_fresh [OF assms, where handle = handle and slug = slug and req = req]
    by (simp add: redirect_middleware_def request_target_of_def expected_response_def io_apps)
qed (use assms(1) in \<open>simp_all add: redirect_middleware_def request_target_of_def expected_response_def io_then_app
    send_not_found_fresh on_world_do\<close>)

section \<open>Properties\<close>

text \<open>
  C3: the middleware refines a plain description of its answers. Whatever its collaborators do or throw, it never
  rejects, and the response is exactly \<open>expected_response\<close>, which depends on the request, on the two resolvers and
  on the page renderer only: not on the address lookup, the salt, the queue or anything else of the capture. Every
  response is ended exactly once, unless the request is passed on untouched.
\<close>

theorem redirect_answers:
  assumes "ht_response s = fresh_response" and "urls_are_text deps"
  shows "fst (redirect_middleware deps req s) =
      Inr (if request_target_of deps req = Not_ours then Called_next else Answered) \<and>
    ht_response (snd (redirect_middleware deps req s)) = expected_response deps req (ht_world s) \<and>
    length (rp_ended (ht_response (snd (redirect_middleware deps req s)))) =
      (if request_target_of deps req = Not_ours then 0 else 1)"
proof -
  have "length (rp_ended (expected_response deps req w)) = (if request_target_of deps req = Not_ours then 0 else 1)" for w
    by (simp add: expected_response_def fresh_response_def page_response_def redirect_response_def
        split: request_target.split option.split)
  then show ?thesis using middleware_fresh [OF assms, where req = req] by simp
qed

definition example_redirect_deps :: "nat redirect_deps" where
  "example_redirect_deps =
     \<lparr> rd_parse_request_target = parse_request_target example_config RESERVED_HANDLES,
       rd_error = (\<lambda>_ _ w. w), rd_handle_root_hit = id,
       rd_resolve_tenant = (\<lambda>handle w. (Inr (if handle = js ''ana'' then Some [50] else None), w)),
       rd_resolve_link = (\<lambda>t slug w. (Inr (Some \<lparr> cl_link_id = [49], cl_tenant_id = t, cl_destination = js ''https://x.test'' \<rparr>), w)),
       rd_lookup_network = (\<lambda>ip cf w. (Inl (new_error (js ''no database'')), w)),
       rd_get_daily_salt = (\<lambda>w. (Inr [57], w)),
       rd_enqueue_capture = (\<lambda>e w. (Inr (Inr ()), Suc w)),
       rd_open_redirect_rejected = id, rd_render_not_found = render_not_found example_config,
       rd_z_url = (\<lambda>s. if s = js ''https://x.test'' then Some (js ''https'', s) else None),
       rd_parse_url = (\<lambda>_. None), rd_capture_env = example_capture_env \<rparr>"

definition example_request :: http_request where
  "example_request =
     \<lparr> rq_method = Some (js ''GET''), rq_headers = [(js ''x-forwarded-for'', One (js '' 198.51.100.7, 10.0.0.1''))],
       hr_host = Some (js ''ana.posta.example''), hr_path = js ''/promo'' \<rparr>"

lemma example_target: "request_target_of example_redirect_deps example_request = Target_link (js ''ana'') (js ''promo'')"
proof -
  have "plain_domain example_config" "assert_claimable_handle example_config (js ''ana'') = Inr (js ''ana'')"
    "length (js ''ana'') \<le> HANDLE_MAX_LENGTH" "\<not> is_reserved_handle (js ''ana'') RESERVED_HANDLES"
    by (simp_all add: domain_eval is_reserved_handle_def normalize_handle_def RESERVED_HANDLES_def)
  then have "parse_handle_from_host example_config (host_for example_config (js ''ana'') @ port_suffix None) = Some (js ''ana'')"
    by (intro parse_host_for) (auto simp: assert_claimable_Inr handle_ok_def port_ok_def)
  moreover have "host_for example_config (js ''ana'') @ port_suffix None = js ''ana.posta.example''"
    by (simp add: host_for_def example_config_def normalize_label_def str_eval)
  moreover have slug: "is_valid_slug (js ''promo'')"
    by (simp add: is_valid_slug_pattern slug_pattern_iff slug_end_def slug_inner_def str_eval)
  moreover have "js ''/promo'' = js ''/'' @ js ''promo''" by (simp add: js_def)
  ultimately show ?thesis
    using valid_slug_path [OF slug] \<open>\<not> is_reserved_handle (js ''ana'') RESERVED_HANDLES\<close>
    by (simp add: request_target_of_def example_redirect_deps_def example_request_def target_link_iff)
      (simp add: ONLY_SLASHES_def matches_Plus_Cls js_def)
qed

lemma example_deps_units: "urls_are_text example_redirect_deps"
  by (auto simp: urls_are_text_def example_redirect_deps_def units_ok_def js_def split: if_splits)

lemma example_expected:
  "expected_response example_redirect_deps example_request 0 = redirect_response (js ''https://x.test'')"
proof -
  have "encode_destination_for_header (js ''https://x.test'') = Some (js ''https://x.test'')"
    by (simp add: encode_destination_for_header_def safe_pattern_iff header_unit_def js_def)
  moreover have "z_destination (rd_z_url example_redirect_deps) (js ''https://x.test'') = Some (js ''https://x.test'')"
    by (simp add: z_destination_Some example_redirect_deps_def DESTINATION_MAX_LENGTH_def)
  moreover have "resolved_link example_redirect_deps (js ''ana'') (js ''promo'') 0 =
      Some ([50], \<lparr> cl_link_id = [49], cl_tenant_id = [50], cl_destination = js ''https://x.test'' \<rparr>)"
    by (simp add: resolved_link_def example_redirect_deps_def)
  ultimately show ?thesis by (simp add: expected_response_def example_target location_for_def)
qed

theorem redirect_answers_witness:
  "fst (redirect_middleware example_redirect_deps example_request \<lparr> ht_response = fresh_response, ht_world = 0 \<rparr>) = Inr Answered \<and>
   ht_response (snd (redirect_middleware example_redirect_deps example_request
     \<lparr> ht_response = fresh_response, ht_world = 0 \<rparr>)) = redirect_response (js ''https://x.test'')"
  using redirect_answers [of "\<lparr> ht_response = fresh_response, ht_world = 0 \<rparr>" example_redirect_deps example_request]
    example_deps_units example_target example_expected
  by simp

text \<open>
  C4: there is no open redirect: a response has a Location header only when it is the 307 for a link that the resolvers
  returned for the host's handle and the path's slug; its destination passed the http(s) check, and the header is that
  destination, encoded to characters that cannot break the header.
\<close>

theorem no_open_redirect:
  assumes "ht_response s = fresh_response" and "urls_are_text deps"
    and "map_get (rp_headers (ht_response (snd (redirect_middleware deps req s)))) (js ''Location'') = Some location"
  shows "\<exists>handle slug tenant_id link scheme destination.
    request_target_of deps req = Target_link handle slug \<and>
    resolved_link deps handle slug (ht_world s) = Some (tenant_id, link) \<and>
    rd_z_url deps (cl_destination link) = Some (scheme, destination) \<and> scheme \<in> {js ''http'', js ''https''} \<and>
    encode_destination_for_header destination = Some location \<and> list_all header_unit location \<and>
    rp_ended (ht_response (snd (redirect_middleware deps req s))) = [(307, [])]"
proof -
  have loc: "map_get (rp_headers (expected_response deps req (ht_world s))) (js ''Location'') = Some location"
    using assms(3) middleware_fresh [OF assms(1,2), where req = req] by simp
  then obtain handle slug where target: "request_target_of deps req = Target_link handle slug"
    by (auto simp: expected_response_def page_response_def fresh_response_def split: request_target.splits)
  with loc have l: "location_for deps handle slug (ht_world s) = Some location"
    by (auto simp: expected_response_def page_response_def redirect_response_def split: option.splits)
  then obtain t link d where link: "resolved_link deps handle slug (ht_world s) = Some (t, link)"
    "z_destination (rd_z_url deps) (cl_destination link) = Some d" "encode_destination_for_header d = Some location"
    by (auto simp: location_for_def bind_eq_Some_conv split: option.splits)
  then obtain scheme where z: "rd_z_url deps (cl_destination link) = Some (scheme, d)" "scheme \<in> {js ''http'', js ''https''}"
    by (auto simp: z_destination_Some)
  have "list_all header_unit location"
    using encode_chars_safe [of d] assms(2) z(1) link(3)
    by (auto simp: urls_are_text_def encode_destination_for_header_def safe_pattern_iff split: if_splits option.splits)
  moreover have "rp_ended (ht_response (snd (redirect_middleware deps req s))) = [(307, [])]"
    using middleware_fresh [OF assms(1,2), where req = req] target l by (simp add: expected_response_def redirect_response_def)
  ultimately show ?thesis using target link z by blast
qed

theorem no_open_redirect_witness:
  "\<exists>handle slug tenant_id link scheme destination.
    request_target_of example_redirect_deps example_request = Target_link handle slug \<and>
    resolved_link example_redirect_deps handle slug 0 = Some (tenant_id, link) \<and>
    rd_z_url example_redirect_deps (cl_destination link) = Some (scheme, destination) \<and>
    encode_destination_for_header destination = Some (js ''https://x.test'')"
proof -
  let ?s = "\<lparr> ht_response = fresh_response, ht_world = 0 \<rparr>"
  have "map_get (rp_headers (ht_response (snd (redirect_middleware example_redirect_deps example_request ?s))))
      (js ''Location'') = Some (js ''https://x.test'')"
    using middleware_fresh [of ?s example_redirect_deps, OF _ example_deps_units, where req = example_request]
      example_expected by (simp add: redirect_response_def)
  from no_open_redirect [of ?s example_redirect_deps, OF _ example_deps_units this] show ?thesis by auto
qed

end
