(* ===== verification/Api_System.thy ===== *)
theory Api_System
  imports Api_Caches Api_Redirect
begin

text \<open>
  The hot path put together as \<open>apps/api/src/main.ts\<close> does: the middleware with the resolvers of the API process, their
  caches and the shared Redis and Postgres. What the visitor is sent is a link that Postgres had a bounded
  time ago.
\<close>

section \<open>The deployed middleware\<close>

definition deployed ::
  "parsers \<Rightarrow> nat \<Rightarrow> nat \<Rightarrow> nat \<Rightarrow> domain_config \<Rightarrow> jsstr list \<Rightarrow> cache_world redirect_deps \<Rightarrow> cache_world redirect_deps" where
  "deployed p timeout ttl i urls reserved d =
     d\<lparr>rd_parse_request_target := parse_request_target urls reserved,
       rd_resolve_tenant := resolve_tenant (cache_deps p timeout) (memo_of i),
       rd_resolve_link := resolve_link (cache_deps p timeout) ttl,
       rd_render_not_found := render_not_found urls, rd_z_url := pa_z_url p\<rparr>"

lemma deployed_simps [simp]:
  "request_target_of (deployed p timeout ttl i urls reserved d) req =
     parse_request_target urls reserved (case hr_host req of None \<Rightarrow> [] | Some h \<Rightarrow> h) (hr_path req)"
  "rd_z_url (deployed p timeout ttl i urls reserved d) = pa_z_url p"
  by (simp_all add: deployed_def request_target_of_def)

lemma tenant_frame:
  assumes "resolve_tenant (cache_deps p timeout) (memo_of i) h w = (r, w')"
  shows "cw_now w' = cw_now w \<and> cw_links w' = cw_links w"
proof -
  have spawned: "cw_now (spawn (backfill_handle_cache (cache_deps p timeout) k h a) v) = cw_now v \<and>
      cw_links (spawn (backfill_handle_cache (cache_deps p timeout) k h a) v) = cw_links v" for k a v
    by (simp add: spawn_backfill_handle split: redis_mode.split)
  have kept: "cw_now (remember (cache_deps p timeout) (memo_of i) h a v) = cw_now v \<and>
      cw_links (remember (cache_deps p timeout) (memo_of i) h a v) = cw_links v" for a v
    by (simp add: remember_def)
  have "cw_now (snd (resolve_unmemoized (cache_deps p timeout) (memo_of i) h w)) = cw_now w \<and>
      cw_links (snd (resolve_unmemoized (cache_deps p timeout) (memo_of i) h w)) = cw_links w"
    by (auto simp: resolve_unmemoized_def cached_handle_world tenant_db_world io_apps spawned kept
        split: option.split)
  then show ?thesis using assms by (auto simp: resolve_tenant_def split: option.splits if_splits)
qed

lemma same_destination:
  assumes "url_check_stable p" and "same_link p (Some l) b" and "z_destination (pa_z_url p) (cl_destination l) = Some d"
  shows "\<exists>l0. b = Some l0 \<and> z_destination (pa_z_url p) (cl_destination l0) = Some d"
proof (cases "b = Some l")
  case False
  with assms(2) obtain l0 where l0: "b = Some l0" "cached_link_schema (pa_z_url p) (cached_link_json l0) = Some l"
    by (auto simp: same_link_def)
  then obtain d0 where d0: "z_destination (pa_z_url p) (cl_destination l0) = Some d0" "cl_destination l = d0"
    by (auto simp: schema_of_link split: if_splits)
  then have "z_destination (pa_z_url p) d0 = Some d0"
    using assms(1) unfolding z_destination_Some url_check_stable_def by blast
  then show ?thesis using l0(1) d0 assms(3) by simp
qed (use assms(3) in simp)

section \<open>Properties\<close>

text \<open>
  C2: end to end: whatever happened before (requests at other processes, invalidations, Redis failures, restarts), a
  redirect sends the visitor to the encoded destination of a link that Postgres had under the requested slug for a tenant
  that Postgres had under the requested handle, at most one cache lifetime ago for the link, and one cache and one
  memo lifetime ago for the handle.
\<close>

theorem redirects_follow_recent_links:
  assumes "(cache_step p timeout ttl)\<^sup>*\<^sup>* w0 w" and "cold w0" and "no_nul_tenant w0" and "url_check_stable p"
    and "\<forall>u scheme v. pa_z_url p u = Some (scheme, v) \<longrightarrow> units_ok v"
    and "map_get (rp_headers (ht_response (snd (redirect_middleware (deployed p timeout ttl i urls reserved d) req
      \<lparr> ht_response = fresh_response, ht_world = w \<rparr>)))) (js ''Location'') = Some location"
  shows "\<exists>handle slug t1 t2 tenant_id link destination.
    parse_request_target urls reserved (case hr_host req of None \<Rightarrow> [] | Some h \<Rightarrow> h) (hr_path req) = Target_link handle slug \<and>
    t1 \<le> cw_now w \<and> cw_now w < t1 + 3660000 \<and> resolve_tenant_by_handle (cw_pages w t1) handle = Some tenant_id \<and>
    t2 \<le> cw_now w \<and> cw_now w \<le> t2 + 1000 * int ttl \<and> resolve_link_by_slug (cw_links w t2) tenant_id slug = Some link \<and>
    z_destination (pa_z_url p) (cl_destination link) = Some destination \<and>
    encode_destination_for_header destination = Some location"
proof -
  let ?deps = "deployed p timeout ttl i urls reserved d"
  have units: "urls_are_text ?deps" using assms(5) by (simp add: urls_are_text_def)
  have loc: "map_get (rp_headers (expected_response ?deps req w)) (js ''Location'') = Some location"
    using assms(6) middleware_fresh [OF _ units, of "\<lparr> ht_response = fresh_response, ht_world = w \<rparr>" req] by simp
  then obtain handle slug where target: "request_target_of ?deps req = Target_link handle slug"
    by (auto simp: expected_response_def page_response_def fresh_response_def simp del: deployed_simps
        split: request_target.splits)
  with loc have "location_for ?deps handle slug w = Some location"
    by (auto simp: expected_response_def page_response_def redirect_response_def simp del: deployed_simps
        split: option.splits)
  then obtain t l dest where found: "resolved_link ?deps handle slug w = Some (t, l)"
    "z_destination (pa_z_url p) (cl_destination l) = Some dest" "encode_destination_for_header dest = Some location"
    by (auto simp: location_for_def bind_eq_Some_conv split: option.splits)
  obtain w1 where r1: "resolve_tenant (cache_deps p timeout) (memo_of i) handle w = (Inr (Some t), w1)"
    and "fst (resolve_link (cache_deps p timeout) ttl t slug w1) = Inr (Some l)"
    using found(1) by (auto simp: resolved_link_def deployed_def split: prod.splits sum.splits option.splits)
  then obtain w2 where r2: "resolve_link (cache_deps p timeout) ttl t slug w1 = (Inr (Some l), w2)"
    by (metis prod.collapse)
  note fresh_w = fresh_reachable [OF assms(1-4)]
  note a1 = tenant_answer [OF fresh_w r1]
  have colon: "58 \<notin> set slug" using target target_slug_no_colon by simp
  note a2 = link_answer [OF a1 [THEN conjunct1] colon assms(4) r2]
  obtain t1 where t1: "t1 \<le> cw_now w" "resolve_tenant_by_handle (cw_pages w t1) handle = Some t" "cw_now w < t1 + 3660000"
    using a1 by (auto simp: recent_handle_def handle_truth_def handle_ttl_def MEMO_TTL_MS_def)
  obtain t2 where t2: "t2 \<le> cw_now w" "same_link p (Some l) (resolve_link_by_slug (cw_links w t2) t slug)"
    "cw_now w \<le> t2 + 1000 * int ttl"
    using a2 tenant_frame [OF r1] by (auto simp: recent_link_def link_truth_def link_ttl_def)
  obtain l0 where "resolve_link_by_slug (cw_links w t2) t slug = Some l0"
    "z_destination (pa_z_url p) (cl_destination l0) = Some dest"
    using same_destination [OF assms(4) t2(2) found(2)] by blast
  then show ?thesis using target t1 t2(1,3) found(3) unfolding deployed_simps by blast
qed

definition later_request :: http_request where
  "later_request = \<lparr> rq_method = None, rq_headers = [], hr_host = Some (js ''a.posta.example''), hr_path = js ''/promo'' \<rparr>"

lemma later_target:
  "parse_request_target example_config RESERVED_HANDLES (js ''a.posta.example'') (js ''/promo'') = Target_link [97] (js ''promo'')"
proof -
  have "plain_domain example_config" "assert_claimable_handle example_config [97] = Inr [97]"
    "length [97] \<le> HANDLE_MAX_LENGTH" "\<not> is_reserved_handle [97] RESERVED_HANDLES" "port_ok None"
    by (simp_all add: domain_eval is_reserved_handle_def normalize_handle_def RESERVED_HANDLES_def)
  moreover have "is_valid_slug (js ''promo'')"
    by (simp add: is_valid_slug_pattern slug_pattern_iff slug_end_def slug_inner_def str_eval)
  moreover have "host_for example_config [97] @ port_suffix None = js ''a.posta.example''"
    "js ''/promo'' = js ''/'' @ js ''promo''"
    by (simp_all add: host_for_def example_config_def normalize_label_def str_eval)
  ultimately show ?thesis using link_recognised by metis
qed

text \<open>Fifty minutes after both rows have gone, a second process still redirects, and the bound allows it.\<close>

lemma later_location:
  "location_for (deployed example_parsers 50 3600 1 example_config RESERVED_HANDLES d) [97] (js ''promo'') later_world =
     Some (js ''https://x.test'')"
proof -
  let ?w = "remember (cache_deps example_parsers 50) (memo_of 1) [97] (Some [50]) (called later_world)"
  have "fst (resolve_link (cache_deps example_parsers 50) 3600 [50] (js ''promo'') ?w) = Inr (Some example_answer)"
    by (rule later_link) (simp_all add: remember_def later_world_redis)
  moreover have "z_destination (pa_z_url example_parsers) (cl_destination example_answer) = Some (js ''https://x.test'')"
    by (simp add: z_destination_Some example_parsers_def example_answer_def DESTINATION_MAX_LENGTH_def)
  moreover have "encode_destination_for_header (js ''https://x.test'') = Some (js ''https://x.test'')"
    by (simp add: encode_destination_for_header_def safe_pattern_iff header_unit_def js_def)
  ultimately show ?thesis
    by (simp add: location_for_def resolved_link_def deployed_def later_tenant_step [simplified])
qed

theorem redirects_follow_recent_links_witness:
  "\<forall>d. \<exists>t1 t2 tenant_id link. cw_now later_world < t1 + 3660000 \<and> cw_now later_world \<le> t2 + 3600000 \<and>
     resolve_tenant_by_handle (cw_pages later_world t1) [97] = Some tenant_id \<and>
     resolve_link_by_slug (cw_links later_world t2) tenant_id (js ''promo'') = Some link"
proof
  fix d
  let ?deps = "deployed example_parsers 50 3600 1 example_config RESERVED_HANDLES d"
  let ?s = "\<lparr> ht_response = fresh_response, ht_world = later_world \<rparr>"
  have units: "\<forall>u scheme v. pa_z_url example_parsers u = Some (scheme, v) \<longrightarrow> units_ok v"
    by (simp add: example_parsers_def units_ok_def js_def)
  have "map_get (rp_headers (ht_response (snd (redirect_middleware ?deps later_request ?s)))) (js ''Location'') =
      Some (js ''https://x.test'')"
    using middleware_fresh [of ?s ?deps later_request] units later_location later_target
    by (simp add: urls_are_text_def expected_response_def later_request_def redirect_response_def)
  from redirects_follow_recent_links [OF later_world_reachable example_world_ok units this]
  obtain handle slug t1 t2 tenant_id link where r: "Target_link handle slug = Target_link [97] (js ''promo'')"
    "cw_now later_world < t1 + 3660000" "resolve_tenant_by_handle (cw_pages later_world t1) handle = Some tenant_id"
    "cw_now later_world \<le> t2 + 1000 * int 3600"
    "resolve_link_by_slug (cw_links later_world t2) tenant_id slug = Some link"
    by (auto simp: later_request_def later_target)
  then show "\<exists>t1 t2 tenant_id link. cw_now later_world < t1 + 3660000 \<and> cw_now later_world \<le> t2 + 3600000 \<and>
     resolve_tenant_by_handle (cw_pages later_world t1) [97] = Some tenant_id \<and>
     resolve_link_by_slug (cw_links later_world t2) tenant_id (js ''promo'') = Some link" by auto
qed

end
