(* ===== verification/Scripts_Seed.thy ===== *)
theory Scripts_Seed
  imports Contracts_Links Core_MigrateRuns
begin

text \<open>
  The seed of the one account (\<open>packages/core/scripts/seed.ts\<close>): checks of the environment, then selects and inserts
  without a transaction. The statements are operations of a record; the second part instantiates them with tables whose
  every statement can be done, fail, or be done and lose its reply. Hashing a password, new ids, the URL check and
  what Zod throws are parameters.
\<close>

section \<open>The script\<close>

record seed_env =
  se_email :: jsstr
  se_password :: jsstr
  se_handle :: jsstr

record seed_result =
  sr_user_id :: jsstr
  sr_bio_page_id :: jsstr
  sr_link_id :: jsstr

record seed_user =
  su_id :: jsstr
  su_name :: jsstr
  su_email :: jsstr
  su_email_verified :: bool

record seed_account =
  sa_id :: jsstr
  sa_account_id :: jsstr
  sa_provider_id :: jsstr
  sa_user_id :: jsstr
  sa_password :: jsstr

record seed_bio_page =
  sb_id :: jsstr
  sb_tenant_id :: jsstr
  sb_handle :: jsstr

record seed_link =
  sl_id :: jsstr
  sl_tenant_id :: jsstr
  sl_slug :: jsstr
  sl_destination :: jsstr
  sl_title :: jsstr

record 's seed_deps =
  sd_user_by_email :: "jsstr \<Rightarrow> ('s, seed_user option) io"
  sd_any_user :: "('s, seed_user option) io"
  sd_bio_page_of :: "jsstr \<Rightarrow> ('s, seed_bio_page option) io"
  sd_link_of :: "jsstr \<Rightarrow> ('s, seed_link option) io"
  sd_insert_user :: "seed_user \<Rightarrow> ('s, unit) io"
  sd_insert_account :: "seed_account \<Rightarrow> ('s, unit) io"
  sd_insert_bio_page :: "seed_bio_page \<Rightarrow> ('s, unit) io"
  sd_insert_link :: "seed_link \<Rightarrow> ('s, unit) io"
  sd_new_id :: "('s, jsstr) io"
  sd_hash_password :: "jsstr \<Rightarrow> ('s, jsstr) io"
  sd_z_url :: "jsstr \<Rightarrow> (jsstr \<times> jsstr) option"
  sd_zod_error :: "jsstr \<Rightarrow> thrown"

definition assert_set :: "jsstr \<Rightarrow> string \<Rightarrow> unit outcome" where
  "assert_set value env_key =
     (if value = [] then
        Inl (new_error (js ''seed: '' @ js env_key @ js '' is not set '' @ [8212] @ js '' see .env.example.''))
      else Inr ())"

definition load_seed_env_from_process_env :: "(jsstr \<Rightarrow> jsstr option) \<Rightarrow> seed_env" where
  "load_seed_env_from_process_env process_env =
     \<lparr> se_email = (case process_env (js ''SEED_USER_EMAIL'') of None \<Rightarrow> [] | Some v \<Rightarrow> v),
       se_password = (case process_env (js ''SEED_USER_PASSWORD'') of None \<Rightarrow> [] | Some v \<Rightarrow> v),
       se_handle = (case process_env (js ''SEED_USER_HANDLE'') of None \<Rightarrow> [] | Some v \<Rightarrow> v) \<rparr>"

definition EXAMPLE_LINK_SLUG :: jsstr where
  "EXAMPLE_LINK_SLUG = js ''welcome''"

definition EXAMPLE_LINK_DESTINATION :: jsstr where
  "EXAMPLE_LINK_DESTINATION = js ''https://example.com/welcome-to-posta''"

definition EXAMPLE_LINK_TITLE :: jsstr where
  "EXAMPLE_LINK_TITLE = js ''Welcome to Posta''"

text \<open>The checks before the first statement; what a schema rejects, it throws about.\<close>

definition seed_checks :: "'s seed_deps \<Rightarrow> seed_env \<Rightarrow> unit outcome" where
  "seed_checks deps env =
     (case assert_set (se_email env) ''SEED_USER_EMAIL'' of
        Inl e \<Rightarrow> Inl e
      | Inr _ \<Rightarrow>
          (case assert_set (se_password env) ''SEED_USER_PASSWORD'' of
             Inl e \<Rightarrow> Inl e
           | Inr _ \<Rightarrow>
               (case assert_set (se_handle env) ''SEED_USER_HANDLE'' of
                  Inl e \<Rightarrow> Inl e
                | Inr _ \<Rightarrow>
                    if \<not> z_handle (se_handle env) then Inl (sd_zod_error deps (se_handle env))
                    else if \<not> z_slug EXAMPLE_LINK_SLUG then Inl (sd_zod_error deps EXAMPLE_LINK_SLUG)
                    else if z_destination (sd_z_url deps) EXAMPLE_LINK_DESTINATION = None
                      then Inl (sd_zod_error deps EXAMPLE_LINK_DESTINATION)
                    else Inr ())))"

definition find_existing_seed_result :: "'s seed_deps \<Rightarrow> jsstr \<Rightarrow> ('s, seed_result) io" where
  "find_existing_seed_result deps user_id =
     io_bind (sd_bio_page_of deps user_id) (\<lambda>existing_bio_page.
       io_bind (sd_link_of deps user_id) (\<lambda>existing_link.
         case (existing_bio_page, existing_link) of
           (Some bio_page, Some link) \<Rightarrow>
             io_return \<lparr> sr_user_id = user_id, sr_bio_page_id = sb_id bio_page, sr_link_id = sl_id link \<rparr>
         | _ \<Rightarrow>
             io_throw (new_error (js ''seed: a user ('' @ user_id @
               js '') for SEED_USER_EMAIL already exists but is missing its bio page or example link '' @ [8212] @
               js '' refusing to partially re-seed.''))))"

definition create_seed :: "'s seed_deps \<Rightarrow> seed_env \<Rightarrow> ('s, seed_result) io" where
  "create_seed deps env =
     io_bind (sd_new_id deps) (\<lambda>user_id.
     io_bind (sd_hash_password deps (se_password env)) (\<lambda>hashed_password.
     io_then (sd_insert_user deps
       \<lparr> su_id = user_id, su_name = se_handle env, su_email = se_email env, su_email_verified = False \<rparr>)
     (io_bind (sd_new_id deps) (\<lambda>account_id.
     io_then (sd_insert_account deps
       \<lparr> sa_id = account_id, sa_account_id = user_id, sa_provider_id = js ''credential'', sa_user_id = user_id,
         sa_password = hashed_password \<rparr>)
     (io_bind (sd_new_id deps) (\<lambda>bio_page_id.
     io_then (sd_insert_bio_page deps \<lparr> sb_id = bio_page_id, sb_tenant_id = user_id, sb_handle = se_handle env \<rparr>)
     (io_bind (sd_new_id deps) (\<lambda>link_id.
     io_then (sd_insert_link deps
       \<lparr> sl_id = link_id, sl_tenant_id = user_id, sl_slug = EXAMPLE_LINK_SLUG, sl_destination = EXAMPLE_LINK_DESTINATION,
         sl_title = EXAMPLE_LINK_TITLE \<rparr>)
     (io_return \<lparr> sr_user_id = user_id, sr_bio_page_id = bio_page_id, sr_link_id = link_id \<rparr>)))))))))"

definition seed :: "'s seed_deps \<Rightarrow> seed_env \<Rightarrow> ('s, seed_result) io" where
  "seed deps env =
     io_then (io_of (seed_checks deps env))
       (io_bind (sd_user_by_email deps (se_email env)) (\<lambda>existing_user.
         case existing_user of
           Some u \<Rightarrow> find_existing_seed_result deps (su_id u)
         | None \<Rightarrow>
             io_bind (sd_any_user deps) (\<lambda>any_existing_user.
               case any_existing_user of
                 Some u \<Rightarrow>
                   io_throw (new_error (js ''seed: a different account already exists ('' @ su_email u @
                     js ''), but SEED_USER_EMAIL is \"'' @ se_email env @ js ''\" '' @ [8212] @
                     js '' v1 seeds exactly one account. If rotating the seed account is intentional, remove the existing user first.''))
               | None \<Rightarrow> create_seed deps env)))"

section \<open>The tables\<close>

record seed_world =
  sw_users :: "seed_user list"
  sw_accounts :: "seed_account list"
  sw_pages :: "seed_bio_page list"
  sw_links :: "seed_link list"
  sw_ids :: nat
  sw_calls :: nat
  sw_fate :: "nat \<Rightarrow> fate"

definition statement :: "(seed_world \<Rightarrow> 'a \<times> seed_world) \<Rightarrow> (seed_world, 'a) io" where
  "statement f w =
     (let v = w\<lparr>sw_calls := Suc (sw_calls w)\<rparr> in
      case sw_fate w (sw_calls w) of
        Done \<Rightarrow> (Inr (fst (f v)), snd (f v))
      | Failed e \<Rightarrow> (Inl e, v)
      | Lost e \<Rightarrow> (Inl e, snd (f v)))"

definition table_deps :: "(jsstr \<Rightarrow> jsstr) \<Rightarrow> (jsstr \<Rightarrow> (jsstr \<times> jsstr) option) \<Rightarrow> (jsstr \<Rightarrow> thrown) \<Rightarrow> seed_world seed_deps" where
  "table_deps hash z_url zod_error =
     \<lparr> sd_user_by_email = (\<lambda>email. statement (\<lambda>w. (find (\<lambda>u. su_email u = email) (sw_users w), w))),
       sd_any_user = statement (\<lambda>w. (find (\<lambda>_. True) (sw_users w), w)),
       sd_bio_page_of = (\<lambda>t. statement (\<lambda>w. (find (\<lambda>p. sb_tenant_id p = t) (sw_pages w), w))),
       sd_link_of = (\<lambda>t. statement (\<lambda>w. (find (\<lambda>l. sl_tenant_id l = t) (sw_links w), w))),
       sd_insert_user = (\<lambda>u. statement (\<lambda>w. ((), w\<lparr>sw_users := sw_users w @ [u]\<rparr>))),
       sd_insert_account = (\<lambda>a. statement (\<lambda>w. ((), w\<lparr>sw_accounts := sw_accounts w @ [a]\<rparr>))),
       sd_insert_bio_page = (\<lambda>p. statement (\<lambda>w. ((), w\<lparr>sw_pages := sw_pages w @ [p]\<rparr>))),
       sd_insert_link = (\<lambda>l. statement (\<lambda>w. ((), w\<lparr>sw_links := sw_links w @ [l]\<rparr>))),
       sd_new_id = (\<lambda>w. (Inr (dec (sw_ids w)), w\<lparr>sw_ids := Suc (sw_ids w)\<rparr>)),
       sd_hash_password = (\<lambda>p w. (Inr (hash p), w)),
       sd_z_url = z_url, sd_zod_error = zod_error \<rparr>"

definition tables :: "seed_world \<Rightarrow> seed_user list \<times> seed_account list \<times> seed_bio_page list \<times> seed_link list" where
  "tables w = (sw_users w, sw_accounts w, sw_pages w, sw_links w)"

definition empty_tables :: "seed_world \<Rightarrow> bool" where
  "empty_tables w \<longleftrightarrow> tables w = ([], [], [], [])"

text \<open>
  The tables that runs of the seed can leave: empty, or one user with, in this order, an account, a page and a link
  of that user, and nothing else.
\<close>

definition seeded_tables :: "seed_world \<Rightarrow> bool" where
  "seeded_tables w \<longleftrightarrow> empty_tables w \<or>
     (\<exists>u. sw_users w = [u] \<and>
       (\<forall>a \<in> set (sw_accounts w). sa_user_id a = su_id u) \<and> (\<forall>p \<in> set (sw_pages w). sb_tenant_id p = su_id u) \<and>
       (\<forall>l \<in> set (sw_links w). sl_tenant_id l = su_id u) \<and>
       length (sw_accounts w) \<le> 1 \<and> length (sw_pages w) \<le> length (sw_accounts w) \<and> length (sw_links w) \<le> length (sw_pages w))"

lemma table_deps_simps [simp]:
  "sd_new_id (table_deps h z e) w = (Inr (dec (sw_ids w)), w\<lparr>sw_ids := Suc (sw_ids w)\<rparr>)"
  "sd_hash_password (table_deps h z e) p w = (Inr (h p), w)"
  "sd_z_url (table_deps h z e) = z" "sd_zod_error (table_deps h z e) = e"
  by (simp_all add: table_deps_def)

lemma table_ops:
  "sd_user_by_email (table_deps h z e) = (\<lambda>email. statement (\<lambda>w. (find (\<lambda>u. su_email u = email) (sw_users w), w)))"
  "sd_any_user (table_deps h z e) = statement (\<lambda>w. (find (\<lambda>_. True) (sw_users w), w))"
  "sd_bio_page_of (table_deps h z e) = (\<lambda>t. statement (\<lambda>w. (find (\<lambda>p. sb_tenant_id p = t) (sw_pages w), w)))"
  "sd_link_of (table_deps h z e) = (\<lambda>t. statement (\<lambda>w. (find (\<lambda>l. sl_tenant_id l = t) (sw_links w), w)))"
  "sd_insert_user (table_deps h z e) = (\<lambda>u. statement (\<lambda>w. ((), w\<lparr>sw_users := sw_users w @ [u]\<rparr>)))"
  "sd_insert_account (table_deps h z e) = (\<lambda>a. statement (\<lambda>w. ((), w\<lparr>sw_accounts := sw_accounts w @ [a]\<rparr>)))"
  "sd_insert_bio_page (table_deps h z e) = (\<lambda>p. statement (\<lambda>w. ((), w\<lparr>sw_pages := sw_pages w @ [p]\<rparr>)))"
  "sd_insert_link (table_deps h z e) = (\<lambda>l. statement (\<lambda>w. ((), w\<lparr>sw_links := sw_links w @ [l]\<rparr>)))"
  by (simp_all add: table_deps_def)

lemmas seed_run = io_then_app io_bind_app statement_def table_ops Let_def

text \<open>An existing account is only read.\<close>

lemma find_existing_tables: "tables (snd (find_existing_seed_result (table_deps h z e) user_id w)) = tables w"
  by (auto simp: find_existing_seed_result_def seed_run tables_def
      split: fate.split option.split sum.split)

text \<open>Creating the account from empty tables stops after some of the inserts.\<close>

lemma create_seed_tables:
  assumes "empty_tables w"
  shows "seeded_tables (snd (create_seed (table_deps h z e) env w))"
  using assms
  by (auto simp: create_seed_def seed_run tables_def seeded_tables_def
      empty_tables_def split: fate.split)

lemma seeded_tables_cong: "tables v = tables w \<Longrightarrow> seeded_tables v \<longleftrightarrow> seeded_tables w"
  by (simp add: seeded_tables_def empty_tables_def tables_def)

text \<open>A run either leaves the tables as they are, or they were empty and it has created the account or a part of it.\<close>

definition looked_up :: "seed_world \<Rightarrow> seed_world" where
  "looked_up w = w\<lparr>sw_calls := Suc (Suc (sw_calls w))\<rparr>"

lemma seed_cases:
  obtains (creates) "sw_users w = []" "seed (table_deps h z e) env w = create_seed (table_deps h z e) env (looked_up w)"
  | (reads) u where "seed_checks (table_deps h z e) env = Inr ()" "u \<in> set (sw_users w)" "su_email u = se_email env"
      "find (\<lambda>u. su_email u = se_email env) (sw_users w) = Some u"
      "seed (table_deps h z e) env w = find_existing_seed_result (table_deps h z e) (su_id u) (w\<lparr>sw_calls := Suc (sw_calls w)\<rparr>)"
  | (rejects) err w' where "seed (table_deps h z e) env w = (Inl err, w')" "tables w' = tables w"
proof (cases "seed_checks (table_deps h z e) env")
  case (Inl err)
  then have "seed (table_deps h z e) env w = (Inl err, w)" by (simp add: seed_def io_then_app)
  then show ?thesis using rejects by blast
next
  case (Inr x)
  show ?thesis
  proof (cases "find (\<lambda>u. su_email u = se_email env) (sw_users w)")
    case (Some u)
    then have u: "u \<in> set (sw_users w)" "su_email u = se_email env" by (auto simp: find_Some_iff)
    show ?thesis
    proof (cases "sw_fate w (sw_calls w)")
      case Done
      then have "seed (table_deps h z e) env w =
          find_existing_seed_result (table_deps h z e) (su_id u) (w\<lparr>sw_calls := Suc (sw_calls w)\<rparr>)"
        using Inr Some by (simp add: seed_def seed_run)
      then show ?thesis using reads [of u] Inr u Some by simp
    qed (use Inr rejects in \<open>auto simp: seed_def seed_run tables_def\<close>)
  next
    case None
    show ?thesis
    proof (cases "sw_fate w (sw_calls w) = Done \<and> sw_fate w (Suc (sw_calls w)) = Done \<and> sw_users w = []")
      case True
      then have "seed (table_deps h z e) env w = create_seed (table_deps h z e) env (looked_up w)"
        using Inr None by (simp add: seed_def seed_run looked_up_def)
      then show ?thesis using creates True by simp
    next
      case False
      have "\<exists>err w'. seed (table_deps h z e) env w = (Inl err, w') \<and> tables w' = tables w"
        using False Inr None
        by (cases "sw_users w")
          (auto simp: seed_def seed_run tables_def split: fate.split)
      then show ?thesis using rejects by blast
    qed
  qed
qed

lemma looked_up_tables: "tables (looked_up w) = tables w"
  by (simp add: looked_up_def tables_def)

lemma no_users_empty: "seeded_tables w \<Longrightarrow> sw_users w = [] \<Longrightarrow> empty_tables w"
  by (auto simp: seeded_tables_def)

lemma seed_with_users:
  assumes "sw_users w \<noteq> []"
  shows "tables (snd (seed (table_deps h z e) env w)) = tables w"
proof (cases rule: seed_cases [of w h z e env])
  case (reads u)
  have "tables (snd (find_existing_seed_result (table_deps h z e) (su_id u) (w\<lparr>sw_calls := Suc (sw_calls w)\<rparr>))) = tables w"
    by (simp add: find_existing_tables) (simp add: tables_def)
  then show ?thesis by (simp add: reads)
qed (use assms in simp_all)

text \<open>What a created account holds when nothing failed.\<close>

lemma create_seed_Inr:
  assumes "empty_tables w" and "create_seed (table_deps h z e) env w = (Inr r, w')"
  shows "\<exists>u p l. sw_users w' = [u] \<and> sw_pages w' = [p] \<and> sw_links w' = [l] \<and> su_email u = se_email env \<and> su_id u = sr_user_id r \<and>
     sb_id p = sr_bio_page_id r \<and> sb_tenant_id p = su_id u \<and> sl_id l = sr_link_id r \<and> sl_tenant_id l = su_id u"
  using assms
  by (auto simp: create_seed_def seed_run tables_def empty_tables_def
      split: fate.splits)

lemma find_existing_Inr:
  assumes "find_existing_seed_result (table_deps h z e) user_id w = (Inr r, w')"
  shows "sr_user_id r = user_id \<and> (\<exists>p \<in> set (sw_pages w). sb_id p = sr_bio_page_id r) \<and> (\<exists>l \<in> set (sw_links w). sl_id l = sr_link_id r)"
  using assms
  by (auto simp: find_existing_seed_result_def seed_run find_Some_iff
      split: fate.splits option.splits)

lemma seed_keeps_one_account_step:
  assumes "seeded_tables w" and "seed (table_deps h z e) env w = (r, w')"
  shows "seeded_tables w'"
proof (cases "sw_users w = []")
  case True
  then have empty: "empty_tables (looked_up w)"
    using no_users_empty [OF assms(1)] by (simp add: empty_tables_def looked_up_tables)
  show ?thesis
  proof (cases rule: seed_cases [of w h z e env])
    case creates
    then have "create_seed (table_deps h z e) env (looked_up w) = (r, w')" using assms(2) by simp
    then show ?thesis using create_seed_tables [OF empty, of h z e env] by simp
  next
    case (rejects err v)
    then show ?thesis using seeded_tables_cong [of v w] assms by simp
  qed (use True in simp)
next
  case False
  have "tables w' = tables w" using seed_with_users [OF False, of h z e env] assms(2) by simp
  then show ?thesis using seeded_tables_cong [of w' w] assms(1) by simp
qed

lemma seeded_one_user: "seeded_tables w \<Longrightarrow> length (sw_users w) \<le> 1"
  by (auto simp: seeded_tables_def empty_tables_def tables_def)

definition seed_ids_exist :: "seed_env \<Rightarrow> seed_result \<Rightarrow> seed_world \<Rightarrow> bool" where
  "seed_ids_exist env ids w \<longleftrightarrow>
     (\<exists>u. sw_users w = [u] \<and> su_email u = se_email env \<and> su_id u = sr_user_id ids \<and>
        (\<exists>p \<in> set (sw_pages w). sb_id p = sr_bio_page_id ids) \<and> (\<exists>l \<in> set (sw_links w). sl_id l = sr_link_id ids))"

lemma seed_resolves:
  assumes "seeded_tables w" and run: "seed (table_deps h z e) env w = (Inr ids, w')"
  shows "seed_ids_exist env ids w'"
proof (cases rule: seed_cases [of w h z e env])
  case creates
  then have empty: "empty_tables (looked_up w)"
    using no_users_empty [OF assms(1)] by (simp add: empty_tables_def looked_up_tables)
  have "create_seed (table_deps h z e) env (looked_up w) = (Inr ids, w')" using creates(2) run by simp
  from create_seed_Inr [OF empty this] show ?thesis by (auto simp: seed_ids_exist_def)
next
  case (reads u)
  have same: "tables w' = tables w" using seed_with_users [of w h z e env] reads(2) run by force
  have "sw_users w' = [u]"
    using same reads(2) seeded_one_user [OF assms(1)] by (cases "sw_users w") (auto simp: tables_def)
  moreover have "find_existing_seed_result (table_deps h z e) (su_id u) (w\<lparr>sw_calls := Suc (sw_calls w)\<rparr>) = (Inr ids, w')"
    using reads(5) run by simp
  ultimately show ?thesis
    using find_existing_Inr [of h z e "su_id u" "w\<lparr>sw_calls := Suc (sw_calls w)\<rparr>" ids w'] reads(3) same
    unfolding seed_ids_exist_def by (intro exI [of _ u]) (simp add: tables_def)
next
  case (rejects err v)
  then show ?thesis using run by simp
qed

section \<open>Properties\<close>

text \<open>
  whatever statements fail or lose their reply, the seed never makes a second account, page or link: it only
  creates into empty tables and leaves tables with an account as they are; and when it resolves, the ids it gives
  are those of the one user, with the address of the environment, and of a page and a link.
\<close>

theorem seed_keeps_one_account:
  assumes "seeded_tables w" and "seed (table_deps h z e) env w = (r, w')"
  shows "seeded_tables w' \<and> length (sw_users w') \<le> 1 \<and> (sw_users w \<noteq> [] \<longrightarrow> tables w' = tables w) \<and>
     (case r of
        Inl _ \<Rightarrow> True
      | Inr ids \<Rightarrow> \<exists>u. sw_users w' = [u] \<and> su_email u = se_email env \<and> su_id u = sr_user_id ids \<and>
          (\<exists>p \<in> set (sw_pages w'). sb_id p = sr_bio_page_id ids) \<and> (\<exists>l \<in> set (sw_links w'). sl_id l = sr_link_id ids))"
proof -
  have seeded: "seeded_tables w'" by (rule seed_keeps_one_account_step [OF assms])
  moreover have "sw_users w \<noteq> [] \<longrightarrow> tables w' = tables w" using seed_with_users [of w h z e env] assms(2) by simp
  moreover have "case r of Inl _ \<Rightarrow> True | Inr ids \<Rightarrow> seed_ids_exist env ids w'"
    using seed_resolves [OF assms(1)] assms(2) by (cases r) simp_all
  ultimately show ?thesis using seeded_one_user [OF seeded] unfolding seed_ids_exist_def by blast
qed

text \<open>
  seeding twice is seeding once: after a run that resolved, the next run without failures gives the same ids and
  changes nothing.
\<close>

theorem seed_is_idempotent:
  assumes "empty_tables w" and "seed (table_deps h z e) env w = (Inr ids, w')" and "\<forall>n. sw_fate w' n = Done"
  shows "fst (seed (table_deps h z e) env w') = Inr ids \<and> tables (snd (seed (table_deps h z e) env w')) = tables w'"
proof (cases rule: seed_cases [of w h z e env])
  case creates
  have empty: "empty_tables (looked_up w)" using assms(1) by (simp add: empty_tables_def looked_up_tables)
  obtain u p l where t: "sw_users w' = [u]" "sw_pages w' = [p]" "sw_links w' = [l]" "su_email u = se_email env"
      "su_id u = sr_user_id ids" "sb_id p = sr_bio_page_id ids" "sb_tenant_id p = su_id u" "sl_id l = sr_link_id ids"
      "sl_tenant_id l = su_id u"
    using create_seed_Inr [OF empty] creates(2) assms(2) by metis
  have checks: "seed_checks (table_deps h z e) env = Inr ()"
    using assms(2) by (cases "seed_checks (table_deps h z e) env") (simp_all add: seed_def io_then_app)
  have "fst (seed (table_deps h z e) env w') = Inr ids"
    using checks assms(3) t
    by (simp add: seed_def find_existing_seed_result_def seed_run)
  then show ?thesis using seed_with_users [of w' h z e env] t(1) by simp
qed (use assms in \<open>auto simp: empty_tables_def tables_def\<close>)

text \<open>
  a seed that was interrupted between its inserts is never completed: once there is a user without a page or a
  link, every run, with any environment and whatever fails, rejects and leaves the tables as they are.
\<close>

theorem interrupted_seed_never_recovers:
  assumes "seeded_tables w" and "sw_users w \<noteq> []" and "sw_pages w = [] \<or> sw_links w = []"
  shows "\<exists>err. fst (seed (table_deps h z e) env w) = Inl err \<and> tables (snd (seed (table_deps h z e) env w)) = tables w"
proof (cases rule: seed_cases [of w h z e env])
  case (reads u)
  have "\<not> (\<exists>ids. fst (find_existing_seed_result (table_deps h z e) (su_id u) (w\<lparr>sw_calls := Suc (sw_calls w)\<rparr>)) = Inr ids)"
    using find_existing_Inr [of h z e "su_id u" "w\<lparr>sw_calls := Suc (sw_calls w)\<rparr>"] assms(3)
    by (metis empty_iff empty_set prod.collapse seed_world.select_convs(3,4) seed_world.surjective seed_world.update_convs(6))
  then obtain err where "fst (seed (table_deps h z e) env w) = Inl err"
    unfolding reads(5) by (metis sum.exhaust)
  then show ?thesis using seed_with_users [OF assms(2)] by blast
qed (use assms(2) seed_with_users [OF assms(2)] in auto)

section \<open>Examples\<close>

definition example_seed_env :: seed_env where
  "example_seed_env = \<lparr> se_email = [109], se_password = [112], se_handle = js ''juano'' \<rparr>"

definition example_seed_url :: "jsstr \<Rightarrow> (jsstr \<times> jsstr) option" where
  "example_seed_url s = Some (js ''https'', s)"

definition fresh_tables :: "(nat \<Rightarrow> fate) \<Rightarrow> seed_world" where
  "fresh_tables fates =
     \<lparr> sw_users = [], sw_accounts = [], sw_pages = [], sw_links = [], sw_ids = 0, sw_calls = 0, sw_fate = fates \<rparr>"

abbreviation example_seed_deps :: "seed_world seed_deps" where
  "example_seed_deps \<equiv> table_deps id example_seed_url (\<lambda>_. new_error [])"

lemma example_checks: "seed_checks example_seed_deps example_seed_env = Inr ()"
proof -
  have "z_handle (js ''juano'')"
    by (simp add: z_handle_def HANDLE_CHARSET_PATTERN_def matches_label slug_end_def slug_inner_def str_eval RESERVED_HANDLES_def js_def)
  moreover have "z_slug EXAMPLE_LINK_SLUG"
    by (simp add: z_slug_def EXAMPLE_LINK_SLUG_def slug_pattern_iff slug_end_def slug_inner_def str_eval reserved_paths_eval js_def)
  moreover have "z_destination example_seed_url EXAMPLE_LINK_DESTINATION \<noteq> None"
    by (simp add: z_destination_def example_seed_url_def destination_protocol_iff DESTINATION_MAX_LENGTH_def
        EXAMPLE_LINK_DESTINATION_def js_def)
  ultimately show ?thesis by (simp add: seed_checks_def assert_set_def example_seed_env_def)
qed

text \<open>With a healthy database, and with one whose fifth statement, the insert of the page, fails.\<close>

lemma example_seeded:
  "seed example_seed_deps example_seed_env (fresh_tables (\<lambda>_. Done)) =
     (Inr \<lparr> sr_user_id = dec 0, sr_bio_page_id = dec 2, sr_link_id = dec 3 \<rparr>,
      \<lparr> sw_users = [\<lparr> su_id = dec 0, su_name = js ''juano'', su_email = [109], su_email_verified = False \<rparr>],
        sw_accounts = [\<lparr> sa_id = dec 1, sa_account_id = dec 0, sa_provider_id = js ''credential'', sa_user_id = dec 0,
          sa_password = [112] \<rparr>],
        sw_pages = [\<lparr> sb_id = dec 2, sb_tenant_id = dec 0, sb_handle = js ''juano'' \<rparr>],
        sw_links = [\<lparr> sl_id = dec 3, sl_tenant_id = dec 0, sl_slug = EXAMPLE_LINK_SLUG,
          sl_destination = EXAMPLE_LINK_DESTINATION, sl_title = EXAMPLE_LINK_TITLE \<rparr>],
        sw_ids = 4, sw_calls = 6, sw_fate = (\<lambda>_. Done) \<rparr>)"
  by (simp add: seed_def example_checks create_seed_def seed_run fresh_tables_def)
    (simp add: example_seed_env_def)

definition interrupted :: "nat \<Rightarrow> fate" where
  "interrupted n = (if n = 4 then Failed (new_error []) else Done)"

lemma example_interrupted:
  "\<exists>w. seed example_seed_deps example_seed_env (fresh_tables interrupted) = (Inl (new_error []), w) \<and>
     length (sw_users w) = 1 \<and> sw_pages w = [] \<and> sw_links w = []"
  by (simp add: seed_def example_checks create_seed_def seed_run fresh_tables_def interrupted_def)

lemma fresh_tables_empty: "empty_tables (fresh_tables fates)" "seeded_tables (fresh_tables fates)"
  by (simp_all add: empty_tables_def tables_def fresh_tables_def seeded_tables_def)

theorem seed_keeps_one_account_witness:
  "\<exists>w'. seed example_seed_deps example_seed_env (fresh_tables interrupted) = (Inl (new_error []), w') \<and> seeded_tables w'"
  using example_interrupted seed_keeps_one_account [OF fresh_tables_empty(2)] by blast

theorem seed_is_idempotent_witness:
  "\<exists>ids w'. seed example_seed_deps example_seed_env (fresh_tables (\<lambda>_. Done)) = (Inr ids, w') \<and>
     fst (seed example_seed_deps example_seed_env w') = Inr ids"
proof -
  obtain ids w' where run: "seed example_seed_deps example_seed_env (fresh_tables (\<lambda>_. Done)) = (Inr ids, w')"
      and fates: "sw_fate w' = (\<lambda>_. Done)"
    using example_seeded by simp
  have "\<forall>n. sw_fate w' n = Done" by (simp add: fates)
  from seed_is_idempotent [OF fresh_tables_empty(1) run this] run show ?thesis by blast
qed

theorem interrupted_seed_never_recovers_witness:
  "\<exists>w err. seed example_seed_deps example_seed_env (fresh_tables interrupted) = (Inl (new_error []), w) \<and>
     fst (seed example_seed_deps example_seed_env (w\<lparr>sw_fate := (\<lambda>_. Done)\<rparr>)) = Inl err"
proof -
  obtain w where w: "seed example_seed_deps example_seed_env (fresh_tables interrupted) = (Inl (new_error []), w)"
      "length (sw_users w) = 1" "sw_pages w = []" "sw_links w = []"
    using example_interrupted by blast
  have "seeded_tables w" using seed_keeps_one_account_step [OF fresh_tables_empty(2) w(1)] .
  then have "seeded_tables (w\<lparr>sw_fate := (\<lambda>_. Done)\<rparr>)" by (simp add: seeded_tables_def empty_tables_def tables_def)
  moreover have "sw_users (w\<lparr>sw_fate := (\<lambda>_. Done)\<rparr>) \<noteq> []" "sw_pages (w\<lparr>sw_fate := (\<lambda>_. Done)\<rparr>) = [] \<or> sw_links (w\<lparr>sw_fate := (\<lambda>_. Done)\<rparr>) = []"
    using w(2,3) by auto
  ultimately obtain err where "fst (seed example_seed_deps example_seed_env (w\<lparr>sw_fate := (\<lambda>_. Done)\<rparr>)) = Inl err"
    using interrupted_seed_never_recovers by blast
  with w(1) show ?thesis by blast
qed

end
