(* ===== verification/Scripts_Asn.thy ===== *)
theory Scripts_Asn
  imports Js_Number Js_Json Js_Async
begin

text \<open>
  The list of datacenter networks (\<open>packages/core/scripts\<close>): \<open>vendor-asn.ts\<close> makes the dataset from the CSV file of the
  upstream project and a list of its own, \<open>seed-asn.ts\<close> writes the dataset to the table \<open>asn_datacenter\<close>. Files, the clock and
  the pool are parameters; the second part instantiates the pool with a table and the upsert of Postgres.
\<close>

section \<open>Names\<close>

record asn_entry =
  as_asn :: int
  as_name :: jsstr
  as_source :: jsstr

definition SUPPLEMENTAL_ENTRIES :: "asn_entry list" where
  "SUPPLEMENTAL_ENTRIES =
     map (\<lambda>(asn, name). \<lparr> as_asn = asn, as_name = js name,
        as_source = js ''public ASN registration (bgp.he.net / PeeringDB)'' \<rparr>)
       [(16509, ''Amazon.com, Inc. (AWS)''),
        (14618, ''Amazon.com, Inc. (AWS EC2)''),
        (8987, ''Amazon.com, Inc. (AWS Europe)''),
        (15169, ''Google LLC''),
        (396982, ''Google LLC (Google Cloud)''),
        (8075, ''Microsoft Corporation (Azure/MSN)''),
        (8068, ''Microsoft Corporation''),
        (12076, ''Microsoft Corporation''),
        (14061, ''DigitalOcean, LLC''),
        (24940, ''Hetzner Online GmbH''),
        (16276, ''OVH SAS''),
        (63949, ''Linode, LLC (Akamai Technologies)''),
        (20940, ''Akamai International B.V.''),
        (20473, ''The Constant Company, LLC (Vultr)''),
        (13335, ''Cloudflare, Inc.''),
        (209242, ''Cloudflare London, LLC''),
        (31898, ''Oracle Corporation (Oracle Cloud Infrastructure)''),
        (12876, ''Scaleway (Online S.A.S.)''),
        (51167, ''Contabo GmbH'')]"

text \<open>\<open>String.fromCharCode\<close> keeps the low 16 bits of an integer and takes an infinity as 0.\<close>

definition char_code_unit :: "double \<Rightarrow> nat" where
  "char_code_unit x = (case x of Finite q \<Rightarrow> nat (\<lfloor>q\<rfloor> mod 65536) | _ \<Rightarrow> 0)"

function decode_numeric_entities :: "jsstr \<Rightarrow> jsstr" where
  "decode_numeric_entities s =
     (case s of
        [] \<Rightarrow> []
      | c # t \<Rightarrow>
          let code = takeWhile is_digit (drop 2 s); r = dropWhile is_digit (drop 2 s) in
          if starts_with s (js ''&#'') \<and> code \<noteq> [] \<and> starts_with r (js '';'')
          then char_code_unit (to_double (of_nat (digits_value 10 code))) # decode_numeric_entities (tl r)
          else c # decode_numeric_entities t)"
  by pat_completeness auto
termination
proof (relation "measure length", goal_cases)
  case (2 s c t code r)
  have "length (tl r) \<le> length (dropWhile is_digit (drop 2 s))" by (simp add: 2)
  also have "\<dots> \<le> length (drop 2 s)" by (rule length_dropWhile_le)
  finally show ?case using 2(1) by auto
qed auto

fun decode_ampersands :: "jsstr \<Rightarrow> jsstr" where
  "decode_ampersands s =
     (case s of
        [] \<Rightarrow> []
      | c # t \<Rightarrow>
          if to_upper (take 5 s) = js ''&AMP;'' then 38 # decode_ampersands (drop 5 s) else c # decode_ampersands t)"

declare decode_numeric_entities.simps [simp del] decode_ampersands.simps [simp del]

definition decode_entities :: "jsstr \<Rightarrow> jsstr" where
  "decode_entities text = decode_ampersands (decode_numeric_entities text)"

fun substring_index :: "jsstr \<Rightarrow> jsstr \<Rightarrow> nat option" where
  "substring_index p s =
     (if starts_with s p then Some 0
      else case s of [] \<Rightarrow> None | _ # t \<Rightarrow> map_option Suc (substring_index p t))"

declare substring_index.simps [simp del]

function collapse_spaces :: "jsstr \<Rightarrow> jsstr" where
  "collapse_spaces [] = []"
| "collapse_spaces (c # t) =
     (if js_space c then 32 # collapse_spaces (dropWhile js_space t) else c # collapse_spaces t)"
  by pat_completeness auto
termination by (relation "measure length") (auto simp: less_Suc_eq_le length_dropWhile_le)

definition clean_name :: "jsstr \<Rightarrow> jsstr" where
  "clean_name raw_name =
     (let decoded = trim (decode_entities raw_name);
          without_prefix = (case substring_index (js '' - '') decoded of None \<Rightarrow> decoded | Some i \<Rightarrow> drop (i + 3) decoded)
      in trim (collapse_spaces without_prefix))"

section \<open>The CSV file\<close>

text \<open>The loop of \<open>parseCsvLine\<close>: its index, the fields so far, the current field and whether it is quoted.\<close>

function (sequential) csv_loop :: "jsstr \<Rightarrow> nat \<Rightarrow> jsstr list \<Rightarrow> jsstr \<Rightarrow> bool \<Rightarrow> jsstr \<Rightarrow> jsstr list outcome" where
  "csv_loop line i cells current in_quotes [] = Inr (cells @ [current])"
| "csv_loop line i cells current in_quotes (c # t) =
     (if in_quotes then
        (if c = 34 \<and> starts_with t [34] then csv_loop line (i + 2) cells (current @ [34]) True (tl t)
         else if c = 34 then csv_loop line (i + 1) cells current False t
         else csv_loop line (i + 1) cells (current @ [c]) True t)
      else if c = 34 then
        (if 0 < length current then
           Inl (new_error (js ''parseCsvLine: unexpected quote mid-field at position '' @ dec i @ js '' in line: '' @ line))
         else csv_loop line (i + 1) cells current True t)
      else if c = 44 then csv_loop line (i + 1) (cells @ [current]) [] False t
      else csv_loop line (i + 1) cells (current @ [c]) False t)"
  by pat_completeness auto
termination by (relation "measure (\<lambda>(_, _, _, _, _, s). length s)") auto

definition parse_csv_line :: "jsstr \<Rightarrow> jsstr list outcome" where
  "parse_csv_line line = csv_loop line 0 [] [] False line"

record raw_row =
  rw_asn :: double
  rw_name :: jsstr

definition EXPECTED_HEADER :: jsstr where
  "EXPECTED_HEADER = js ''ASN,Entity''"

definition parse_row :: "jsstr \<Rightarrow> raw_row outcome" where
  "parse_row line =
     map_sum id (\<lambda>cells.
       \<lparr> rw_asn = to_number (hd cells), rw_name = clean_name (case tl cells of [] \<Rightarrow> [] | name_text # _ \<Rightarrow> name_text) \<rparr>)
       (parse_csv_line line)"

fun parse_rows :: "jsstr list \<Rightarrow> raw_row list outcome" where
  "parse_rows [] = Inr []"
| "parse_rows (line # lines) =
     (case parse_row line of
        Inl e \<Rightarrow> Inl e
      | Inr row \<Rightarrow> map_sum id (\<lambda>rows. row # rows) (parse_rows lines))"

definition parse_csv :: "jsstr \<Rightarrow> raw_row list outcome" where
  "parse_csv csv_text =
     (let lines = filter (\<lambda>line. 0 < length (trim line)) (split_on 10 csv_text) in
      case lines of
        [] \<Rightarrow> Inl (new_error (js ''parseCsv: expected the CSV header to be \"ASN,Entity\", got \"(empty file)\" '' @ [8212] @
          js '' the upstream format may have changed; update this parser before trusting the output.''))
      | header # rows \<Rightarrow>
          if header \<noteq> EXPECTED_HEADER then
            Inl (new_error (js ''parseCsv: expected the CSV header to be \"ASN,Entity\", got \"'' @ header @ js ''\" '' @ [8212] @
              js '' the upstream format may have changed; update this parser before trusting the output.''))
          else parse_rows rows)"

section \<open>The dataset\<close>

definition well_formed_row :: "raw_row \<Rightarrow> int option" where
  "well_formed_row row =
     (case integer_value (rw_asn row) of
        None \<Rightarrow> None
      | Some asn \<Rightarrow> if asn \<le> 0 \<or> rw_name row = [] then None else Some asn)"

fun collect_rows :: "raw_row list \<Rightarrow> (int, asn_entry) js_map \<Rightarrow> nat \<Rightarrow> (int, asn_entry) js_map \<times> nat" where
  "collect_rows [] by_asn dropped_count = (by_asn, dropped_count)"
| "collect_rows (row # rows) by_asn dropped_count =
     (case well_formed_row row of
        None \<Rightarrow> collect_rows rows by_asn (dropped_count + 1)
      | Some asn \<Rightarrow>
          collect_rows rows
            (map_set asn \<lparr> as_asn = asn, as_name = rw_name row, as_source = js ''brianhama/bad-asn-list'' \<rparr> by_asn)
            dropped_count)"

text \<open>The entries and, when rows were dropped, the warning.\<close>

definition build_entries :: "raw_row list \<Rightarrow> asn_entry list \<times> jsstr option" where
  "build_entries csv_rows =
     (let (by_asn, dropped_count) = collect_rows csv_rows [] 0;
          all_entries = foldl (\<lambda>m entry. map_set (as_asn entry) entry m) by_asn SUPPLEMENTAL_ENTRIES
      in (sort_key as_asn (map snd all_entries),
          if 0 < dropped_count
          then Some (js ''vendor-asn: dropped '' @ dec dropped_count @ js '' malformed row(s) from the upstream CSV'')
          else None))"

fun duplicate_asn :: "int list \<Rightarrow> asn_entry list \<Rightarrow> int option" where
  "duplicate_asn seen [] = None"
| "duplicate_asn seen (entry # entries) =
     (if as_asn entry \<in> set seen then Some (as_asn entry) else duplicate_asn (as_asn entry # seen) entries)"

text \<open>\<open>main\<close> between reading and writing the file: the entries to write.\<close>

definition vendor_entries :: "jsstr \<Rightarrow> asn_entry list outcome" where
  "vendor_entries csv_text =
     (case parse_csv csv_text of
        Inl e \<Rightarrow> Inl e
      | Inr rows \<Rightarrow>
          let entries = fst (build_entries rows) in
          if length entries < 200 then
            Inl (new_error (js ''vendor-asn: only produced '' @ dec (length entries) @ js '' entries, need at least 200''))
          else
            case duplicate_asn [] entries of
              Some asn \<Rightarrow> Inl (new_error (js ''vendor-asn: duplicate asn '' @ dec_signed asn @ js '' after dedup''))
            | None \<Rightarrow> Inr entries)"

definition entry_json :: "asn_entry \<Rightarrow> json" where
  "entry_json e = JObj [(js ''asn'', JInt (as_asn e)), (js ''name'', JStr (as_name e)), (js ''source'', JStr (as_source e))]"

section \<open>Seeding the table\<close>

definition has_entries_array :: "json \<Rightarrow> json list option" where
  "has_entries_array parsed =
     (case parsed of
        JObj ms \<Rightarrow> (case map_get ms (js ''entries'') of Some (JArr vs) \<Rightarrow> Some vs | _ \<Rightarrow> None)
      | _ \<Rightarrow> None)"

definition load_asn_dataset :: "(jsstr \<Rightarrow> thrown) \<Rightarrow> jsstr \<Rightarrow> jsstr outcome \<Rightarrow> json list outcome" where
  "load_asn_dataset syntax_error dataset_path file =
     (case file of
        Inl e \<Rightarrow> Inl e
      | Inr raw \<Rightarrow>
          (case json_parse raw of
             None \<Rightarrow> Inl (syntax_error raw)
           | Some parsed \<Rightarrow>
               (case has_entries_array parsed of
                  None \<Rightarrow> Inl (new_error (js ''loadAsnDataset: '' @ dataset_path @
                    js '' does not have the expected {\"entries\": [...]} shape''))
                | Some entries \<Rightarrow> Inr entries)))"

text \<open>A property of an entry: reading it from \<open>null\<close> throws, from anything but an object it is \<open>undefined\<close>.\<close>

definition entry_field :: "thrown \<Rightarrow> json \<Rightarrow> string \<Rightarrow> json option outcome" where
  "entry_field type_error v key =
     (case v of JNull \<Rightarrow> Inl type_error | JObj ms \<Rightarrow> Inr (map_get ms (js key)) | _ \<Rightarrow> Inr None)"

fun asn_values :: "thrown \<Rightarrow> json list \<Rightarrow> (json option \<times> json option) list outcome" where
  "asn_values type_error [] = Inr []"
| "asn_values type_error (v # vs) =
     (case (entry_field type_error v ''asn'', entry_field type_error v ''name'') of
        (Inr asn, Inr name) \<Rightarrow> map_sum id (\<lambda>rows. (asn, name) # rows) (asn_values type_error vs)
      | _ \<Rightarrow> Inl type_error)"

definition row_placeholder :: "nat \<Rightarrow> jsstr" where
  "row_placeholder index =
     (let base = index * 2 in js ''($'' @ dec (base + 1) @ js '', $'' @ dec (base + 2) @ js '')'')"

definition upsert_statement :: "nat \<Rightarrow> jsstr" where
  "upsert_statement n =
     js ''INSERT INTO asn_datacenter (asn, name) VALUES '' @ join_with (js '', '') (map row_placeholder [0 ..< n]) @
     [10] @ js ''     ON CONFLICT (asn) DO UPDATE SET name = EXCLUDED.name''"

type_synonym 's asn_query = "jsstr \<Rightarrow> json option list \<Rightarrow> ('s, unit) io"

definition seed_asn_datacenter ::
  "(jsstr \<Rightarrow> thrown) \<Rightarrow> thrown \<Rightarrow> 's asn_query \<Rightarrow> jsstr \<Rightarrow> jsstr outcome \<Rightarrow> ('s, nat) io" where
  "seed_asn_datacenter syntax_error type_error query dataset_path file =
     io_bind (io_of (load_asn_dataset syntax_error dataset_path file)) (\<lambda>entries.
       if length entries = 0 then
         io_throw (new_error (js ''seedAsnDatacenter: '' @ dataset_path @ js '' has no entries '' @ [8212] @
           js '' refusing to seed zero rows''))
       else
         io_bind (io_of (asn_values type_error entries)) (\<lambda>rows.
           io_then (query (upsert_statement (length rows)) (concat (map (\<lambda>(a, n). [a, n]) rows)))
             (io_return (length entries))))"

section \<open>The reader of CSV lines\<close>

text \<open>A field as CSV writes it: in quotes, with every quote doubled.\<close>

definition quoted_field :: "jsstr \<Rightarrow> jsstr" where
  "quoted_field f = [34] @ concat (map (\<lambda>c. if c = 34 then [34, 34] else [c]) f) @ [34]"

lemma csv_inside_quotes:
  "\<not> starts_with r [34] \<Longrightarrow>
   csv_loop line i cells current True (concat (map (\<lambda>c. if c = 34 then [34, 34] else [c]) f) @ 34 # r) =
   csv_loop line (i + length (concat (map (\<lambda>c. if c = 34 then [34, 34] else [c]) f)) + 1) cells (current @ f) False r"
  by (induction f arbitrary: i current) auto

lemma csv_quoted_field:
  assumes "\<not> starts_with r [34]"
  shows "\<exists>j. csv_loop line i cells [] False (quoted_field f @ r) = csv_loop line j cells f False r"
  using csv_inside_quotes [OF assms, of line "i + 1" cells "[]" f] by (intro exI) (simp add: quoted_field_def)

lemma csv_quoted_line:
  "fs \<noteq> [] \<Longrightarrow> csv_loop line i cells [] False (join_with [44] (map quoted_field fs)) = Inr (cells @ fs)"
proof (induction fs arbitrary: i cells)
  case (Cons f fs)
  show ?case
  proof (cases fs)
    case Nil
    then show ?thesis using csv_quoted_field [of "[]" line i cells f] by auto
  next
    case (Cons g gs)
    then have line_text: "join_with [44] (map quoted_field (f # fs)) = quoted_field f @ 44 # join_with [44] (map quoted_field fs)"
      by simp
    have "\<not> starts_with (44 # join_with [44] (map quoted_field fs)) [34]" by simp
    from csv_quoted_field [OF this, of line i cells f] obtain j where
      "csv_loop line i cells [] False (join_with [44] (map quoted_field (f # fs))) =
       csv_loop line j cells f False (44 # join_with [44] (map quoted_field fs))"
      unfolding line_text by blast
    then show ?thesis using Cons.IH [of "j + 1" "cells @ [f]"] Cons by simp
  qed
qed simp

text \<open>A line without quotes is split at its commas.\<close>

lemma csv_plain_line:
  "34 \<notin> set s \<Longrightarrow> csv_loop line i cells current False s =
     Inr (cells @ (case split_on 44 s of w # ws \<Rightarrow> (current @ w) # ws | [] \<Rightarrow> [current]))"
  by (induction s arbitrary: i cells current) (auto split: list.split)

text \<open>
  the reader of CSV lines reads back every line that is written with quoted fields, whatever they contain, and splits a
  line without quotes at its commas.
\<close>

theorem csv_line_roundtrip:
  "(fs \<noteq> [] \<longrightarrow> parse_csv_line (join_with [44] (map quoted_field fs)) = Inr fs) \<and>
   (34 \<notin> set line \<longrightarrow> parse_csv_line line = Inr (split_on 44 line))"
  using csv_quoted_line [of fs _ 0 "[]"] csv_plain_line [of line line 0 "[]" "[]"]
  by (auto simp: parse_csv_line_def split: list.splits)

theorem csv_line_roundtrip_witness:
  "parse_csv_line (join_with [44] (map quoted_field [[49], [44, 34, 65]])) = Inr [[49], [44, 34, 65]] \<and>
   parse_csv_line [49, 44, 65] = Inr (split_on 44 [49, 44, 65])"
  using csv_line_roundtrip [of "[[49], [44, 34, 65]]" "[49, 44, 65]"] by simp

text \<open>A quote that is never closed, and text after a closing quote, are taken as they come.\<close>

theorem unclosed_quote_is_accepted:
  "parse_csv_line [49, 44, 34, 65] = Inr [[49], [65]] \<and> parse_csv_line [34, 65, 34, 66] = Inr [[65, 66]]"
  by (simp add: parse_csv_line_def)

section \<open>The entries\<close>

lemma foldl_entries_get:
  "distinct (map as_asn es) \<Longrightarrow> (e :: asn_entry) \<in> set es \<Longrightarrow> map_get (foldl (\<lambda>m entry. map_set (as_asn entry) entry m) m es) (as_asn e) = Some e"
proof (induction es arbitrary: m)
  case (Cons x es)
  have other: "map_get (foldl (\<lambda>m entry. map_set (as_asn entry) entry m) m' es) k = map_get m' k"
    if "k \<notin> as_asn ` set es" for k and m' :: "(int, asn_entry) js_map"
    using that by (induction es arbitrary: m') auto
  show ?case using Cons other [of "as_asn x"] by (cases "e = x") auto
qed simp

text \<open>What the two loops keep: every key is the number of its entry, which is positive and has a name.\<close>

definition entries_ok :: "(int, asn_entry) js_map \<Rightarrow> bool" where
  "entries_ok m \<longleftrightarrow> wf_map m \<and> (\<forall>(k, e) \<in> set m. as_asn e = k \<and> 0 < k \<and> as_name e \<noteq> [])"

lemma set_map_set: "p \<in> set (map_set k v m) \<Longrightarrow> p = (k, v) \<or> p \<in> set m"
  by (induction m) (auto simp: map_set_def split: if_splits)

lemma entries_ok_set:
  "entries_ok m \<Longrightarrow> 0 < as_asn e \<Longrightarrow> as_name e \<noteq> [] \<Longrightarrow> entries_ok (map_set (as_asn e) e m)"
  by (auto simp: entries_ok_def dest!: set_map_set)

lemma collect_rows_ok: "entries_ok m \<Longrightarrow> entries_ok (fst (collect_rows rows m n))"
proof (induction rows m n rule: collect_rows.induct)
  case (2 row rows m n)
  show ?case
  proof (cases "well_formed_row row")
    case (Some asn)
    then have "0 < asn" "rw_name row \<noteq> []" by (auto simp: well_formed_row_def split: option.splits if_splits)
    then show ?thesis
      using 2(2) [OF Some] 2(3) Some
        entries_ok_set [of m "\<lparr> as_asn = asn, as_name = rw_name row, as_source = js ''brianhama/bad-asn-list'' \<rparr>"]
      by simp
  qed (use 2 in simp)
qed simp

lemma collect_rows_has:
  "map_get m k \<noteq> None \<or> Some k \<in> well_formed_row ` set rows \<Longrightarrow> map_get (fst (collect_rows rows m n)) k \<noteq> None"
proof (induction rows m n rule: collect_rows.induct)
  case (2 row rows m n)
  then show ?case by (cases "well_formed_row row") auto
qed auto

lemma foldl_entries_ok:
  "entries_ok m \<Longrightarrow> \<forall>e \<in> set es. 0 < as_asn e \<and> as_name e \<noteq> [] \<Longrightarrow>
   entries_ok (foldl (\<lambda>m entry. map_set (as_asn entry) entry m) m es)"
  by (induction es arbitrary: m) (simp_all add: entries_ok_set)

lemma foldl_entries_has:
  "map_get m k \<noteq> None \<Longrightarrow> map_get (foldl (\<lambda>m entry. map_set (as_asn entry) entry m) m es) k \<noteq> None"
  by (induction es arbitrary: m) auto

lemma supplemental_ok:
  "distinct (map as_asn SUPPLEMENTAL_ENTRIES)" "\<forall>e \<in> set SUPPLEMENTAL_ENTRIES. 0 < as_asn e \<and> as_name e \<noteq> []"
  by (simp_all add: SUPPLEMENTAL_ENTRIES_def)

lemma duplicate_asn_None: "distinct (map as_asn es) \<Longrightarrow> set (map as_asn es) \<inter> set seen = {} \<Longrightarrow> duplicate_asn seen es = None"
  by (induction es arbitrary: seen) auto

text \<open>
  the entries made from the rows are in ascending order with every number once, all positive and named; every row with
  a positive number and a name has an entry, the supplemental entries win over the rows, and the check for
  duplicates after the merge can never fire.
\<close>

theorem vendored_entries_are_well_formed:
  assumes "build_entries rows = (entries, warning)"
  shows "sorted_wrt (<) (map as_asn entries) \<and> (\<forall>e \<in> set entries. 0 < as_asn e \<and> as_name e \<noteq> []) \<and>
     set SUPPLEMENTAL_ENTRIES \<subseteq> set entries \<and>
     (\<forall>row \<in> set rows. \<forall>asn. well_formed_row row = Some asn \<longrightarrow> asn \<in> as_asn ` set entries) \<and>
     duplicate_asn [] entries = None"
proof -
  obtain by_asn dropped where collected: "collect_rows rows [] 0 = (by_asn, dropped)" by fastforce
  define m where "m = foldl (\<lambda>m entry. map_set (as_asn entry) entry m) by_asn SUPPLEMENTAL_ENTRIES"
  have entries: "entries = sort_key as_asn (map snd m)"
    using assms by (simp add: build_entries_def collected m_def split: if_splits)
  have ok: "entries_ok m"
    using foldl_entries_ok [OF _ supplemental_ok(2)] collect_rows_ok [of "[]" rows 0]
    by (simp add: m_def collected entries_ok_def)
  have keys: "map as_asn (map snd m) = map fst m"
    using ok by (induction m) (auto simp: entries_ok_def wf_map_def)
  have "distinct (map as_asn (map snd m))" unfolding keys using ok by (simp add: entries_ok_def wf_map_def)
  from iffD1 [OF distinct_map this] have distinct: "distinct (map as_asn entries)"
    unfolding entries by (intro iffD2 [OF distinct_map]) (simp only: distinct_sort set_sort)
  then have sorted: "sorted_wrt (<) (map as_asn entries)"
    using sorted_sort_key [of as_asn "map snd m"] unfolding entries by (simp add: strict_sorted_iff)
  have member: "e \<in> set entries \<longleftrightarrow> map_get m (as_asn e) = Some e" for e
  proof -
    have "map_get m (as_asn e) = Some e \<longleftrightarrow> (as_asn e, e) \<in> set m" using ok by (simp add: entries_ok_def wf_map_def)
    moreover have "e \<in> snd ` set m \<longleftrightarrow> (as_asn e, e) \<in> set m" using ok by (force simp: entries_ok_def)
    ultimately show ?thesis by (simp add: entries)
  qed
  have "asn \<in> as_asn ` set entries" if "row \<in> set rows" "well_formed_row row = Some asn" for row asn
  proof -
    have "map_get by_asn asn \<noteq> None" using collect_rows_has [of "[]" asn rows 0] that collected by force
    then have "map_get m asn \<noteq> None" unfolding m_def by (rule foldl_entries_has)
    then obtain e where e: "map_get m asn = Some e" by blast
    then have "as_asn e = asn" using ok by (auto simp: entries_ok_def dest: map_of_SomeD)
    with e show ?thesis using member [of e] by force
  qed
  moreover have "set SUPPLEMENTAL_ENTRIES \<subseteq> set entries"
    using foldl_entries_get [OF supplemental_ok(1)] by (auto simp: member m_def)
  moreover have "\<forall>e \<in> set entries. 0 < as_asn e \<and> as_name e \<noteq> []"
    using ok by (force simp: entries entries_ok_def)
  ultimately show ?thesis using sorted distinct duplicate_asn_None [of entries "[]"] by simp
qed

theorem vendored_entries_are_well_formed_witness:
  "\<exists>entries warning. build_entries [\<lparr> rw_asn = Finite 7, rw_name = [65] \<rparr>] = (entries, warning) \<and> 7 \<in> as_asn ` set entries"
proof -
  obtain entries warning where b: "build_entries [\<lparr> rw_asn = Finite 7, rw_name = [65] \<rparr>] = (entries, warning)" by fastforce
  have "well_formed_row \<lparr> rw_asn = Finite 7, rw_name = [65] \<rparr> = Some 7"
    using integer_value_nat [of 7] by (simp add: well_formed_row_def)
  with vendored_entries_are_well_formed [OF b] b show ?thesis by auto
qed

section \<open>The table\<close>

text \<open>
  \<open>asn_datacenter\<close> as a map from numbers to a name and the time the row was added, which defaults to the time of
  its insertion. Postgres refuses a statement with more than 65535 parameters, a number that occurs twice in one upsert, and
  values that are not an \<open>integer\<close>, of 32 bits, and a text.
\<close>

record asn_world =
  aw_table :: "int \<Rightarrow> (jsstr \<times> int) option"
  aw_now :: int

definition upsert_row :: "int \<Rightarrow> int \<times> jsstr \<Rightarrow> (int \<Rightarrow> (jsstr \<times> int) option) \<Rightarrow> int \<Rightarrow> (jsstr \<times> int) option" where
  "upsert_row now row table =
     table(fst row \<mapsto> (snd row, case table (fst row) of Some (_, added_at) \<Rightarrow> added_at | None \<Rightarrow> now))"

fun bound_rows :: "json option list \<Rightarrow> (int \<times> jsstr) list option" where
  "bound_rows [] = Some []"
| "bound_rows (Some (JInt asn) # Some (JStr name) # vs) = map_option (\<lambda>rows. (asn, name) # rows) (bound_rows vs)"
| "bound_rows vs = None"

definition int4 :: "int \<Rightarrow> bool" where
  "int4 n \<longleftrightarrow> - 2147483648 \<le> n \<and> n \<le> 2147483647"

definition run_upsert :: "asn_world asn_query" where
  "run_upsert statement vs w =
     (case bound_rows vs of
        Some rows \<Rightarrow>
          if length vs \<le> 65535 \<and> statement = upsert_statement (length rows) \<and> distinct (map fst rows) \<and>
            list_all int4 (map fst rows)
          then (Inr (), w\<lparr>aw_table := fold (upsert_row (aw_now w)) rows (aw_table w)\<rparr>)
          else (Inl (new_error (js ''refused'')), w)
      | None \<Rightarrow> (Inl (new_error (js ''refused'')), w))"

lemma bound_rows_entries:
  "bound_rows (concat (map (\<lambda>(a, n). [a, n]) (map (\<lambda>e. (Some (JInt (as_asn e)), Some (JStr (as_name e)))) es))) =
     Some (map (\<lambda>e. (as_asn e, as_name e)) es)"
  by (induction es) simp_all

lemma asn_values_entries:
  "asn_values type_error (map entry_json es) =
     Inr (map (\<lambda>e. (Some (JInt (as_asn e)), Some (JStr (as_name e)))) es)"
  by (induction es) (simp_all add: entry_field_def entry_json_def)

lemma fold_upsert_other: "k \<notin> fst ` set rows \<Longrightarrow> fold (upsert_row now) rows table k = table k"
  by (induction rows arbitrary: table) (auto simp: upsert_row_def)

lemma fold_upsert_row:
  "distinct (map fst rows) \<Longrightarrow> (k, n) \<in> set rows \<Longrightarrow>
   fold (upsert_row now) rows table k = Some (n, case table k of Some (_, added_at) \<Rightarrow> added_at | None \<Rightarrow> now)"
proof (induction rows arbitrary: table)
  case (Cons row rows)
  show ?case
  proof (cases "fst row = k")
    case True
    then have "k \<notin> fst ` set rows" "row = (k, n)" using Cons.prems by (auto simp: rev_image_eqI)
    moreover have "upsert_row now (k, n) table k = Some (n, case table k of Some (_, added_at) \<Rightarrow> added_at | None \<Rightarrow> now)"
      by (simp add: upsert_row_def)
    ultimately show ?thesis by (simp add: fold_upsert_other)
  next
    case False
    then show ?thesis using Cons by (auto simp: upsert_row_def)
  qed
qed simp

lemma fold_upsert_again:
  "distinct (map fst rows) \<Longrightarrow>
   fold (upsert_row later) rows (fold (upsert_row now) rows table) = fold (upsert_row now) rows table"
proof (rule ext)
  fix k
  assume d: "distinct (map fst rows)"
  show "fold (upsert_row later) rows (fold (upsert_row now) rows table) k = fold (upsert_row now) rows table k"
  proof (cases "k \<in> fst ` set rows")
    case True
    then obtain n where "(k, n) \<in> set rows" by auto
    then show ?thesis by (simp add: fold_upsert_row [OF d])
  qed (simp add: fold_upsert_other)
qed

text \<open>
  seeding a dataset whose numbers are distinct, as the vendored ones are, writes every entry and touches no other row;
  a row that was there keeps the time it was added; and seeding again, at any later time, changes nothing.
\<close>

theorem asn_seed_is_idempotent:
  assumes "json_parse raw = Some dataset" and "has_entries_array dataset = Some (map entry_json es)"
    and "es \<noteq> []" and "distinct (map as_asn es)" and "2 * length es \<le> 65535"
    and "list_all int4 (map as_asn es)"
  shows "\<exists>w'. seed_asn_datacenter syntax_error type_error run_upsert dataset_path (Inr raw) w = (Inr (length es), w') \<and>
     (\<forall>e \<in> set es. aw_table w' (as_asn e) =
        Some (as_name e, case aw_table w (as_asn e) of Some (_, added_at) \<Rightarrow> added_at | None \<Rightarrow> aw_now w)) \<and>
     (\<forall>k. k \<notin> as_asn ` set es \<longrightarrow> aw_table w' k = aw_table w k) \<and>
     (\<forall>later. seed_asn_datacenter syntax_error type_error run_upsert dataset_path (Inr raw) (w'\<lparr>aw_now := later\<rparr>) =
        (Inr (length es), w'\<lparr>aw_now := later\<rparr>))"
proof -
  let ?rows = "map (\<lambda>e. (as_asn e, as_name e)) es"
  have distinct: "distinct (map fst ?rows)" using assms(4) by (simp add: comp_def)
  have run: "seed_asn_datacenter syntax_error type_error run_upsert dataset_path (Inr raw) v =
      (Inr (length es), v\<lparr>aw_table := fold (upsert_row (aw_now v)) ?rows (aw_table v)\<rparr>)" for v
    using assms(1-3,5,6) distinct bound_rows_entries [of es]
    by (simp add: seed_asn_datacenter_def load_asn_dataset_def io_bind_app io_then_app asn_values_entries run_upsert_def
        length_concat comp_def sum_list_triv list_all_iff)
  let ?w = "w\<lparr>aw_table := fold (upsert_row (aw_now w)) ?rows (aw_table w)\<rparr>"
  have "aw_table ?w (as_asn e) =
      Some (as_name e, case aw_table w (as_asn e) of Some (_, added_at) \<Rightarrow> added_at | None \<Rightarrow> aw_now w)" if "e \<in> set es" for e
    using fold_upsert_row [OF distinct, of "as_asn e" "as_name e"] that by auto
  moreover have "aw_table ?w k = aw_table w k" if "k \<notin> as_asn ` set es" for k
    using fold_upsert_other [of k ?rows] that by (auto simp: image_image)
  moreover have "seed_asn_datacenter syntax_error type_error run_upsert dataset_path (Inr raw) (?w\<lparr>aw_now := later\<rparr>) =
      (Inr (length es), ?w\<lparr>aw_now := later\<rparr>)" for later
    by (simp add: run fold_upsert_again [OF distinct])
  ultimately show ?thesis using run [of w] by blast
qed

definition example_asn :: asn_entry where
  "example_asn = \<lparr> as_asn = 7, as_name = [65], as_source = [66] \<rparr>"

theorem asn_seed_is_idempotent_witness:
  "\<exists>w'. aw_table w' 7 = Some ([65], 5) \<and> aw_table w' 8 = None \<and>
     seed_asn_datacenter (\<lambda>_. new_error []) (new_error []) run_upsert []
       (Inr (stringify (JObj [(js ''entries'', JArr [entry_json example_asn])]))) (w'\<lparr>aw_now := 9\<rparr>) = (Inr 1, w'\<lparr>aw_now := 9\<rparr>)"
proof -
  let ?dataset = "JObj [(js ''entries'', JArr [entry_json example_asn])]"
  have "json_parse (stringify ?dataset) = Some ?dataset"
    by (rule json_parse_stringify) (simp add: entry_json_def example_asn_def js_def)
  moreover have "has_entries_array ?dataset = Some (map entry_json [example_asn])" by (simp add: has_entries_array_def)
  ultimately obtain w' where
    "\<forall>e \<in> set [example_asn]. aw_table w' (as_asn e) = Some (as_name e, 5)" "\<forall>k. k \<notin> as_asn ` set [example_asn] \<longrightarrow> aw_table w' k = None"
    "\<forall>later. seed_asn_datacenter (\<lambda>_. new_error []) (new_error []) run_upsert [] (Inr (stringify ?dataset)) (w'\<lparr>aw_now := later\<rparr>) =
       (Inr (length [example_asn]), w'\<lparr>aw_now := later\<rparr>)"
    using asn_seed_is_idempotent [of "stringify ?dataset" ?dataset "[example_asn]" "\<lambda>_. new_error []" "new_error []" "[]"
        "\<lparr> aw_table = \<lambda>_. None, aw_now = 5 \<rparr>"] by (auto simp: example_asn_def int4_def)
  then show ?thesis by (intro exI [of _ w']) (simp add: example_asn_def)
qed

end
