(* ===== verification/Js_JsonIndent.thy ===== *)
theory Js_JsonIndent
  imports Js_Json
begin

text \<open>
  \<open>JSON.stringify(value, null, n)\<close>: members and elements on lines of their own, indented by a gap of \<open>n\<close> spaces per
  level. \<open>JSON.parse\<close> reads it back, and ignores whitespace after it.
\<close>

fun stringify_indent :: "jsstr \<Rightarrow> jsstr \<Rightarrow> json \<Rightarrow> jsstr" where
  "stringify_indent gap indent (JArr vs) =
     (if vs = [] then js ''[]''
      else [91, 10] @ indent @ gap @
        join_with ([44, 10] @ indent @ gap) (map (stringify_indent gap (indent @ gap)) vs) @ [10] @ indent @ [93])"
| "stringify_indent gap indent (JObj ms) =
     (if ms = [] then js ''{}''
      else [123, 10] @ indent @ gap @
        join_with ([44, 10] @ indent @ gap)
          (map (\<lambda>(k, v). quote k @ js '': '' @ stringify_indent gap (indent @ gap) v) ms) @ [10] @ indent @ [125])"
| "stringify_indent gap indent v = stringify v"

section \<open>Reading indented text\<close>

text \<open>A text that the parser reads as a value, whatever follows the value.\<close>

definition reads_text :: "jsstr \<Rightarrow> json \<Rightarrow> bool" where
  "reads_text t v \<longleftrightarrow>
     (\<exists>k. \<forall>n \<ge> k. \<forall>r. value_end r \<longrightarrow> parse_value n (t @ r) = Some (v, r)) \<and>
     (\<exists>c u. t = c # u \<and> \<not> json_space c \<and> c \<noteq> 93 \<and> c \<noteq> 125)"

definition blank :: "jsstr \<Rightarrow> bool" where
  "blank w \<longleftrightarrow> (\<forall>c \<in> set w. json_space c)"

lemma skip_ws_blank: "blank w \<Longrightarrow> skip_ws (w @ r) = skip_ws r"
  unfolding skip_ws_def blank_def by (induction w) simp_all

lemma value_end_blank: "blank w \<Longrightarrow> value_end r \<Longrightarrow> value_end (w @ r)"
  by (cases w) (auto simp: blank_def value_end_def json_space_def number_char_def is_digit_def)

lemma reads_text_value: "reads_text t v \<Longrightarrow> \<exists>k. \<forall>n \<ge> k. \<forall>r. value_end r \<longrightarrow> parse_value n (t @ r) = Some (v, r)"
  by (simp add: reads_text_def)

lemma reads_text_start: "reads_text t v \<Longrightarrow> skip_ws (t @ r) = t @ r"
  by (auto simp: reads_text_def skip_ws_def)

lemma reads_text_stringify: "wf_json v \<Longrightarrow> reads_text (stringify v) v"
  using wf_json_reads [of v] stringify_head [of v] by (simp add: reads_text_def reads_def)

lemma joined_start:
  assumes "vs \<noteq> []" and "\<forall>v \<in> set vs. reads_text (f v) (g v)"
  shows "\<exists>c u. join_with sep (map f vs) = c # u \<and> \<not> json_space c \<and> c \<noteq> 93 \<and> c \<noteq> 125"
proof -
  obtain w ws where vs: "vs = w # ws" using assms(1) by (cases vs) auto
  then have "\<exists>c u. f w = c # u \<and> \<not> json_space c \<and> c \<noteq> 93 \<and> c \<noteq> 125" using assms(2) by (simp add: reads_text_def)
  then show ?thesis unfolding vs by (cases ws) auto
qed

lemma reads_text_elements:
  assumes "vs \<noteq> []" and "\<forall>v \<in> set vs. reads_text (f v) v" and "blank w" and "blank u"
  shows "\<exists>k. \<forall>n \<ge> k. \<forall>r. parse_elements n (join_with (44 # w) (map f vs) @ u @ 93 # r) = Some (vs, r)"
  using assms(1,2)
proof (induction vs rule: list_nonempty_induct)
  case (single v)
  then obtain k where k: "\<forall>n \<ge> k. \<forall>r. value_end r \<longrightarrow> parse_value n (f v @ r) = Some (v, r)"
    using reads_text_value [of "f v" v] single by auto
  have "parse_elements (Suc n) (f v @ u @ 93 # r) = Some ([v], r)" if "k \<le> n" for n r
    using k that value_end_blank [OF assms(4), of "93 # r"] by (simp add: parse_elements.simps(2) skip_ws_blank [OF assms(4)])
  then show ?case by (intro enough_Suc [of k] allI) simp
next
  case (cons v vs)
  then obtain k l
    where k: "\<forall>n \<ge> k. \<forall>r. value_end r \<longrightarrow> parse_value n (f v @ r) = Some (v, r)"
      and l: "\<forall>n \<ge> l. \<forall>r. parse_elements n (join_with (44 # w) (map f vs) @ u @ 93 # r) = Some (vs, r)"
    using reads_text_value [of "f v" v] by auto
  obtain c t where start: "join_with (44 # w) (map f vs) = c # t" "\<not> json_space c"
    using joined_start [of vs f "\<lambda>v. v" "44 # w"] cons by auto
  have "parse_elements (Suc n) (join_with (44 # w) (map f (v # vs)) @ u @ 93 # r) = Some (v # vs, r)"
    if "max k l \<le> n" for n r
  proof -
    have eq: "join_with (44 # w) (map f (v # vs)) @ u @ 93 # r = f v @ 44 # w @ join_with (44 # w) (map f vs) @ u @ 93 # r"
      using cons.hyps by (cases vs) simp_all
    have "skip_ws (w @ join_with (44 # w) (map f vs) @ u @ 93 # r) = join_with (44 # w) (map f vs) @ u @ 93 # r"
      using start by (simp add: skip_ws_blank [OF assms(3)]) (simp add: skip_ws_def)
    then show ?thesis using k l that unfolding eq by (simp add: cons_fst_def parse_elements.simps(2))
  qed
  then show ?case by (intro enough_Suc [of "max k l"] allI)
qed

abbreviation indented_member :: "(json \<Rightarrow> jsstr) \<Rightarrow> jsstr \<times> json \<Rightarrow> jsstr" where
  "indented_member f \<equiv> \<lambda>(k, v). quote k @ js '': '' @ f v"

lemma member_text: "indented_member f (k, v) @ r = 34 # concat (map quote_char (chars k)) @ 34 # 58 # 32 # f v @ r"
  by (simp add: quote_def js_def)

lemma skip_member: "skip_ws (indented_member f p @ r) = indented_member f p @ r"
  by (cases p) (simp add: skip_ws_def quote_def json_space_def)

lemma skip_members: "ms \<noteq> [] \<Longrightarrow> skip_ws (join_with sep (map (indented_member f) ms) @ r) = join_with sep (map (indented_member f) ms) @ r"
  by (cases ms; cases "tl ms") (auto simp: skip_ws_def quote_def json_space_def case_prod_unfold)

lemma member_value:
  assumes "reads_text (f v) v"
  shows "\<exists>k. \<forall>n \<ge> k. \<forall>r. value_end r \<longrightarrow> parse_value n (skip_ws (32 # f v @ r)) = Some (v, r)"
proof -
  have "skip_ws (32 # f v @ r) = f v @ r" for r
    using reads_text_start [OF assms, of r] by (simp add: skip_ws_def json_space_def)
  then show ?thesis using reads_text_value [OF assms] by simp
qed

lemma read_member_last:
  "parse_value n (skip_ws s) = Some (v, r) \<Longrightarrow> skip_ws r = 125 # t \<Longrightarrow>
   parse_members (Suc n) (34 # concat (map quote_char (chars k)) @ 34 # 58 # s) acc = Some (map_set k v acc, t)"
  by (rule parse_member_last [OF parse_quote]) simp_all

lemma read_member_more:
  "parse_value n (skip_ws s) = Some (v, r) \<Longrightarrow> skip_ws r = 44 # t \<Longrightarrow>
   parse_members (Suc n) (34 # concat (map quote_char (chars k)) @ 34 # 58 # s) acc = parse_members n (skip_ws t) (map_set k v acc)"
  by (rule parse_member_more [OF parse_quote]) simp_all

lemma reads_text_members:
  assumes "ms \<noteq> []" and "\<forall>p \<in> set ms. reads_text (f (snd p)) (snd p)" and "blank w" and "blank u"
  shows "\<exists>g. \<forall>n \<ge> g. \<forall>r acc. distinct (map fst acc @ map fst ms) \<longrightarrow>
    parse_members n (join_with (44 # w) (map (indented_member f) ms) @ u @ 125 # r) acc = Some (acc @ ms, r)"
  using assms(1,2)
proof (induction ms rule: list_nonempty_induct)
  case (single p)
  obtain k v where p: "p = (k, v)" by (cases p)
  obtain g where g: "\<forall>n \<ge> g. \<forall>r. value_end r \<longrightarrow> parse_value n (skip_ws (32 # f v @ r)) = Some (v, r)"
    using member_value [of f v] single p by auto
  have "parse_members (Suc n) (join_with (44 # w) (map (indented_member f) [p]) @ u @ 125 # r) acc = Some (acc @ [p], r)"
    if "g \<le> n" and "distinct (map fst acc @ map fst [p])" for n r acc
  proof -
    have "parse_value n (skip_ws (32 # f v @ u @ 125 # r)) = Some (v, u @ 125 # r)"
      using g that(1) value_end_blank [OF assms(4), of "125 # r"] by simp
    moreover have "map_set k v acc = acc @ [(k, v)]" using that(2) p by (auto simp: map_set_new map_has_def)
    moreover have eq: "join_with (44 # w) (map (indented_member f) [p]) @ u @ 125 # r =
        34 # concat (map quote_char (chars k)) @ 34 # 58 # 32 # f v @ u @ 125 # r"
      using member_text [of f k v "u @ 125 # r"] p by simp
    ultimately show ?thesis
      unfolding eq using read_member_last [of n "32 # f v @ u @ 125 # r" v "u @ 125 # r" r k acc] p by (simp add: skip_ws_blank [OF assms(4)])
  qed
  then show ?case by (intro enough_Suc [of g] allI impI)
next
  case (cons p ms)
  obtain k v where p: "p = (k, v)" by (cases p)
  obtain g h where g: "\<forall>n \<ge> g. \<forall>r. value_end r \<longrightarrow> parse_value n (skip_ws (32 # f v @ r)) = Some (v, r)"
    and h: "\<forall>n \<ge> h. \<forall>r acc. distinct (map fst acc @ map fst ms) \<longrightarrow>
      parse_members n (join_with (44 # w) (map (indented_member f) ms) @ u @ 125 # r) acc = Some (acc @ ms, r)"
    using member_value [of f v] cons p by auto
  let ?rest = "\<lambda>r. join_with (44 # w) (map (indented_member f) ms) @ u @ 125 # r"
  have "parse_members (Suc n) (join_with (44 # w) (map (indented_member f) (p # ms)) @ u @ 125 # r) acc = Some (acc @ p # ms, r)"
    if "max g h \<le> n" and "distinct (map fst acc @ map fst (p # ms))" for n r acc
  proof -
    have "parse_value n (skip_ws (32 # f v @ 44 # w @ ?rest r)) = Some (v, 44 # w @ ?rest r)"
      using g that(1) by simp
    moreover have "map_set k v acc = acc @ [(k, v)]" using that(2) p by (auto simp: map_set_new map_has_def)
    moreover have "parse_members n (?rest r) (acc @ [(k, v)]) = Some ((acc @ [(k, v)]) @ ms, r)"
    proof -
      have "distinct (map fst (acc @ [(k, v)]) @ map fst ms)" using that(2) p by auto
      then show ?thesis using h that(1) by auto
    qed
    moreover have "skip_ws (w @ ?rest r) = ?rest r"
      unfolding skip_ws_blank [OF assms(3)] by (rule skip_members [OF cons.hyps(1)])
    moreover have eq: "join_with (44 # w) (map (indented_member f) (p # ms)) @ u @ 125 # r =
        34 # concat (map quote_char (chars k)) @ 34 # 58 # 32 # f v @ 44 # w @ ?rest r"
      using member_text [of f k v "44 # w @ ?rest r"] p cons.hyps(1) by (cases ms) simp_all
    ultimately show ?thesis
      unfolding eq using read_member_more [of n "32 # f v @ 44 # w @ ?rest r" v "44 # w @ ?rest r" "w @ ?rest r" k acc] p by simp
  qed
  then show ?case by (intro enough_Suc [of "max g h"] allI impI)
qed

lemma reads_text_Suc:
  assumes "\<And>n r. k \<le> n \<Longrightarrow> parse_value (Suc n) (t @ r) = Some (v, r)" and "t = c # u" and "\<not> json_space c" and "c \<noteq> 93" and "c \<noteq> 125"
  shows "reads_text t v"
  unfolding reads_text_def
proof
  show "\<exists>k. \<forall>n \<ge> k. \<forall>r. value_end r \<longrightarrow> parse_value n (t @ r) = Some (v, r)"
    by (intro enough_Suc [of k] allI impI) (rule assms(1))
qed (use assms(2-5) in blast)

lemma reads_text_array:
  assumes "vs \<noteq> []" and "\<forall>v \<in> set vs. reads_text (f v) v" and "blank w" and "blank u"
  shows "reads_text (91 # w @ join_with (44 # w) (map f vs) @ u @ [93]) (JArr vs)"
proof -
  obtain k where k: "\<forall>n \<ge> k. \<forall>r. parse_elements n (join_with (44 # w) (map f vs) @ u @ 93 # r) = Some (vs, r)"
    using reads_text_elements [OF assms] by blast
  obtain c t where start: "join_with (44 # w) (map f vs) = c # t" "\<not> json_space c" "c \<noteq> 93"
    using joined_start [of vs f "\<lambda>v. v" "44 # w"] assms(1,2) by auto
  have "parse_value (Suc n) ((91 # w @ join_with (44 # w) (map f vs) @ u @ [93]) @ r) = Some (JArr vs, r)" if "k \<le> n" for n r
  proof -
    have "parse_elements n (c # t @ u @ 93 # r) = Some (vs, r)" using k that start(1) by auto
    moreover have "skip_ws (w @ (c # t) @ u @ 93 # r) = c # t @ u @ 93 # r"
      unfolding skip_ws_blank [OF assms(3)] using start(2) by (simp add: skip_ws_def)
    ultimately show ?thesis using parse_array start by simp
  qed
  then show ?thesis by (rule reads_text_Suc [OF _ refl]) (simp_all add: json_space_def)
qed

lemma reads_text_object:
  assumes "ms \<noteq> []" and "\<forall>p \<in> set ms. reads_text (f (snd p)) (snd p)" and "distinct (map fst ms)" and "blank w" and "blank u"
  shows "reads_text (123 # w @ join_with (44 # w) (map (indented_member f) ms) @ u @ [125]) (JObj ms)"
proof -
  obtain k where k: "\<forall>n \<ge> k. \<forall>r acc. distinct (map fst acc @ map fst ms) \<longrightarrow>
      parse_members n (join_with (44 # w) (map (indented_member f) ms) @ u @ 125 # r) acc = Some (acc @ ms, r)"
    using reads_text_members [OF assms(1,2,4,5)] by blast
  obtain t where start: "join_with (44 # w) (map (indented_member f) ms) = 34 # t"
    using assms(1) by (cases ms; cases "tl ms") (auto simp: quote_def case_prod_unfold)
  have "parse_value (Suc n) ((123 # w @ join_with (44 # w) (map (indented_member f) ms) @ u @ [125]) @ r) = Some (JObj ms, r)"
    if "k \<le> n" for n r
  proof -
    have "distinct (map fst [] @ map fst ms)" using assms(3) by simp
    then have "parse_members n (34 # t @ u @ 125 # r) [] = Some (ms, r)" using k that start by (metis append_Cons append_Nil)
    moreover have "skip_ws (w @ (34 # t) @ u @ 125 # r) = 34 # t @ u @ 125 # r"
      unfolding skip_ws_blank [OF assms(4)] by (simp add: skip_ws_def json_space_def)
    ultimately show ?thesis using parse_object start by simp
  qed
  then show ?thesis by (rule reads_text_Suc [OF _ refl]) (simp_all add: json_space_def)
qed

lemma blank_append [simp]: "blank (u @ w) \<longleftrightarrow> blank u \<and> blank w"
  by (auto simp: blank_def)

lemma blank_newline [simp]: "blank (10 # w) \<longleftrightarrow> blank w"
  by (simp add: blank_def json_space_def)

lemma reads_text_indented: "wf_json v \<Longrightarrow> blank gap \<Longrightarrow> blank indent \<Longrightarrow> reads_text (stringify_indent gap indent v) v"
proof (induction v arbitrary: indent)
  case (JArr vs)
  show ?case
  proof (cases "vs = []")
    case True
    have "reads_text (stringify (JArr [])) (JArr [])" by (rule reads_text_stringify) simp
    then show ?thesis using True by (simp add: js_def)
  next
    case False
    have "\<forall>v \<in> set vs. reads_text (stringify_indent gap (indent @ gap) v) v" using JArr by simp
    from reads_text_array [OF False this, of "10 # indent @ gap" "10 # indent"] False JArr.prems show ?thesis by simp
  qed
next
  case (JObj ms)
  show ?case
  proof (cases "ms = []")
    case True
    have "reads_text (stringify (JObj [])) (JObj [])" by (rule reads_text_stringify) simp
    then show ?thesis using True by (simp add: js_def)
  next
    case False
    have "\<forall>p \<in> set ms. reads_text (stringify_indent gap (indent @ gap) (snd p)) (snd p)"
      using JObj by (fastforce simp: snds.simps)
    moreover have "distinct (map fst ms)" using JObj.prems by simp
    ultimately show ?thesis
      using reads_text_object [OF False, of "stringify_indent gap (indent @ gap)" "10 # indent @ gap" "10 # indent"] False JObj.prems
      by simp
  qed
qed (use reads_text_stringify in \<open>simp_all del: stringify.simps\<close>)

lemma json_parse_reads_text:
  assumes "reads_text t v" and "blank w"
  shows "json_parse (t @ w) = Some v"
proof -
  obtain k where k: "\<forall>n \<ge> k. \<forall>r. value_end r \<longrightarrow> parse_value n (t @ r) = Some (v, r)" using reads_text_value [OF assms(1)] by blast
  have "value_end (w @ [])" by (rule value_end_blank [OF assms(2)]) simp
  then have "parse_value (max k (2 * length (t @ w) + 2)) (t @ w) = Some (v, w)" using k by simp
  then have "parse_value (2 * length (t @ w) + 2) (t @ w) = Some (v, w)"
    using parse_fuel [of "t @ w" "max k (2 * length (t @ w) + 2)"] parse_fuel [of "t @ w" "2 * length (t @ w) + 2"] by simp
  moreover have "skip_ws (t @ w) = t @ w" by (rule reads_text_start [OF assms(1)])
  moreover have "skip_ws w = []" using skip_ws_blank [OF assms(2), of "[]"] by (simp add: skip_ws_def)
  ultimately show ?thesis by (simp add: json_parse_def)
qed

lemma json_parse_indented:
  "wf_json v \<Longrightarrow> blank gap \<Longrightarrow> blank w \<Longrightarrow> json_parse (stringify_indent gap [] v @ w) = Some v"
  by (rule json_parse_reads_text [OF reads_text_indented]) (simp_all add: blank_def)

end
