(* ===== verification/Scripts_Commands.thy ===== *)
theory Scripts_Commands
  imports Scripts_Seed Scripts_Asn Core_Migrate Core_Clients Contracts_Env Js_JsonIndent
begin

text \<open>
  The commands of the package as processes: \<open>main\<close> of \<open>seed.ts\<close>, \<open>seed-asn.ts\<close>, \<open>migrate-down.ts\<close> and \<open>vendor-asn.ts\<close>, each
  with what it prints and its exit code. A command with a database makes its client first, then runs and always closes the pool.
\<close>

section \<open>Running and closing\<close>

text \<open>An interface: what the ways to run an action and to close the pool after it have in common.\<close>

locale closing_run =
  fixes run :: "('s, 'a) io \<Rightarrow> ('s, unit) io \<Rightarrow> ('s, 'a) io"
  assumes run_state: "snd (run action close s) = snd (close (snd (action s)))"
    and run_success: "fst (run action close s) = Inr a \<longleftrightarrow> fst (action s) = Inr a \<and> (\<exists>u. fst (close (snd (action s))) = Inr u)"
    and run_one_failure: "fst (action s) = Inl e \<Longrightarrow> fst (close (snd (action s))) = Inr u \<Longrightarrow> fst (run action close s) = Inl e"
    and run_close_failure: "fst (action s) = Inr a \<Longrightarrow> fst (close (snd (action s))) = Inl ce \<Longrightarrow> fst (run action close s) = Inl ce"
    and run_names_both: "fst (action s) = Inl e \<Longrightarrow> fst (close (snd (action s))) = Inl ce \<Longrightarrow>
      \<exists>f a b c. fst (run action close s) = Inl f \<and> error_message f = a @ error_message e @ b @ error_message ce @ c"
begin

lemma failure_is_reported:
  assumes "fst (action s) = Inl e"
  shows "\<exists>f a b. fst (run action close s) = Inl f \<and> error_message f = a @ error_message e @ b"
proof (cases "fst (close (snd (action s)))")
  case (Inl ce)
  from run_names_both [where action = action and close = close, OF assms Inl] show ?thesis by blast
next
  case (Inr u)
  have "error_message e = [] @ error_message e @ []" by simp
  then show ?thesis using run_one_failure [where action = action and close = close, OF assms Inr] by blast
qed

lemma run_closes: "\<exists>r. run action close s = (r, snd (close (snd (action s))))"
  using run_state [of action close s] by (metis prod.collapse)

end

text \<open>\<open>seed-asn.ts\<close> words the second failure in its own way.\<close>

definition run_and_end_pool :: "('s, 'a) io \<Rightarrow> ('s, unit) io \<Rightarrow> ('s, 'a) io" where
  "run_and_end_pool action close =
     io_settle action (\<lambda>r. io_settle close (\<lambda>c.
       case (r, c) of
         (Inl e, Inl ce) \<Rightarrow>
           io_throw (new_error (js ''seed-asn: failed with \"'' @ error_message e @ js ''\", then pool.end() also failed with \"'' @
             error_message ce @ js ''\".''))
       | (Inl e, Inr _) \<Rightarrow> io_throw e
       | (Inr _, Inl ce) \<Rightarrow> io_throw ce
       | (Inr a, Inr _) \<Rightarrow> io_return a))"

lemmas closing_runs = run_and_close_def run_and_end_pool_def io_settle_app error_message_new_error

interpretation pool: closing_run "run_and_close label pool_name"
proof
  fix action :: "('a, 'b) io" and close :: "('a, unit) io" and s e ce
  assume "fst (action s) = Inl e" and "fst (close (snd (action s))) = Inl ce"
  then show "\<exists>f a b c. fst (run_and_close label pool_name action close s) = Inl f \<and>
      error_message f = a @ error_message e @ b @ error_message ce @ c"
    by (intro exI [of _ "new_error (label @ js '': failed with \"'' @ error_message e @ js ''\", then closing '' @ pool_name @
             js '' also failed with \"'' @ error_message ce @ js ''\".'')"] exI [of _ "label @ js '': failed with \"''"]
          exI [of _ "js ''\", then closing '' @ pool_name @ js '' also failed with \"''"] exI [of _ "js ''\".''"])
      (simp add: closing_runs)
qed (auto simp: closing_runs split: sum.splits)

interpretation ended: closing_run run_and_end_pool
proof
  fix action :: "('a, 'b) io" and close :: "('a, unit) io" and s e ce
  assume "fst (action s) = Inl e" and "fst (close (snd (action s))) = Inl ce"
  then show "\<exists>f a b c. fst (run_and_end_pool action close s) = Inl f \<and>
      error_message f = a @ error_message e @ b @ error_message ce @ c"
    by (intro exI [of _ "new_error (js ''seed-asn: failed with \"'' @ error_message e @ js ''\", then pool.end() also failed with \"'' @
             error_message ce @ js ''\".'')"] exI [of _ "js ''seed-asn: failed with \"''"]
          exI [of _ "js ''\", then pool.end() also failed with \"''"] exI [of _ "js ''\".''"])
      (simp add: closing_runs)
qed (auto simp: closing_runs split: sum.splits)

section \<open>The commands\<close>

text \<open>What a command leaves: the exit code and the lines on the two streams.\<close>

record command_report =
  cr_exit :: nat
  cr_stdout :: "jsstr list"
  cr_stderr :: "jsstr list"

text \<open>\<open>main().catch((error) => { console.error(label, message); process.exit(1); })\<close>, with the line that \<open>main\<close> prints.\<close>

definition command_process :: "jsstr \<Rightarrow> ('s, jsstr) io \<Rightarrow> 's \<Rightarrow> command_report \<times> 's" where
  "command_process label main s =
     (case main s of
        (Inl e, s') \<Rightarrow> (\<lparr> cr_exit = 1, cr_stdout = [], cr_stderr = [label @ js '': failed: '' @ error_message e] \<rparr>, s')
      | (Inr line, s') \<Rightarrow> (\<lparr> cr_exit = 0, cr_stdout = [line], cr_stderr = [] \<rparr>, s'))"

definition with_db_client :: "raw_env \<Rightarrow> (db_client \<Rightarrow> ('s, 'a) io) \<Rightarrow> ('s, 'a) io" where
  "with_db_client process_env body =
     io_bind (io_of (create_db_client \<lparr> dc_connection_string = None, dc_max = None \<rparr> process_env)) body"

definition seed_main :: "raw_env \<Rightarrow> 's seed_deps \<Rightarrow> ('s, unit) io \<Rightarrow> ('s, jsstr) io" where
  "seed_main process_env deps close_db =
     with_db_client process_env (\<lambda>_.
       io_bind (run_and_close (js ''seed'') (js ''the db pool'') (seed deps (load_seed_env_from_process_env process_env)) close_db)
         (\<lambda>result. io_return (js ''seed: user '' @ sr_user_id result @ js '' ready (bio page '' @ sr_bio_page_id result @
            js '', link '' @ sr_link_id result @ js '')'')))"

definition seed_asn_main ::
  "raw_env \<Rightarrow> (jsstr \<Rightarrow> thrown) \<Rightarrow> thrown \<Rightarrow> 's asn_query \<Rightarrow> jsstr \<Rightarrow> jsstr outcome \<Rightarrow> ('s, unit) io \<Rightarrow> ('s, jsstr) io" where
  "seed_asn_main process_env syntax_error type_error query dataset_path file close_db =
     with_db_client process_env (\<lambda>_.
       io_bind (run_and_end_pool (seed_asn_datacenter syntax_error type_error query dataset_path file) close_db)
         (\<lambda>row_count. io_return (js ''seed-asn: seeded '' @ dec row_count @ js '' datacenter ASNs'')))"

definition migrate_down_main :: "raw_env \<Rightarrow> 's pg_pool \<Rightarrow> migrations_dir \<Rightarrow> ('s, unit) io \<Rightarrow> ('s, jsstr) io" where
  "migrate_down_main process_env pool dir close_db =
     with_db_client process_env (\<lambda>_.
       io_bind (run_and_close (js ''migrate:down'') (js ''the db pool'') (migrate_down pool dir None) close_db)
         (\<lambda>reverted. io_return (js ''migrate:down: reverted '' @ reverted)))"

definition seed_command :: "raw_env \<Rightarrow> 's seed_deps \<Rightarrow> ('s, unit) io \<Rightarrow> 's \<Rightarrow> command_report \<times> 's" where
  "seed_command process_env deps close_db = command_process (js ''seed'') (seed_main process_env deps close_db)"

definition seed_asn_command ::
  "raw_env \<Rightarrow> (jsstr \<Rightarrow> thrown) \<Rightarrow> thrown \<Rightarrow> 's asn_query \<Rightarrow> jsstr \<Rightarrow> jsstr outcome \<Rightarrow> ('s, unit) io \<Rightarrow> 's \<Rightarrow> command_report \<times> 's" where
  "seed_asn_command process_env syntax_error type_error query dataset_path file close_db =
     command_process (js ''seed-asn'') (seed_asn_main process_env syntax_error type_error query dataset_path file close_db)"

definition migrate_down_command :: "raw_env \<Rightarrow> 's pg_pool \<Rightarrow> migrations_dir \<Rightarrow> ('s, unit) io \<Rightarrow> 's \<Rightarrow> command_report \<times> 's" where
  "migrate_down_command process_env pool dir close_db =
     command_process (js ''migrate:down'') (migrate_down_main process_env pool dir close_db)"

section \<open>Vendoring the datacenter networks\<close>

definition UPSTREAM_URL :: jsstr where
  "UPSTREAM_URL = js ''https://raw.githubusercontent.com/brianhama/bad-asn-list/master/bad-asn-list.csv''"

definition UPSTREAM_LICENSE :: jsstr where
  "UPSTREAM_LICENSE = js ''MIT license''"

definition vendor_dataset :: "int \<Rightarrow> asn_entry list \<Rightarrow> json" where
  "vendor_dataset now entries =
     JObj
       [(js ''provenance'', JObj
          [(js ''upstreamSource'', JStr (UPSTREAM_URL @ js '' ('' @ UPSTREAM_LICENSE @ js '')'')),
           (js ''pulledAt'', JStr (take 10 (iso_string now))),
           (js ''supplementedWith'', JStr (js ''public ASN registration records (bgp.he.net / PeeringDB) for major providers the upstream hosting/colo list omits or names ambiguously '' @
              [8212] @ js '' see SUPPLEMENTAL_ENTRIES in vendor-asn.ts'')),
           (js ''refresh'', JStr (js ''packages/core/scripts/vendor-asn.sh (see packages/core/scripts/data/README.md)''))]),
        (js ''entries'', JArr (map entry_json entries))]"

definition vendor_file :: "int \<Rightarrow> asn_entry list \<Rightarrow> jsstr" where
  "vendor_file now entries = stringify_indent (js ''  '') [] (vendor_dataset now entries) @ [10]"

text \<open>
  \<open>main\<close>, with the two arguments of the command line. An error that nothing catches ends the process with code 1; of what
  Node prints about it, the message is kept.
\<close>

definition vendor_asn_main ::
  "(jsstr \<Rightarrow> ('s, jsstr) io) \<Rightarrow> (jsstr \<Rightarrow> jsstr \<Rightarrow> ('s, unit) io) \<Rightarrow> int \<Rightarrow> jsstr \<Rightarrow> jsstr option \<Rightarrow> jsstr option \<Rightarrow>
   's \<Rightarrow> command_report \<times> 's" where
  "vendor_asn_main read_file write_file now default_out csv_path out_path s =
     (let out = (case out_path of None \<Rightarrow> default_out | Some p \<Rightarrow> p);
          csv = (case csv_path of None \<Rightarrow> [] | Some p \<Rightarrow> p);
          crashed = (\<lambda>warnings e. \<lparr> cr_exit = 1, cr_stdout = [], cr_stderr = warnings @ [error_message e] \<rparr>)
      in if csv = [] then
           (\<lparr> cr_exit = 1, cr_stdout = [], cr_stderr = [js ''usage: node vendor-asn.ts <csv-path> [out-path]''] \<rparr>, s)
         else
           (case read_file csv s of
              (Inl e, s1) \<Rightarrow> (crashed [] e, s1)
            | (Inr csv_text, s1) \<Rightarrow>
                (case parse_csv csv_text of
                   Inl e \<Rightarrow> (crashed [] e, s1)
                 | Inr rows \<Rightarrow>
                     let warnings = (case snd (build_entries rows) of None \<Rightarrow> [] | Some w \<Rightarrow> [w]) in
                     (case vendor_entries csv_text of
                        Inl e \<Rightarrow> (crashed warnings e, s1)
                      | Inr entries \<Rightarrow>
                          (case write_file out (vendor_file now entries) s1 of
                             (Inl e, s2) \<Rightarrow> (crashed warnings e, s2)
                           | (Inr _, s2) \<Rightarrow>
                               (\<lparr> cr_exit = 0,
                                  cr_stdout = [js ''vendor-asn: wrote '' @ dec (length entries) @ js '' entries to '' @ out],
                                  cr_stderr = warnings \<rparr>, s2))))))"

text \<open>Files by their path.\<close>

type_synonym file_map = "jsstr \<Rightarrow> jsstr option"

definition read_from :: "thrown \<Rightarrow> jsstr \<Rightarrow> (file_map, jsstr) io" where
  "read_from missing p files = (case files p of None \<Rightarrow> Inl missing | Some t \<Rightarrow> Inr t, files)"

definition write_to :: "jsstr \<Rightarrow> jsstr \<Rightarrow> (file_map, unit) io" where
  "write_to p t files = (Inr (), files(p := Some t))"

section \<open>What the file holds\<close>

lemma vendor_file_parsed: "json_parse (vendor_file now entries) = Some (vendor_dataset now entries)"
  unfolding vendor_file_def
  by (rule json_parse_indented)
    (simp_all add: vendor_dataset_def entry_json_def blank_def json_space_def js_def)

lemma vendor_dataset_entries: "has_entries_array (vendor_dataset now entries) = Some (map entry_json entries)"
  by (simp add: has_entries_array_def vendor_dataset_def)

lemma vendor_entries_Inr:
  assumes "vendor_entries csv_text = Inr entries"
  shows "distinct (map as_asn entries)" and "entries \<noteq> []"
proof -
  obtain rows where rows: "parse_csv csv_text = Inr rows" "fst (build_entries rows) = entries" "200 \<le> length entries"
    using assms by (auto simp: vendor_entries_def Let_def split: sum.splits if_splits option.splits)
  from rows(2) have "build_entries rows = (entries, snd (build_entries rows))" by (simp add: prod_eq_iff)
  from vendored_entries_are_well_formed [OF this] show "distinct (map as_asn entries)"
    by (simp add: strict_sorted_iff)
  show "entries \<noteq> []" using rows(3) by auto
qed

definition seeded_table :: "asn_entry list \<Rightarrow> asn_world \<Rightarrow> asn_world" where
  "seeded_table entries w =
     w\<lparr>aw_table := fold (upsert_row (aw_now w)) (map (\<lambda>e. (as_asn e, as_name e)) entries) (aw_table w)\<rparr>"

lemma vendor_file_seeded:
  assumes "vendor_entries csv_text = Inr entries"
  shows "seed_asn_datacenter syntax_error type_error run_upsert dataset_path (Inr (vendor_file now entries)) w =
     (if 2 * length entries \<le> 65535 \<and> list_all int4 (map as_asn entries)
      then (Inr (length entries), seeded_table entries w) else (Inl (new_error (js ''refused'')), w))"
  using vendor_entries_Inr [OF assms] bound_rows_entries [of entries]
  by (simp add: seed_asn_datacenter_def load_asn_dataset_def vendor_file_parsed vendor_dataset_entries io_bind_app io_then_app
      asn_values_entries run_upsert_def seeded_table_def length_concat comp_def sum_list_triv list_all_iff)

lemma seeded_table_rows:
  assumes "vendor_entries csv_text = Inr entries"
  shows "list_all (\<lambda>e. aw_table (seeded_table entries w) (as_asn e) =
     Some (as_name e, case aw_table w (as_asn e) of Some (_, added_at) \<Rightarrow> added_at | None \<Rightarrow> aw_now w)) entries"
proof -
  have "distinct (map fst (map (\<lambda>e. (as_asn e, as_name e)) entries))"
    using vendor_entries_Inr(1) [OF assms] by (simp add: comp_def)
  then show ?thesis by (auto simp: seeded_table_def list_all_iff fold_upsert_row)
qed

lemma vendor_main_fails:
  assumes "vendor_entries csv_text = Inl e" and "files (c # cs) = Some csv_text"
  shows "\<exists>report. vendor_asn_main (read_from missing) write_to now default_out (Some (c # cs)) out_path files = (report, files) \<and>
     cr_exit report = 1"
  using assms
  by (cases "parse_csv csv_text") (simp_all add: vendor_asn_main_def read_from_def Let_def)

lemma vendor_main_writes:
  assumes "vendor_entries csv_text = Inr entries" and "files (c # cs) = Some csv_text"
  shows "\<exists>report. vendor_asn_main (read_from missing) write_to now default_out (Some (c # cs)) (Some out) files =
       (report, files(out := Some (vendor_file now entries))) \<and> cr_exit report = 0"
proof -
  obtain rows where "parse_csv csv_text = Inr rows" using assms(1) by (auto simp: vendor_entries_def split: sum.splits)
  then show ?thesis using assms by (simp add: vendor_asn_main_def read_from_def write_to_def Let_def)
qed

section \<open>Properties\<close>


text \<open>One line that quotes the message of an error.\<close>

definition mentions :: "jsstr list \<Rightarrow> thrown \<Rightarrow> bool" where
  "mentions printed e \<longleftrightarrow> (\<exists>a b. printed = [a @ error_message e @ b])"

text \<open>What a command with a database reports of its action and of the close after it, and its state after a failed start.\<close>

definition reported :: "('s, 'a) io \<Rightarrow> ('s, unit) io \<Rightarrow> 's \<Rightarrow> command_report \<times> 's \<Rightarrow> bool" where
  "reported action close s result \<longleftrightarrow>
     (let (report, s') = result; (r, s1) = action s; (c, s2) = close s1 in
      s' = s2 \<and>
      (case r of
         Inl e \<Rightarrow> cr_exit report = 1 \<and> cr_stdout report = [] \<and> mentions (cr_stderr report) e
       | Inr _ \<Rightarrow>
           (case c of
              Inl e \<Rightarrow> cr_exit report = 1 \<and> cr_stdout report = [] \<and> mentions (cr_stderr report) e
            | Inr _ \<Rightarrow> cr_exit report = 0 \<and> length (cr_stdout report) = 1 \<and> cr_stderr report = [])))"

definition not_started :: "thrown \<Rightarrow> 's \<Rightarrow> command_report \<times> 's \<Rightarrow> bool" where
  "not_started e s result \<longleftrightarrow>
     snd result = s \<and> cr_exit (fst result) = 1 \<and> cr_stdout (fst result) = [] \<and> mentions (cr_stderr (fst result)) e"

lemma mentions_within: "error_message f = a @ error_message e @ b \<Longrightarrow> mentions [l @ error_message f] e"
  unfolding mentions_def by (intro exI [of _ "l @ a"] exI [of _ b]) simp

lemma mentions_self: "mentions [l @ error_message e] e"
  by (rule mentions_within [of e "[]" e "[]"]) simp

context closing_run
begin

lemma process_reports:
  "reported action close s (command_process label (io_bind (run action close) (\<lambda>a. io_return (line a))) s)"
proof -
  obtain r s1 where action: "action s = (r, s1)" by fastforce
  obtain c s2 where close: "close s1 = (c, s2)" by fastforce
  have state: "snd (run action close s) = s2" using run_state [of action close s] action close by simp
  have failed: ?thesis if "fst (run action close s) = Inl f"
      "mentions [(label @ js '': failed: '') @ error_message f] e" "r = Inl e \<or> (\<exists>a. r = Inr a \<and> c = Inl e)" for f e
    using that state action close by (auto simp: reported_def command_process_def io_bind_app)
  show ?thesis
  proof (cases r)
    case (Inl e)
    then have "fst (action s) = Inl e" by (simp add: action)
    from failure_is_reported [where action = action and close = close, OF this] obtain f a b
      where f: "fst (run action close s) = Inl f" "error_message f = a @ error_message e @ b" by blast
    show ?thesis by (rule failed [OF f(1) mentions_within [OF f(2)]]) (simp add: Inl)
  next
    case (Inr a)
    show ?thesis
    proof (cases c)
      case (Inl ce)
      have "fst (run action close s) = Inl ce"
        using run_close_failure [of action s a close ce] action close Inl \<open>r = Inr a\<close> by simp
      then show ?thesis by (rule failed [OF _ mentions_self]) (simp add: Inl \<open>r = Inr a\<close>)
    next
      case (Inr u)
      have "fst (run action close s) = Inr a" using run_success [of action close s a] action close \<open>r = Inr a\<close> Inr by simp
      then show ?thesis using state Inr \<open>r = Inr a\<close> action close
        by (auto simp: reported_def command_process_def io_bind_app)
    qed
  qed
qed

end

lemma no_client:
  assumes "create_db_client \<lparr> dc_connection_string = None, dc_max = None \<rparr> process_env = Inl e"
  shows "not_started e s (command_process label (with_db_client process_env body) s)"
  using mentions_self [of "label @ js '': failed: ''" e]
  by (simp add: not_started_def command_process_def with_db_client_def assms io_bind_app)

lemma with_client:
  "create_db_client \<lparr> dc_connection_string = None, dc_max = None \<rparr> process_env = Inr client \<Longrightarrow>
   with_db_client process_env body = body client"
  by (rule ext) (simp add: with_db_client_def io_bind_app)

lemmas command_defs = seed_command_def seed_main_def seed_asn_command_def seed_asn_main_def migrate_down_command_def
  migrate_down_main_def

text \<open>C0: Each of the three commands with a database exits with 0 and one line exactly when its client, its action and the close of the pool succeed; otherwise it exits with 1 and one line that quotes the first failure, and once there is a client the pool is closed whatever the action did.\<close>

theorem commands_report_failures:
  "case create_db_client \<lparr> dc_connection_string = None, dc_max = None \<rparr> process_env of
     Inl e \<Rightarrow> not_started e s (seed_command process_env deps close_db s) \<and>
       not_started e a (seed_asn_command process_env syntax_error type_error query dataset_path file close_asn a) \<and>
       not_started e m (migrate_down_command process_env pool dir close_pool m)
   | Inr _ \<Rightarrow>
       reported (seed deps (load_seed_env_from_process_env process_env)) close_db s (seed_command process_env deps close_db s) \<and>
       reported (seed_asn_datacenter syntax_error type_error query dataset_path file) close_asn a
         (seed_asn_command process_env syntax_error type_error query dataset_path file close_asn a) \<and>
       reported (migrate_down pool dir None) close_pool m (migrate_down_command process_env pool dir close_pool m)"
proof (cases "create_db_client \<lparr> dc_connection_string = None, dc_max = None \<rparr> process_env")
  case (Inl e)
  show ?thesis
    unfolding Inl sum.case command_defs
    by (intro conjI no_client [OF Inl])
next
  case (Inr client)
  show ?thesis
    unfolding Inr sum.case command_defs with_client [OF Inr]
    by (intro conjI pool.process_reports ended.process_reports)
qed

end
