(* ===== verification/Core_Schema.thy ===== *)
theory Core_Schema
  imports Core_Db
begin

text \<open>
  The constraints of the Postgres schema (\<open>packages/core/src/schema\<close>): primary keys, unique keys, checks, foreign keys
  with what a delete does through them, and column defaults, for the tables of the tenants (\<open>links.ts\<close>, \<open>bio.ts\<close>,
  \<open>domains.ts\<close>), of the login (\<open>auth.ts\<close>) and of the datacenter networks (\<open>asn.ts\<close>). A statement is done as a whole or
  fails with the first constraint it violates, in the order of Postgres: checks, then keys, then references.
\<close>

section \<open>The tables of the login and of the networks\<close>

record user_row =
  us_id :: jsstr
  us_name :: jsstr
  us_email :: jsstr
  us_email_verified :: bool
  us_image :: "jsstr option"
  us_created_at :: int
  us_updated_at :: int

record session_row =
  ss_id :: jsstr
  ss_expires_at :: int
  ss_token :: jsstr
  ss_created_at :: int
  ss_updated_at :: int
  ss_ip_address :: "jsstr option"
  ss_user_agent :: "jsstr option"
  ss_user_id :: jsstr

record account_row =
  ac_id :: jsstr
  ac_account_id :: jsstr
  ac_provider_id :: jsstr
  ac_user_id :: jsstr
  ac_access_token :: "jsstr option"
  ac_refresh_token :: "jsstr option"
  ac_id_token :: "jsstr option"
  ac_access_token_expires_at :: "int option"
  ac_refresh_token_expires_at :: "int option"
  ac_scope :: "jsstr option"
  ac_password :: "jsstr option"
  ac_created_at :: int
  ac_updated_at :: int

record verification_row =
  vf_id :: jsstr
  vf_identifier :: jsstr
  vf_value :: jsstr
  vf_expires_at :: int
  vf_created_at :: int
  vf_updated_at :: int

record asn_datacenter_row =
  ad_asn :: int
  ad_name :: jsstr
  ad_added_at :: int

text \<open>The values of an insert leave out columns with a default.\<close>

definition column_default :: "'a \<Rightarrow> 'a option \<Rightarrow> 'a" where
  "column_default d v = (case v of None \<Rightarrow> d | Some x \<Rightarrow> x)"

definition user_values :: "int \<Rightarrow> jsstr \<Rightarrow> jsstr \<Rightarrow> jsstr \<Rightarrow> bool option \<Rightarrow> jsstr option \<Rightarrow> int option \<Rightarrow> int option \<Rightarrow> user_row" where
  "user_values now row_id user_name email email_verified picture created_at updated_at =
     \<lparr> us_id = row_id, us_name = user_name, us_email = email, us_email_verified = column_default False email_verified,
       us_image = picture, us_created_at = column_default now created_at, us_updated_at = column_default now updated_at \<rparr>"

definition credential_account_values :: "int \<Rightarrow> jsstr \<Rightarrow> jsstr \<Rightarrow> jsstr \<Rightarrow> jsstr \<Rightarrow> jsstr \<Rightarrow> account_row" where
  "credential_account_values now row_id account_id provider_id user_id password =
     \<lparr> ac_id = row_id, ac_account_id = account_id, ac_provider_id = provider_id, ac_user_id = user_id,
       ac_access_token = None, ac_refresh_token = None, ac_id_token = None, ac_access_token_expires_at = None,
       ac_refresh_token_expires_at = None, ac_scope = None, ac_password = Some password,
       ac_created_at = column_default now None, ac_updated_at = column_default now None \<rparr>"

definition link_values :: "int \<Rightarrow> jsstr \<Rightarrow> jsstr \<Rightarrow> jsstr \<Rightarrow> jsstr \<Rightarrow> jsstr option \<Rightarrow> link_row" where
  "link_values now row_id tenant_id slug destination title =
     \<lparr> lk_id = row_id, lk_tenant_id = tenant_id, lk_slug = slug, lk_destination = destination, lk_title = title,
       lk_created_at = column_default now None, lk_updated_at = column_default now None, lk_archived_at = None \<rparr>"

definition bio_page_values :: "int \<Rightarrow> jsstr \<Rightarrow> jsstr \<Rightarrow> jsstr \<Rightarrow> bio_page_row" where
  "bio_page_values now row_id tenant_id handle =
     \<lparr> bp_id = row_id, bp_tenant_id = tenant_id, bp_handle = handle, bp_display_name = None, bp_bio = None, bp_avatar_url = None,
       bp_theme_id = column_default (js ''default'') None, bp_created_at = column_default now None,
       bp_updated_at = column_default now None \<rparr>"

section \<open>The database\<close>

record database =
  pg_users :: "user_row list"
  pg_sessions :: "session_row list"
  pg_accounts :: "account_row list"
  pg_verifications :: "verification_row list"
  pg_links :: "link_row list"
  pg_pages :: "bio_page_row list"
  pg_bio_links :: "bio_link_row list"
  pg_domains :: "domain_row list"
  pg_asns :: "asn_datacenter_row list"

definition empty_database :: database where
  "empty_database =
     \<lparr> pg_users = [], pg_sessions = [], pg_accounts = [], pg_verifications = [], pg_links = [], pg_pages = [],
       pg_bio_links = [], pg_domains = [], pg_asns = [] \<rparr>"

datatype violation =
    Check_violation string
  | Unique_violation string "string list"
  | Foreign_key_violation string string
  | Still_referenced string string

text \<open>\<open>CHECK (column ~* '^https?://')\<close>; the operator ignores the case of letters.\<close>

definition lower_ascii :: "nat \<Rightarrow> nat" where
  "lower_ascii c = (if is_upper c then c + 32 else c)"

definition absolute_http_url :: "jsstr \<Rightarrow> bool" where
  "absolute_http_url v \<longleftrightarrow>
     starts_with (map lower_ascii v) (js ''http://'') \<or> starts_with (map lower_ascii v) (js ''https://'')"

text \<open>A statement has its conditions in the order in which Postgres looks at them, and the new tables.\<close>

fun statement_result :: "(bool \<times> violation) list \<Rightarrow> database \<Rightarrow> violation + database" where
  "statement_result [] db = Inr db"
| "statement_result ((holds, v) # rest) db = (if holds then statement_result rest db else Inl v)"

section \<open>Inserts\<close>

definition insert_user :: "user_row \<Rightarrow> database \<Rightarrow> violation + database" where
  "insert_user u db =
     statement_result
       [(us_id u \<notin> us_id ` set (pg_users db), Unique_violation ''user'' [''id'']),
        (us_email u \<notin> us_email ` set (pg_users db), Unique_violation ''user'' [''email''])]
       (db\<lparr>pg_users := pg_users db @ [u]\<rparr>)"

definition insert_session :: "session_row \<Rightarrow> database \<Rightarrow> violation + database" where
  "insert_session s db =
     statement_result
       [(ss_id s \<notin> ss_id ` set (pg_sessions db), Unique_violation ''session'' [''id'']),
        (ss_token s \<notin> ss_token ` set (pg_sessions db), Unique_violation ''session'' [''token'']),
        (ss_user_id s \<in> us_id ` set (pg_users db), Foreign_key_violation ''session'' ''user_id'')]
       (db\<lparr>pg_sessions := pg_sessions db @ [s]\<rparr>)"

definition insert_account :: "account_row \<Rightarrow> database \<Rightarrow> violation + database" where
  "insert_account a db =
     statement_result
       [(ac_id a \<notin> ac_id ` set (pg_accounts db), Unique_violation ''account'' [''id'']),
        (ac_user_id a \<in> us_id ` set (pg_users db), Foreign_key_violation ''account'' ''user_id'')]
       (db\<lparr>pg_accounts := pg_accounts db @ [a]\<rparr>)"

definition insert_verification :: "verification_row \<Rightarrow> database \<Rightarrow> violation + database" where
  "insert_verification v db =
     statement_result [(vf_id v \<notin> vf_id ` set (pg_verifications db), Unique_violation ''verification'' [''id''])]
       (db\<lparr>pg_verifications := pg_verifications db @ [v]\<rparr>)"

definition insert_link :: "link_row \<Rightarrow> database \<Rightarrow> violation + database" where
  "insert_link l db =
     statement_result
       [(absolute_http_url (lk_destination l), Check_violation ''links_destination_absolute_url_check''),
        (lk_id l \<notin> lk_id ` set (pg_links db), Unique_violation ''links'' [''id'']),
        ((lk_tenant_id l, lk_slug l) \<notin> (\<lambda>r. (lk_tenant_id r, lk_slug r)) ` set (pg_links db),
           Unique_violation ''links'' [''tenant_id'', ''slug'']),
        (lk_tenant_id l \<in> us_id ` set (pg_users db), Foreign_key_violation ''links'' ''tenant_id'')]
       (db\<lparr>pg_links := pg_links db @ [l]\<rparr>)"

definition avatar_check :: "bio_page_row \<Rightarrow> bool" where
  "avatar_check p \<longleftrightarrow> (case bp_avatar_url p of None \<Rightarrow> True | Some u \<Rightarrow> absolute_http_url u)"

definition insert_bio_page :: "bio_page_row \<Rightarrow> database \<Rightarrow> violation + database" where
  "insert_bio_page p db =
     statement_result
       [(avatar_check p, Check_violation ''bio_pages_avatar_url_absolute_url_check''),
        (bp_id p \<notin> bp_id ` set (pg_pages db), Unique_violation ''bio_pages'' [''id'']),
        (bp_handle p \<notin> bp_handle ` set (pg_pages db), Unique_violation ''bio_pages'' [''handle'']),
        (bp_tenant_id p \<in> us_id ` set (pg_users db), Foreign_key_violation ''bio_pages'' ''tenant_id'')]
       (db\<lparr>pg_pages := pg_pages db @ [p]\<rparr>)"

definition insert_bio_link :: "bio_link_row \<Rightarrow> database \<Rightarrow> violation + database" where
  "insert_bio_link b db =
     statement_result
       [(bl_id b \<notin> bl_id ` set (pg_bio_links db), Unique_violation ''bio_links'' [''id'']),
        ((bl_bio_page_id b, bl_position b) \<notin> (\<lambda>r. (bl_bio_page_id r, bl_position r)) ` set (pg_bio_links db),
           Unique_violation ''bio_links'' [''bio_page_id'', ''position'']),
        (bl_tenant_id b \<in> us_id ` set (pg_users db), Foreign_key_violation ''bio_links'' ''tenant_id''),
        (bl_bio_page_id b \<in> bp_id ` set (pg_pages db), Foreign_key_violation ''bio_links'' ''bio_page_id''),
        (bl_link_id b \<in> lk_id ` set (pg_links db), Foreign_key_violation ''bio_links'' ''link_id'')]
       (db\<lparr>pg_bio_links := pg_bio_links db @ [b]\<rparr>)"

definition insert_domain :: "domain_row \<Rightarrow> database \<Rightarrow> violation + database" where
  "insert_domain d db =
     statement_result
       [(dm_type d \<in> {js ''subdomain'', js ''custom''}, Check_violation ''domains_type_check''),
        (dm_id d \<notin> dm_id ` set (pg_domains db), Unique_violation ''domains'' [''id'']),
        (dm_host d \<notin> dm_host ` set (pg_domains db), Unique_violation ''domains'' [''host'']),
        (dm_tenant_id d \<in> us_id ` set (pg_users db), Foreign_key_violation ''domains'' ''tenant_id'')]
       (db\<lparr>pg_domains := pg_domains db @ [d]\<rparr>)"

definition insert_asn_datacenter :: "asn_datacenter_row \<Rightarrow> database \<Rightarrow> violation + database" where
  "insert_asn_datacenter a db =
     statement_result [(ad_asn a \<notin> ad_asn ` set (pg_asns db), Unique_violation ''asn_datacenter'' [''asn''])]
       (db\<lparr>pg_asns := pg_asns db @ [a]\<rparr>)"

section \<open>Deletes\<close>

text \<open>
  \<open>DELETE FROM table WHERE p\<close>. The sessions and the accounts of a user and the bio links of a page go with it; a user
  that is still a tenant somewhere and a link that a page still shows stay, and the statement fails.
\<close>

definition delete_users :: "(user_row \<Rightarrow> bool) \<Rightarrow> database \<Rightarrow> violation + database" where
  "delete_users p db =
     (let gone = us_id ` set (filter p (pg_users db)) in
      statement_result
        [(gone \<inter> lk_tenant_id ` set (pg_links db) = {}, Still_referenced ''links'' ''tenant_id''),
         (gone \<inter> bp_tenant_id ` set (pg_pages db) = {}, Still_referenced ''bio_pages'' ''tenant_id''),
         (gone \<inter> bl_tenant_id ` set (pg_bio_links db) = {}, Still_referenced ''bio_links'' ''tenant_id''),
         (gone \<inter> dm_tenant_id ` set (pg_domains db) = {}, Still_referenced ''domains'' ''tenant_id'')]
        (db\<lparr>pg_users := filter (\<lambda>u. \<not> p u) (pg_users db),
            pg_sessions := filter (\<lambda>s. ss_user_id s \<notin> gone) (pg_sessions db),
            pg_accounts := filter (\<lambda>a. ac_user_id a \<notin> gone) (pg_accounts db)\<rparr>))"

definition delete_links :: "(link_row \<Rightarrow> bool) \<Rightarrow> database \<Rightarrow> violation + database" where
  "delete_links p db =
     statement_result
       [(lk_id ` set (filter p (pg_links db)) \<inter> bl_link_id ` set (pg_bio_links db) = {}, Still_referenced ''bio_links'' ''link_id'')]
       (db\<lparr>pg_links := filter (\<lambda>l. \<not> p l) (pg_links db)\<rparr>)"

definition delete_bio_pages :: "(bio_page_row \<Rightarrow> bool) \<Rightarrow> database \<Rightarrow> violation + database" where
  "delete_bio_pages p db =
     (let gone = bp_id ` set (filter p (pg_pages db)) in
      statement_result []
        (db\<lparr>pg_pages := filter (\<lambda>r. \<not> p r) (pg_pages db),
            pg_bio_links := filter (\<lambda>b. bl_bio_page_id b \<notin> gone) (pg_bio_links db)\<rparr>))"

text \<open>Nothing refers to the rows of the other tables.\<close>

datatype sql_statement =
    Insert_user user_row
  | Insert_session session_row
  | Insert_account account_row
  | Insert_verification verification_row
  | Insert_link link_row
  | Insert_bio_page bio_page_row
  | Insert_bio_link bio_link_row
  | Insert_domain domain_row
  | Insert_asn_datacenter asn_datacenter_row
  | Delete_users "user_row \<Rightarrow> bool"
  | Delete_sessions "session_row \<Rightarrow> bool"
  | Delete_accounts "account_row \<Rightarrow> bool"
  | Delete_verifications "verification_row \<Rightarrow> bool"
  | Delete_links "link_row \<Rightarrow> bool"
  | Delete_bio_pages "bio_page_row \<Rightarrow> bool"
  | Delete_bio_links "bio_link_row \<Rightarrow> bool"
  | Delete_domains "domain_row \<Rightarrow> bool"
  | Delete_asn_datacenters "asn_datacenter_row \<Rightarrow> bool"

fun run_statement :: "sql_statement \<Rightarrow> database \<Rightarrow> violation + database" where
  "run_statement (Insert_user u) db = insert_user u db"
| "run_statement (Insert_session s) db = insert_session s db"
| "run_statement (Insert_account a) db = insert_account a db"
| "run_statement (Insert_verification v) db = insert_verification v db"
| "run_statement (Insert_link l) db = insert_link l db"
| "run_statement (Insert_bio_page p) db = insert_bio_page p db"
| "run_statement (Insert_bio_link b) db = insert_bio_link b db"
| "run_statement (Insert_domain d) db = insert_domain d db"
| "run_statement (Insert_asn_datacenter a) db = insert_asn_datacenter a db"
| "run_statement (Delete_users p) db = delete_users p db"
| "run_statement (Delete_sessions p) db = statement_result [] (db\<lparr>pg_sessions := filter (\<lambda>r. \<not> p r) (pg_sessions db)\<rparr>)"
| "run_statement (Delete_accounts p) db = statement_result [] (db\<lparr>pg_accounts := filter (\<lambda>r. \<not> p r) (pg_accounts db)\<rparr>)"
| "run_statement (Delete_verifications p) db = statement_result [] (db\<lparr>pg_verifications := filter (\<lambda>r. \<not> p r) (pg_verifications db)\<rparr>)"
| "run_statement (Delete_links p) db = delete_links p db"
| "run_statement (Delete_bio_pages p) db = delete_bio_pages p db"
| "run_statement (Delete_bio_links p) db = statement_result [] (db\<lparr>pg_bio_links := filter (\<lambda>r. \<not> p r) (pg_bio_links db)\<rparr>)"
| "run_statement (Delete_domains p) db = statement_result [] (db\<lparr>pg_domains := filter (\<lambda>r. \<not> p r) (pg_domains db)\<rparr>)"
| "run_statement (Delete_asn_datacenters p) db = statement_result [] (db\<lparr>pg_asns := filter (\<lambda>r. \<not> p r) (pg_asns db)\<rparr>)"

text \<open>A failed statement changes nothing.\<close>

definition execute :: "sql_statement \<Rightarrow> database \<Rightarrow> database" where
  "execute st db = (case run_statement st db of Inl _ \<Rightarrow> db | Inr db' \<Rightarrow> db')"

section \<open>What the constraints promise\<close>

definition keys_ok :: "database \<Rightarrow> bool" where
  "keys_ok db \<longleftrightarrow>
     distinct (map us_id (pg_users db)) \<and> distinct (map us_email (pg_users db)) \<and>
     distinct (map ss_id (pg_sessions db)) \<and> distinct (map ss_token (pg_sessions db)) \<and>
     distinct (map ac_id (pg_accounts db)) \<and> distinct (map vf_id (pg_verifications db)) \<and>
     distinct (map lk_id (pg_links db)) \<and> distinct (map (\<lambda>r. (lk_tenant_id r, lk_slug r)) (pg_links db)) \<and>
     distinct (map bp_id (pg_pages db)) \<and> distinct (map bp_handle (pg_pages db)) \<and>
     distinct (map bl_id (pg_bio_links db)) \<and> distinct (map (\<lambda>r. (bl_bio_page_id r, bl_position r)) (pg_bio_links db)) \<and>
     distinct (map dm_id (pg_domains db)) \<and> distinct (map dm_host (pg_domains db)) \<and>
     distinct (map ad_asn (pg_asns db))"

definition references_ok :: "database \<Rightarrow> bool" where
  "references_ok db \<longleftrightarrow>
     ss_user_id ` set (pg_sessions db) \<subseteq> us_id ` set (pg_users db) \<and>
     ac_user_id ` set (pg_accounts db) \<subseteq> us_id ` set (pg_users db) \<and>
     lk_tenant_id ` set (pg_links db) \<subseteq> us_id ` set (pg_users db) \<and>
     bp_tenant_id ` set (pg_pages db) \<subseteq> us_id ` set (pg_users db) \<and>
     bl_tenant_id ` set (pg_bio_links db) \<subseteq> us_id ` set (pg_users db) \<and>
     dm_tenant_id ` set (pg_domains db) \<subseteq> us_id ` set (pg_users db) \<and>
     bl_bio_page_id ` set (pg_bio_links db) \<subseteq> bp_id ` set (pg_pages db) \<and>
     bl_link_id ` set (pg_bio_links db) \<subseteq> lk_id ` set (pg_links db)"

definition checks_ok :: "database \<Rightarrow> bool" where
  "checks_ok db \<longleftrightarrow>
     (\<forall>l \<in> set (pg_links db). absolute_http_url (lk_destination l)) \<and> (\<forall>p \<in> set (pg_pages db). avatar_check p) \<and>
     (\<forall>d \<in> set (pg_domains db). dm_type d \<in> {js ''subdomain'', js ''custom''})"

definition database_ok :: "database \<Rightarrow> bool" where
  "database_ok db \<longleftrightarrow> keys_ok db \<and> references_ok db \<and> checks_ok db"

lemmas database_oks = database_ok_def keys_ok_def references_ok_def checks_ok_def

lemma statement_result_Inr: "statement_result cs db = Inr db' \<longleftrightarrow> list_all fst cs \<and> db' = db"
  by (induction cs db rule: statement_result.induct) auto

declare statement_result.simps [simp del]

lemmas insert_defs = insert_user_def insert_session_def insert_account_def insert_verification_def insert_link_def
  insert_bio_page_def insert_bio_link_def insert_domain_def insert_asn_datacenter_def

lemmas delete_defs = delete_users_def delete_links_def delete_bio_pages_def Let_def

lemma statement_keeps_keys: "run_statement st db = Inr db' \<Longrightarrow> keys_ok db \<Longrightarrow> keys_ok db'"
  by (cases st) (auto simp: insert_defs delete_defs statement_result_Inr keys_ok_def distinct_map_filter)

text \<open>Rows that refer to others, before and after a delete of the others that fails on them or takes them along.\<close>

lemma kept_references:
  "f ` A \<subseteq> g ` B \<Longrightarrow> g ` {y \<in> B. p y} \<inter> f ` A = {} \<Longrightarrow> f ` A \<subseteq> g ` {y \<in> B. \<not> p y}"
  unfolding subset_iff disjoint_iff image_iff by blast

lemma cascaded_references:
  "f ` A \<subseteq> g ` B \<Longrightarrow> f ` {x \<in> A. f x \<notin> g ` {y \<in> B. p y}} \<subseteq> g ` {y \<in> B. \<not> p y}"
  by fastforce

lemma fewer_references: "f ` A \<subseteq> C \<Longrightarrow> f ` {x \<in> A. q x} \<subseteq> C"
  by blast

lemmas after_delete = kept_references cascaded_references fewer_references

lemma statement_keeps_references: "run_statement st db = Inr db' \<Longrightarrow> references_ok db \<Longrightarrow> references_ok db'"
  by (cases st)
    (simp_all add: insert_defs delete_defs statement_result_Inr references_ok_def after_delete subset_insertI2 del: image_subset_iff)

lemma statement_keeps_checks: "run_statement st db = Inr db' \<Longrightarrow> checks_ok db \<Longrightarrow> checks_ok db'"
  by (cases st) (auto simp: insert_defs delete_defs statement_result_Inr checks_ok_def)

lemma statement_keeps_database: "database_ok db \<Longrightarrow> run_statement st db = Inr db' \<Longrightarrow> database_ok db'"
  using statement_keeps_keys statement_keeps_references statement_keeps_checks unfolding database_ok_def by blast

lemma execute_keeps_database: "database_ok db \<Longrightarrow> database_ok (execute st db)"
  by (cases "run_statement st db") (simp_all add: execute_def statement_keeps_database)

lemma executed_statements: "database_ok db \<Longrightarrow> database_ok (fold execute sts db)"
  by (induction sts arbitrary: db) (simp_all add: execute_keeps_database)

lemma empty_database_ok: "database_ok empty_database"
  by (simp add: database_oks empty_database_def)

lemma find_first_unique:
  assumes "distinct (map f xs)" and "\<And>x y. P x \<Longrightarrow> P y \<Longrightarrow> f x = f y"
  shows "(case filter P xs of [] \<Rightarrow> None | x # _ \<Rightarrow> Some (g x)) = Some c \<longleftrightarrow> (\<exists>x \<in> set xs. P x \<and> g x = c)"
proof (cases "filter P xs")
  case Nil
  then show ?thesis by (auto simp: filter_empty_conv)
next
  case (Cons y rest)
  then have "y \<in> set (filter P xs)" by simp
  then have y: "y \<in> set xs" "P y" by simp_all
  have "x = y" if "x \<in> set xs" "P x" for x
    using that y assms(2) [OF that(2) y(2)] assms(1) unfolding distinct_map inj_on_def by blast
  then have "(\<exists>x \<in> set xs. P x \<and> g x = c) \<longleftrightarrow> g y = c" using y by blast
  then show ?thesis by (simp add: Cons)
qed

definition link_answer :: "link_row \<Rightarrow> cached_link" where
  "link_answer l = \<lparr> cl_link_id = lk_id l, cl_tenant_id = lk_tenant_id l, cl_destination = lk_destination l \<rparr>"

lemma tenant_lookup:
  assumes "keys_ok db"
  shows "resolve_tenant_by_handle (pg_pages db) h = Some t \<longleftrightarrow> (\<exists>p \<in> set (pg_pages db). bp_handle p = h \<and> bp_tenant_id p = t)"
  unfolding resolve_tenant_by_handle_def
  by (rule find_first_unique [where f = bp_handle]) (use assms in \<open>simp_all add: keys_ok_def\<close>)

lemma link_lookup:
  assumes "keys_ok db"
  shows "resolve_link_by_slug (pg_links db) t s = Some c \<longleftrightarrow>
    (\<exists>l \<in> set (pg_links db). (lk_tenant_id l = t \<and> lk_slug l = s \<and> lk_archived_at l = None) \<and> link_answer l = c)"
proof -
  have scope: "(tenant_scope lk_tenant_id t (Some (\<lambda>r. sql_and (Some (lk_slug r = s)) (Some (lk_archived_at r = None)))) l = Some True) =
      (lk_tenant_id l = t \<and> lk_slug l = s \<and> lk_archived_at l = None)" for l
    by (auto simp: tenant_scope_def sql_and_def)
  have "resolve_link_by_slug (pg_links db) t s =
      (case filter (\<lambda>l. lk_tenant_id l = t \<and> lk_slug l = s \<and> lk_archived_at l = None) (pg_links db) of
         [] \<Rightarrow> None | l # _ \<Rightarrow> Some (link_answer l))"
    unfolding link_answer_def
    by (simp add: resolve_link_by_slug_def for_tenant_def scoped_links_def scoped_table_def scope)
  also have "\<dots> = Some c \<longleftrightarrow>
      (\<exists>l \<in> set (pg_links db). (lk_tenant_id l = t \<and> lk_slug l = s \<and> lk_archived_at l = None) \<and> link_answer l = c)"
    by (rule find_first_unique [where f = "\<lambda>r. (lk_tenant_id r, lk_slug r)"]) (use assms in \<open>simp_all add: keys_ok_def\<close>)
  finally show ?thesis .
qed

section \<open>Properties\<close>


text \<open>C0: Under the constraints the lookups of the hot path are exact: a handle has the tenant of its one page, a slug of a tenant the one link that is not archived, and every link that a bio page shows exists, leads to an http(s) address and, unless it is archived, is the answer to its own handle and slug.\<close>

theorem lookups_are_exact:
  assumes "database_ok db"
  shows "(resolve_tenant_by_handle (pg_pages db) h = Some t \<longleftrightarrow> (\<exists>p \<in> set (pg_pages db). bp_handle p = h \<and> bp_tenant_id p = t)) \<and>
    (resolve_link_by_slug (pg_links db) t s = Some c \<longleftrightarrow>
       (\<exists>l \<in> set (pg_links db). (lk_tenant_id l = t \<and> lk_slug l = s \<and> lk_archived_at l = None) \<and> link_answer l = c)) \<and>
    (\<forall>b \<in> set (pg_bio_links db). \<exists>l \<in> set (pg_links db). lk_id l = bl_link_id b \<and> absolute_http_url (lk_destination l) \<and>
       (lk_archived_at l = None \<longrightarrow> resolve_link_by_slug (pg_links db) (lk_tenant_id l) (lk_slug l) = Some (link_answer l)))"
proof (intro conjI ballI)
  have keys: "keys_ok db" using assms by (simp add: database_ok_def)
  show "resolve_tenant_by_handle (pg_pages db) h = Some t \<longleftrightarrow> (\<exists>p \<in> set (pg_pages db). bp_handle p = h \<and> bp_tenant_id p = t)"
    by (rule tenant_lookup [OF keys])
  show "resolve_link_by_slug (pg_links db) t s = Some c \<longleftrightarrow>
       (\<exists>l \<in> set (pg_links db). (lk_tenant_id l = t \<and> lk_slug l = s \<and> lk_archived_at l = None) \<and> link_answer l = c)"
    by (rule link_lookup [OF keys])
  fix b
  assume "b \<in> set (pg_bio_links db)"
  moreover have "bl_link_id ` set (pg_bio_links db) \<subseteq> lk_id ` set (pg_links db)"
    using assms by (simp only: database_ok_def references_ok_def)
  ultimately have "bl_link_id b \<in> lk_id ` set (pg_links db)" by blast
  then obtain l where l: "l \<in> set (pg_links db)" "lk_id l = bl_link_id b" by auto
  moreover have "absolute_http_url (lk_destination l)" using assms l(1) by (simp add: database_ok_def checks_ok_def)
  moreover have "lk_archived_at l = None \<longrightarrow>
      resolve_link_by_slug (pg_links db) (lk_tenant_id l) (lk_slug l) = Some (link_answer l)"
    by (rule impI, rule link_lookup [OF keys, THEN iffD2], rule bexI [OF _ l(1)]) simp
  ultimately show "\<exists>l \<in> set (pg_links db). lk_id l = bl_link_id b \<and> absolute_http_url (lk_destination l) \<and>
       (lk_archived_at l = None \<longrightarrow> resolve_link_by_slug (pg_links db) (lk_tenant_id l) (lk_slug l) = Some (link_answer l))"
    by (intro bexI [of _ l] conjI)
qed

text \<open>What still names a user as its tenant.\<close>

definition tenants_in_use :: "database \<Rightarrow> jsstr set" where
  "tenants_in_use db =
     lk_tenant_id ` set (pg_links db) \<union> bp_tenant_id ` set (pg_pages db) \<union> bl_tenant_id ` set (pg_bio_links db) \<union>
     dm_tenant_id ` set (pg_domains db)"

text \<open>C0: Deleting a user fails exactly while a link, page, bio link or domain names it as tenant; otherwise its row, sessions and accounts are gone, nothing refers to it, and everything else is unchanged, so no session or data of another user is lost.\<close>

theorem deleting_a_user:
  assumes "database_ok db" and "uid \<in> us_id ` set (pg_users db)"
  shows "case run_statement (Delete_users (\<lambda>u. us_id u = uid)) db of
      Inl _ \<Rightarrow> uid \<in> tenants_in_use db
    | Inr db' \<Rightarrow> uid \<notin> tenants_in_use db \<and> uid \<notin> us_id ` set (pg_users db') \<and> database_ok db' \<and>
        db' = db\<lparr>pg_users := filter (\<lambda>u. us_id u \<noteq> uid) (pg_users db),
                 pg_sessions := filter (\<lambda>s. ss_user_id s \<noteq> uid) (pg_sessions db),
                 pg_accounts := filter (\<lambda>a. ac_user_id a \<noteq> uid) (pg_accounts db)\<rparr>"
proof (cases "run_statement (Delete_users (\<lambda>u. us_id u = uid)) db")
  case (Inl v)
  have gone: "us_id ` set (filter (\<lambda>u. us_id u = uid) (pg_users db)) = {uid}" using assms(2) by auto
  show ?thesis using Inl
    by (auto simp: delete_users_def gone Let_def statement_result.simps tenants_in_use_def split: if_splits)
next
  case (Inr db')
  have gone: "us_id ` set (filter (\<lambda>u. us_id u = uid) (pg_users db)) = {uid}" using assms(2) by auto
  have db': "db' = db\<lparr>pg_users := filter (\<lambda>u. us_id u \<noteq> uid) (pg_users db),
                 pg_sessions := filter (\<lambda>s. ss_user_id s \<noteq> uid) (pg_sessions db),
                 pg_accounts := filter (\<lambda>a. ac_user_id a \<noteq> uid) (pg_accounts db)\<rparr>"
    and free: "uid \<notin> tenants_in_use db"
    using Inr unfolding run_statement.simps delete_users_def gone Let_def statement_result_Inr
    by (simp_all add: tenants_in_use_def)
  have "uid \<notin> us_id ` set (pg_users db')" by (auto simp: db')
  then show ?thesis using Inr free db' statement_keeps_database [OF assms(1) Inr] by simp
qed

section \<open>Examples\<close>

definition example_user :: "string \<Rightarrow> user_row" where
  "example_user name = user_values 0 (js name) (js name) (js name) None None None None"

definition example_session :: "string \<Rightarrow> string \<Rightarrow> session_row" where
  "example_session token user =
     \<lparr> ss_id = js token, ss_expires_at = 1, ss_token = js token, ss_created_at = 0, ss_updated_at = 0, ss_ip_address = None,
       ss_user_agent = None, ss_user_id = js user \<rparr>"

definition schema_page :: bio_page_row where
  "schema_page = bio_page_values 0 (js ''p'') (js ''u'') (js ''juano'')"

definition schema_link :: link_row where
  "schema_link = link_values 0 (js ''l'') (js ''u'') (js ''promo'') (js ''https://x.test/'') None"

definition example_bio_link :: bio_link_row where
  "example_bio_link =
     \<lparr> bl_id = js ''b'', bl_tenant_id = js ''u'', bl_bio_page_id = js ''p'', bl_link_id = js ''l'', bl_position = 0, bl_created_at = 0 \<rparr>"

definition example_statements :: "sql_statement list" where
  "example_statements =
     [Insert_user (example_user ''u''), Insert_user (example_user ''v''), Insert_session (example_session ''s'' ''u''),
      Insert_session (example_session ''t'' ''v''), Insert_link schema_link, Insert_link schema_link,
      Insert_bio_page schema_page, Insert_bio_link example_bio_link]"

lemmas example_rows = example_user_def user_values_def example_session_def schema_page_def bio_page_values_def schema_link_def
  link_values_def example_bio_link_def column_default_def

text \<open>The second insert of the link fails and changes nothing.\<close>

lemma example_database:
  "fold execute example_statements empty_database =
     empty_database\<lparr>pg_users := [example_user ''u'', example_user ''v''],
       pg_sessions := [example_session ''s'' ''u'', example_session ''t'' ''v''],
       pg_links := [schema_link], pg_pages := [schema_page], pg_bio_links := [example_bio_link]\<rparr>"
  by (simp add: example_statements_def execute_def insert_defs statement_result.simps empty_database_def example_rows
      absolute_http_url_def avatar_check_def starts_with_def lower_ascii_def is_upper_def js_def)

theorem lookups_are_exact_witness:
  "resolve_tenant_by_handle [schema_page] (js ''juano'') = Some (js ''u'') \<and>
   resolve_link_by_slug [schema_link] (js ''u'') (js ''promo'') = Some (link_answer schema_link)"
proof -
  let ?db = "fold execute example_statements empty_database"
  have ok: "database_ok ?db" by (rule executed_statements [OF empty_database_ok])
  have rows: "pg_pages ?db = [schema_page]" "pg_links ?db = [schema_link]" by (simp_all add: example_database)
  have "bp_handle schema_page = js ''juano''" "bp_tenant_id schema_page = js ''u''" "lk_tenant_id schema_link = js ''u''"
      "lk_slug schema_link = js ''promo''" "lk_archived_at schema_link = None"
    by (simp_all add: example_rows)
  then show ?thesis
    using lookups_are_exact [OF ok, where h = "js ''juano''" and t = "js ''u''" and s = "js ''promo''" and c = "link_answer schema_link"]
    by (simp add: rows)
qed

text \<open>The user \<open>v\<close> has a session and nothing else, the user \<open>u\<close> owns a link.\<close>

theorem deleting_a_user_witness:
  "\<exists>db. run_statement (Delete_users (\<lambda>u. us_id u = js ''v'')) (fold execute example_statements empty_database) = Inr db \<and>
     pg_sessions db = [example_session ''s'' ''u''] \<and> database_ok db"
proof -
  let ?db = "fold execute example_statements empty_database"
  have ok: "database_ok ?db" by (rule executed_statements [OF empty_database_ok])
  have v: "js ''v'' \<in> us_id ` set (pg_users ?db)" by (simp add: example_database example_user_def user_values_def)
  have "js ''v'' \<notin> tenants_in_use ?db" by (simp add: tenants_in_use_def example_database) (simp add: empty_database_def example_rows)
  then show ?thesis
    using deleting_a_user [OF ok v]
    by (cases "run_statement (Delete_users (\<lambda>u. us_id u = js ''v'')) ?db")
      (simp_all add: example_database example_session_def)
qed

end
