(* ===== verification/Scripts_SeedSchema.thy ===== *)
theory Scripts_SeedSchema
  imports Scripts_Seed Core_Schema
begin

text \<open>
  The seed of the account (\<open>packages/core/scripts/seed.ts\<close>) against the constraints of the schema: the operations of
  \<open>Scripts_Seed\<close> as statements of \<open>Core_Schema\<close>, each with the columns that the script names and the defaults of the others.
\<close>

record seed_store =
  so_db :: database
  so_now :: int
  so_ids :: nat

definition run_on_store :: "(violation \<Rightarrow> thrown) \<Rightarrow> (int \<Rightarrow> sql_statement) \<Rightarrow> (seed_store, unit) io" where
  "run_on_store query_error st w =
     (case run_statement (st (so_now w)) (so_db w) of
        Inl v \<Rightarrow> (Inl (query_error v), w)
      | Inr db \<Rightarrow> (Inr (), w\<lparr>so_db := db\<rparr>))"

definition read_store :: "(database \<Rightarrow> 'a) \<Rightarrow> (seed_store, 'a) io" where
  "read_store f w = (Inr (f (so_db w)), w)"

definition seed_user_of :: "user_row \<Rightarrow> seed_user" where
  "seed_user_of u = \<lparr> su_id = us_id u, su_name = us_name u, su_email = us_email u, su_email_verified = us_email_verified u \<rparr>"

definition seed_bio_page_of :: "bio_page_row \<Rightarrow> seed_bio_page" where
  "seed_bio_page_of p = \<lparr> sb_id = bp_id p, sb_tenant_id = bp_tenant_id p, sb_handle = bp_handle p \<rparr>"

definition seed_link_of :: "link_row \<Rightarrow> seed_link" where
  "seed_link_of l =
     \<lparr> sl_id = lk_id l, sl_tenant_id = lk_tenant_id l, sl_slug = lk_slug l, sl_destination = lk_destination l,
       sl_title = (case lk_title l of None \<Rightarrow> [] | Some t \<Rightarrow> t) \<rparr>"

definition schema_deps ::
  "(nat \<Rightarrow> jsstr) \<Rightarrow> (jsstr \<Rightarrow> jsstr) \<Rightarrow> (jsstr \<Rightarrow> (jsstr \<times> jsstr) option) \<Rightarrow> (jsstr \<Rightarrow> thrown) \<Rightarrow> (violation \<Rightarrow> thrown) \<Rightarrow>
   seed_store seed_deps" where
  "schema_deps ids hash z_url zod_error query_error =
     \<lparr> sd_user_by_email = (\<lambda>email. read_store (\<lambda>db. map_option seed_user_of (find (\<lambda>u. us_email u = email) (pg_users db)))),
       sd_any_user = read_store (\<lambda>db. map_option seed_user_of (find (\<lambda>_. True) (pg_users db))),
       sd_bio_page_of = (\<lambda>t. read_store (\<lambda>db. map_option seed_bio_page_of (find (\<lambda>p. bp_tenant_id p = t) (pg_pages db)))),
       sd_link_of = (\<lambda>t. read_store (\<lambda>db. map_option seed_link_of (find (\<lambda>l. lk_tenant_id l = t) (pg_links db)))),
       sd_insert_user = (\<lambda>u. run_on_store query_error (\<lambda>now.
         Insert_user (user_values now (su_id u) (su_name u) (su_email u) (Some (su_email_verified u)) None None None))),
       sd_insert_account = (\<lambda>a. run_on_store query_error (\<lambda>now.
         Insert_account (credential_account_values now (sa_id a) (sa_account_id a) (sa_provider_id a) (sa_user_id a) (sa_password a)))),
       sd_insert_bio_page = (\<lambda>p. run_on_store query_error (\<lambda>now.
         Insert_bio_page (bio_page_values now (sb_id p) (sb_tenant_id p) (sb_handle p)))),
       sd_insert_link = (\<lambda>l. run_on_store query_error (\<lambda>now.
         Insert_link (link_values now (sl_id l) (sl_tenant_id l) (sl_slug l) (sl_destination l) (Some (sl_title l))))),
       sd_new_id = (\<lambda>w. (Inr (ids (so_ids w)), w\<lparr>so_ids := Suc (so_ids w)\<rparr>)),
       sd_hash_password = (\<lambda>p w. (Inr (hash p), w)),
       sd_z_url = z_url, sd_zod_error = zod_error \<rparr>"

lemma schema_deps_ops:
  "sd_user_by_email (schema_deps i h z e q) =
     (\<lambda>email. read_store (\<lambda>db. map_option seed_user_of (find (\<lambda>u. us_email u = email) (pg_users db))))"
  "sd_any_user (schema_deps i h z e q) = read_store (\<lambda>db. map_option seed_user_of (find (\<lambda>_. True) (pg_users db)))"
  "sd_bio_page_of (schema_deps i h z e q) =
     (\<lambda>t. read_store (\<lambda>db. map_option seed_bio_page_of (find (\<lambda>p. bp_tenant_id p = t) (pg_pages db))))"
  "sd_link_of (schema_deps i h z e q) =
     (\<lambda>t. read_store (\<lambda>db. map_option seed_link_of (find (\<lambda>l. lk_tenant_id l = t) (pg_links db))))"
  "sd_insert_user (schema_deps i h z e q) = (\<lambda>u. run_on_store q (\<lambda>now.
     Insert_user (user_values now (su_id u) (su_name u) (su_email u) (Some (su_email_verified u)) None None None)))"
  "sd_insert_account (schema_deps i h z e q) = (\<lambda>a. run_on_store q (\<lambda>now.
     Insert_account (credential_account_values now (sa_id a) (sa_account_id a) (sa_provider_id a) (sa_user_id a) (sa_password a))))"
  "sd_insert_bio_page (schema_deps i h z e q) = (\<lambda>p. run_on_store q (\<lambda>now.
     Insert_bio_page (bio_page_values now (sb_id p) (sb_tenant_id p) (sb_handle p))))"
  "sd_insert_link (schema_deps i h z e q) = (\<lambda>l. run_on_store q (\<lambda>now.
     Insert_link (link_values now (sl_id l) (sl_tenant_id l) (sl_slug l) (sl_destination l) (Some (sl_title l)))))"
  "sd_new_id (schema_deps i h z e q) = (\<lambda>w. (Inr (i (so_ids w)), w\<lparr>so_ids := Suc (so_ids w)\<rparr>))"
  "sd_hash_password (schema_deps i h z e q) = (\<lambda>p w. (Inr (h p), w))"
  by (simp_all add: schema_deps_def)

text \<open>Without users the tables that refer to users are empty.\<close>

lemma no_users_no_rows:
  assumes "references_ok db" and "pg_users db = []"
  shows "pg_sessions db = []" "pg_accounts db = []" "pg_links db = []" "pg_pages db = []" "pg_bio_links db = []" "pg_domains db = []"
  using assms by (simp_all add: references_ok_def)

definition seeded_database :: "(nat \<Rightarrow> jsstr) \<Rightarrow> (jsstr \<Rightarrow> jsstr) \<Rightarrow> seed_env \<Rightarrow> seed_store \<Rightarrow> database" where
  "seeded_database ids hash env w =
     (let now = so_now w; n = so_ids w; user_id = ids n in
      (so_db w)\<lparr>pg_users := [user_values now user_id (se_handle env) (se_email env) (Some False) None None None],
        pg_accounts := [credential_account_values now (ids (n + 1)) user_id (js ''credential'') user_id (hash (se_password env))],
        pg_pages := [bio_page_values now (ids (n + 2)) user_id (se_handle env)],
        pg_links := [link_values now (ids (n + 3)) user_id EXAMPLE_LINK_SLUG EXAMPLE_LINK_DESTINATION (Some EXAMPLE_LINK_TITLE)]\<rparr>)"

lemma example_destination_ok: "absolute_http_url EXAMPLE_LINK_DESTINATION"
  by (simp add: absolute_http_url_def EXAMPLE_LINK_DESTINATION_def starts_with_def lower_ascii_def is_upper_def js_def)

lemma create_seed_on_schema:
  assumes "database_ok (so_db w)" and "pg_users (so_db w) = []"
  shows "create_seed (schema_deps ids hash z e q) env w =
     (Inr \<lparr> sr_user_id = ids (so_ids w), sr_bio_page_id = ids (so_ids w + 2), sr_link_id = ids (so_ids w + 3) \<rparr>,
      w\<lparr>so_db := seeded_database ids hash env w, so_ids := so_ids w + 4\<rparr>)"
proof -
  have refs: "references_ok (so_db w)" using assms(1) by (simp add: database_ok_def)
  note empty = assms(2) no_users_no_rows [OF refs assms(2)]
  show ?thesis
    using example_destination_ok
    by (simp add: create_seed_def io_bind_app io_then_app schema_deps_ops run_on_store_def insert_defs statement_result.simps empty
        seeded_database_def Let_def user_values_def credential_account_values_def bio_page_values_def link_values_def avatar_check_def
        column_default_def numeral_eq_Suc)
qed

lemma seed_keeps_the_schema:
  assumes "database_ok (so_db w)" and "pg_users (so_db w) = []" and "seed_checks (schema_deps ids hash z e q) env = Inr ()"
  shows "seed (schema_deps ids hash z e q) env w =
     (Inr \<lparr> sr_user_id = ids (so_ids w), sr_bio_page_id = ids (so_ids w + 2), sr_link_id = ids (so_ids w + 3) \<rparr>,
      w\<lparr>so_db := seeded_database ids hash env w, so_ids := so_ids w + 4\<rparr>)"
  using assms(2,3)
  by (simp add: seed_def io_then_app io_bind_app schema_deps_ops read_store_def create_seed_on_schema [OF assms(1,2)])

lemma seeded_database_ok:
  assumes "database_ok (so_db w)" and "pg_users (so_db w) = []"
  shows "database_ok (seeded_database ids hash env w)"
proof -
  have refs: "references_ok (so_db w)" using assms(1) by (simp add: database_ok_def)
  note empty = assms(2) no_users_no_rows [OF refs assms(2)]
  show ?thesis
    using assms(1) example_destination_ok
    by (simp add: database_oks seeded_database_def Let_def empty user_values_def credential_account_values_def bio_page_values_def
        link_values_def avatar_check_def)
qed

lemma seed_again_on_schema:
  assumes "seed_checks (schema_deps ids hash z e q) env = Inr ()" and "so_db v = seeded_database ids hash env w"
  shows "seed (schema_deps ids hash z e q) env v =
     (Inr \<lparr> sr_user_id = ids (so_ids w), sr_bio_page_id = ids (so_ids w + 2), sr_link_id = ids (so_ids w + 3) \<rparr>, v)"
  using assms
  by (simp add: seed_def find_existing_seed_result_def io_then_app io_bind_app schema_deps_ops read_store_def seeded_database_def
      Let_def user_values_def bio_page_values_def link_values_def seed_user_of_def seed_bio_page_of_def seed_link_of_def)

section \<open>Properties\<close>

text \<open>C0: On a database without users the seed satisfies every constraint of the schema, so it resolves; afterwards the hot path finds the handle of the environment and the example link, with the ids that the seed returned, and seeding again returns the same ids and changes nothing.\<close>

theorem seeded_account_is_served:
  assumes "database_ok (so_db w)" and "pg_users (so_db w) = []" and "seed_checks (schema_deps ids hash z e q) env = Inr ()"
  shows "\<exists>r w'. seed (schema_deps ids hash z e q) env w = (Inr r, w') \<and> database_ok (so_db w') \<and>
     resolve_tenant_by_handle (pg_pages (so_db w')) (se_handle env) = Some (sr_user_id r) \<and>
     resolve_link_by_slug (pg_links (so_db w')) (sr_user_id r) EXAMPLE_LINK_SLUG =
       Some \<lparr> cl_link_id = sr_link_id r, cl_tenant_id = sr_user_id r, cl_destination = EXAMPLE_LINK_DESTINATION \<rparr> \<and>
     seed (schema_deps ids hash z e q) env w' = (Inr r, w')"
proof -
  let ?db = "seeded_database ids hash env w"
  let ?w = "w\<lparr>so_db := ?db, so_ids := so_ids w + 4\<rparr>"
  have ok: "database_ok ?db" by (rule seeded_database_ok [OF assms(1,2)])
  then have keys: "keys_ok ?db" by (simp add: database_ok_def)
  have "resolve_tenant_by_handle (pg_pages ?db) (se_handle env) = Some (ids (so_ids w))"
    by (simp add: tenant_lookup [OF keys]) (simp add: seeded_database_def Let_def bio_page_values_def)
  moreover have "resolve_link_by_slug (pg_links ?db) (ids (so_ids w)) EXAMPLE_LINK_SLUG =
      Some \<lparr> cl_link_id = ids (so_ids w + 3), cl_tenant_id = ids (so_ids w), cl_destination = EXAMPLE_LINK_DESTINATION \<rparr>"
    by (simp add: link_lookup [OF keys]) (simp add: seeded_database_def Let_def link_values_def link_answer_def)
  moreover have "seed (schema_deps ids hash z e q) env ?w =
      (Inr \<lparr> sr_user_id = ids (so_ids w), sr_bio_page_id = ids (so_ids w + 2), sr_link_id = ids (so_ids w + 3) \<rparr>, ?w)"
    by (rule seed_again_on_schema [OF assms(3)]) simp
  ultimately show ?thesis using seed_keeps_the_schema [OF assms] ok by simp
qed

theorem seeded_account_is_served_witness:
  "\<exists>r w'. seed (schema_deps dec id example_seed_url (\<lambda>_. new_error []) (\<lambda>_. new_error [])) example_seed_env
       \<lparr> so_db = empty_database, so_now = 0, so_ids = 0 \<rparr> = (Inr r, w') \<and>
     resolve_tenant_by_handle (pg_pages (so_db w')) (js ''juano'') = Some (sr_user_id r)"
proof -
  let ?deps = "schema_deps dec id example_seed_url (\<lambda>_. new_error []) (\<lambda>_. new_error [])"
  have "sd_zod_error ?deps = sd_zod_error example_seed_deps" "sd_z_url ?deps = sd_z_url example_seed_deps"
    by (simp_all only: schema_deps_def table_deps_simps seed_deps.select_convs)
  then have "seed_checks ?deps example_seed_env = Inr ()"
    using example_checks by (simp only: seed_checks_def)
  moreover have "database_ok (so_db \<lparr> so_db = empty_database, so_now = 0, so_ids = 0 \<rparr>)" by (simp add: empty_database_ok)
  moreover have "pg_users (so_db \<lparr> so_db = empty_database, so_now = 0, so_ids = 0 \<rparr>) = []" by (simp add: empty_database_def)
  ultimately show ?thesis
    using seeded_account_is_served [where ids = dec and hash = id and z = example_seed_url and e = "\<lambda>_. new_error []" and
        q = "\<lambda>_. new_error []" and env = example_seed_env and w = "\<lparr> so_db = empty_database, so_now = 0, so_ids = 0 \<rparr>"]
    by (auto simp: example_seed_env_def)
qed

end
