(* ===== verification/Worker_Partitions.thy ===== *)
theory Worker_Partitions
  imports Worker_Health
begin

text \<open>
  The maintenance of the partitions (\<open>apps/worker/src/partitions/partition-maintenance.job.ts\<close> with
  \<open>packages/core/src/db/partitions.ts\<close>) on a table with monthly partitions and a default one, as Postgres documents them: a row goes
  to the partition of its month or, without one, to the default; \<open>create_events_partition\<close> does nothing for a partition that
  exists and fails while the default holds a row of the month.
\<close>

section \<open>Counting and starting\<close>

text \<open>The count as Postgres returns it, as text; without a row it is zero.\<close>

definition count_default_partition_rows :: "('s, jsstr list) io \<Rightarrow> ('s, nat) io" where
  "count_default_partition_rows query =
     io_bind query (\<lambda>rows. io_return (case rows of [] \<Rightarrow> undec (js ''0'') | count # _ \<Rightarrow> undec count))"

record maintenance_options =
  mo_queue_name :: "jsstr option"

definition maintenance_queue_name :: "maintenance_options \<Rightarrow> jsstr" where
  "maintenance_queue_name options =
     (case mo_queue_name options of None \<Rightarrow> PARTITION_MAINTENANCE_QUEUE_NAME | Some n \<Rightarrow> n)"

section \<open>The partitioned table\<close>

record partition_world =
  pt_now :: int
  pt_partitions :: "jsstr list"
  pt_rows :: "int list"
  pt_default :: "int list"
  pt_gauge :: "nat option"
  pt_log :: "(jsstr \<times> log_meta) list"
  pt_reachable :: bool

definition month_of :: "int \<Rightarrow> jsstr" where
  "month_of t = month_start_date_string (utc_full_year t) (utc_month t)"

definition unreachable :: thrown where
  "unreachable = new_error (js ''connection refused'')"

definition default_violation :: thrown where
  "default_violation =
     new_error (js ''updated partition constraint for default partition \"events_default\" would be violated by some row'')"

definition create_events_partition :: "jsstr \<Rightarrow> (partition_world, unit) io" where
  "create_events_partition date w =
     (if \<not> pt_reachable w then (Inl unreachable, w)
      else if date \<in> set (pt_partitions w) then (Inr (), w)
      else if date \<in> month_of ` set (pt_default w) then (Inl default_violation, w)
      else (Inr (), w\<lparr>pt_partitions := date # pt_partitions w\<rparr>))"

definition select_default_count :: "(partition_world, jsstr list) io" where
  "select_default_count w = (if \<not> pt_reachable w then (Inl unreachable, w) else (Inr [dec (length (pt_default w))], w))"

definition insert_at :: "int \<Rightarrow> partition_world \<Rightarrow> partition_world" where
  "insert_at t w =
     (if month_of t \<in> set (pt_partitions w) then w\<lparr>pt_rows := pt_rows w @ [t]\<rparr> else w\<lparr>pt_default := pt_default w @ [t]\<rparr>)"

definition world_maintenance :: "partition_world maintenance_deps" where
  "world_maintenance =
     \<lparr> md_create = create_events_partition, md_count_default = count_default_partition_rows select_default_count,
       md_gauge_set = (\<lambda>n w. w\<lparr>pt_gauge := Some n\<rparr>), md_log = (\<lambda>m meta w. w\<lparr>pt_log := pt_log w @ [(m, meta)]\<rparr>),
       md_now = pt_now, md_upsert_scheduler = (\<lambda>_ _ _. io_return ()), md_close_worker = io_return (),
       md_obliterate = io_return (), md_close_queue = io_return () \<rparr>"

text \<open>One run of the job: a failure goes to the listener of the worker, which logs it.\<close>

definition run_maintenance :: "partition_world \<Rightarrow> partition_world" where
  "run_maintenance w =
     (case process_partition_maintenance_job world_maintenance w of
        (Inl e, w') \<Rightarrow> on_maintenance_failed world_maintenance None e w'
      | (Inr _, w') \<Rightarrow> w')"

datatype partition_action = Clock int | Insert_event int | Run_job | Postgres_reachable bool

fun partition_step :: "partition_action \<Rightarrow> partition_world \<Rightarrow> partition_world" where
  "partition_step (Clock t) w = w\<lparr>pt_now := t\<rparr>"
| "partition_step (Insert_event t) w = insert_at t w"
| "partition_step Run_job w = run_maintenance w"
| "partition_step (Postgres_reachable b) w = w\<lparr>pt_reachable := b\<rparr>"

definition window :: "int \<Rightarrow> nat \<Rightarrow> jsstr" where
  "window t k = month_start_date_string (utc_full_year t) (utc_month t + k)"

section \<open>Facts\<close>

lemma count_default: "count_default_partition_rows select_default_count w =
   (if pt_reachable w then (Inr (length (pt_default w)), w) else (Inl unreachable, w))"
  by (simp add: count_default_partition_rows_def select_default_count_def io_bind_app)

text \<open>Only partitions are added, and none that a row of the default stands in the way of.\<close>

definition adds_partitions :: "partition_world \<Rightarrow> partition_world \<Rightarrow> bool" where
  "adds_partitions w w' \<longleftrightarrow>
     w' = w\<lparr>pt_partitions := pt_partitions w'\<rparr> \<and> set (pt_partitions w) \<subseteq> set (pt_partitions w') \<and>
     set (pt_partitions w') \<inter> month_of ` set (pt_default w) \<subseteq> set (pt_partitions w)"

lemma adds_partitions_refl: "adds_partitions w w"
  by (simp add: adds_partitions_def)

lemma adds_partitions_same:
  assumes "adds_partitions w w'"
  shows "pt_default w' = pt_default w" "pt_gauge w' = pt_gauge w" "pt_log w' = pt_log w" "pt_rows w' = pt_rows w"
    "pt_now w' = pt_now w" "pt_reachable w' = pt_reachable w"
proof -
  have "w' = w\<lparr>pt_partitions := pt_partitions w'\<rparr>" using assms by (simp add: adds_partitions_def)
  from arg_cong [OF this, of pt_default] arg_cong [OF this, of pt_gauge] arg_cong [OF this, of pt_log] arg_cong [OF this, of pt_rows]
    arg_cong [OF this, of pt_now] arg_cong [OF this, of pt_reachable]
  show "pt_default w' = pt_default w" "pt_gauge w' = pt_gauge w" "pt_log w' = pt_log w" "pt_rows w' = pt_rows w"
    "pt_now w' = pt_now w" "pt_reachable w' = pt_reachable w" by simp_all
qed

lemma adds_partitions_trans:
  assumes "adds_partitions u v" and "adds_partitions v w"
  shows "adds_partitions u w"
proof -
  have d: "pt_default v = pt_default u" by (rule adds_partitions_same(1) [OF assms(1)])
  have "w = v\<lparr>pt_partitions := pt_partitions w\<rparr>" "v = u\<lparr>pt_partitions := pt_partitions v\<rparr>"
    using assms by (simp_all add: adds_partitions_def)
  then have "w = u\<lparr>pt_partitions := pt_partitions w\<rparr>" by (cases u; cases v; cases w) simp
  moreover have "set (pt_partitions u) \<subseteq> set (pt_partitions w)" using assms unfolding adds_partitions_def by blast
  moreover have "set (pt_partitions w) \<inter> month_of ` set (pt_default u) \<subseteq> set (pt_partitions u)"
  proof -
    have "set (pt_partitions w) \<inter> month_of ` set (pt_default u) \<subseteq> set (pt_partitions v)"
      using assms(2) by (simp add: adds_partitions_def d)
    moreover have "set (pt_partitions v) \<inter> month_of ` set (pt_default u) \<subseteq> set (pt_partitions u)"
      using assms(1) by (simp add: adds_partitions_def)
    ultimately show ?thesis by blast
  qed
  ultimately show ?thesis by (simp add: adds_partitions_def)
qed

lemma create_one:
  assumes "create_events_partition date w = (r, w')"
  shows "adds_partitions w w'" and "r = Inr () \<Longrightarrow> date \<in> set (pt_partitions w')"
  using assms
  by (auto simp: create_events_partition_def adds_partitions_def split: if_splits)

lemma create_many:
  "create_partitions create_events_partition year month months offsets w = (r, w') \<Longrightarrow>
   adds_partitions w w' \<and>
   (r = Inr () \<longrightarrow> list_all (\<lambda>k. month_start_date_string year (month + k) \<in> set (pt_partitions w')) offsets)"
proof (induction offsets arbitrary: w)
  case (Cons k offsets)
  obtain c v where c: "create_events_partition (month_start_date_string year (month + k)) w = (c, v)" by fastforce
  note one = create_one [OF c]
  show ?case
  proof (cases c)
    case (Inl e)
    then have "w' = v" "r \<noteq> Inr ()" using Cons.prems c by (auto simp: Let_def io_then_app io_catch_app)
    then show ?thesis using one by simp
  next
    case (Inr u)
    then have "create_partitions create_events_partition year month months offsets v = (r, w')"
      using Cons.prems c by (simp add: Let_def io_then_app io_catch_app)
    note rest = Cons.IH [OF this]
    then have "set (pt_partitions v) \<subseteq> set (pt_partitions w')" by (simp add: adds_partitions_def)
    then show ?thesis using one(2) Inr rest adds_partitions_trans [OF one(1)] by auto
  qed
qed (simp add: adds_partitions_refl)

lemma job_unfolded:
  "process_partition_maintenance_job world_maintenance w =
     (case ensure_partitions_ahead create_events_partition (pt_now w) MONTHS_AHEAD w of
        (Inl e, v) \<Rightarrow> (Inl e, v)
      | (Inr _, v) \<Rightarrow>
          if \<not> pt_reachable v then (Inl unreachable, v)
          else let g = v\<lparr>pt_gauge := Some (length (pt_default v))\<rparr> in
            (Inr (), if pt_default v = [] then g else
               g\<lparr>pt_log := pt_log g @
                 [(js ''events_default has '' @ dec (length (pt_default v)) @ js '' row(s) '' @ [8212] @
                   js '' the partition maintenance job failed to create a partition ahead of need. Rows in events_default always mean the maintenance job failed.'',
                   [(js ''table'', JStr (js ''events_default'')), (js ''rowCount'', json_nat (length (pt_default v)))])]\<rparr>))"
  by (simp add: process_partition_maintenance_job_def world_maintenance_def io_then_app io_bind_app count_default Let_def
      split: sum.split prod.split)

lemma job_changes:
  assumes "process_partition_maintenance_job world_maintenance w = (r, w')"
  shows "\<exists>v. adds_partitions w v \<and>
     (r = Inr () \<longrightarrow> list_all (\<lambda>k. window (pt_now w) k \<in> set (pt_partitions v)) [0 ..< Suc MONTHS_AHEAD] \<and>
        (\<exists>l. w' = v\<lparr>pt_gauge := Some (length (pt_default w)), pt_log := l\<rparr>)) \<and>
     (r \<noteq> Inr () \<longrightarrow> w' = v)"
proof -
  obtain c v where ensure: "ensure_partitions_ahead create_events_partition (pt_now w) MONTHS_AHEAD w = (c, v)" by fastforce
  then have "create_partitions create_events_partition (utc_full_year (pt_now w)) (utc_month (pt_now w)) MONTHS_AHEAD
      [0 ..< Suc MONTHS_AHEAD] w = (c, v)"
    by (simp only: ensure_partitions_ahead_def)
  note made = create_many [OF this, folded window_def]
  note same = adds_partitions_same [OF made [THEN conjunct1]]
  show ?thesis
  proof (cases "c = Inr () \<and> pt_reachable v")
    case True
    have "r = Inr () \<and> (\<exists>l. w' = v\<lparr>pt_gauge := Some (length (pt_default v)), pt_log := l\<rparr>)"
    proof (cases "pt_default v = []")
      case empty: True
      have "w' = v\<lparr>pt_gauge := Some (length (pt_default v))\<rparr>" "r = Inr ()"
        using assms True empty unfolding job_unfolded ensure by (auto simp: Let_def)
      then show ?thesis by (intro conjI exI [of _ "pt_log v"]; cases v) simp_all
    next
      case False
      then show ?thesis using assms True unfolding job_unfolded ensure by (auto simp: Let_def)
    qed
    then show ?thesis using made True same(1) by (intro exI [of _ v]) simp
  next
    case False
    then have "r \<noteq> Inr () \<and> w' = v"
      using assms unfolding job_unfolded ensure by (cases c) auto
    then show ?thesis using made by blast
  qed
qed

text \<open>Any step keeps the partitions, and the rows of their months out of the default.\<close>

lemma run_maintenance_changes:
  "\<exists>v g l. adds_partitions w v \<and> run_maintenance w = v\<lparr>pt_gauge := g, pt_log := l\<rparr>"
proof -
  obtain r w' where job: "process_partition_maintenance_job world_maintenance w = (r, w')" by fastforce
  from job_changes [OF job] obtain v where v: "adds_partitions w v"
      "r = Inr () \<Longrightarrow> \<exists>l. w' = v\<lparr>pt_gauge := Some (length (pt_default w)), pt_log := l\<rparr>" "r \<noteq> Inr () \<Longrightarrow> w' = v" by blast
  show ?thesis
  proof (cases r)
    case (Inl e)
    then have "run_maintenance w = v\<lparr>pt_gauge := pt_gauge v, pt_log := pt_log (run_maintenance w)\<rparr>"
      using v(3) job by (cases v) (simp add: run_maintenance_def on_maintenance_failed_def world_maintenance_def)
    then show ?thesis using v(1) by blast
  next
    case (Inr u)
    then have "run_maintenance w = w'" using job by (simp add: run_maintenance_def)
    then show ?thesis using v Inr by auto
  qed
qed

definition settled :: "jsstr list \<Rightarrow> partition_world \<Rightarrow> partition_world \<Rightarrow> bool" where
  "settled months w w' \<longleftrightarrow>
     set months \<subseteq> set (pt_partitions w') \<and>
     filter (\<lambda>t. month_of t \<in> set months) (pt_default w') = filter (\<lambda>t. month_of t \<in> set months) (pt_default w)"

lemma settled_step:
  assumes "settled months w v"
  shows "settled months w (partition_step st v)"
proof (cases st)
  case Run_job
  obtain u g l where u: "adds_partitions v u" "run_maintenance v = u\<lparr>pt_gauge := g, pt_log := l\<rparr>"
    using run_maintenance_changes by blast
  have "partition_step st v = u\<lparr>pt_gauge := g, pt_log := l\<rparr>" by (simp add: Run_job u(2))
  moreover have "set (pt_partitions v) \<subseteq> set (pt_partitions u)" using u(1) by (simp add: adds_partitions_def)
  ultimately show ?thesis using assms adds_partitions_same(1) [OF u(1)] by (auto simp: settled_def)
next
  case (Insert_event t)
  have "set months \<subseteq> set (pt_partitions v)" using assms by (simp add: settled_def)
  then have "month_of t \<notin> set (pt_partitions v) \<Longrightarrow> month_of t \<notin> set months" by blast
  then show ?thesis using assms Insert_event
    by (cases "month_of t \<in> set (pt_partitions v)") (simp_all add: settled_def insert_at_def)
qed (use assms in \<open>simp_all add: settled_def\<close>)

lemma settled_steps: "settled months w v \<Longrightarrow> settled months w (fold partition_step steps v)"
  by (induction steps arbitrary: v) (simp_all add: settled_step)

section \<open>Properties\<close>

text \<open>C0: A run of the job that succeeds has made the partitions of the current month and of the three after it, and set the gauge to the rows of the default partition; from then on, whatever happens, no event of these months goes to the default partition.\<close>

theorem maintained_months_stay_out_of_default:
  assumes "process_partition_maintenance_job world_maintenance w = (Inr (), w')"
  shows "pt_gauge w' = Some (length (pt_default w)) \<and>
     list_all (\<lambda>k. window (pt_now w) k \<in> set (pt_partitions (fold partition_step steps w'))) [0 ..< 4] \<and>
     filter (\<lambda>t. month_of t \<in> window (pt_now w) ` {0 ..< 4}) (pt_default (fold partition_step steps w')) =
       filter (\<lambda>t. month_of t \<in> window (pt_now w) ` {0 ..< 4}) (pt_default w)"
proof -
  from job_changes [OF assms] obtain v l where v: "adds_partitions w v"
      "list_all (\<lambda>k. window (pt_now w) k \<in> set (pt_partitions v)) [0 ..< Suc MONTHS_AHEAD]"
      "w' = v\<lparr>pt_gauge := Some (length (pt_default w)), pt_log := l\<rparr>" by blast
  let ?months = "map (window (pt_now w)) [0 ..< 4]"
  have "settled ?months w w'"
    using v(2) adds_partitions_same(1) [OF v(1)]
    by (simp add: settled_def v(3) MONTHS_AHEAD_def list_all_iff eval_nat_numeral)
  from settled_steps [OF this] have "settled ?months w (fold partition_step steps w')" .
  then show ?thesis by (auto simp: settled_def list_all_iff v(3))
qed

text \<open>C0: When an event has already gone to the default partition for a month that the job still has to create, in particular for the current one, every run fails at that month before it counts: the gauge and the message about the default partition, which exist to report this state, are never produced, for the rest of the month and however often the job runs, and the partition is not made.\<close>

theorem default_rows_block_their_own_alert:
  assumes "k \<le> MONTHS_AHEAD" and "window (pt_now w) k \<in> month_of ` set (pt_default w)"
    and "window (pt_now w) k \<notin> set (pt_partitions w)"
  shows "\<exists>e w'. process_partition_maintenance_job world_maintenance w = (Inl e, w') \<and> pt_gauge w' = pt_gauge w \<and> pt_log w' = pt_log w \<and>
     pt_gauge ((run_maintenance ^^ n) w) = pt_gauge w \<and> length (pt_log ((run_maintenance ^^ n) w)) = length (pt_log w) + n \<and>
     window (pt_now w) k \<notin> set (pt_partitions ((run_maintenance ^^ n) w))"
proof -
  have run: "\<exists>e u. process_partition_maintenance_job world_maintenance v = (Inl e, u) \<and> adds_partitions v u"
    if "pt_now v = pt_now w" "window (pt_now w) k \<in> month_of ` set (pt_default v)" "window (pt_now w) k \<notin> set (pt_partitions v)" for v
  proof -
    obtain r u where job: "process_partition_maintenance_job world_maintenance v = (r, u)" by fastforce
    from job_changes [OF job] obtain x where x: "adds_partitions v x"
        "r = Inr () \<Longrightarrow> list_all (\<lambda>k. window (pt_now v) k \<in> set (pt_partitions x)) [0 ..< Suc MONTHS_AHEAD]" "r \<noteq> Inr () \<Longrightarrow> u = x" by blast
    have "window (pt_now w) k \<notin> set (pt_partitions x)" using x(1) that(2,3) by (auto simp: adds_partitions_def)
    then have "r \<noteq> Inr ()" using x(2) assms(1) that(1) by (auto simp: list_all_iff simp del: upt_Suc)
    then show ?thesis using x(1,3) job by (cases r) auto
  qed
  have blocked: "adds_partitions v u \<Longrightarrow> window (pt_now w) k \<in> month_of ` set (pt_default v) \<Longrightarrow>
      window (pt_now w) k \<notin> set (pt_partitions v) \<Longrightarrow> window (pt_now w) k \<notin> set (pt_partitions u)" for v u
    by (auto simp: adds_partitions_def)
  have "pt_now ((run_maintenance ^^ n) w) = pt_now w \<and> pt_default ((run_maintenance ^^ n) w) = pt_default w \<and>
      pt_gauge ((run_maintenance ^^ n) w) = pt_gauge w \<and> length (pt_log ((run_maintenance ^^ n) w)) = length (pt_log w) + n \<and>
      window (pt_now w) k \<notin> set (pt_partitions ((run_maintenance ^^ n) w))"
  proof (induction n)
    case (Suc n)
    let ?v = "(run_maintenance ^^ n) w"
    obtain e u where u: "process_partition_maintenance_job world_maintenance ?v = (Inl e, u)" "adds_partitions ?v u"
      using run [of ?v] Suc assms(2) by auto
    then have "run_maintenance ?v = on_maintenance_failed world_maintenance None e u" by (simp add: run_maintenance_def)
    then show ?case
      using Suc adds_partitions_same [OF u(2)] blocked [OF u(2)] assms(2)
      by (simp add: on_maintenance_failed_def world_maintenance_def)
  qed (simp add: assms(3))
  moreover obtain e w' where "process_partition_maintenance_job world_maintenance w = (Inl e, w')" "adds_partitions w w'"
    using run [of w] assms(2,3) by auto
  ultimately show ?thesis using adds_partitions_same by blast
qed

section \<open>Examples\<close>

lemma healthy_creates:
  "pt_reachable w \<Longrightarrow> pt_default w = [] \<Longrightarrow>
   \<exists>w'. create_partitions create_events_partition year month months offsets w = (Inr (), w') \<and> pt_reachable w' \<and> pt_default w' = []"
proof (induction offsets arbitrary: w)
  case (Cons k offsets)
  obtain v where "create_events_partition (month_start_date_string year (month + k)) w = (Inr (), v)" "pt_reachable v" "pt_default v = []"
    using Cons.prems
    by (cases "month_start_date_string year (month + k) \<in> set (pt_partitions w)") (simp_all add: create_events_partition_def)
  then show ?case using Cons.IH by (simp add: Let_def io_then_app io_catch_app)
qed simp

lemma healthy_job:
  assumes "pt_reachable w" and "pt_default w = []"
  shows "\<exists>w'. process_partition_maintenance_job world_maintenance w = (Inr (), w')"
proof -
  obtain v where "ensure_partitions_ahead create_events_partition (pt_now w) MONTHS_AHEAD w = (Inr (), v)" "pt_reachable v"
    using healthy_creates [OF assms] unfolding ensure_partitions_ahead_def by metis
  then show ?thesis by (simp add: job_unfolded Let_def)
qed

definition example_partitions :: "int list \<Rightarrow> partition_world" where
  "example_partitions default_rows =
     \<lparr> pt_now = 0, pt_partitions = [], pt_rows = [], pt_default = default_rows, pt_gauge = None, pt_log = [], pt_reachable = True \<rparr>"

theorem maintained_months_stay_out_of_default_witness:
  "\<exists>w'. process_partition_maintenance_job world_maintenance (example_partitions []) = (Inr (), w') \<and> pt_gauge w' = Some 0"
proof -
  obtain w' where run: "process_partition_maintenance_job world_maintenance (example_partitions []) = (Inr (), w')"
    using healthy_job [of "example_partitions []"] by (auto simp: example_partitions_def)
  with maintained_months_stay_out_of_default [OF run] show ?thesis by (auto simp: example_partitions_def)
qed

text \<open>Without a partition for the current month, one event is enough.\<close>

theorem default_rows_block_their_own_alert_witness:
  "\<exists>e w'. process_partition_maintenance_job world_maintenance (example_partitions [0]) = (Inl e, w') \<and>
     pt_gauge ((run_maintenance ^^ 30) (example_partitions [0])) = None"
proof -
  have "window 0 0 = month_of 0" by (simp add: window_def month_of_def)
  then show ?thesis
    using default_rows_block_their_own_alert [of 0 "example_partitions [0]" 30]
    by (auto simp: example_partitions_def MONTHS_AHEAD_def)
qed

end
