(* ===== verification/Web_HumanoBar.thy ===== *)
theory Web_HumanoBar
  imports Js_Float
begin

text \<open>
  The segmented bar of the split between humans and the rest (\<open>apps/web/src/components/honesty/humano-bar.tsx\<close>), the
  badge of the share of humans (\<open>badge-humano.tsx\<close>) and the verdicts they show (\<open>contracts/src/classification.ts\<close>).
  A component is a function from its props to the tree of elements that React renders.
\<close>

section \<open>Elements\<close>

text \<open>
  An element has a tag, its attributes and its children. \<open>cn\<close> joins class names with \<open>clsx\<close> and \<open>tailwind-merge\<close> and is
  a parameter; an argument of it is a text, a value that counts as absent, or a list.
\<close>

datatype node = Text jsstr | Element jsstr "(jsstr \<times> jsstr) list" "node list"

datatype class_value = Classes jsstr | No_classes | Class_list "class_value list"

type_synonym class_names = "class_value list \<Rightarrow> jsstr"

fun text_content :: "node \<Rightarrow> jsstr" where
  "text_content (Text s) = s"
| "text_content (Element _ _ children) = concat (map text_content children)"

fun attribute :: "jsstr \<Rightarrow> node \<Rightarrow> jsstr option" where
  "attribute name (Text _) = None"
| "attribute name (Element _ attributes _) = map_of attributes name"

fun child_nodes :: "node \<Rightarrow> node list" where
  "child_nodes (Text _) = []"
| "child_nodes (Element _ _ children) = children"

section \<open>Verdicts\<close>

datatype clasificacion = Humano | Bot | Unfurler | Prefetch

definition clasificacion_text :: "clasificacion \<Rightarrow> jsstr" where
  "clasificacion_text c =
     (case c of Humano \<Rightarrow> js ''humano'' | Bot \<Rightarrow> js ''bot'' | Unfurler \<Rightarrow> js ''unfurler'' | Prefetch \<Rightarrow> js ''prefetch'')"

definition CLASIFICACION_TOKEN :: "clasificacion \<Rightarrow> jsstr" where
  "CLASIFICACION_TOKEN c =
     (case c of Humano \<Rightarrow> js ''primary'' | Bot \<Rightarrow> js ''error'' | Unfurler \<Rightarrow> js ''info'' | Prefetch \<Rightarrow> js ''warning'')"

instantiation clasificacion :: enum
begin

definition enum_clasificacion :: "clasificacion list" where
  "enum_clasificacion = [Humano, Bot, Unfurler, Prefetch]"

definition enum_all_clasificacion :: "(clasificacion \<Rightarrow> bool) \<Rightarrow> bool" where
  "enum_all_clasificacion P = (P Humano \<and> P Bot \<and> P Unfurler \<and> P Prefetch)"

definition enum_ex_clasificacion :: "(clasificacion \<Rightarrow> bool) \<Rightarrow> bool" where
  "enum_ex_clasificacion P = (P Humano \<or> P Bot \<or> P Unfurler \<or> P Prefetch)"

instance
  by standard
    (auto simp: enum_clasificacion_def enum_all_clasificacion_def enum_ex_clasificacion_def,
      metis clasificacion.exhaust, metis clasificacion.exhaust, metis clasificacion.exhaust)

end

section \<open>The widths of the bar\<close>

record 'a by_verdict =
  bv_humano :: 'a
  bv_bot :: 'a
  bv_unfurler :: 'a
  bv_prefetch :: 'a

type_synonym humano_bar_props = "double by_verdict"

definition by_key :: "'a by_verdict \<Rightarrow> clasificacion \<Rightarrow> 'a" where
  "by_key props k =
     (case k of Humano \<Rightarrow> bv_humano props | Bot \<Rightarrow> bv_bot props | Unfurler \<Rightarrow> bv_unfurler props | Prefetch \<Rightarrow> bv_prefetch props)"

record segment =
  sg_key :: clasificacion
  sg_color_class :: jsstr
  sg_border_class :: jsstr
  sg_label :: jsstr

definition SEGMENTS :: "segment list" where
  "SEGMENTS =
     [\<lparr>sg_key = Humano, sg_color_class = js ''bg-primary'', sg_border_class = js ''border-bg'', sg_label = js ''humanos''\<rparr>,
      \<lparr>sg_key = Bot, sg_color_class = js ''bg-n1'', sg_border_class = js ''border-fg'', sg_label = js ''bots''\<rparr>,
      \<lparr>sg_key = Unfurler, sg_color_class = js ''bg-n2'', sg_border_class = js ''border-fg'', sg_label = js ''unfurlers''\<rparr>,
      \<lparr>sg_key = Prefetch, sg_color_class = js ''bg-n3'', sg_border_class = js ''border-fg'', sg_label = js ''prefetch''\<rparr>]"

definition MIN_VISIBLE_PCT :: double where
  "MIN_VISIBLE_PCT = Finite (3 / 2)"

definition sanitize_count :: "double \<Rightarrow> double" where
  "sanitize_count value = (if d_is_finite value \<and> d_less (Finite 0) value then value else Finite 0)"

definition sanitize_humano_bar_props :: "humano_bar_props \<Rightarrow> humano_bar_props" where
  "sanitize_humano_bar_props raw_props =
     \<lparr>bv_humano = sanitize_count (bv_humano raw_props),
      bv_bot = sanitize_count (bv_bot raw_props),
      bv_unfurler = sanitize_count (bv_unfurler raw_props),
      bv_prefetch = sanitize_count (bv_prefetch raw_props)\<rparr>"

definition reduce_sum :: "(clasificacion \<Rightarrow> double) \<Rightarrow> clasificacion list \<Rightarrow> double" where
  "reduce_sum f keys = foldl (\<lambda>total k. d_add total (f k)) (Finite 0) keys"

definition compute_segment_widths :: "humano_bar_props \<Rightarrow> double by_verdict" where
  "compute_segment_widths raw_props =
     (let keys = map sg_key SEGMENTS;
          props = sanitize_humano_bar_props raw_props;
          total = reduce_sum (by_key props) keys
      in if d_le total (Finite 0) then
           \<lparr>bv_humano = Finite 0, bv_bot = Finite 0, bv_unfurler = Finite 0, bv_prefetch = Finite 0\<rparr>
         else
           let raw = (\<lambda>k. d_mul (d_div (by_key props k) total) (Finite 100));
               floored_keys = filter (\<lambda>k. d_less (Finite 0) (by_key props k) \<and> d_less (raw k) MIN_VISIBLE_PCT) keys;
               deficit = reduce_sum (\<lambda>k. d_sub MIN_VISIBLE_PCT (raw k)) floored_keys;
               donor_keys = filter (\<lambda>k. k \<notin> set floored_keys) keys;
               donor_total = reduce_sum raw donor_keys;
               result = (\<lambda>k.
                 if k \<in> set floored_keys then MIN_VISIBLE_PCT
                 else if d_less (Finite 0) donor_total then d_sub (raw k) (d_mul deficit (d_div (raw k) donor_total))
                 else raw k)
           in \<lparr>bv_humano = result Humano, bv_bot = result Bot, bv_unfurler = result Unfurler, bv_prefetch = result Prefetch\<rparr>)"

section \<open>The bar\<close>

definition build_aria_label :: "humano_bar_props \<Rightarrow> jsstr" where
  "build_aria_label props =
     join_with (js '', '') (map (\<lambda>s. number_text (by_key props (sg_key s)) @ js '' '' @ sg_label s) SEGMENTS)"

definition bar_segment :: "class_names \<Rightarrow> humano_bar_props \<Rightarrow> double by_verdict \<Rightarrow> segment \<Rightarrow> node" where
  "bar_segment cn props widths s =
     Element (js ''i'')
       [(js ''key'', clasificacion_text (sg_key s)),
        (js ''data-testid'', js ''humano-bar-segment-'' @ clasificacion_text (sg_key s)),
        (js ''className'', cn [Classes (js ''block h-full''), Classes (sg_color_class s),
           if d_less (Finite 0) (by_key props (sg_key s)) then Class_list [Classes (js ''border''), Classes (sg_border_class s)]
           else No_classes]),
        (js ''style.width'', number_text (by_key widths (sg_key s)) @ js ''%'')]
       []"

definition legend_item :: "class_names \<Rightarrow> humano_bar_props \<Rightarrow> segment \<Rightarrow> node" where
  "legend_item cn props s =
     Element (js ''li'') [(js ''key'', clasificacion_text (sg_key s)), (js ''className'', js ''flex items-center gap-1.5'')]
       [Element (js ''span'') [(js ''className'', cn [Classes (js ''h-2 w-2 rounded-full''), Classes (sg_color_class s)]),
           (js ''aria-hidden'', js ''true'')] [],
        Element (js ''span'') [] [Text (sg_label s)],
        Element (js ''span'') [(js ''className'', js ''text-fg'')] [Text (number_text (by_key props (sg_key s)))]]"

definition humano_bar :: "class_names \<Rightarrow> humano_bar_props \<Rightarrow> node" where
  "humano_bar cn raw_props =
     (let props = sanitize_humano_bar_props raw_props; widths = compute_segment_widths props in
      Element (js ''div'') []
        [Element (js ''div'')
           [(js ''data-testid'', js ''humano-bar''), (js ''role'', js ''img''), (js ''aria-label'', build_aria_label props),
            (js ''className'', js ''flex h-4 gap-[2px] overflow-hidden rounded-badge bg-bg'')]
           (map (bar_segment cn props widths) SEGMENTS),
         Element (js ''ul'') [(js ''className'', js ''mt-2 flex flex-wrap gap-x-4 gap-y-1 font-mono text-xs text-muted'')]
           (map (legend_item cn props) SEGMENTS)])"

section \<open>The badge\<close>

fun math_max :: "double \<Rightarrow> double \<Rightarrow> double" where
  "math_max Not_a_number _ = Not_a_number"
| "math_max _ Not_a_number = Not_a_number"
| "math_max x y = (if d_le x y then y else x)"

fun math_min :: "double \<Rightarrow> double \<Rightarrow> double" where
  "math_min Not_a_number _ = Not_a_number"
| "math_min _ Not_a_number = Not_a_number"
| "math_min x y = (if d_le x y then x else y)"

definition clamp_percent :: "double \<Rightarrow> double" where
  "clamp_percent value =
     (if \<not> d_is_finite value then Finite 0 else math_min (Finite 100) (math_max (Finite 0) (math_round value)))"

definition badge_humano :: "class_names \<Rightarrow> double \<Rightarrow> class_value \<Rightarrow> node" where
  "badge_humano cn percent class_name =
     Element (js ''span'')
       [(js ''className'', cn [Classes (js ''badge-humano inline-flex items-center font-mono text-sm''), class_name])]
       [Text (number_text (clamp_percent percent)), Text (js ''% humano'')]"

section \<open>The widths add up\<close>

abbreviation tiny :: rat where
  "tiny \<equiv> 1 / 1000000000000"

lemma reduce_sum_close:
  assumes "\<And>k. k \<in> set ks \<Longrightarrow> f k = Finite (g k) \<and> \<bar>g k\<bar> \<le> 200" and "length ks \<le> 4"
  shows "\<exists>s. reduce_sum f ks = Finite s \<and> \<bar>s - sum_list (map g ks)\<bar> \<le> of_nat (length ks) * tiny \<and>
     \<bar>sum_list (map g ks)\<bar> \<le> of_nat (length ks) * 200"
  using assms
proof (induction ks rule: rev_induct)
  case (snoc k ks)
  then obtain s where s: "reduce_sum f ks = Finite s" "\<bar>s - sum_list (map g ks)\<bar> \<le> of_nat (length ks) * tiny"
      "\<bar>sum_list (map g ks)\<bar> \<le> of_nat (length ks) * 200" by fastforce
  have k: "f k = Finite (g k)" "\<bar>g k\<bar> \<le> 200" using snoc.prems(1) [of k] by auto
  have l: "(of_nat (length ks) :: rat) \<le> 3" using snoc.prems(2) by simp
  have "\<bar>s + g k\<bar> \<le> 1000" using s(2,3) k(2) l by linarith
  note r = to_double_small [OF this]
  have "reduce_sum f (ks @ [k]) = Finite (fl (s + g k))" using s(1) k(1) r(1) by (simp add: reduce_sum_def)
  moreover have "\<bar>fl (s + g k) - sum_list (map g (ks @ [k]))\<bar> \<le> of_nat (length (ks @ [k])) * tiny"
  proof -
    have "of_nat (length (ks @ [k])) * tiny = of_nat (length ks) * tiny + tiny" by (simp add: algebra_simps)
    moreover have "sum_list (map g (ks @ [k])) = sum_list (map g ks) + g k" by simp
    ultimately show ?thesis using r(2) s(2) by linarith
  qed
  moreover have "\<bar>sum_list (map g (ks @ [k]))\<bar> \<le> of_nat (length (ks @ [k])) * 200"
    using s(3) k(2) by (auto simp: abs_le_iff algebra_simps)
  ultimately show ?case by blast
qed (simp add: reduce_sum_def)

lemma sum_list_close:
  fixes g h :: "'a \<Rightarrow> rat"
  assumes "\<And>k. k \<in> set ks \<Longrightarrow> \<bar>g k - h k\<bar> \<le> c"
  shows "\<bar>sum_list (map g ks) - sum_list (map h ks)\<bar> \<le> of_nat (length ks) * c"
  using assms
proof (induction ks)
  case (Cons k ks)
  then have "\<bar>sum_list (map g ks) - sum_list (map h ks)\<bar> \<le> of_nat (length ks) * c" "\<bar>g k - h k\<bar> \<le> c" by auto
  then show ?case by (auto simp: abs_le_iff algebra_simps)
qed simp

lemma sum_list_upper:
  fixes g :: "'a \<Rightarrow> rat"
  assumes "\<And>k. k \<in> set ks \<Longrightarrow> g k \<le> c"
  shows "sum_list (map g ks) \<le> of_nat (length ks) * c"
  using assms by (induction ks) (force simp: algebra_simps)+

lemma sum_list_partition:
  "sum_list (map g (filter P ks)) + sum_list (map g (filter (\<lambda>k. \<not> P k) ks)) = (sum_list (map g ks) :: rat)"
  by (induction ks) (auto simp: algebra_simps)

lemma raw_share:
  assumes "n \<le> N" and "0 < N"
  shows "\<exists>r. d_mul (d_div (Finite (of_nat n)) (Finite (of_nat N))) (Finite 100) = Finite r \<and>
     \<bar>r - 100 * (of_nat n / of_nat N)\<bar> \<le> 101 * tiny \<and> (n = 0 \<longrightarrow> r = 0)"
proof -
  define x :: rat where "x = of_nat n / of_nat N"
  have x: "0 \<le> x" "x \<le> 1" using assms by (simp_all add: x_def)
  then have "\<bar>x\<bar> \<le> 1000" by simp
  note a = to_double_small [OF this]
  have "\<bar>fl x * 100\<bar> \<le> 1000" using a(2) x by linarith
  note b = to_double_small [OF this]
  have "\<bar>fl (fl x * 100) - 100 * x\<bar> \<le> 101 * tiny" using a(2) b(2) by linarith
  then show ?thesis using a(1) b(1) assms(2) by (auto simp: x_def)
qed

abbreviation verdicts :: "clasificacion list" where
  "verdicts \<equiv> [Humano, Bot, Unfurler, Prefetch]"

lemma keys_of_segments [simp]: "map sg_key SEGMENTS = verdicts"
  by (simp add: SEGMENTS_def)

lemma reduce_counts:
  assumes "\<And>k. f k = Finite (of_nat (n k))" and "\<And>k. n k < 2 ^ 51"
  shows "reduce_sum f verdicts = Finite (of_nat (n Humano + n Bot + n Unfurler + n Prefetch))"
proof -
  have exact: "d_add (Finite (of_nat a)) (Finite (of_nat b)) = Finite (of_nat (a + b))" if "a + b < 2 ^ 53" for a b
    using to_double_nat [OF that] by simp
  have b: "n k < 2251799813685248" for k using assms(2) [of k] by simp
  have "reduce_sum f verdicts = d_add (d_add (d_add (d_add (Finite (of_nat 0)) (Finite (of_nat (n Humano)))) (Finite (of_nat (n Bot))))
      (Finite (of_nat (n Unfurler)))) (Finite (of_nat (n Prefetch)))"
    by (simp add: reduce_sum_def assms(1) del: d_add.simps of_nat_add)
  then show ?thesis
    using b [of Humano] b [of Bot] b [of Unfurler] b [of Prefetch] by (simp add: exact del: d_add.simps of_nat_0 of_nat_add)
qed

text \<open>What a donor keeps of its raw share, with the rounding of the three operations.\<close>

lemma donor_width:
  assumes "\<bar>r\<bar> \<le> 200" and "\<bar>d\<bar> \<le> 10" and "90 \<le> D"
  shows "\<exists>w. d_sub (Finite r) (d_mul (Finite d) (d_div (Finite r) (Finite D))) = Finite w \<and>
     \<bar>w - (r - d * (r / D))\<bar> \<le> 20 * tiny \<and> (r = 0 \<longrightarrow> w = 0)"
proof -
  define q where "q = r / D"
  have "\<bar>q\<bar> \<le> 200 / 90" unfolding q_def abs_divide using assms by (intro frac_le) auto
  then have q: "\<bar>q\<bar> \<le> 3" by linarith
  then have "\<bar>q\<bar> \<le> 1000" by linarith
  note a = to_double_small [OF this]
  have "\<bar>d * fl q\<bar> \<le> 10 * 4" unfolding abs_mult using assms(2) a(2) q by (intro mult_mono) linarith+
  then have m: "\<bar>d * fl q\<bar> \<le> 1000" by linarith
  note b = to_double_small [OF m]
  have "\<bar>r - fl (d * fl q)\<bar> \<le> 1000" using b(2) m \<open>\<bar>d * fl q\<bar> \<le> 10 * 4\<close> assms(1) by linarith
  note c = to_double_small [OF this]
  have "\<bar>d * fl q - d * q\<bar> \<le> 10 * tiny"
  proof -
    have "\<bar>d * fl q - d * q\<bar> = \<bar>d\<bar> * \<bar>fl q - q\<bar>" by (simp flip: abs_mult add: right_diff_distrib)
    also have "\<dots> \<le> 10 * tiny" using assms(2) a(2) by (intro mult_mono) auto
    finally show ?thesis .
  qed
  then have "\<bar>fl (r - fl (d * fl q)) - (r - d * q)\<bar> \<le> 20 * tiny" using b(2) c(2) by linarith
  moreover have "d_sub (Finite r) (d_mul (Finite d) (d_div (Finite r) (Finite D))) = Finite (fl (r - fl (d * fl q)))"
    using assms(3) a(1) b(1) c(1) by (simp add: d_sub_def q_def)
  moreover have "r = 0 \<longrightarrow> fl (r - fl (d * fl q)) = 0" by (simp add: q_def)
  ultimately show ?thesis unfolding q_def by blast
qed

text \<open>The widths of the bar in terms of the raw shares.\<close>

lemma widths_of_shares:
  assumes raw: "\<And>k. d_mul (d_div (by_key (sanitize_humano_bar_props props) k)
      (reduce_sum (by_key (sanitize_humano_bar_props props)) verdicts)) (Finite 100) = Finite (r k)"
    and total: "\<not> d_le (reduce_sum (by_key (sanitize_humano_bar_props props)) verdicts) (Finite 0)"
    and P: "\<And>k. P k = (d_less (Finite 0) (by_key (sanitize_humano_bar_props props) k) \<and> r k < 3 / 2)"
    and d: "reduce_sum (\<lambda>k. d_sub (Finite (3 / 2)) (Finite (r k))) (filter P verdicts) = Finite d"
    and D: "reduce_sum (\<lambda>k. Finite (r k)) (filter (\<lambda>k. \<not> P k) verdicts) = Finite D" "0 < D"
  shows "by_key (compute_segment_widths props) k =
     (if P k then Finite (3 / 2) else d_sub (Finite (r k)) (d_mul (Finite d) (d_div (Finite (r k)) (Finite D))))"
proof -
  have F: "filter (\<lambda>k. d_less (Finite 0) (by_key (sanitize_humano_bar_props props) k) \<and> d_less (Finite (r k)) (Finite (3 / 2))) verdicts
      = filter P verdicts" by (rule filter_cong) (simp_all add: P)
  have E: "filter (\<lambda>k. k \<notin> set (filter P verdicts)) verdicts = filter (\<lambda>k. \<not> P k) verdicts"
    by (rule filter_cong) auto
  have S: "k \<in> set (filter P verdicts) \<longleftrightarrow> P k" for k by (cases k) auto
  show ?thesis
    unfolding compute_segment_widths_def Let_def keys_of_segments raw MIN_VISIBLE_PCT_def F E d D(1) S
    using total D(2) by (cases k) (simp_all add: by_key_def)
qed

text \<open>The shares of four counts that are not all zero: a group has at least a quarter, so at most three are floored.\<close>

lemma shares_split:
  fixes x :: "clasificacion \<Rightarrow> rat"
  assumes x: "sum_list (map x verdicts) = 100" "\<And>k. 0 \<le> x k"
    and r: "\<And>k. \<bar>r k - x k\<bar> \<le> 101 * tiny" and P: "\<And>k. P k \<Longrightarrow> r k < 3 / 2"
  shows "length (filter P verdicts) \<le> 3"
    and "\<bar>sum_list (map r verdicts) - 100\<bar> \<le> 404 * tiny"
    and "95 \<le> sum_list (map r (filter (\<lambda>k. \<not> P k) verdicts))"
    and "r k \<le> 101" and "- (1 / 100) \<le> r k"
proof -
  have "\<exists>k. 25 \<le> x k"
  proof (rule ccontr)
    assume "\<nexists>k. 25 \<le> x k"
    then have "x Humano < 25" "x Bot < 25" "x Unfurler < 25" "x Prefetch < 25" by (simp_all add: not_le)
    then show False using x(1) by simp
  qed
  then obtain k0 where "25 \<le> x k0" by blast
  then have "3 / 2 < r k0" using r [of k0] by linarith
  then have "\<not> P k0" using P [of k0] by fastforce
  then have "length (filter P verdicts) < length verdicts"
    by (intro length_filter_less [of k0]) (cases k0; simp)
  then show three: "length (filter P verdicts) \<le> 3" by simp
  have "\<bar>sum_list (map r verdicts) - sum_list (map x verdicts)\<bar> \<le> of_nat (length verdicts) * (101 * tiny)"
    by (rule sum_list_close) (rule r)
  then show all: "\<bar>sum_list (map r verdicts) - 100\<bar> \<le> 404 * tiny" using x(1) by simp
  have "sum_list (map r (filter P verdicts)) \<le> of_nat (length (filter P verdicts)) * (3 / 2)"
    by (rule sum_list_upper, rule less_imp_le, rule P) (simp only: set_filter mem_Collect_eq)
  also have "\<dots> \<le> 3 * (3 / 2)" using three by (intro mult_right_mono) simp_all
  finally show "95 \<le> sum_list (map r (filter (\<lambda>k. \<not> P k) verdicts))"
    using all sum_list_partition [of r P verdicts] by linarith
  have "x Humano + x Bot + x Unfurler + x Prefetch = 100" using x(1) by simp
  then have "x k \<le> 100"
    using x(2) [of Humano] x(2) [of Bot] x(2) [of Unfurler] x(2) [of Prefetch] by (cases k) simp_all
  then show "r k \<le> 101" "- (1 / 100) \<le> r k" using r [of k] x(2) [of k] by linarith+
qed

text \<open>What the floored groups lack and what the donors have, as the code adds it up.\<close>

lemma deficit_and_donors:
  fixes r :: "clasificacion \<Rightarrow> rat"
  assumes three: "length (filter P verdicts) \<le> 3" and R: "95 \<le> sum_list (map r (filter (\<lambda>k. \<not> P k) verdicts))"
    and r: "\<And>k. r k \<le> 101" "\<And>k. - (1 / 100) \<le> r k" and P: "\<And>k. P k \<Longrightarrow> r k < 3 / 2"
  shows "\<exists>d D. reduce_sum (\<lambda>k. d_sub (Finite (3 / 2)) (Finite (r k))) (filter P verdicts) = Finite d \<and>
     reduce_sum (\<lambda>k. Finite (r k)) (filter (\<lambda>k. \<not> P k) verdicts) = Finite D \<and>
     90 \<le> D \<and> d \<le> 23 / 5 \<and> \<bar>d\<bar> \<le> 5 \<and>
     \<bar>d - (of_nat (length (filter P verdicts)) * (3 / 2) - sum_list (map r (filter P verdicts)))\<bar> \<le> 6 * tiny \<and>
     \<bar>D - sum_list (map r (filter (\<lambda>k. \<not> P k) verdicts))\<bar> \<le> 4 * tiny"
proof -
  let ?F = "filter P verdicts" and ?D = "filter (\<lambda>k. \<not> P k) verdicts"
  have MD: "\<exists>D. reduce_sum (\<lambda>k. Finite (r k)) ?D = Finite D \<and> \<bar>D - sum_list (map r ?D)\<bar> \<le> of_nat (length ?D) * tiny \<and>
      \<bar>sum_list (map r ?D)\<bar> \<le> of_nat (length ?D) * 200"
  proof (rule reduce_sum_close)
    show "length ?D \<le> 4" using length_filter_le [of "\<lambda>k. \<not> P k" verdicts] by simp
    fix k show "Finite (r k) = Finite (r k) \<and> \<bar>r k\<bar> \<le> 200"
      using r [of k] by (intro conjI refl) linarith
  qed
  have sub: "d_sub (Finite (3 / 2)) (Finite (r k)) = Finite (fl (3 / 2 - r k)) \<and> \<bar>fl (3 / 2 - r k) - (3 / 2 - r k)\<bar> \<le> tiny" for k
  proof -
    have "\<bar>3 / 2 - r k\<bar> \<le> 1000" using r [of k] by linarith
    note e = to_double_small [OF this]
    show ?thesis using e by (simp add: d_sub_def)
  qed
  let ?g = "\<lambda>k. fl (3 / 2 - r k)"
  have Md: "\<exists>d. reduce_sum (\<lambda>k. d_sub (Finite (3 / 2)) (Finite (r k))) ?F = Finite d \<and>
      \<bar>d - sum_list (map ?g ?F)\<bar> \<le> of_nat (length ?F) * tiny \<and> \<bar>sum_list (map ?g ?F)\<bar> \<le> of_nat (length ?F) * 200"
  proof (rule reduce_sum_close)
    show "length ?F \<le> 4" using three by simp
    fix k show "d_sub (Finite (3 / 2)) (Finite (r k)) = Finite (?g k) \<and> \<bar>?g k\<bar> \<le> 200"
      using r [of k] sub [of k] by (elim conjE, intro conjI) (assumption, linarith)
  qed
  obtain D where D: "reduce_sum (\<lambda>k. Finite (r k)) ?D = Finite D"
    "\<bar>D - sum_list (map r ?D)\<bar> \<le> of_nat (length ?D) * tiny" using MD by blast
  obtain d where d: "reduce_sum (\<lambda>k. d_sub (Finite (3 / 2)) (Finite (r k))) ?F = Finite d"
    "\<bar>d - sum_list (map ?g ?F)\<bar> \<le> of_nat (length ?F) * tiny" using Md by blast
  have lF: "(of_nat (length ?F) :: rat) \<le> 3" using three by simp
  have lD: "(of_nat (length ?D) :: rat) \<le> 4" using length_filter_le [of "\<lambda>k. \<not> P k" verdicts] by simp
  have "\<bar>sum_list (map ?g ?F) - sum_list (map (\<lambda>k. 3 / 2 - r k) ?F)\<bar> \<le> of_nat (length ?F) * tiny"
    by (rule sum_list_close) (use sub in blast)
  moreover have "sum_list (map (\<lambda>k. 3 / 2 - r k) ks) = of_nat (length ks) * (3 / 2) - sum_list (map r ks)" for ks
    by (induction ks) (simp_all add: algebra_simps)
  ultimately have dF: "\<bar>d - (of_nat (length ?F) * (3 / 2) - sum_list (map r ?F))\<bar> \<le> 6 * tiny"
    using d(2) lF by (simp only:)
  have Dr: "\<bar>D - sum_list (map r ?D)\<bar> \<le> 4 * tiny" using D(2) lD by linarith
  then have D90: "90 \<le> D" using R by linarith
  have rF: "- (3 / 100) \<le> sum_list (map r ?F)"
  proof -
    have "sum_list (map (\<lambda>k. - r k) ?F) \<le> of_nat (length ?F) * (1 / 100)"
      by (rule sum_list_upper) (use r(2) in \<open>simp add: minus_le_iff\<close>)
    moreover have "sum_list (map (\<lambda>k. - r k) ks) = - sum_list (map r ks)" for ks by (induction ks) simp_all
    ultimately show ?thesis using lF by (simp only:)
  qed
  have rF': "sum_list (map r ?F) \<le> of_nat (length ?F) * (3 / 2)"
    by (rule sum_list_upper, rule less_imp_le) (rule P, simp only: set_filter mem_Collect_eq)
  have d5: "d \<le> 23 / 5" "\<bar>d\<bar> \<le> 5" using dF rF rF' lF by linarith+
  show ?thesis using d(1) D(1) D90 d5 dF Dr by blast
qed

lemma donor_keeps:
  fixes r :: rat
  assumes "3 / 2 \<le> r" and "d \<le> 23 / 5" and "90 \<le> D" and "\<bar>w - (r - d * (r / D))\<bar> \<le> 20 * tiny"
  shows "7 / 5 < w"
proof -
  have "d / D \<le> (23 / 5) / D" using assms(2,3) by (intro divide_right_mono) auto
  also have "\<dots> \<le> (23 / 5) / 90" using assms(3) by (intro divide_left_mono) auto
  finally have le: "1 - (23 / 5) / 90 \<le> 1 - d / D" by linarith
  have "71 / 50 \<le> 3 / 2 * (1 - (23 / 5) / 90 :: rat)" by simp
  also have "\<dots> \<le> r * (1 - d / D)" using assms(1) le by (intro mult_mono) auto
  also have "\<dots> = r - d * (r / D)" by (simp add: algebra_simps)
  finally have "71 / 50 \<le> r - d * (r / D)" .
  moreover have "7 / 5 < w" if "71 / 50 \<le> z" "\<bar>w - z\<bar> \<le> 20 * tiny" for z using that by linarith
  ultimately show ?thesis using assms(4) by blast
qed

lemma widths_sum:
  fixes r w :: "clasificacion \<Rightarrow> rat"
  assumes w: "\<And>k. if P k then w k = 3 / 2 else \<bar>w k - (r k - d * (r k / D))\<bar> \<le> 20 * tiny"
    and D90: "90 \<le> D" and d5: "\<bar>d\<bar> \<le> 5"
    and dF: "\<bar>d - (of_nat (length (filter P verdicts)) * (3 / 2) - sum_list (map r (filter P verdicts)))\<bar> \<le> 6 * tiny"
    and Dr: "\<bar>D - sum_list (map r (filter (\<lambda>k. \<not> P k) verdicts))\<bar> \<le> 4 * tiny"
    and R: "\<bar>sum_list (map r verdicts) - 100\<bar> \<le> 404 * tiny"
  shows "\<bar>sum_list (map w verdicts) - 100\<bar> \<le> 1 / 1000000000"
proof -
  let ?F = "filter P verdicts" and ?D = "filter (\<lambda>k. \<not> P k) verdicts"
  have lD: "(of_nat (length ?D) :: rat) \<le> 4" using length_filter_le [of "\<lambda>k. \<not> P k" verdicts] by simp
  have SF: "sum_list (map w ?F) = of_nat (length ?F) * (3 / 2)"
  proof -
    have "w k = 3 / 2" if "k \<in> set ?F" for k
    proof -
      have "P k" using that by (simp only: set_filter mem_Collect_eq)
      then show ?thesis using w [of k] by simp
    qed
    then have "map w ?F = map (\<lambda>_. 3 / 2) ?F" by (intro map_cong refl)
    then show ?thesis by (simp only:) (simp add: sum_list_triv)
  qed
  have "\<bar>sum_list (map w ?D) - sum_list (map (\<lambda>k. r k - d * (r k / D)) ?D)\<bar> \<le> of_nat (length ?D) * (20 * tiny)"
  proof (rule sum_list_close)
    fix k assume "k \<in> set ?D"
    then have "\<not> P k" by (simp only: set_filter mem_Collect_eq not_False_eq_True)
    then show "\<bar>w k - (r k - d * (r k / D))\<bar> \<le> 20 * tiny" using w [of k] by simp
  qed
  moreover have "sum_list (map (\<lambda>k. r k - d * (r k / D)) ks) = sum_list (map r ks) - d * (sum_list (map r ks) / D)" for ks
    by (induction ks) (simp_all add: algebra_simps add_divide_distrib)
  ultimately have SD: "\<bar>sum_list (map w ?D) - (sum_list (map r ?D) - d * (sum_list (map r ?D) / D))\<bar> \<le> 80 * tiny"
    using lD by (simp only:)
  have dd: "\<bar>d * (sum_list (map r ?D) / D) - d\<bar> \<le> tiny"
  proof -
    have "d * (sum_list (map r ?D) / D) - d = d * ((sum_list (map r ?D) - D) / D)" using D90 by (simp add: field_simps)
    then have "\<bar>d * (sum_list (map r ?D) / D) - d\<bar> = \<bar>d\<bar> * (\<bar>sum_list (map r ?D) - D\<bar> / \<bar>D\<bar>)"
      by (simp only: abs_mult abs_divide)
    also have "\<dots> \<le> 5 * (4 * tiny / 90)"
    proof (rule mult_mono)
      show "\<bar>sum_list (map r ?D) - D\<bar> / \<bar>D\<bar> \<le> 4 * tiny / 90" using Dr D90 by (intro frac_le) linarith+
    qed (use d5 in auto)
    finally show ?thesis by linarith
  qed
  have "sum_list (map w verdicts) = sum_list (map w ?F) + sum_list (map w ?D)" by (rule sum_list_partition [symmetric])
  then show ?thesis
    using SF SD dd dF sum_list_partition [of r P verdicts] R by linarith
qed

lemma widths_add_up:
  fixes n :: "clasificacion \<Rightarrow> nat"
  assumes n: "\<And>k. by_key (sanitize_humano_bar_props props) k = Finite (of_nat (n k))" "\<And>k. n k < 2 ^ 51"
    and N: "0 < n Humano + n Bot + n Unfurler + n Prefetch"
  shows "\<exists>w. (\<forall>k. by_key (compute_segment_widths props) k = Finite (w k)) \<and>
     (\<forall>k. if n k = 0 then w k = 0 else 7 / 5 < w k) \<and>
     \<bar>w Humano + w Bot + w Unfurler + w Prefetch - 100\<bar> \<le> 1 / 1000000000"
proof -
  define N where "N = n Humano + n Bot + n Unfurler + n Prefetch"
  have total: "reduce_sum (by_key (sanitize_humano_bar_props props)) verdicts = Finite (of_nat N)"
    unfolding N_def by (rule reduce_counts [OF n])
  have N0: "0 < N" using N by (simp add: N_def)
  have le: "n k \<le> N" for k by (cases k) (simp_all add: N_def)
  have "\<exists>r. d_mul (d_div (Finite (of_nat (n k))) (Finite (of_nat N))) (Finite 100) = Finite r \<and>
     \<bar>r - 100 * (of_nat (n k) / of_nat N)\<bar> \<le> 101 * tiny \<and> (n k = 0 \<longrightarrow> r = 0)" for k
    by (rule raw_share [OF le N0])
  then obtain r where r: "\<And>k. d_mul (d_div (Finite (of_nat (n k))) (Finite (of_nat N))) (Finite 100) = Finite (r k)"
      "\<And>k. \<bar>r k - 100 * (of_nat (n k) / of_nat N)\<bar> \<le> 101 * tiny" "\<And>k. n k = 0 \<Longrightarrow> r k = 0"
    by metis
  define x :: "clasificacion \<Rightarrow> rat" where "x = (\<lambda>k. 100 * (of_nat (n k) / of_nat N))"
  have "sum_list (map x verdicts) = 100 * ((of_nat (n Humano) + of_nat (n Bot) + of_nat (n Unfurler) + of_nat (n Prefetch)) / of_nat N)"
    by (simp add: x_def add_divide_distrib distrib_left)
  also have "\<dots> = 100 * (of_nat N / of_nat N)" by (simp add: N_def)
  finally have x: "sum_list (map x verdicts) = (100 :: rat)" "\<And>k. 0 \<le> x k" using N0 by (simp_all add: x_def)
  define P where "P k \<longleftrightarrow> 0 < n k \<and> r k < 3 / 2" for k
  let ?F = "filter P verdicts" and ?D = "filter (\<lambda>k. \<not> P k) verdicts"
  have split: "length ?F \<le> 3" "\<bar>sum_list (map r verdicts) - 100\<bar> \<le> 404 * tiny" "95 \<le> sum_list (map r ?D)"
    "r k \<le> 101" "- (1 / 100) \<le> r k" for k
    using shares_split(1-3) [OF x, of r P] shares_split(4,5) [OF x, of r P k] r(2) by (auto simp: x_def P_def)
  obtain d D where D: "reduce_sum (\<lambda>k. d_sub (Finite (3 / 2)) (Finite (r k))) ?F = Finite d"
      "reduce_sum (\<lambda>k. Finite (r k)) ?D = Finite D" "90 \<le> D" "d \<le> 23 / 5" "\<bar>d\<bar> \<le> 5"
      "\<bar>d - (of_nat (length ?F) * (3 / 2) - sum_list (map r ?F))\<bar> \<le> 6 * tiny"
      "\<bar>D - sum_list (map r ?D)\<bar> \<le> 4 * tiny"
    using deficit_and_donors [of P r, OF split(1) split(3) split(4,5)] unfolding P_def by blast
  have share: "\<exists>w. (if P k then Finite (3 / 2) else d_sub (Finite (r k)) (d_mul (Finite d) (d_div (Finite (r k)) (Finite D)))) = Finite w \<and>
     (if P k then w = 3 / 2 else \<bar>w - (r k - d * (r k / D))\<bar> \<le> 20 * tiny \<and> (r k = 0 \<longrightarrow> w = 0))" for k
  proof (cases "P k")
    case False
    have "\<bar>r k\<bar> \<le> 200" "\<bar>d\<bar> \<le> 10" using split(4,5) [of k] D(5) by linarith+
    then show ?thesis using donor_width [OF _ _ D(3), of "r k" d] False by simp
  qed (intro exI [of _ "3 / 2"], simp)
  then obtain w where w: "\<And>k. (if P k then Finite (3 / 2) else d_sub (Finite (r k)) (d_mul (Finite d) (d_div (Finite (r k)) (Finite D)))) = Finite (w k)"
     "\<And>k. if P k then w k = 3 / 2 else \<bar>w k - (r k - d * (r k / D))\<bar> \<le> 20 * tiny \<and> (r k = 0 \<longrightarrow> w k = 0)"
    by metis
  have widths: "by_key (compute_segment_widths props) k = Finite (w k)" for k
  proof -
    have "by_key (compute_segment_widths props) k =
       (if P k then Finite (3 / 2) else d_sub (Finite (r k)) (d_mul (Finite d) (d_div (Finite (r k)) (Finite D))))"
      by (rule widths_of_shares [where r = r and P = P, OF _ _ _ D(1,2)])
        (use r(1) N0 D(3) in \<open>auto simp: total n(1) P_def\<close>)
    then show ?thesis using w(1) by simp
  qed
  have "if n k = 0 then w k = 0 else 7 / 5 < w k" for k
  proof (cases "P k")
    case False
    then have close: "\<bar>w k - (r k - d * (r k / D))\<bar> \<le> 20 * tiny" "r k = 0 \<Longrightarrow> w k = 0" using w(2) [of k] by simp_all
    show ?thesis
    proof (cases "n k = 0")
      case pos: False
      then have "3 / 2 \<le> r k" using False by (simp add: P_def)
      then show ?thesis using donor_keeps [OF _ D(4,3) close(1)] pos by simp
    qed (use close(2) r(3) in simp)
  qed (use w(2) [of k] in \<open>simp add: P_def\<close>)
  moreover have "\<bar>sum_list (map w verdicts) - 100\<bar> \<le> 1 / 1000000000"
  proof (rule widths_sum [OF _ D(3,5,6,7) split(2)])
    fix k show "if P k then w k = 3 / 2 else \<bar>w k - (r k - d * (r k / D))\<bar> \<le> 20 * tiny"
      using w(2) [of k] by (cases "P k") simp_all
  qed
  then have "\<bar>w Humano + w Bot + w Unfurler + w Prefetch - 100\<bar> \<le> 1 / 1000000000" by (simp add: add.assoc)
  ultimately show ?thesis using widths by (intro exI [of _ w] conjI allI)
qed

definition example_split :: humano_bar_props where
  "example_split = \<lparr>bv_humano = Finite 9649, bv_bot = Finite 151, bv_unfurler = Finite 100, bv_prefetch = Finite 100\<rparr>"

section \<open>A donor below the floor\<close>

text \<open>
  A donor just above the floor pays for the floored groups and ends below the floor: 151 bots are drawn narrower than
  100 unfurlers.
\<close>

lemma larger_group_is_drawn_narrower:
  "\<exists>w. by_key (compute_segment_widths example_split) Bot = Finite w \<and> w < 3 / 2 \<and>
     by_key (compute_segment_widths example_split) Unfurler = Finite (3 / 2) \<and>
     d_less (by_key example_split Unfurler) (by_key example_split Bot)"
proof -
  define n :: "clasificacion \<Rightarrow> nat" where
    "n k = (case k of Humano \<Rightarrow> 9649 | Bot \<Rightarrow> 151 | Unfurler \<Rightarrow> 100 | Prefetch \<Rightarrow> 100)" for k
  have counts: "by_key (sanitize_humano_bar_props example_split) k = Finite (of_nat (n k))" for k
    by (cases k) (simp_all add: n_def example_split_def sanitize_humano_bar_props_def sanitize_count_def by_key_def d_is_finite_def)
  have small: "n k < 2 ^ 51" for k by (cases k) (simp_all add: n_def)
  have total: "reduce_sum (by_key (sanitize_humano_bar_props example_split)) verdicts = Finite (of_nat 10000)"
    using reduce_counts [OF counts small] by (simp add: n_def)
  have "n k \<le> 10000" for k by (cases k) (simp_all add: n_def)
  then have "\<exists>r. d_mul (d_div (Finite (of_nat (n k))) (Finite (of_nat 10000))) (Finite 100) = Finite r \<and>
     \<bar>r - 100 * (of_nat (n k) / of_nat 10000)\<bar> \<le> 101 * tiny \<and> (n k = 0 \<longrightarrow> r = 0)" for k
    using raw_share [of "n k" 10000] by simp
  then obtain r where r: "\<And>k. d_mul (d_div (Finite (of_nat (n k))) (Finite (of_nat 10000))) (Finite 100) = Finite (r k)"
      "\<And>k. \<bar>r k - 100 * (of_nat (n k) / of_nat 10000)\<bar> \<le> 101 * tiny" by metis
  have R: "\<bar>r Humano - 9649 / 100\<bar> \<le> 101 * tiny" "\<bar>r Bot - 151 / 100\<bar> \<le> 101 * tiny"
      "\<bar>r Unfurler - 1\<bar> \<le> 101 * tiny" "\<bar>r Prefetch - 1\<bar> \<le> 101 * tiny"
    using r(2) [of Humano] r(2) [of Bot] r(2) [of Unfurler] r(2) [of Prefetch] by (simp_all add: n_def)
  define P where "P k \<longleftrightarrow> 0 < n k \<and> r k < 3 / 2" for k
  have b: "3 / 2 \<le> r Humano" "3 / 2 \<le> r Bot" "r Unfurler < 3 / 2" "r Prefetch < 3 / 2" using R by linarith+
  then have P: "\<not> P Humano" "\<not> P Bot" "P Unfurler" "P Prefetch" by (simp_all add: P_def n_def)
  have fs: "filter P verdicts = [Unfurler, Prefetch]" "filter (\<lambda>k. \<not> P k) verdicts = [Humano, Bot]" using P by simp_all
  have sums: "sum_list (map r [Unfurler, Prefetch]) = r Unfurler + r Prefetch" "sum_list (map r [Humano, Bot]) = r Humano + r Bot"
    by simp_all
  have "95 \<le> r Humano + r Bot" using R by linarith
  then have split: "length (filter P verdicts) \<le> 3" "95 \<le> sum_list (map r (filter (\<lambda>k. \<not> P k) verdicts))"
    unfolding fs sums by simp_all
  have bounds: "r k \<le> 101" "- (1 / 100) \<le> r k" for k using R by (cases k; simp only:; linarith)+
  obtain d D where D: "reduce_sum (\<lambda>k. d_sub (Finite (3 / 2)) (Finite (r k))) (filter P verdicts) = Finite d"
      "reduce_sum (\<lambda>k. Finite (r k)) (filter (\<lambda>k. \<not> P k) verdicts) = Finite D" "90 \<le> D" "\<bar>d\<bar> \<le> 5"
      "\<bar>d - (of_nat (length (filter P verdicts)) * (3 / 2) - sum_list (map r (filter P verdicts)))\<bar> \<le> 6 * tiny"
      "\<bar>D - sum_list (map r (filter (\<lambda>k. \<not> P k) verdicts))\<bar> \<le> 4 * tiny"
    using deficit_and_donors [of P r, OF split bounds] unfolding P_def by blast
  have widths: "by_key (compute_segment_widths example_split) k =
       (if P k then Finite (3 / 2) else d_sub (Finite (r k)) (d_mul (Finite d) (d_div (Finite (r k)) (Finite D))))" for k
    by (rule widths_of_shares [where r = r and P = P, OF _ _ _ D(1,2)])
      (use r(1) D(3) in \<open>auto simp: total counts P_def simp del: of_nat_numeral\<close>)
  have "\<bar>r Bot\<bar> \<le> 200" "\<bar>d\<bar> \<le> 10" using R D(4) by linarith+
  then obtain w where w: "d_sub (Finite (r Bot)) (d_mul (Finite d) (d_div (Finite (r Bot)) (Finite D))) = Finite w"
      "\<bar>w - (r Bot - d * (r Bot / D))\<bar> \<le> 20 * tiny" using donor_width [of "r Bot" d D] D(3) by blast
  have "\<bar>d - (2 * (3 / 2) - (r Unfurler + r Prefetch))\<bar> \<le> 6 * tiny" "\<bar>D - (r Humano + r Bot)\<bar> \<le> 4 * tiny"
    using D(5,6) unfolding fs sums by simp_all
  then have dD: "99 / 100 \<le> d" "D \<le> 99" using R by linarith+
  have "99 / 100 * (3 / 2 / 99) \<le> d * (r Bot / D)"
    using dD D(3) b(2) by (intro mult_mono frac_le) auto
  moreover have "v < 3 / 2" if "99 / 100 * (3 / 2 / 99) \<le> z" "\<bar>v - (r Bot - z)\<bar> \<le> 20 * tiny" for v z
    using that R(2) by linarith
  ultimately have "w < 3 / 2" using w(2) by blast
  then show ?thesis using widths [of Bot] widths [of Unfurler] P w(1) by (simp add: example_split_def by_key_def)
qed

section \<open>The properties\<close>

text \<open>C0: For whole counts below 2^51, not all zero, the widths of the bar add up to 100 percent but for rounding errors of doubles, a group without clicks has no width and every other group gets more than 1.4 percent.\<close>

theorem bar_widths_are_honest:
  assumes "\<And>k. by_key (sanitize_humano_bar_props props) k = Finite (of_nat (n k))"
    and "\<And>k. n k < 2 ^ 51" and "0 < n Humano + n Bot + n Unfurler + n Prefetch"
  shows "\<exists>w. (\<forall>k. by_key (compute_segment_widths props) k = Finite (w k)) \<and>
     (\<forall>k. if n k = 0 then w k = 0 else 7 / 5 < w k) \<and>
     \<bar>w Humano + w Bot + w Unfurler + w Prefetch - 100\<bar> \<le> 1 / 1000000000"
  by (rule widths_add_up [OF assms])

definition tiny_segment :: humano_bar_props where
  "tiny_segment = \<lparr>bv_humano = Finite 9999, bv_bot = Finite 1, bv_unfurler = Not_a_number, bv_prefetch = Infinite False\<rparr>"

definition tiny_segment_counts :: "clasificacion \<Rightarrow> nat" where
  "tiny_segment_counts k = (case k of Humano \<Rightarrow> 9999 | Bot \<Rightarrow> 1 | _ \<Rightarrow> 0)"

theorem bar_widths_are_honest_witness:
  "\<exists>w. (\<forall>k. by_key (compute_segment_widths tiny_segment) k = Finite (w k)) \<and>
     (\<forall>k. if tiny_segment_counts k = 0 then w k = 0 else 7 / 5 < w k) \<and>
     \<bar>w Humano + w Bot + w Unfurler + w Prefetch - 100\<bar> \<le> 1 / 1000000000"
proof (rule bar_widths_are_honest)
  fix k show "by_key (sanitize_humano_bar_props tiny_segment) k = Finite (of_nat (tiny_segment_counts k))"
    by (cases k) (simp_all add: tiny_segment_counts_def tiny_segment_def sanitize_humano_bar_props_def sanitize_count_def
      by_key_def d_is_finite_def)
  show "tiny_segment_counts k < 2 ^ 51" by (cases k) (simp_all add: tiny_segment_counts_def)
qed (simp add: tiny_segment_counts_def)

text \<open>C0: The badge shows a whole number from 0 to 100, whatever number it is given.\<close>

theorem badge_percent_in_range:
  "\<exists>n. n \<le> 100 \<and> clamp_percent v = Finite (of_nat n)"
proof (cases v)
  case (Finite q)
  define i where "i = max 0 (min 100 \<lfloor>q + 1 / 2\<rfloor>)"
  have "clamp_percent v = Finite (of_int i)"
    unfolding clamp_percent_def Finite i_def by (auto simp: d_is_finite_def max_def min_def)
  moreover have "0 \<le> i" "i \<le> 100" by (simp_all add: i_def)
  ultimately show ?thesis by (intro exI [of _ "nat i"]) auto
qed (auto simp: clamp_percent_def d_is_finite_def)

end
