(* ===== verification/Web_Recibos.thy ===== *)
theory Web_Recibos
  imports Web_HumanoBar Js_Unicode Core_Ndjson
begin

text \<open>
  The log of recent clicks (\<open>apps/web/src/components/honesty/recibos.tsx\<close>) and the chip of a source platform
  (\<open>source-chip.tsx\<close>), with the vocabulary of platforms of \<open>contracts/src/classification.ts\<close>.
\<close>

section \<open>Source platforms\<close>

definition SOURCE_PLATFORMS :: "jsstr list" where
  "SOURCE_PLATFORMS = [js ''Instagram'', js ''WhatsApp'', js ''TikTok'', js ''directo'']"

text \<open>\<open>zSourcePlatform.safeParse\<close>: the value when it is one of the four, and a failure otherwise.\<close>

definition z_source_platform :: "jsstr option \<Rightarrow> jsstr option" where
  "z_source_platform v =
     (case v of None \<Rightarrow> None | Some s \<Rightarrow> if s \<in> set SOURCE_PLATFORMS then Some s else None)"

definition DOT_CLASS :: "jsstr \<Rightarrow> jsstr option" where
  "DOT_CLASS = map_of
     [(js ''Instagram'', js ''source-chip-dot--instagram''), (js ''WhatsApp'', js ''source-chip-dot--whatsapp''),
      (js ''TikTok'', js ''source-chip-dot--tiktok''), (js ''directo'', js ''source-chip-dot--directo'')]"

definition resolve_platform :: "jsstr option \<Rightarrow> jsstr" where
  "resolve_platform platform = (case z_source_platform platform of Some p \<Rightarrow> p | None \<Rightarrow> js ''directo'')"

definition class_or_none :: "jsstr option \<Rightarrow> class_value" where
  "class_or_none c = (case c of None \<Rightarrow> No_classes | Some s \<Rightarrow> Classes s)"

definition source_chip :: "class_names \<Rightarrow> jsstr option \<Rightarrow> class_value \<Rightarrow> node" where
  "source_chip cn platform class_name =
     (let resolved = resolve_platform platform in
      Element (js ''span'')
        [(js ''className'', cn [Classes (js ''inline-flex items-center gap-1.5 font-mono text-xs''), class_name])]
        [Element (js ''span'')
           [(js ''data-testid'', js ''source-chip-dot''),
            (js ''className'', cn [Classes (js ''source-chip-dot h-2 w-2''), class_or_none (DOT_CLASS resolved)]),
            (js ''aria-hidden'', js ''true'')] [],
         Text resolved])"

section \<open>Receipts\<close>

record recibo =
  rc_id :: jsstr
  rc_t :: jsstr
  rc_src :: jsstr
  rc_cls :: clasificacion
  rc_why :: jsstr

definition classification_class :: "clasificacion \<Rightarrow> jsstr" where
  "classification_class cls = js ''cls-'' @ CLASIFICACION_TOKEN cls"

definition MAX_RECIBOS :: nat where
  "MAX_RECIBOS = 200"

definition cap_receipts :: "recibo list \<Rightarrow> recibo list" where
  "cap_receipts receipts =
     (let recent = (if length receipts > MAX_RECIBOS then drop (length receipts - MAX_RECIBOS) receipts else receipts)
      in rev recent)"

definition CONTROL_AND_INVISIBLE_RANGES :: "(nat \<times> nat) list" where
  "CONTROL_AND_INVISIBLE_RANGES =
     [(0x00, 0x1f), (0x7f, 0x9f), (0x061c, 0x061c), (0x200b, 0x200f), (0x202a, 0x202e), (0x2066, 0x2069),
      (0x2028, 0x2029), (0x2060, 0x2060), (0xfeff, 0xfeff)]"

definition is_control_or_invisible :: "nat \<Rightarrow> bool" where
  "is_control_or_invisible p = list_ex (\<lambda>(first, final). first \<le> p \<and> p \<le> final) CONTROL_AND_INVISIBLE_RANGES"

text \<open>\<open>Array.from\<close> splits into code points; a part is never empty.\<close>

definition keeps_char :: "jsstr \<Rightarrow> bool" where
  "keeps_char char = (case code_point char of None \<Rightarrow> True | Some p \<Rightarrow> \<not> is_control_or_invisible p)"

definition sanitize_why :: "jsstr \<Rightarrow> jsstr" where
  "sanitize_why why = concat (filter keeps_char (chars why))"

definition empty_state :: node where
  "empty_state =
     Element (js ''div'') [(js ''className'', js ''flex items-center gap-1'')]
       [Element (js ''span'') [] [Text (js ''~/posta $ todav'' @ [237] @ js ''a no hay clicks'')],
        Element (js ''span'') [(js ''className'', js ''recibos-cursor inline-block h-4 w-2''), (js ''aria-hidden'', js ''true'')] []]"

definition recibo_row :: "recibo \<Rightarrow> node" where
  "recibo_row row =
     Element (js ''div'')
       [(js ''key'', rc_id row), (js ''data-testid'', js ''recibos-row''), (js ''className'', js ''flex flex-wrap items-baseline gap-2'')]
       [Element (js ''span'') [(js ''className'', js ''muted'')] [Text (rc_t row)],
        Element (js ''span'') [(js ''className'', js ''muted'')] [Text (rc_src row)],
        Element (js ''span'') [(js ''className'', classification_class (rc_cls row))]
          [Text (js ''[''), Text (clasificacion_text (rc_cls row)), Text (js '']'')],
        Element (js ''span'') [(js ''className'', js ''min-w-0 break-words'')] [Text (sanitize_why (rc_why row))]]"

definition recibos_header :: "jsstr \<Rightarrow> node" where
  "recibos_header slug =
     Element (js ''div'') [(js ''className'', js ''recibos-chrome flex items-center gap-2 rounded-t-lg px-4 py-2'')]
       [Element (js ''span'')
          [(js ''data-testid'', js ''recibos-live-dot''), (js ''className'', js ''recibos-live-dot h-2 w-2 rounded-full''),
           (js ''aria-hidden'', js ''true'')] [],
        Element (js ''span'') []
          [Element (js ''span'') [(js ''className'', js ''lime'')] [Text (js ''~/posta $'')],
           Text (js '' tail -f recibos --link=''), Text slug]]"

definition recibos :: "class_names \<Rightarrow> jsstr \<Rightarrow> recibo list option \<Rightarrow> class_value \<Rightarrow> node" where
  "recibos cn slug receipts class_name =
     (let rows = cap_receipts (case receipts of None \<Rightarrow> [] | Some rs \<Rightarrow> rs) in
      Element (js ''div'')
        [(js ''data-testid'', js ''recibos''), (js ''className'', cn [Classes (js ''island rounded-lg font-mono text-sm''), class_name])]
        [recibos_header slug,
         Element (js ''div'')
           [(js ''data-testid'', js ''recibos-rows''), (js ''role'', js ''log''), (js ''aria-live'', js ''off''),
            (js ''className'', js ''flex flex-col gap-1 px-4 py-3'')]
           (if length rows = 0 then [empty_state] else map recibo_row rows)])"

section \<open>Sanitised text\<close>

text \<open>No range holds a surrogate or lies above the basic plane, so the code units tell all.\<close>

lemma ranges_are_basic: "is_control_or_invisible p \<Longrightarrow> p < 65536 \<and> \<not> is_surrogate p"
  by (auto simp: is_control_or_invisible_def CONTROL_AND_INVISIBLE_RANGES_def is_surrogate_def is_high_def is_low_def)

lemma keeps_single: "keeps_char [c] \<longleftrightarrow> \<not> is_control_or_invisible c"
  by (simp add: keeps_char_def)

lemma keeps_pair: "is_high c \<Longrightarrow> is_low d \<Longrightarrow> keeps_char [c, d]"
  using ranges_are_basic by (fastforce simp: keeps_char_def is_high_def is_low_def)

lemma surrogate_kept: "is_high c \<or> is_low c \<Longrightarrow> \<not> is_control_or_invisible c"
  using ranges_are_basic by (auto simp: is_surrogate_def)

lemma sanitize_why_units: "sanitize_why s = filter (\<lambda>u. \<not> is_control_or_invisible u) s"
  unfolding sanitize_why_def
  by (induction s rule: chars.induct) (auto simp: keeps_single keeps_pair surrogate_kept)

lemma cap_receipts_newest: "cap_receipts rs = take MAX_RECIBOS (rev rs)"
  by (simp add: cap_receipts_def take_rev)

section \<open>The properties\<close>

text \<open>C0: The reason of a receipt is shown without its control, zero-width and bidirectional characters, everything else is kept in its order, and cleaning it again changes nothing.\<close>

theorem sanitized_why_is_clean:
  "sanitize_why why = filter (\<lambda>u. \<not> is_control_or_invisible u) why \<and>
   list_all (\<lambda>u. \<not> is_control_or_invisible u) (sanitize_why why) \<and>
   sanitize_why (sanitize_why why) = sanitize_why why"
  by (simp add: sanitize_why_units list_all_iff)

text \<open>C0: The log shows the newest receipts first, at most 200 of them, each as its time, its platform, its verdict and its cleaned reason, and one prompt line when there are none.\<close>

theorem recibos_show_the_newest:
  "\<exists>header log_attributes rows. child_nodes (recibos cn slug (Some receipts) class_name) =
       [header, Element (js ''div'') log_attributes rows] \<and>
     map text_content rows =
       (if receipts = [] then [text_content empty_state]
        else map (\<lambda>r. rc_t r @ rc_src r @ js ''['' @ clasificacion_text (rc_cls r) @ js '']'' @
               filter (\<lambda>u. \<not> is_control_or_invisible u) (rc_why r)) (take 200 (rev receipts))) \<and>
     length rows \<le> 200"
  by (auto simp: recibos_def Let_def cap_receipts_newest MAX_RECIBOS_def recibo_row_def sanitize_why_units)

lemma platform_chip: "text_content (source_chip cn (Some (platform_text p)) class_name) = js ''directo''"
  by (cases p) (simp_all add: source_chip_def resolve_platform_def z_source_platform_def SOURCE_PLATFORMS_def
      platform_text_def Let_def)


text \<open>Soft hyphens, invisible operators and tag characters are in no range.\<close>

lemma other_invisible_characters_pass:
  "sanitize_why (concat (map utf16 [0xAD, 0x2062, 0xE0041])) = concat (map utf16 [0xAD, 0x2062, 0xE0041])"
  by (simp add: sanitize_why_units utf16_def is_control_or_invisible_def CONTROL_AND_INVISIBLE_RANGES_def)

end
