(* ===== verification/Web_Shell.thy ===== *)
theory Web_Shell
  imports Web_HumanoBar
begin

text \<open>
  The theme of a page (\<open>apps/web/src/lib/theme.tsx\<close>, \<open>theme-script.ts\<close>) as a state machine over the document, React's
  state and \<open>localStorage\<close>, and the two navigations of the shell (\<open>components/shell/sidebar.tsx\<close>, \<open>bottom-tabs.tsx\<close>).
\<close>

section \<open>The theme\<close>

datatype theme = Dark | Light

definition theme_text :: "theme \<Rightarrow> jsstr" where
  "theme_text t = (case t of Dark \<Rightarrow> js ''dark'' | Light \<Rightarrow> js ''light'')"

definition THEME_STORAGE_KEY :: jsstr where
  "THEME_STORAGE_KEY = js ''posta-theme''"

text \<open>
  What the theme depends on: whether \<open><html>\<close> has the class \<open>light\<close>, the state of the mounted provider, the local
  storage, which all tabs share, and the warnings on the console.
\<close>

record page =
  pg_light :: bool
  pg_theme :: "theme option"
  pg_storage :: "jsstr \<rightharpoonup> jsstr"
  pg_warnings :: nat

text \<open>The effect of the script that \<open>themeInitScript\<close> returns; \<open>readable\<close> says whether \<open>getItem\<close> answers or throws.\<close>

definition run_theme_init_script :: "bool \<Rightarrow> page \<Rightarrow> page" where
  "run_theme_init_script readable s =
     (if readable then (if pg_storage s THEME_STORAGE_KEY = Some (js ''light'') then s\<lparr>pg_light := True\<rparr> else s)
      else s\<lparr>pg_warnings := pg_warnings s + 1\<rparr>)"

definition initial_theme :: "bool \<Rightarrow> page \<Rightarrow> theme" where
  "initial_theme has_window s = (if \<not> has_window then Dark else if pg_light s then Light else Dark)"

text \<open>\<open>writable\<close> says whether \<open>setItem\<close> succeeds or throws.\<close>

definition theme_effect :: "bool \<Rightarrow> theme \<Rightarrow> page \<Rightarrow> page" where
  "theme_effect writable t s =
     (let s' = s\<lparr>pg_light := (t = Light)\<rparr> in
      if writable then s'\<lparr>pg_storage := (pg_storage s')(THEME_STORAGE_KEY \<mapsto> theme_text t)\<rparr>
      else s'\<lparr>pg_warnings := pg_warnings s' + 1\<rparr>)"

definition mount_provider :: "bool \<Rightarrow> page \<Rightarrow> page" where
  "mount_provider writable s = (let t = initial_theme True s in theme_effect writable t (s\<lparr>pg_theme := Some t\<rparr>))"

text \<open>React runs the effect again only when the theme has changed.\<close>

definition set_theme :: "bool \<Rightarrow> theme \<Rightarrow> page \<Rightarrow> page" where
  "set_theme writable t s =
     (if pg_theme s = Some t then s else theme_effect writable t (s\<lparr>pg_theme := Some t\<rparr>))"

text \<open>A new document has no class and no provider; the script runs before anything is painted.\<close>

definition load_document :: "bool \<Rightarrow> page \<Rightarrow> page" where
  "load_document readable s = run_theme_init_script readable (s\<lparr>pg_light := False, pg_theme := None\<rparr>)"

text \<open>What can happen to a page; other tabs write the same storage.\<close>

inductive page_step :: "page \<Rightarrow> page \<Rightarrow> bool" where
  Load: "page_step s (load_document readable s)"
| Mount: "pg_theme s = None \<Longrightarrow> page_step s (mount_provider writable s)"
| Change: "pg_theme s \<noteq> None \<Longrightarrow> page_step s (set_theme writable t s)"
| Other_tab: "page_step s (s\<lparr>pg_storage := storage\<rparr>)"

inductive_cases page_stepE: "page_step s s'"

lemmas theme_defs = run_theme_init_script_def initial_theme_def theme_effect_def mount_provider_def set_theme_def
  load_document_def Let_def

definition class_shows_theme :: "page \<Rightarrow> bool" where
  "class_shows_theme s = (case pg_theme s of None \<Rightarrow> True | Some t \<Rightarrow> pg_light s = (t = Light))"

lemma page_step_class: "page_step s s' \<Longrightarrow> class_shows_theme s \<Longrightarrow> class_shows_theme s'"
  by (induction rule: page_step.induct) (auto simp: class_shows_theme_def theme_defs split: option.splits)

text \<open>C0: Whatever happens to a page, its storage and its other tabs, a mounted page shows the theme it holds, and mounting changes nothing of what the script has shown.\<close>

theorem page_shows_its_theme:
  assumes "page_step\<^sup>*\<^sup>* (load_document readable s) s'"
  shows "(case pg_theme s' of None \<Rightarrow> True | Some t \<Rightarrow> pg_light s' = (t = Light)) \<and>
     pg_light (mount_provider writable s') = pg_light s'"
proof -
  have "class_shows_theme (load_document readable s)" by (simp add: class_shows_theme_def theme_defs)
  with assms have "class_shows_theme s'"
    by (induction rule: rtranclp_induct) (auto intro: page_step_class)
  then show ?thesis by (auto simp: class_shows_theme_def theme_defs)
qed

definition new_page :: page where
  "new_page = \<lparr>pg_light = False, pg_theme = None, pg_storage = Map.empty, pg_warnings = 0\<rparr>"

theorem page_shows_its_theme_witness:
  "(case pg_theme (set_theme False Light (mount_provider True (load_document True new_page))) of
      None \<Rightarrow> True
    | Some t \<Rightarrow> pg_light (set_theme False Light (mount_provider True (load_document True new_page))) = (t = Light)) \<and>
   pg_light (mount_provider True (set_theme False Light (mount_provider True (load_document True new_page)))) =
     pg_light (set_theme False Light (mount_provider True (load_document True new_page)))"
proof (rule page_shows_its_theme)
  have "page_step (load_document True new_page) (mount_provider True (load_document True new_page))"
    by (rule Mount) (simp add: theme_defs new_page_def)
  moreover have "page_step (mount_provider True (load_document True new_page))
      (set_theme False Light (mount_provider True (load_document True new_page)))"
    by (rule Change) (simp add: theme_defs new_page_def)
  ultimately show "page_step\<^sup>*\<^sup>* (load_document True new_page)
      (set_theme False Light (mount_provider True (load_document True new_page)))"
    by (meson r_into_rtranclp rtranclp.rtrancl_into_rtrancl)
qed

text \<open>C0: A theme that was set and stored is the theme of the page after a reload; when it could not be stored, the page still shows it until then.\<close>

theorem theme_survives_reload:
  "pg_theme (mount_provider writable (load_document True (theme_effect True t s))) = Some t \<and>
   pg_light (mount_provider writable (load_document True (theme_effect True t s))) = (t = Light) \<and>
   pg_light (theme_effect False t s) = (t = Light) \<and> pg_storage (theme_effect False t s) = pg_storage s"
  by (cases t) (auto simp: theme_defs theme_text_def)

text \<open>
  The rewrite at mount is not always of the same value: when another tab stores \<open>light\<close> between the script and the
  effect, the mount stores \<open>dark\<close> over it.
\<close>

lemma mount_overwrites_other_tab:
  "pg_storage (mount_provider True ((load_document True new_page)\<lparr>pg_storage := [THEME_STORAGE_KEY \<mapsto> js ''light'']\<rparr>))
     THEME_STORAGE_KEY = Some (js ''dark'')"
  by (simp add: theme_defs new_page_def theme_text_def)

section \<open>Navigation\<close>

record route =
  rt_href :: jsstr
  rt_label :: jsstr
  rt_icon :: jsstr

definition ROUTES :: "route list" where
  "ROUTES =
     [\<lparr>rt_href = js ''/'', rt_label = js ''Links'', rt_icon = js ''Link2''\<rparr>,
      \<lparr>rt_href = js ''/bio'', rt_label = js ''Bio'', rt_icon = js ''User''\<rparr>,
      \<lparr>rt_href = js ''/ajustes'', rt_label = js ''Ajustes'', rt_icon = js ''Settings''\<rparr>,
      \<lparr>rt_href = js ''/publica'', rt_label = js ''P'' @ [250] @ js ''blica'', rt_icon = js ''Globe''\<rparr>]"

definition when_active :: "bool \<Rightarrow> jsstr \<Rightarrow> class_value" where
  "when_active active c = (if active then Classes c else No_classes)"

definition aria_current :: "bool \<Rightarrow> (jsstr \<times> jsstr) list" where
  "aria_current active = (if active then [(js ''aria-current'', js ''page'')] else [])"

definition sidebar_item :: "class_names \<Rightarrow> jsstr \<Rightarrow> route \<Rightarrow> node" where
  "sidebar_item cn pathname route =
     (let is_active = (pathname = rt_href route) in
      Element (js ''li'') [(js ''key'', rt_href route)]
        [Element (js ''Link'')
           ((js ''href'', rt_href route) # aria_current is_active @
            [(js ''className'', cn [Classes (js ''flex items-center gap-3 rounded border-l-2 border-l-transparent px-3 py-2 font-sans text-sm text-muted transition-colors hover:bg-surface-2 hover:text-fg focus-visible:outline-none focus-visible:ring-2 focus-visible:ring-ring''),
               when_active is_active (js ''border-l-primary bg-[color-mix(in_srgb,_var(--primary)_12%,_transparent)] text-fg'')])])
           [Element (rt_icon route) [(js ''className'', js ''h-4 w-4''), (js ''aria-hidden'', js ''true'')] [],
            Text (rt_label route)]])"

definition sidebar :: "class_names \<Rightarrow> jsstr \<Rightarrow> node" where
  "sidebar cn pathname =
     Element (js ''nav'')
       [(js ''aria-label'', js ''Principal''),
        (js ''className'', js ''flex w-[220px] shrink-0 flex-col border-r border-border-subtle bg-surface'')]
       [Element (js ''ul'') [(js ''className'', js ''flex flex-col gap-1 p-3'')] (map (sidebar_item cn pathname) ROUTES)]"

definition bottom_tab :: "class_names \<Rightarrow> jsstr \<Rightarrow> route \<Rightarrow> node" where
  "bottom_tab cn pathname route =
     (let is_active = (pathname = rt_href route) in
      Element (js ''Link'')
        ([(js ''key'', rt_href route), (js ''href'', rt_href route)] @ aria_current is_active @
         [(js ''className'', js ''flex min-h-[44px] min-w-[44px] flex-1 flex-col items-center justify-center gap-1 py-2 font-sans text-xs text-muted focus-visible:outline-none focus-visible:ring-2 focus-visible:ring-ring focus-visible:ring-inset'')])
        [Element (rt_icon route)
           [(js ''className'', cn [Classes (js ''h-5 w-5''), Classes (if is_active then js ''text-primary'' else js ''text-muted'')]),
            (js ''aria-hidden'', js ''true'')] [],
         Element (js ''span'') [(js ''className'', cn [when_active is_active (js ''text-fg'')])] [Text (rt_label route)]])"

definition bottom_tabs :: "class_names \<Rightarrow> jsstr \<Rightarrow> node" where
  "bottom_tabs cn pathname =
     Element (js ''nav'')
       [(js ''aria-label'', js ''Principal''), (js ''data-view'', js ''mobile-only''),
        (js ''className'', js ''fixed inset-x-0 bottom-0 z-40 flex border-t border-border-subtle bg-surface pb-[env(safe-area-inset-bottom)] mobile:hidden'')]
       (map (bottom_tab cn pathname) ROUTES)"

fun nodes_with_tag :: "jsstr \<Rightarrow> node \<Rightarrow> node list" where
  "nodes_with_tag name (Text _) = []"
| "nodes_with_tag name (Element tag attributes children) =
     (if tag = name then [Element tag attributes children] else []) @ concat (map (nodes_with_tag name) children)"

text \<open>What a screen reader is told of a link: its target, its text, and whether it is the current page.\<close>

definition link_facts :: "node \<Rightarrow> jsstr option \<times> jsstr \<times> bool" where
  "link_facts link =
     (attribute (js ''href'') link, text_content link, attribute (js ''aria-current'') link = Some (js ''page''))"

definition route_facts :: "jsstr \<Rightarrow> route \<Rightarrow> jsstr option \<times> jsstr \<times> bool" where
  "route_facts pathname r = (Some (rt_href r), rt_label r, pathname = rt_href r)"

lemma attribute_names [simp]:
  "js ''href'' \<noteq> js ''key''" "js ''href'' \<noteq> js ''aria-current''" "js ''aria-current'' \<noteq> js ''href''"
  "js ''aria-current'' \<noteq> js ''key''" "js ''aria-current'' \<noteq> js ''className''" "js ''key'' \<noteq> js ''href''"
  "js ''key'' \<noteq> js ''aria-current''"
  by simp_all

lemma other_tags [simp]:
  "js ''nav'' \<noteq> js ''Link''" "js ''ul'' \<noteq> js ''Link''" "js ''li'' \<noteq> js ''Link''" "js ''span'' \<noteq> js ''Link''"
  by simp_all

lemma links_of_sidebar_item:
  assumes "rt_icon r \<noteq> js ''Link''"
  shows "map link_facts (nodes_with_tag (js ''Link'') (sidebar_item cn pathname r)) = [route_facts pathname r]"
  using assms
  by (simp add: sidebar_item_def Let_def link_facts_def aria_current_def route_facts_def del: js_inject)

lemma links_of_bottom_tab:
  assumes "rt_icon r \<noteq> js ''Link''"
  shows "map link_facts (nodes_with_tag (js ''Link'') (bottom_tab cn pathname r)) = [route_facts pathname r]"
  using assms
  by (simp add: bottom_tab_def Let_def link_facts_def aria_current_def route_facts_def del: js_inject)

lemma icons_are_not_links: "r \<in> set ROUTES \<Longrightarrow> rt_icon r \<noteq> js ''Link''"
  by (auto simp: ROUTES_def)

lemma links_of_items:
  assumes "\<And>r. r \<in> set rs \<Longrightarrow> map link_facts (nodes_with_tag (js ''Link'') (item r)) = [route_facts pathname r]"
  shows "map link_facts (concat (map (nodes_with_tag (js ''Link'')) (map item rs))) = map (route_facts pathname) rs"
  using assms by (induction rs) simp_all

lemma links_of_sidebar: "map link_facts (nodes_with_tag (js ''Link'') (sidebar cn pathname)) = map (route_facts pathname) ROUTES"
  using links_of_items [of ROUTES "sidebar_item cn pathname" pathname] links_of_sidebar_item icons_are_not_links
  by (simp add: sidebar_def del: js_inject)

lemma links_of_bottom_tabs:
  "map link_facts (nodes_with_tag (js ''Link'') (bottom_tabs cn pathname)) = map (route_facts pathname) ROUTES"
  using links_of_items [of ROUTES "bottom_tab cn pathname" pathname] links_of_bottom_tab icons_are_not_links
  by (simp add: bottom_tabs_def del: js_inject)

lemma routes_distinct: "distinct (map rt_href ROUTES)"
  by (simp add: ROUTES_def)

lemma one_route_current: "distinct (map rt_href rs) \<Longrightarrow> length (filter (\<lambda>r. pathname = rt_href r) rs) \<le> 1"
proof (induction rs)
  case (Cons r rs)
  then show ?case by (cases "pathname = rt_href r") (auto simp: filter_empty_conv)
qed simp

text \<open>C0: The navigations of the desktop and of the phone offer the same links with the same names and mark the same page, and at most one, as current.\<close>

theorem navigations_agree:
  "map link_facts (nodes_with_tag (js ''Link'') (sidebar cn pathname)) =
     map link_facts (nodes_with_tag (js ''Link'') (bottom_tabs cn pathname)) \<and>
   length (filter (\<lambda>(_, _, current). current) (map link_facts (nodes_with_tag (js ''Link'') (sidebar cn pathname)))) \<le> 1"
proof -
  have "length (filter (\<lambda>(_, _, current). current) (map (route_facts pathname) ROUTES)) =
      length (filter (\<lambda>r. pathname = rt_href r) ROUTES)"
    by (simp add: filter_map comp_def route_facts_def)
  also have "\<dots> \<le> 1" by (rule one_route_current [OF routes_distinct])
  finally show ?thesis by (simp only: links_of_sidebar links_of_bottom_tabs)
qed

end
