(* ===== verification/Web_Topbar.thy ===== *)
theory Web_Topbar
  imports Web_Shell Js_Runtime
begin

text \<open>
  The controls of the shell: the context of the theme (\<open>useTheme\<close> in \<open>apps/web/src/lib/theme.tsx\<close>), the button of the
  mobile top bar (\<open>components/shell/app-shell.tsx\<close>), the switch of the gallery (\<open>app/gallery/page.tsx\<close>), the keyboard hint
  of the desktop top bar (\<open>components/shell/topbar.tsx\<close>) and the order of the focusable parts of the shell.
\<close>

section \<open>The theme controls\<close>

text \<open>The value of the context is that of the mounted provider; without one the hook throws.\<close>

definition use_theme :: "page \<Rightarrow> theme outcome" where
  "use_theme s =
     (case pg_theme s of
        None \<Rightarrow> Inl (new_error (js ''useTheme must be called within a ThemeProvider''))
      | Some t \<Rightarrow> Inr t)"

record theme_button =
  tb_label :: jsstr
  tb_icon :: jsstr

definition mobile_theme_button :: "theme \<Rightarrow> theme_button" where
  "mobile_theme_button t = \<lparr> tb_label = js ''Cambiar tema'', tb_icon = (if t = Dark then [9790] else [9728]) \<rparr>"

definition mobile_theme_click :: "bool \<Rightarrow> theme \<Rightarrow> page \<Rightarrow> page" where
  "mobile_theme_click writable t = set_theme writable (if t = Dark then Light else Dark)"

record theme_switch =
  ts_label :: jsstr
  ts_checked :: bool
  ts_text :: jsstr

definition gallery_theme_toggle :: "theme \<Rightarrow> theme_switch" where
  "gallery_theme_toggle t =
     (let is_light = (t = Light) in
      \<lparr> ts_label = js ''Tema claro'', ts_checked = is_light, ts_text = (if is_light then js ''claro'' else js ''oscuro'') \<rparr>)"

definition gallery_theme_change :: "bool \<Rightarrow> bool \<Rightarrow> page \<Rightarrow> page" where
  "gallery_theme_change writable checked = set_theme writable (if checked then Light else Dark)"

text \<open>A press of either control, on a page with a provider; the library's switch reports the value it was not at.\<close>

definition press_button :: "bool \<Rightarrow> page \<Rightarrow> page outcome" where
  "press_button writable s = map_sum id (\<lambda>t. mobile_theme_click writable t s) (use_theme s)"

definition press_switch :: "bool \<Rightarrow> page \<Rightarrow> page outcome" where
  "press_switch writable s =
     map_sum id (\<lambda>t. gallery_theme_change writable (\<not> ts_checked (gallery_theme_toggle t)) s) (use_theme s)"

section \<open>The keyboard hint\<close>

text \<open>\<open>/Mac|iPhone|iPad|iPod/i.test(userAgent)\<close>.\<close>

definition looks_like_mac :: "jsstr \<Rightarrow> bool" where
  "looks_like_mac user_agent =
     list_ex (\<lambda>w. str_includes (to_upper user_agent) (to_upper (js w))) [''Mac'', ''iPhone'', ''iPad'', ''iPod'']"

definition initial_keyboard_hint :: jsstr where
  "initial_keyboard_hint = [8984] @ js ''K''"

definition keyboard_hint_effect :: "jsstr \<Rightarrow> jsstr \<Rightarrow> jsstr" where
  "keyboard_hint_effect user_agent hint = (if \<not> looks_like_mac user_agent then js ''Ctrl K'' else hint)"

text \<open>The hint on the server, at hydration and after the effect.\<close>

datatype render_phase = Server | Hydration | After_effect

definition use_keyboard_hint :: "jsstr \<Rightarrow> render_phase \<Rightarrow> jsstr" where
  "use_keyboard_hint user_agent phase =
     (case phase of After_effect \<Rightarrow> keyboard_hint_effect user_agent initial_keyboard_hint | _ \<Rightarrow> initial_keyboard_hint)"

section \<open>The tree of the shell\<close>

definition compact_mobile_topbar :: "theme \<Rightarrow> node" where
  "compact_mobile_topbar t =
     Element (js ''header'')
       [(js ''data-view'', js ''mobile-only''),
        (js ''className'', js ''flex h-14 items-center justify-between gap-3 border-b border-border-subtle bg-surface px-4 mobile:hidden'')]
       [Element (js ''span'') [(js ''className'', js ''font-sans text-lg font-bold text-fg'')] [Text (js ''Posta'')],
        Element (js ''div'') [(js ''className'', js ''flex items-center gap-2'')]
          [Element (js ''button'')
             [(js ''type'', js ''button''), (js ''aria-label'', js ''Cambiar tema''),
              (js ''className'', js ''flex h-9 w-9 items-center justify-center rounded-full text-fg transition-colors hover:bg-surface-2 focus-visible:outline-none focus-visible:ring-2 focus-visible:ring-ring'')]
             [Text (if t = Dark then [9790] else [9728])],
           Element (js ''Button'') [(js ''variant'', js ''primary''), (js ''size'', js ''sm'')] [Text (js ''Nuevo link'')]]]"

definition topbar :: "jsstr \<Rightarrow> node" where
  "topbar keyboard_hint =
     Element (js ''header'') [(js ''className'', js ''flex h-16 items-center justify-between gap-4 border-b border-border-subtle bg-surface px-6'')]
       [Element (js ''button'')
          [(js ''type'', js ''button''),
           (js ''className'', js ''flex w-full max-w-xs items-center gap-2 rounded border border-border bg-bg px-3 py-2 font-sans text-sm text-muted transition-colors hover:border-primary focus-visible:outline-none focus-visible:ring-2 focus-visible:ring-ring'')]
          [Element (js ''Search'') [(js ''className'', js ''h-4 w-4''), (js ''aria-hidden'', js ''true'')] [],
           Element (js ''span'') [(js ''className'', js ''flex-1 text-left'')] [Text (js ''Buscar'')],
           Element (js ''kbd'') [(js ''className'', js ''rounded-badge border border-border px-1.5 py-0.5 font-mono text-xs text-muted'')]
             [Text keyboard_hint]],
        Element (js ''div'') [(js ''className'', js ''flex items-center gap-3'')]
          [Element (js ''Button'') [(js ''variant'', js ''primary''), (js ''size'', js ''sm'')] [Text (js ''Nuevo link'')],
           Element (js ''DropdownMenu'') []
             [Element (js ''DropdownMenuTrigger'') [(js ''asChild'', js ''true'')]
                [Element (js ''button'')
                   [(js ''type'', js ''button''), (js ''aria-label'', js ''Cuenta''),
                    (js ''className'', js ''flex h-9 w-9 items-center justify-center rounded-full bg-surface-2 text-fg transition-colors hover:bg-border focus-visible:outline-none focus-visible:ring-2 focus-visible:ring-ring'')]
                   [Element (js ''User'') [(js ''className'', js ''h-4 w-4''), (js ''aria-hidden'', js ''true'')] []]],
              Element (js ''DropdownMenuContent'') [(js ''align'', js ''end'')]
                [Element (js ''DropdownMenuItem'') [] [Text (js ''Ajustes'')],
                 Element (js ''DropdownMenuItem'') [] [Text (js ''Salir'')]]]]]"

definition app_shell :: "class_names \<Rightarrow> jsstr \<Rightarrow> jsstr \<Rightarrow> theme \<Rightarrow> node list \<Rightarrow> node" where
  "app_shell cn pathname keyboard_hint t children =
     Element (js ''div'') [(js ''className'', js ''grid min-h-screen grid-rows-[auto_1fr] bg-bg mobile:grid-cols-[220px_1fr]'')]
       [Element (js ''a'')
          [(js ''href'', js ''#main-content''),
           (js ''className'', js ''sr-only focus-visible:not-sr-only focus-visible:fixed focus-visible:left-4 focus-visible:top-4 focus-visible:z-50 focus-visible:rounded focus-visible:border-2 focus-visible:border-primary focus-visible:bg-surface focus-visible:px-4 focus-visible:py-2 focus-visible:font-sans focus-visible:font-semibold focus-visible:text-fg focus-visible:outline-none focus-visible:ring-2 focus-visible:ring-ring focus-visible:ring-offset-2'')]
          [Text (js ''Saltar al contenido'')],
        Element (js ''div'') [(js ''className'', js ''mobile:col-start-2 mobile:row-start-1'')]
          [Element (js ''div'') [(js ''className'', js ''hidden mobile:block'')] [topbar keyboard_hint],
           compact_mobile_topbar t],
        Element (js ''div'') [(js ''className'', js ''hidden mobile:col-start-1 mobile:row-start-1 mobile:row-span-2 mobile:flex'')]
          [sidebar cn pathname],
        Element (js ''main'')
          [(js ''id'', js ''main-content''), (js ''tabIndex'', js ''-1''),
           (js ''className'', js ''min-w-0 p-[var(--pad-page)] pb-16 mobile:col-start-2 mobile:row-start-2 mobile:pb-0 focus-visible:outline-none focus-visible:ring-2 focus-visible:ring-ring focus-visible:ring-inset'')]
          children,
        bottom_tabs cn pathname]"

text \<open>
  What the keyboard reaches with the tab key, in the order of the document, on a page narrower or wider than the breakpoint
  \<open>mobile\<close>: links and buttons, but nothing inside a closed menu or inside a part that the width hides.
\<close>

datatype width = Narrow | Wide

definition hidden_by :: "width \<Rightarrow> jsstr option \<Rightarrow> bool" where
  "hidden_by w classes =
     (case classes of
        None \<Rightarrow> False
      | Some c \<Rightarrow>
          let words = split_on 32 c in
          (case w of
             Narrow \<Rightarrow> js ''hidden'' \<in> set words
           | Wide \<Rightarrow> js ''mobile:hidden'' \<in> set words \<or>
               js ''hidden'' \<in> set words \<and> \<not> (js ''mobile:block'' \<in> set words \<or> js ''mobile:flex'' \<in> set words)))"

definition is_control :: "jsstr \<Rightarrow> bool" where
  "is_control tag \<longleftrightarrow> tag \<in> js ` {''a'', ''button'', ''Button'', ''Link''}"

fun tab_stops :: "width \<Rightarrow> node \<Rightarrow> node list" where
  "tab_stops w (Text s) = []"
| "tab_stops w (Element tag attributes children) =
     (if hidden_by w (map_of attributes (js ''className'')) \<or> tag = js ''DropdownMenuContent'' then []
      else (if is_control tag then [Element tag attributes children] else []) @ concat (map (tab_stops w) children))"

text \<open>The name of a control: its label, or its text.\<close>

definition control_name :: "node \<Rightarrow> jsstr" where
  "control_name n = (case attribute (js ''aria-label'') n of Some l \<Rightarrow> l | None \<Rightarrow> text_content n)"

section \<open>Properties\<close>

text \<open>C0: Both controls of the theme turn a mounted page to the other theme, visibly and for its next press, and throw on a page without a provider; pressing twice is not pressing.\<close>

theorem theme_controls_toggle:
  "(case pg_theme s of
      None \<Rightarrow> press_button writable s = Inl (new_error (js ''useTheme must be called within a ThemeProvider''))
    | Some t \<Rightarrow>
        (\<exists>s'. press_button writable s = Inr s' \<and> pg_theme s' = Some (if t = Dark then Light else Dark) \<and> pg_light s' = (t = Dark) \<and>
           (\<exists>s''. press_button writable s' = Inr s'' \<and> pg_theme s'' = Some t))) \<and>
   press_switch writable s = press_button writable s"
  by (cases "pg_theme s"; simp add: press_button_def press_switch_def use_theme_def; cases "the (pg_theme s)")
    (simp_all add: mobile_theme_click_def gallery_theme_change_def gallery_theme_toggle_def theme_defs)

lemma to_upper_append: "to_upper (a @ b) = to_upper a @ to_upper b"
  by (simp add: to_upper_def)

lemma str_includes_infix: "str_includes s w \<longleftrightarrow> (\<exists>a b. s = a @ w @ b)"
proof (induction s)
  case Nil
  then show ?case by (simp add: starts_with_iff)
next
  case (Cons c s)
  then show ?case by (simp add: starts_with_iff) (metis append_Cons append_Nil list.inject neq_Nil_conv)
qed

text \<open>C0: The first render shows the hint of the server on every machine, so that hydration finds what it expects; after the effect the hint is the one of the machine.\<close>

theorem keyboard_hint_hydrates:
  "use_keyboard_hint user_agent Hydration = use_keyboard_hint other_user_agent Server \<and>
   use_keyboard_hint (a @ js ''Macintosh'' @ b) After_effect = [8984] @ js ''K'' \<and>
   (use_keyboard_hint user_agent After_effect = js ''Ctrl K'' \<longleftrightarrow> \<not> looks_like_mac user_agent)"
proof -
  have "js ''Macintosh'' = js ''Mac'' @ js ''intosh''" by (simp add: js_def)
  then have "to_upper (a @ js ''Macintosh'' @ b) = to_upper a @ to_upper (js ''Mac'') @ to_upper (js ''intosh'' @ b)"
    by (simp add: to_upper_append)
  then have "looks_like_mac (a @ js ''Macintosh'' @ b)" unfolding looks_like_mac_def by (auto simp: str_includes_infix)
  then show ?thesis
    by (auto simp: use_keyboard_hint_def keyboard_hint_effect_def initial_keyboard_hint_def js_def)
qed

text \<open>The words of class values; \<open>cn\<close> merges them: it may drop words, but makes up none.\<close>

fun class_words :: "class_value \<Rightarrow> jsstr set" where
  "class_words (Classes c) = set (split_on 32 c)"
| "class_words No_classes = {}"
| "class_words (Class_list cs) = (\<Union>c \<in> set cs. class_words c)"

definition merges_classes :: "class_names \<Rightarrow> bool" where
  "merges_classes cn \<longleftrightarrow> (\<forall>cs. set (split_on 32 (cn cs)) \<subseteq> insert [] (\<Union>c \<in> set cs. class_words c))"

lemma merged_link_shown:
  assumes "merges_classes cn"
  shows "\<not> hidden_by w (Some (cn [Classes (js ''flex items-center gap-3 rounded border-l-2 border-l-transparent px-3 py-2 font-sans text-sm text-muted transition-colors hover:bg-surface-2 hover:text-fg focus-visible:outline-none focus-visible:ring-2 focus-visible:ring-ring''),
               when_active active (js ''border-l-primary bg-[color-mix(in_srgb,_var(--primary)_12%,_transparent)] text-fg'')]))"
    (is "\<not> hidden_by w (Some (cn ?cs))")
proof -
  let ?words = "set (split_on 32 (js ''flex items-center gap-3 rounded border-l-2 border-l-transparent px-3 py-2 font-sans text-sm text-muted transition-colors hover:bg-surface-2 hover:text-fg focus-visible:outline-none focus-visible:ring-2 focus-visible:ring-ring'')) \<union>
      set (split_on 32 (js ''border-l-primary bg-[color-mix(in_srgb,_var(--primary)_12%,_transparent)] text-fg''))"
  have "set (split_on 32 (cn ?cs)) \<subseteq> insert [] (\<Union>c \<in> set ?cs. class_words c)" using assms unfolding merges_classes_def by blast
  also have "\<dots> \<subseteq> insert [] ?words" by (cases active) (auto simp: when_active_def)
  finally have words: "set (split_on 32 (cn ?cs)) \<subseteq> insert [] ?words" .
  have "js ''hidden'' \<notin> insert [] ?words" and "js ''mobile:hidden'' \<notin> insert [] ?words" by (simp_all add: js_def)
  with words show ?thesis by (cases w) (auto simp: hidden_by_def Let_def)
qed

lemma class_facts [simp]:
  "hidden_by Narrow (Some (js ''flex h-14 items-center justify-between gap-3 border-b border-border-subtle bg-surface px-4 mobile:hidden'')) = False"
  "hidden_by Wide (Some (js ''flex h-14 items-center justify-between gap-3 border-b border-border-subtle bg-surface px-4 mobile:hidden'')) = True"
  "hidden_by Narrow (Some (js ''flex items-center gap-2'')) = False"
  "hidden_by Wide (Some (js ''flex items-center gap-2'')) = False"
  "hidden_by Narrow (Some (js ''flex h-9 w-9 items-center justify-center rounded-full text-fg transition-colors hover:bg-surface-2 focus-visible:outline-none focus-visible:ring-2 focus-visible:ring-ring'')) = False"
  "hidden_by Wide (Some (js ''flex h-9 w-9 items-center justify-center rounded-full text-fg transition-colors hover:bg-surface-2 focus-visible:outline-none focus-visible:ring-2 focus-visible:ring-ring'')) = False"
  "hidden_by Narrow (Some (js ''flex h-16 items-center justify-between gap-4 border-b border-border-subtle bg-surface px-6'')) = False"
  "hidden_by Wide (Some (js ''flex h-16 items-center justify-between gap-4 border-b border-border-subtle bg-surface px-6'')) = False"
  "hidden_by Narrow (Some (js ''flex w-full max-w-xs items-center gap-2 rounded border border-border bg-bg px-3 py-2 font-sans text-sm text-muted transition-colors hover:border-primary focus-visible:outline-none focus-visible:ring-2 focus-visible:ring-ring'')) = False"
  "hidden_by Wide (Some (js ''flex w-full max-w-xs items-center gap-2 rounded border border-border bg-bg px-3 py-2 font-sans text-sm text-muted transition-colors hover:border-primary focus-visible:outline-none focus-visible:ring-2 focus-visible:ring-ring'')) = False"
  "hidden_by Narrow (Some (js ''flex items-center gap-3'')) = False"
  "hidden_by Wide (Some (js ''flex items-center gap-3'')) = False"
  "hidden_by Narrow (Some (js ''flex h-9 w-9 items-center justify-center rounded-full bg-surface-2 text-fg transition-colors hover:bg-border focus-visible:outline-none focus-visible:ring-2 focus-visible:ring-ring'')) = False"
  "hidden_by Wide (Some (js ''flex h-9 w-9 items-center justify-center rounded-full bg-surface-2 text-fg transition-colors hover:bg-border focus-visible:outline-none focus-visible:ring-2 focus-visible:ring-ring'')) = False"
  "hidden_by Narrow (Some (js ''grid min-h-screen grid-rows-[auto_1fr] bg-bg mobile:grid-cols-[220px_1fr]'')) = False"
  "hidden_by Wide (Some (js ''grid min-h-screen grid-rows-[auto_1fr] bg-bg mobile:grid-cols-[220px_1fr]'')) = False"
  "hidden_by Narrow (Some (js ''sr-only focus-visible:not-sr-only focus-visible:fixed focus-visible:left-4 focus-visible:top-4 focus-visible:z-50 focus-visible:rounded focus-visible:border-2 focus-visible:border-primary focus-visible:bg-surface focus-visible:px-4 focus-visible:py-2 focus-visible:font-sans focus-visible:font-semibold focus-visible:text-fg focus-visible:outline-none focus-visible:ring-2 focus-visible:ring-ring focus-visible:ring-offset-2'')) = False"
  "hidden_by Wide (Some (js ''sr-only focus-visible:not-sr-only focus-visible:fixed focus-visible:left-4 focus-visible:top-4 focus-visible:z-50 focus-visible:rounded focus-visible:border-2 focus-visible:border-primary focus-visible:bg-surface focus-visible:px-4 focus-visible:py-2 focus-visible:font-sans focus-visible:font-semibold focus-visible:text-fg focus-visible:outline-none focus-visible:ring-2 focus-visible:ring-ring focus-visible:ring-offset-2'')) = False"
  "hidden_by Narrow (Some (js ''mobile:col-start-2 mobile:row-start-1'')) = False"
  "hidden_by Wide (Some (js ''mobile:col-start-2 mobile:row-start-1'')) = False"
  "hidden_by Narrow (Some (js ''hidden mobile:block'')) = True"
  "hidden_by Wide (Some (js ''hidden mobile:block'')) = False"
  "hidden_by Narrow (Some (js ''hidden mobile:col-start-1 mobile:row-start-1 mobile:row-span-2 mobile:flex'')) = True"
  "hidden_by Wide (Some (js ''hidden mobile:col-start-1 mobile:row-start-1 mobile:row-span-2 mobile:flex'')) = False"
  "hidden_by Narrow (Some (js ''min-w-0 p-[var(--pad-page)] pb-16 mobile:col-start-2 mobile:row-start-2 mobile:pb-0 focus-visible:outline-none focus-visible:ring-2 focus-visible:ring-ring focus-visible:ring-inset'')) = False"
  "hidden_by Wide (Some (js ''min-w-0 p-[var(--pad-page)] pb-16 mobile:col-start-2 mobile:row-start-2 mobile:pb-0 focus-visible:outline-none focus-visible:ring-2 focus-visible:ring-ring focus-visible:ring-inset'')) = False"
  "hidden_by Narrow (Some (js ''flex w-[220px] shrink-0 flex-col border-r border-border-subtle bg-surface'')) = False"
  "hidden_by Wide (Some (js ''flex w-[220px] shrink-0 flex-col border-r border-border-subtle bg-surface'')) = False"
  "hidden_by Narrow (Some (js ''flex flex-col gap-1 p-3'')) = False"
  "hidden_by Wide (Some (js ''flex flex-col gap-1 p-3'')) = False"
  "hidden_by Narrow (Some (js ''flex min-h-[44px] min-w-[44px] flex-1 flex-col items-center justify-center gap-1 py-2 font-sans text-xs text-muted focus-visible:outline-none focus-visible:ring-2 focus-visible:ring-ring focus-visible:ring-inset'')) = False"
  "hidden_by Wide (Some (js ''flex min-h-[44px] min-w-[44px] flex-1 flex-col items-center justify-center gap-1 py-2 font-sans text-xs text-muted focus-visible:outline-none focus-visible:ring-2 focus-visible:ring-ring focus-visible:ring-inset'')) = False"
  "hidden_by Narrow (Some (js ''fixed inset-x-0 bottom-0 z-40 flex border-t border-border-subtle bg-surface pb-[env(safe-area-inset-bottom)] mobile:hidden'')) = False"
  "hidden_by Wide (Some (js ''fixed inset-x-0 bottom-0 z-40 flex border-t border-border-subtle bg-surface pb-[env(safe-area-inset-bottom)] mobile:hidden'')) = True"
  by (simp_all add: hidden_by_def js_def Let_def)

lemma tab_stops_plain: "\<not> is_control tag \<Longrightarrow> concat (map (tab_stops w) children) = [] \<Longrightarrow> tab_stops w (Element tag attributes children) = []"
  by simp

definition stop_names :: "width \<Rightarrow> node list \<Rightarrow> jsstr list" where
  "stop_names w ns = map control_name (concat (map (tab_stops w) ns))"

lemma stop_names_simps [simp]:
  "stop_names w [] = []" "stop_names w (Text s # ns) = stop_names w ns"
  "stop_names w (Element tag attributes children # ns) =
     (if hidden_by w (map_of attributes (js ''className'')) \<or> tag = js ''DropdownMenuContent'' then []
      else (if is_control tag then [control_name (Element tag attributes children)] else []) @ stop_names w children) @ stop_names w ns"
  by (simp_all add: stop_names_def)

lemma stop_names_append: "stop_names w (ms @ ns) = stop_names w ms @ stop_names w ns"
  by (simp add: stop_names_def)

lemma control_tags [simp]:
  "is_control (js ''a'')" "is_control (js ''button'')" "is_control (js ''Button'')" "is_control (js ''Link'')"
  "\<not> is_control (js ''div'')" "\<not> is_control (js ''header'')" "\<not> is_control (js ''span'')" "\<not> is_control (js ''nav'')"
  "\<not> is_control (js ''ul'')" "\<not> is_control (js ''li'')" "\<not> is_control (js ''main'')" "\<not> is_control (js ''kbd'')"
  "\<not> is_control (js ''Search'')" "\<not> is_control (js ''User'')" "\<not> is_control (js ''DropdownMenu'')"
  "\<not> is_control (js ''DropdownMenuTrigger'')"
  by (simp_all add: is_control_def)

lemma route_icons: "r \<in> set ROUTES \<Longrightarrow> \<not> is_control (rt_icon r) \<and> rt_icon r \<noteq> js ''DropdownMenuContent''"
  by (auto simp: ROUTES_def is_control_def)

lemma not_menu [simp]:
  "js ''a'' \<noteq> js ''DropdownMenuContent''" "js ''button'' \<noteq> js ''DropdownMenuContent''" "js ''Button'' \<noteq> js ''DropdownMenuContent''"
  "js ''Link'' \<noteq> js ''DropdownMenuContent''" "js ''div'' \<noteq> js ''DropdownMenuContent''" "js ''header'' \<noteq> js ''DropdownMenuContent''"
  "js ''span'' \<noteq> js ''DropdownMenuContent''" "js ''nav'' \<noteq> js ''DropdownMenuContent''" "js ''ul'' \<noteq> js ''DropdownMenuContent''"
  "js ''li'' \<noteq> js ''DropdownMenuContent''" "js ''main'' \<noteq> js ''DropdownMenuContent''" "js ''kbd'' \<noteq> js ''DropdownMenuContent''"
  "js ''Search'' \<noteq> js ''DropdownMenuContent''" "js ''User'' \<noteq> js ''DropdownMenuContent''" "js ''DropdownMenu'' \<noteq> js ''DropdownMenuContent''"
  "js ''DropdownMenuTrigger'' \<noteq> js ''DropdownMenuContent''"
  by simp_all

lemma attribute_lookups [simp]:
  "js ''className'' \<noteq> js ''href''" "js ''className'' \<noteq> js ''type''" "js ''className'' \<noteq> js ''aria-label''"
  "js ''className'' \<noteq> js ''data-view''" "js ''className'' \<noteq> js ''id''" "js ''className'' \<noteq> js ''tabIndex''"
  "js ''className'' \<noteq> js ''variant''" "js ''className'' \<noteq> js ''size''" "js ''className'' \<noteq> js ''asChild''"
  "js ''className'' \<noteq> js ''align''" "js ''className'' \<noteq> js ''key''" "js ''className'' \<noteq> js ''aria-current''"
  "js ''aria-label'' \<noteq> js ''href''" "js ''aria-label'' \<noteq> js ''type''" "js ''aria-label'' \<noteq> js ''className''"
  "js ''aria-label'' \<noteq> js ''variant''" "js ''aria-label'' \<noteq> js ''size''" "js ''aria-label'' \<noteq> js ''key''"
  "js ''aria-label'' \<noteq> js ''aria-current''"
  by simp_all

lemma no_class_shown [simp]: "\<not> hidden_by w None"
  by (simp add: hidden_by_def)

lemma stops_of_topbar:
  "stop_names w [topbar hint] = [js ''Buscar'' @ hint, js ''Nuevo link'', js ''Cuenta'']"
  by (cases w) (simp_all add: topbar_def control_name_def del: js_inject)

lemma stops_of_compact_topbar:
  "stop_names w [compact_mobile_topbar t] = (case w of Narrow \<Rightarrow> [js ''Cambiar tema'', js ''Nuevo link''] | Wide \<Rightarrow> [])"
  by (cases w) (simp_all add: compact_mobile_topbar_def control_name_def del: js_inject)

lemma stops_of_items:
  assumes "\<And>r. r \<in> set rs \<Longrightarrow> stop_names w [item r] = [rt_label r]"
  shows "stop_names w (map item rs) = map rt_label rs"
  using assms
proof (induction rs)
  case (Cons r rs)
  have "stop_names w (map item (r # rs)) = stop_names w [item r] @ stop_names w (map item rs)"
    using stop_names_append [of w "[item r]" "map item rs"] by simp
  then show ?case using Cons by simp
qed (simp add: stop_names_def)

lemma stops_of_sidebar:
  assumes "merges_classes cn"
  shows "stop_names w [sidebar cn pathname] = map rt_label ROUTES"
proof -
  have "stop_names w [sidebar_item cn pathname r] = [rt_label r]" if "r \<in> set ROUTES" for r
    using route_icons [OF that] merged_link_shown [OF assms]
    by (simp add: sidebar_item_def Let_def control_name_def aria_current_def del: js_inject)
  from stops_of_items [OF this] have "stop_names w (map (sidebar_item cn pathname) ROUTES) = map rt_label ROUTES" .
  then show ?thesis by (cases w) (simp_all add: sidebar_def del: js_inject)
qed

lemma stops_of_bottom_tabs:
  "stop_names w [bottom_tabs cn pathname] = (case w of Narrow \<Rightarrow> map rt_label ROUTES | Wide \<Rightarrow> [])"
proof -
  have "stop_names Narrow [bottom_tab cn pathname r] = [rt_label r]" if "r \<in> set ROUTES" for r
    using route_icons [OF that]
    by (simp add: bottom_tab_def Let_def control_name_def aria_current_def del: js_inject)
  from stops_of_items [OF this] have "stop_names Narrow (map (bottom_tab cn pathname) ROUTES) = map rt_label ROUTES" .
  then show ?thesis by (cases w) (simp_all add: bottom_tabs_def del: js_inject)
qed

text \<open>C0: The tab key reaches, on wide pages, the skip link, the top bar, the navigation and then the content of the page, and on narrow ones the skip link, the small top bar, the content and then the navigation: never the bar or the navigation of the other width, no control twice, and nothing of the content before the skip link to it.\<close>

theorem shell_tab_order:
  assumes "merges_classes cn"
  shows "stop_names Wide [app_shell cn pathname hint t children] =
      [js ''Saltar al contenido'', js ''Buscar'' @ hint, js ''Nuevo link'', js ''Cuenta''] @ map rt_label ROUTES @ stop_names Wide children \<and>
    stop_names Narrow [app_shell cn pathname hint t children] =
      [js ''Saltar al contenido'', js ''Cambiar tema'', js ''Nuevo link''] @ stop_names Narrow children @ map rt_label ROUTES"
proof -
  have split: "stop_names w (n # m # ns) = stop_names w [n] @ stop_names w (m # ns)" for w n m ns
    using stop_names_append [of w "[n]" "m # ns"] by simp
  have "stop_names w [app_shell cn pathname hint t children] =
      js ''Saltar al contenido'' # (case w of Narrow \<Rightarrow> [] | Wide \<Rightarrow> stop_names w [topbar hint]) @
      stop_names w [compact_mobile_topbar t] @ (case w of Narrow \<Rightarrow> [] | Wide \<Rightarrow> stop_names w [sidebar cn pathname]) @
      stop_names w children @ stop_names w [bottom_tabs cn pathname]" for w
    by (cases w) (simp_all add: app_shell_def control_name_def split [of _ _ "compact_mobile_topbar t"] split [of _ _ "bottom_tabs cn pathname"]
        del: js_inject)
  then show ?thesis by (simp add: stops_of_topbar stops_of_compact_topbar stops_of_sidebar [OF assms] stops_of_bottom_tabs)
qed

definition first_classes :: class_names where
  "first_classes cs = (case cs of Classes c # _ \<Rightarrow> c | _ \<Rightarrow> [])"

theorem shell_tab_order_witness:
  "stop_names Wide [app_shell first_classes (js ''/bio'') (js ''K'') Dark [Element (js ''a'') [] [Text (js ''x'')]]] =
     [js ''Saltar al contenido'', js ''BuscarK'', js ''Nuevo link'', js ''Cuenta''] @ map rt_label ROUTES @ [js ''x'']"
proof -
  have "merges_classes first_classes"
    unfolding merges_classes_def first_classes_def by (auto split: list.splits class_value.splits)
  from shell_tab_order [OF this, of "js ''/bio''" "js ''K''" Dark "[Element (js ''a'') [] [Text (js ''x'')]]"]
  show ?thesis by (simp add: control_name_def js_append [symmetric] del: js_inject)
qed

end
