(* ===== verification/Click_Flow.thy ===== *)
theory Click_Flow
  imports Api_Capture Worker_System
begin

text \<open>
  From the click to the row: the payload that the middleware builds and puts on the queue is the data of the job that
  the worker takes off it. The theories \<open>Api_Capture\<close> and \<open>Worker_System\<close> are put together here.
\<close>

lemma built_payload_fields:
  assumes "build_capture_payload env i s = (Inr e, s')"
  shows "ev_tenant_id e = ci_tenant_id i" "ev_link_id e = ci_link_id i" "ev_slug e = ci_slug i"
    "ev_visitor_hash e = ci_visitor_hash i" "ev_country e = ci_country i" "ev_asn e = ci_asn i"
    "ev_referer e = hs_referer (ci_signals i)" "ev_user_agent e = hs_user_agent (ci_signals i)"
    "\<exists>t. ev_occurred_at e = iso_string t"
  using assms
  by (auto simp: build_capture_payload_def io_bind_app Let_def split: sum.splits)

text \<open>A job whose data is a valid event and whose flush resolves is completed at the first attempt.\<close>

lemma resolved_job_completes:
  assumes "event_job_schema datetime payload = Some e" and "flush_one p (ev_event_id e) e w = (Inr (), w')"
  shows "run_job (system_deps p datetime z) payload job_id (w, n) = (Job_completed 1, (w', n))"
proof -
  let ?deps = "system_deps p datetime z"
  have "process_job ?deps \<lparr> jb_id = job_id, jb_data = payload, jb_attempts_made = 0, jb_attempts = Some 5 \<rparr> (w, n) =
      (Inr (), (w', n))"
    using assms
    by (simp add: process_job_def handle_event_def change_in_flight_def io_catch_app lift_world_def)
  then show ?thesis by (simp add: run_job_def EVENTS_JOB_OPTIONS_def run_attempts.simps)
qed

definition expected_row :: "world_params \<Rightarrow> capture_event \<Rightarrow> jsstr option \<Rightarrow> new_event" where
  "expected_row p e destination = to_new_event_row (wp_date p) (to_logged_event (wp_enrich p) e destination)"

lemma expected_row_fields:
  "ne_event_id (expected_row p e d) = ev_event_id e"
  "ne_occurred_at (expected_row p e d) = wp_date p (ev_occurred_at e)"
  "ne_tenant_id (expected_row p e d) = ev_tenant_id e"
  "ne_link_id (expected_row p e d) = ev_link_id e"
  "ne_slug (expected_row p e d) = ev_slug e"
  "ne_visitor_hash (expected_row p e d) = sanitize_for_postgres_text (ev_visitor_hash e)"
  "ne_dest_host (expected_row p e (Some x)) = (if x = [] then None else dest_host (url_hostname (wp_enrich p)) x)"
  "ne_source_platform (expected_row p e d) = resolve_source_platform (url_hostname (wp_enrich p)) (ev_referer e) (ev_user_agent e)"
  by (simp_all add: expected_row_def to_new_event_row_def to_logged_event_def enrich_def Let_def capture_event.defs logged_event.defs)

lemma batch_rows_single:
  assumes "distinct (map lk_id links)" and "find (\<lambda>l. lk_id l = ev_link_id e) links = Some l"
    and "lk_tenant_id l = ev_tenant_id e"
  shows "batch_rows (world_deps p) links [e] = [expected_row p e (Some (lk_destination l))]"
  using assms
  by (simp add: batch_rows_def logged_batch_def resolve_batch_def resolve_destination_def resolve_destinations_get
      expected_row_def world_deps_def)


definition clicked_link :: link_row where
  "clicked_link = \<lparr> lk_id = [50], lk_tenant_id = [49], lk_slug = js ''promo'', lk_destination = js ''https://x.test/'',
     lk_title = None, lk_created_at = 0, lk_updated_at = 0, lk_archived_at = None \<rparr>"

definition click_world :: world where
  "click_world = empty_world\<lparr>w_links := [clicked_link]\<rparr>"


end
