(* ===== verification/Spec2Isabelle.thy ===== *)
theory Spec2Isabelle
  imports Contracts_Domain Contracts_Forms Worker_System Worker_Accumulator Worker_Shutdown Worker_Health Worker_ReplayReport
    Core_Redis Core_Clients Apps_Boot Core_MigrateRuns Core_Geoip Core_MigrateStatus Api_System Scripts_Commands
    Scripts_SeedSchema Worker_Partitions Web_Recibos Web_Topbar Click_Flow
begin

text \<open>
  Posta, a link shortener with an event pipeline. A visitor asks \<open>https://<handle>.<domain>/<slug>\<close> of the API (\<open>apps/api\<close>),
  which finds the tenant of the handle and the link of the slug, answers with a redirect or a 404 page, and puts a capture
  event on a Redis queue. The worker (\<open>apps/worker\<close>) takes the events off the queue, collects them into batches, writes
  every batch to an object of the R2 event log and then to the Postgres table \<open>events\<close>; what cannot be stored goes to a
  dead-letter queue. A command rebuilds the table from the log. \<open>packages/contracts\<close> holds what the two programs agree
  on, \<open>packages/core\<close> what they share.

  \<^bold>\<open>Layers.\<close> The theories \<open>Js_*\<close> model the part of JavaScript and its library that the code uses: strings as lists of
  UTF-16 code units (\<open>Js_Strings\<close>), anchored regular expressions by derivatives (\<open>Js_Regex\<close>), thrown values, outcomes and
  the insertion-ordered \<open>Map\<close> (\<open>Js_Runtime\<close>), asynchronous operations as functions from a world to an outcome and a new
  world (\<open>Js_Async\<close>), JSON (\<open>Js_Json\<close>), UTC dates (\<open>Js_Date\<close>), code points and URI components (\<open>Js_Unicode\<close>), numbers
  read from text (\<open>Js_Number\<close>), arithmetic on doubles and the text of a number (\<open>Js_Float\<close>). \<open>Contracts_*\<close>, \<open>Core_*\<close>,
  \<open>Worker_*\<close>, \<open>Api_*\<close> and \<open>Web_*\<close> model the packages, \<open>Apps_*\<close> the environments and the start of the programs,
  \<open>Scripts_*\<close> the scripts of \<open>packages/core\<close>, \<open>Click_Flow\<close> the way of a click from the API to its row. A name of the code
  is kept, in snake case; a throw, a rejection and an early return are branches of the model. Services (Redis,
  Postgres, R2, the queues), clocks, random bytes, hashes, parsers of URLs and user agents are parameters: fields of
  a record of operations over an arbitrary world \<open>'s\<close>. Statements about the whole system instantiate the record with a
  world in which every call can succeed, fail, or take effect and lose its reply.

  \<^bold>\<open>Contracts.\<close> \<open>Contracts_Domain\<close> models \<open>domain.ts\<close>, \<open>Contracts_Links\<close> the name rules of \<open>links.ts\<close>, \<open>bio.ts\<close> and
  \<open>reserved.ts\<close>, \<open>Contracts_Forms\<close> the create and update forms of links and bio pages, \<open>Contracts_Capture\<close> the event
  schema of \<open>capture.ts\<close>, \<open>Contracts_Redact\<close> models \<open>redact.ts\<close> (object graphs as a heap, so that cycles and sharing are
  kept), \<open>Contracts_Env\<close> the configuration schemas of \<open>env.ts\<close>. The vocabulary of \<open>classification.ts\<close> is in the theories
  of the components that show it.

  \<^bold>\<open>Core.\<close> \<open>Core_Enrichment\<close> models \<open>enrichment\<close>, \<open>Core_Ndjson\<close> the log objects of \<open>r2/ndjson.ts\<close> with the round trip of a
  batch, \<open>Core_Keys\<close> the names of the objects (\<open>r2/keys.ts\<close>) and the endpoint of \<open>r2/client.ts\<close>, \<open>Core_Db\<close> the tables, the
  tenant scope, the insertion of events and the partitions (\<open>schema\<close>, \<open>db\<close>), \<open>Core_Schema\<close> the constraints of all tables, those of
  the login included, as conditions of the statements, \<open>Core_Redis\<close> the keys, the invalidation and
  the daily salt (\<open>redis\<close>), \<open>Core_Geoip\<close> the network lookup (\<open>geoip\<close>), \<open>Core_Migrate\<close> and \<open>Core_MigrateRuns\<close> the runner
  of SQL migrations and what its runs leave behind, whatever call fails (\<open>db/sql-migrate.ts\<close>, \<open>db/migrate.ts\<close>,
  \<open>db/migrate-down.ts\<close>), \<open>Core_MigrateStatus\<close> the report on them (\<open>db/migrate-status.ts\<close>), \<open>Core_Clients\<close> the options and
  the life of the Postgres pool and the Redis client (\<open>db/client.ts\<close>, \<open>redis/client.ts\<close>).

  \<^bold>\<open>Programs and scripts.\<close> \<open>Apps_Env\<close> models the environment schemas of the API, the worker, the web application and the
  replay command, \<open>Apps_Boot\<close> how the programs start from them and what they close (\<open>main.ts\<close>, the factories of
  \<open>app.module.ts\<close>, \<open>cli/replay.ts\<close>). \<open>Scripts_Asn\<close> models the vendoring of the list of data-centre networks and its upsert
  (\<open>vendor-asn.ts\<close>, \<open>seed-asn.ts\<close>), \<open>Scripts_Seed\<close> the seed of an account (\<open>seed.ts\<close>) over tables whose inserts can fail,
  \<open>Scripts_SeedSchema\<close> the same seed against the constraints, \<open>Scripts_Commands\<close> the scripts as processes with exit codes
  and printed lines; what their ways to run and close have in common is the locale \<open>closing_run\<close>. \<open>Js_JsonIndent\<close> prints
  and reads indented JSON, the format of the vendored list.

  \<^bold>\<open>Worker.\<close> \<open>Worker_Accumulator\<close> is the batch accumulator as a step relation over the callbacks of the event loop;
  its invariant gives that every \<open>add\<close> is settled once and that batches are bounded. \<open>Worker_R2Retry\<close> is the retry of a
  PUT, \<open>Worker_SplitRetry\<close> the classification of a flush failure and the bisection of a batch, a
  \<open>partial_function\<close> shown to return on every batch; its locales \<open>flush_invariant\<close> and \<open>durable_flush\<close> say what a flush
  must keep for the bisection to keep it. \<open>Worker_Flush\<close> is the flush itself, with the locales \<open>put_services\<close> and
  \<open>flush_services\<close> for the laws of its services. \<open>Worker_Pipeline\<close> instantiates them with R2, the table and the
  dead-letter queue and interprets the locales. \<open>Worker_Dlq\<close> is the dead-letter service, \<open>Worker_Consumer\<close> the consumer
  of the queue with its locale \<open>consumer_store\<close>, interpreted in \<open>Worker_System\<close> on the worker as a whole.
  \<open>Worker_Shutdown\<close> is the drain on a signal, \<open>Worker_Health\<close> the health endpoint and the partition job,
  \<open>Worker_Partitions\<close> that job on a table with monthly partitions and a default one,
  \<open>Worker_Replay\<close> and \<open>Worker_ReplayReport\<close> the replay command.

  \<^bold>\<open>API.\<close> \<open>Api_Pages\<close> models \<open>host.ts\<close>, \<open>escape-html.ts\<close>, \<open>not-found.ts\<close> and \<open>redirect-response.ts\<close>, \<open>Api_Capture\<close>
  models \<open>capture.ts\<close>, \<open>enqueue.ts\<close> and \<open>ulid.ts\<close>, \<open>Api_Resolve\<close> the two resolvers with their caches, \<open>Api_Redirect\<close> the
  middleware. \<open>Api_Caches\<close> runs several API processes, each with its memo, against one Redis and one Postgres whose
  tables change over time; \<open>Api_System\<close> puts the middleware on top of that world. The bounded memo that the
  resolver and the salt share is the locale \<open>bounded_memo\<close>, interpreted in \<open>Core_Redis\<close>.

  \<^bold>\<open>Web.\<close> A component is a function from its props to a tree of elements. \<open>Web_HumanoBar\<close> models \<open>humano-bar.tsx\<close>, whose
  widths are computed in doubles, and \<open>badge-humano.tsx\<close>; \<open>Web_Recibos\<close> models \<open>recibos.tsx\<close> and \<open>source-chip.tsx\<close>;
  \<open>Web_Shell\<close> the theme of a page as a step relation (\<open>lib/theme.tsx\<close>, \<open>lib/theme-script.ts\<close>) and the two navigations;
  \<open>Web_Topbar\<close> the two top bars, the shell around them with its order of focus, and the controls of the theme.

  \<^bold>\<open>What is shown.\<close> For the worker: whatever service calls fail, a flush returns, keeps what was stored, and when it
  resolves every event is a row or a dead-letter entry; rows are logged to R2 first; no event gets two rows; a completed
  job is safe; a replay of the log of a batch gives the rows that the flush inserted; when nothing fails the click of a
  visitor becomes exactly its row. For the API: the middleware answers
  every request exactly once; a redirect goes to the encoded destination of a link that Postgres had for the
  requested handle and slug a bounded time ago, and only to http(s) addresses; the \<open>Location\<close> header and the 404 page
  cannot be broken by their input. For the contracts: schemas accept what the program builds, printed values are
  read back, redaction leaves nothing that it must not leave, the report on a refused environment prints none of its
  values. For the web application: the widths of the bar add up, the shown reason of a receipt is clean, a page shows
  its theme; and every platform that the worker stores is shown as direct traffic, since the two sides spell the names
  differently. A seed that was interrupted is never completed; one that was not satisfies every constraint of the schema and
  its account is served. The schema keeps its promises under any statements and makes the lookups of the hot path exact. The
  maintenance of the partitions keeps the months it has made out of the default partition, but an event that is already
  there stops it before it can report that.

  \<^bold>\<open>Bounds and fuel.\<close> The JSON parser recurses on fuel; twice the length of the text is shown to be enough and is what
  \<open>json_parse\<close> gives it. Listing a prefix of R2 has no bound in the code, the service decides; it has fuel, and
  running out of it is \<open>None\<close>. The drain of the shutdown is given the number of its rounds before the timer fires.
  Every other loop is a recursion that Isabelle accepts as total, or is shown to return. Integers of the code are
  doubles that hold whole numbers; they are \<open>int\<close> or \<open>nat\<close>, and \<open>Js_Number\<close> rounds where text becomes a number.

  \<^bold>\<open>Not modelled.\<close> The styled primitives, previews and fixtures of \<open>apps/web\<close> are markup around library components. The
  Nest modules and decorators, the construction of clients (BullMQ, S3, ioredis, drizzle), the Prometheus counters and the
  handling of signals are calls of libraries. The SQL of the migrations, with its roles, indexes and functions, is not
  TypeScript; of the function that creates a partition its documented effect is modelled. Updates of the tables are modelled
  for their tenant scope only, since no program of the repository issues one. Test helpers and configuration files of the
  tools are left out. Zod is modelled as far as its documentation says what a schema accepts and returns; its messages
  are not. React is modelled as far as a component is a function of its props and an effect runs after a commit that
  changed its dependencies.
\<close>

end
